(* ===== verification/Prelude.thy ===== *)
theory Prelude
  imports Main "HOL-Library.While_Combinator" "HOL-Library.Char_ord" "HOL-Library.List_Lexorder"
begin

text \<open>
  What every component of the development shares: the collections of facts the component
  proofs hand to the simplifier, the result type of a Go call that may fail, and generic
  lemmas on lists.
\<close>

section \<open>Collections\<close>

named_theorems go_lib \<open>characteristic equations of the modelled parts of Go's standard library\<close>
named_theorems db_simps \<open>what each statement of the repository does to each table\<close>

section \<open>Results\<close>

text \<open>
  A Go function returning \<open>(T, error)\<close> is a function into \<open>error + T\<close>: \<open>Inl\<close> is the
  early return with a non-nil error.
\<close>

fun bind_res :: "'e + 'a \<Rightarrow> ('a \<Rightarrow> 'e + 'b) \<Rightarrow> 'e + 'b" where
  "bind_res (Inl e) f = Inl e"
| "bind_res (Inr x) f = f x"

lemma bind_res_Inr_iff: "bind_res r f = Inr y \<longleftrightarrow> (\<exists>x. r = Inr x \<and> f x = Inr y)"
  by (cases r) auto

lemma bind_res_Inl_iff: "bind_res r f = Inl e \<longleftrightarrow> r = Inl e \<or> (\<exists>x. r = Inr x \<and> f x = Inl e)"
  by (cases r) auto

section \<open>Lists\<close>

text \<open>Updating the rows of a table that satisfy a condition: SQL's \<open>UPDATE ... WHERE\<close>.\<close>

definition update_where :: "('a \<Rightarrow> bool) \<Rightarrow> ('a \<Rightarrow> 'a) \<Rightarrow> 'a list \<Rightarrow> 'a list" where
  "update_where P f = map (\<lambda>x. if P x then f x else x)"

lemma update_where_Nil [simp]: "update_where P f [] = []"
  by (simp add: update_where_def)

lemma update_where_Cons [simp]:
  "update_where P f (x # xs) = (if P x then f x else x) # update_where P f xs"
  by (simp add: update_where_def)

lemma length_update_where [simp]: "length (update_where P f xs) = length xs"
  by (simp add: update_where_def)

lemma set_update_where: "set (update_where P f xs) = (\<lambda>x. if P x then f x else x) ` set xs"
  by (simp add: update_where_def)

lemma set_update_where_one:
  assumes "r \<in> set xs" and "P r" and "\<And>x. x \<in> set xs \<Longrightarrow> P x \<Longrightarrow> x = r"
  shows "set (update_where P f xs) = {x \<in> set xs. \<not> P x} \<union> {f r}"
proof -
  have "(\<lambda>x. if P x then f x else x) ` set xs = (\<lambda>x. if P x then f x else x) ` ({x \<in> set xs. \<not> P x} \<union> {r})"
    using assms(1,3) by (intro arg_cong [where f = "image _"]) blast
  also have "\<dots> = {x \<in> set xs. \<not> P x} \<union> {f r}" using assms(2) by (auto simp: image_iff)
  finally show ?thesis by (simp only: set_update_where)
qed

lemma update_where_map_key:
  assumes "\<And>x. k (f x) = k x"
  shows "map k (update_where P f xs) = map k xs"
  using assms by (auto simp: update_where_def)

lemma update_where_none: "(\<And>x. x \<in> set xs \<Longrightarrow> \<not> P x) \<Longrightarrow> update_where P f xs = xs"
  by (auto simp: update_where_def intro: map_idI)

lemma find_update_where:
  assumes "\<And>x. Q (f x) \<longleftrightarrow> Q x"
  shows "find Q (update_where P f xs) = map_option (\<lambda>x. if P x then f x else x) (find Q xs)"
  using assms by (induction xs) auto

lemma find_only:
  assumes "x \<in> set xs" and "P x" and "\<And>y. y \<in> set xs \<Longrightarrow> P y \<Longrightarrow> y = x"
  shows "find P xs = Some x"
  using assms by (induction xs) fastforce+

lemma find_append: "find P (xs @ ys) = (case find P xs of None \<Rightarrow> find P ys | Some x \<Rightarrow> Some x)"
  by (induction xs) auto

lemma filter_update_where:
  assumes "\<And>x. Q (f x) \<longleftrightarrow> Q x"
  shows "filter Q (update_where P f xs) = update_where P f (filter Q xs)"
  using assms by (induction xs) auto

lemma ball_update_where: "(\<forall>x\<in>set (update_where P f xs). Q x) \<longleftrightarrow> (\<forall>x\<in>set xs. Q (if P x then f x else x))"
  by (induction xs) auto

lemma sort_key_Nil [simp]: "sort_key f xs = [] \<longleftrightarrow> xs = []"
  by (metis length_0_conv length_sort)

lemma bex_update_where: "(\<And>x. Q (f x) \<longleftrightarrow> Q x) \<Longrightarrow> (\<exists>x\<in>set (update_where P f xs). Q x) \<longleftrightarrow> (\<exists>x\<in>set xs. Q x)"
  by (induction xs) auto

lemma filter_one:
  assumes "distinct (map g xs)" and "x \<in> set xs"
  shows "filter (\<lambda>y. g y = g x) xs = [x]"
  using assms by (induction xs) (auto simp: filter_empty_conv image_iff)

lemma length_filter_le_1_distinct:
  assumes "distinct (map k xs)"
  shows "length (filter (\<lambda>x. k x = v \<and> Q x) xs) \<le> 1"
  using assms by (induction xs) (auto simp: filter_empty_conv image_iff)

lemma find_Some_first:
  assumes "find P xs = Some x"
  shows "\<exists>ys zs. xs = ys @ x # zs \<and> P x \<and> (\<forall>y \<in> set ys. \<not> P y)"
  using assms
proof (induction xs)
  case Nil
  then show ?case by simp
next
  case (Cons a xs)
  show ?case
  proof (cases "P a")
    case True
    with Cons.prems have "a # xs = [] @ x # xs" and "P x" by auto
    then show ?thesis by (intro exI [of _ "[]"] exI [of _ xs]) simp
  next
    case False
    with Cons obtain ys zs where "xs = ys @ x # zs \<and> P x \<and> (\<forall>y \<in> set ys. \<not> P y)"
      by auto
    with False have "a # xs = (a # ys) @ x # zs" and "P x" and "\<forall>y \<in> set (a # ys). \<not> P y"
      by auto
    then show ?thesis by blast
  qed
qed

lemma find_sorted_least:
  fixes xs :: "'a::linorder list"
  assumes "find P xs = Some x" and "sorted xs" and "y \<in> set xs" and "P y"
  shows "x \<le> y"
proof -
  from find_Some_first [OF assms(1)] obtain ys zs
    where xs: "xs = ys @ x # zs" and no: "\<forall>y \<in> set ys. \<not> P y" by auto
  from assms(3,4) xs no have "y = x \<or> y \<in> set zs" by auto
  with assms(2) xs show ?thesis by (auto simp: sorted_append)
qed

lemma find_SomeD: "find P xs = Some x \<Longrightarrow> x \<in> set xs \<and> P x"
  using find_Some_first by fastforce

lemma sorted_concat_blocks:
  fixes f :: "'b::linorder \<Rightarrow> 'a::linorder list"
  assumes "sorted hs" and "distinct hs" and "\<And>h. h \<in> set hs \<Longrightarrow> sorted (f h)"
    and "\<And>h h' x y. h \<in> set hs \<Longrightarrow> h' \<in> set hs \<Longrightarrow> h < h' \<Longrightarrow> x \<in> set (f h) \<Longrightarrow> y \<in> set (f h') \<Longrightarrow> x \<le> y"
  shows "sorted (concat (map f hs))"
  using assms
proof (induction hs)
  case Nil
  then show ?case by simp
next
  case (Cons h hs)
  have 1: "sorted (concat (map f hs))"
  proof (rule Cons.IH)
    show "x \<le> y" if "a \<in> set hs" "b \<in> set hs" "a < b" "x \<in> set (f a)" "y \<in> set (f b)" for a b x y
      using Cons.prems(4) [of a b x y] that by simp
  qed (use Cons.prems in auto)
  have "x \<le> y" if "x \<in> set (f h)" and "h' \<in> set hs" and "y \<in> set (f h')" for x h' y
  proof -
    from Cons.prems that have "h \<le> h'" "h \<noteq> h'" by auto
    then have "h < h'" by simp
    with Cons.prems(4) [of h h' x y] that show ?thesis by simp
  qed
  with 1 Cons.prems show ?case by (auto simp: sorted_append)
qed

lemma sorted_map_strict_mono:
  fixes g :: "'b::linorder \<Rightarrow> 'a::linorder"
  assumes "sorted xs" and "\<And>x y. x \<le> y \<Longrightarrow> g x \<le> g y"
  shows "sorted (map g xs)"
  using assms by (induction xs) auto

lemma mem_takeWhile_append: "c \<notin> set xs \<Longrightarrow> takeWhile (\<lambda>x. x \<noteq> c) (xs @ c # ys) = xs"
  by (induction xs) auto

lemma mem_dropWhile_append: "c \<notin> set xs \<Longrightarrow> dropWhile (\<lambda>x. x \<noteq> c) (xs @ c # ys) = c # ys"
  by (induction xs) auto

end
