(* ===== verification/GoRunes.thy ===== *)
theory GoRunes
  imports GoStrings
begin

text \<open>
  Runes: the UTF-8 decoding behind \<open>[]rune(s)\<close>, \<open>range s\<close>, \<open>strings.Fields\<close>,
  \<open>strings.TrimSpace\<close>, \<open>strings.ToLower\<close> and \<open>strings.ToUpper\<close>, and the two helpers of the
  program that count in runes.

  The case mappings are those of \<open>unicode.ToLower\<close> and \<open>unicode.ToUpper\<close> on ASCII and on the
  four code points outside ASCII whose mapping lands inside ASCII (U+0130, U+212A, U+0131,
  U+017F). Every other rune outside ASCII is kept: its image is outside ASCII too, which is all that
  slugs, methods, schemes and host names depend on; an address with such letters keeps their case here.
\<close>

section \<open>Decoding\<close>

abbreviation byte :: "char \<Rightarrow> nat" where
  "byte c \<equiv> of_char c"

definition cont :: "char \<Rightarrow> bool" where
  "cont c \<longleftrightarrow> 128 \<le> byte c \<and> byte c \<le> 191"

definition between :: "nat \<Rightarrow> char \<Rightarrow> nat \<Rightarrow> bool" where
  "between lo c hi \<longleftrightarrow> lo \<le> byte c \<and> byte c \<le> hi"

text \<open>
  \<open>utf8.DecodeRuneInString\<close> on a non-empty string: the rune and its width. The accepted
  ranges of the second byte exclude overlong forms, surrogates and values above U+10FFFF.
\<close>

definition decode_rune :: "string \<Rightarrow> nat \<times> nat" where
  "decode_rune s = (case s of
      [] \<Rightarrow> (65533, 0)
    | a # r1 \<Rightarrow>
        if byte a < 128 then (byte a, 1)
        else (case r1 of [] \<Rightarrow> (65533, 1)
        | b # r2 \<Rightarrow>
            if between 194 a 223 then
              (if cont b then ((byte a - 192) * 64 + (byte b - 128), 2) else (65533, 1))
            else (case r2 of [] \<Rightarrow> (65533, 1)
            | c # r3 \<Rightarrow>
                if between 224 a 239 then
                  (if (if byte a = 224 then between 160 b 191 else if byte a = 237 then between 128 b 159 else cont b)
                      \<and> cont c
                   then ((byte a - 224) * 4096 + (byte b - 128) * 64 + (byte c - 128), 3) else (65533, 1))
                else (case r3 of [] \<Rightarrow> (65533, 1)
                | d # _ \<Rightarrow>
                    if between 240 a 244
                       \<and> (if byte a = 240 then between 144 b 191 else if byte a = 244 then between 128 b 143 else cont b)
                       \<and> cont c \<and> cont d
                    then ((byte a - 240) * 262144 + (byte b - 128) * 4096 + (byte c - 128) * 64 + (byte d - 128), 4)
                    else (65533, 1)))))"

text \<open>The runes of a string, each with the bytes it was read from.\<close>

function runes :: "string \<Rightarrow> (nat \<times> string) list" where
  "runes [] = []"
| "runes (a # s) =
     (fst (decode_rune (a # s)), take (max 1 (snd (decode_rune (a # s)))) (a # s))
       # runes (drop (max 1 (snd (decode_rune (a # s))) - 1) s)"
  by pat_completeness auto
termination by (relation "measure length") auto

declare runes.simps(2) [simp del]

lemma decode_rune_ascii: "ascii a \<Longrightarrow> decode_rune (a # s) = (byte a, 1)"
  by (simp add: decode_rune_def ascii_def)

lemma runes_ascii_Cons: "ascii a \<Longrightarrow> runes (a # s) = (byte a, [a]) # runes s"
  by (simp add: runes.simps(2) decode_rune_ascii)

lemma runes_ascii: "list_all ascii s \<Longrightarrow> runes s = map (\<lambda>c. (byte c, [c])) s"
  by (induction s) (auto simp: runes_ascii_Cons)

lemma runes_ascii_append: "list_all ascii s \<Longrightarrow> runes (s @ t) = map (\<lambda>c. (byte c, [c])) s @ runes t"
  by (induction s) (auto simp: runes_ascii_Cons)

lemma concat_runes: "concat (map snd (runes s)) = s"
  by (induction s rule: runes.induct) (auto simp: runes.simps(2) append_take_drop_id [symmetric] take_Cons' drop_Cons')

text \<open>An ASCII byte is always a rune of its own: no longer encoding contains one.\<close>

lemma decode_rune_wide: 
  assumes "\<not> ascii a"
  shows "snd (decode_rune (a # s)) = 1 \<or> list_all cont (take (snd (decode_rune (a # s)) - 1) s)"
proof -
  have c: "between 160 b 191 \<Longrightarrow> cont b" "between 128 b 159 \<Longrightarrow> cont b" "between 144 b 191 \<Longrightarrow> cont b" "between 128 b 143 \<Longrightarrow> cont b" for b
    by (simp_all add: between_def cont_def)
  have a: "\<not> byte a < 128" using assms by (simp add: ascii_def)
  show ?thesis
  proof (cases s)
    case Nil with a show ?thesis by (simp add: decode_rune_def)
  next
    case s: (Cons b s2)
    show ?thesis
    proof (cases "between 194 a 223")
      case True with a s show ?thesis by (simp add: decode_rune_def)
    next
      case n2: False
      show ?thesis
      proof (cases s2)
        case Nil with a s n2 show ?thesis by (simp add: decode_rune_def)
      next
        case s2: (Cons x s3)
        show ?thesis
        proof (cases "between 224 a 239")
          case True with a s s2 n2 c [of b] show ?thesis
            by (auto simp: decode_rune_def take_Cons')
        next
          case False with a s s2 n2 c [of b] show ?thesis
            by (cases s3) (auto simp: decode_rune_def take_Cons')
        qed
      qed
    qed
  qed
qed
lemma decode_rune_no_ascii:
  assumes "\<not> ascii a" and "c \<in> set (take (max 1 (snd (decode_rune (a # s)))) (a # s))"
  shows "\<not> ascii c"
proof -
  have "c = a \<or> c \<in> set (take (snd (decode_rune (a # s)) - 1) s)"
    using assms(2) by (auto simp: take_Cons' max_def split: if_splits)
  moreover have "\<not> ascii c" if "cont c" using that by (simp add: cont_def ascii_def)
  ultimately show ?thesis using decode_rune_wide [OF assms(1), of s] assms(1) by (auto simp: list_all_iff)
qed

lemma mem_runes_ascii: "c \<in> set s \<Longrightarrow> ascii c \<Longrightarrow> (byte c, [c]) \<in> set (runes s)"
proof (induction s rule: runes.induct)
  case (2 a s)
  show ?case
  proof (cases "ascii a")
    case True
    with 2 show ?thesis by (auto simp: runes_ascii_Cons decode_rune_ascii)
  next
    case False
    let ?k = "max 1 (snd (decode_rune (a # s)))"
    have "c \<notin> set (take ?k (a # s))" using decode_rune_no_ascii [OF False, of c s] 2(3) by blast
    then have "c \<in> set (drop ?k (a # s))" using 2(2) by (metis Un_iff append_take_drop_id set_append)
    then have "c \<in> set (drop (?k - 1) s)" by (simp add: drop_Cons')
    from 2(1) [OF this 2(3)] show ?thesis by (simp add: runes.simps(2))
  qed
qed simp

text \<open>\<open>utf8.EncodeRune\<close>.\<close>

definition encode_rune :: "nat \<Rightarrow> string" where
  "encode_rune r =
     (if r < 128 then [char_of r]
      else if r < 2048 then [char_of (192 + r div 64), char_of (128 + r mod 64)]
      else if r < 65536 then
        [char_of (224 + r div 4096), char_of (128 + r div 64 mod 64), char_of (128 + r mod 64)]
      else [char_of (240 + r div 262144), char_of (128 + r div 4096 mod 64),
            char_of (128 + r div 64 mod 64), char_of (128 + r mod 64)])"

text \<open>\<open>string([]rune)\<close>: an ill-formed byte has become U+FFFD, so its three bytes are written.\<close>

definition of_runes :: "(nat \<times> string) list \<Rightarrow> string" where
  "of_runes rs = concat (map (\<lambda>r. encode_rune (fst r)) rs)"

section \<open>White space\<close>

text \<open>\<open>unicode.IsSpace\<close>.\<close>

definition is_space :: "nat \<Rightarrow> bool" where
  "is_space r \<longleftrightarrow> (9 \<le> r \<and> r \<le> 13) \<or> r = 32 \<or> r = 133 \<or> r = 160 \<or> r = 5760
      \<or> (8192 \<le> r \<and> r \<le> 8202) \<or> r = 8232 \<or> r = 8233 \<or> r = 8239 \<or> r = 8287 \<or> r = 12288"

fun fields_go :: "(nat \<times> string) list \<Rightarrow> string \<Rightarrow> string list" where
  "fields_go [] cur = (if cur = [] then [] else [cur])"
| "fields_go ((r, b) # rs) cur =
     (if is_space r then (if cur = [] then fields_go rs [] else cur # fields_go rs [])
      else fields_go rs (cur @ b))"

text \<open>\<open>strings.Fields\<close>.\<close>

definition fields :: "string \<Rightarrow> string list" where
  "fields s = fields_go (runes s) []"

text \<open>\<open>strings.Join(strings.Fields(s), " ")\<close>, which the program uses to normalise white space.\<close>

definition normalize_space :: "string \<Rightarrow> string" where
  "normalize_space s = join '' '' (fields s)"

text \<open>\<open>strings.TrimSpace\<close>.\<close>

definition trim_space :: "string \<Rightarrow> string" where
  "trim_space s =
     (let rs = dropWhile (\<lambda>x. is_space (fst x)) (runes s)
      in concat (map snd (rev (dropWhile (\<lambda>x. is_space (fst x)) (rev rs)))))"

lemma trim_space_plain:
  assumes "list_all (\<lambda>c. ascii c \<and> \<not> is_space (byte c)) s"
  shows "trim_space s = s"
proof -
  have r: "runes s = map (\<lambda>c. (byte c, [c])) s" using assms by (intro runes_ascii) (auto simp: list_all_iff)
  have "dropWhile (\<lambda>x. is_space (fst x)) (map (\<lambda>c. (byte c, [c])) t) = map (\<lambda>c. (byte c, [c])) t"
    if "set t \<subseteq> set s" for t
    using that assms by (cases t) (auto simp: list_all_iff)
  from this [of s] this [of "rev s"] show ?thesis
    by (simp add: trim_space_def r rev_map comp_def)
qed

text \<open>\<open>strings.Trim(s, cutset)\<close> and \<open>strings.TrimRight(s, cutset)\<close> for an ASCII cutset.\<close>

definition trim_right :: "string \<Rightarrow> string \<Rightarrow> string" where
  "trim_right cs s = rev (dropWhile (\<lambda>c. c \<in> set cs) (rev s))"

definition trim_cut :: "string \<Rightarrow> string \<Rightarrow> string" where
  "trim_cut cs s = trim_right cs (dropWhile (\<lambda>c. c \<in> set cs) s)"

section \<open>Case\<close>

text \<open>
  \<open>unicode.ToLower\<close> and \<open>unicode.ToUpper\<close> on the characters whose image, or which themselves, are
  ASCII; letters beyond keep their case here. Most results are compared with ASCII only (slugs, method
  names, schemes, host suffixes), where this makes no difference; electronic mail addresses are stored.
\<close>

definition lower_rune :: "nat \<Rightarrow> nat" where
  "lower_rune r = (if 65 \<le> r \<and> r \<le> 90 then r + 32 else if r = 304 then 105 else if r = 8490 then 107 else r)"

definition upper_rune :: "nat \<Rightarrow> nat" where
  "upper_rune r = (if 97 \<le> r \<and> r \<le> 122 then r - 32 else if r = 305 then 73 else if r = 383 then 83 else r)"

definition to_lower :: "string \<Rightarrow> string" where
  "to_lower s = concat (map (\<lambda>(r, b). if lower_rune r = r \<and> r \<noteq> 65533 then b else encode_rune (lower_rune r)) (runes s))"

definition to_upper :: "string \<Rightarrow> string" where
  "to_upper s = concat (map (\<lambda>(r, b). if upper_rune r = r \<and> r \<noteq> 65533 then b else encode_rune (upper_rune r)) (runes s))"

section \<open>Prefixes\<close>

definition has_prefix :: "string \<Rightarrow> string \<Rightarrow> bool" where
  "has_prefix s p \<longleftrightarrow> take (length p) s = p"

definition has_suffix :: "string \<Rightarrow> string \<Rightarrow> bool" where
  "has_suffix s p \<longleftrightarrow> length p \<le> length s \<and> drop (length s - length p) s = p"

section \<open>Quoting\<close>

text \<open>\<open>%q\<close>, for text whose characters beyond ASCII are printable.\<close>

definition quote_char :: "nat \<times> string \<Rightarrow> string" where
  "quote_char rb = (case rb of (r, b) \<Rightarrow>
     let hex = (\<lambda>n. [''0123456789abcdef'' ! (n div 16), ''0123456789abcdef'' ! (n mod 16)]) in
     if r = 34 then [CHR 0x5C, CHR 0x22]
     else if r = 92 then [CHR 0x5C, CHR 0x5C]
     else if r = 7 then [CHR 0x5C] @ ''a'' else if r = 8 then [CHR 0x5C] @ ''b'' else if r = 12 then [CHR 0x5C] @ ''f''
     else if r = 10 then [CHR 0x5C] @ ''n'' else if r = 13 then [CHR 0x5C] @ ''r'' else if r = 9 then [CHR 0x5C] @ ''t''
     else if r = 11 then [CHR 0x5C] @ ''v''
     else if r = 65533 \<and> length b = 1 then [CHR 0x5C] @ ''x'' @ hex (of_char (hd b))
     else if r < 32 \<or> r = 127 then [CHR 0x5C] @ ''x'' @ hex r
     else b)"

definition go_quote :: "string \<Rightarrow> string" where
  "go_quote s = [CHR 0x22] @ concat (map quote_char (runes s)) @ [CHR 0x22]"

section \<open>Counting in runes: repository.truncate and service.firstRunes\<close>

definition go_truncate :: "string \<Rightarrow> int \<Rightarrow> string" where
  "go_truncate s n =
     (if n \<le> 0 then []
      else let r = runes s in
        if int (length r) \<le> n then s
        else of_runes (take (nat n) r) @ '' ... ['' @ show_int (int (length r) - n) @ '' characters truncated]'')"

definition first_runes :: "string \<Rightarrow> int \<Rightarrow> string" where
  "first_runes s n =
     (let r = runes s in
      if int (length r) \<le> n then s else of_runes (take (nat n) r) @ '' ...'')"

text \<open>The number of runes, what Postgres's \<open>length\<close> and \<open>left\<close> count in a UTF-8 database.\<close>

definition rune_count :: "string \<Rightarrow> nat" where
  "rune_count s = length (runes s)"

section \<open>Lemmas\<close>

lemma fields_go_ascii_word:
  assumes "list_all ascii w" and "list_all (\<lambda>c. \<not> is_space (byte c)) w"
  shows "fields_go (map (\<lambda>c. (byte c, [c])) w @ rs) cur = fields_go rs (cur @ w)"
  using assms by (induction w arbitrary: cur) auto

lemma ascii_space [simp]: "ascii (CHR '' '')" "is_space 32"
  by (simp_all add: ascii_def is_space_def)

text \<open>Words of ASCII characters without white space survive joining and splitting again.\<close>

definition ascii_word :: "string \<Rightarrow> bool" where
  "ascii_word w \<longleftrightarrow> w \<noteq> [] \<and> list_all (\<lambda>c. ascii c \<and> \<not> is_space (byte c)) w"

lemma ascii_wordD: "ascii_word w \<Longrightarrow> list_all ascii w \<and> list_all (\<lambda>c. \<not> is_space (byte c)) w \<and> w \<noteq> []"
  by (auto simp: ascii_word_def list_all_iff)

lemma fields_join_words:
  assumes "\<forall>w \<in> set ws. ascii_word w"
  shows "fields (join '' '' ws) = ws"
  using assms
proof (induction "'' ''" ws rule: join.induct)
  case 1
  then show ?case by (simp add: fields_def)
next
  case (2 w)
  then have w: "list_all ascii w" "list_all (\<lambda>c. \<not> is_space (byte c)) w" "w \<noteq> []"
    using ascii_wordD by auto
  then have "fields_go (map (\<lambda>c. (byte c, [c])) w @ []) [] = [w]"
    by (subst fields_go_ascii_word) auto
  with w show ?case by (simp add: fields_def runes_ascii)
next
  case (3 w v vs)
  then have w: "list_all ascii w" "list_all (\<lambda>c. \<not> is_space (byte c)) w" "w \<noteq> []"
    using ascii_wordD [of w] by auto
  have "fields (join '' '' (w # v # vs))
      = fields_go (map (\<lambda>c. (byte c, [c])) w @ runes (CHR '' '' # join '' '' (v # vs))) []"
    using w by (simp add: fields_def runes_ascii_append)
  also have "\<dots> = w # fields (join '' '' (v # vs))"
    using w by (simp add: fields_go_ascii_word runes_ascii_Cons fields_def)
  finally show ?case using 3 by simp
qed

lemma fields_nonempty: "w \<in> set (fields_go rs cur) \<Longrightarrow> (\<forall>x \<in> set rs. snd x \<noteq> []) \<Longrightarrow> w \<noteq> []"
  by (induction rs cur rule: fields_go.induct) (auto split: if_splits)

lemma take_max_1_Cons: "take (max 1 n) (a # s) \<noteq> []"
  by (cases n) auto

lemma runes_chunk_nonempty: "x \<in> set (runes s) \<Longrightarrow> snd x \<noteq> []"
proof (induction s rule: runes.induct)
  case 1
  then show ?case by simp
next
  case (2 a s)
  then consider (head) "x = (fst (decode_rune (a # s)), take (max 1 (snd (decode_rune (a # s)))) (a # s))"
    | (tail) "x \<in> set (runes (drop (max 1 (snd (decode_rune (a # s))) - 1) s))"
    by (auto simp: runes.simps(2))
  then show ?case
    by cases (use 2 take_max_1_Cons in auto)
qed

lemma fields_no_Nil: "w \<in> set (fields s) \<Longrightarrow> w \<noteq> []"
  unfolding fields_def using fields_nonempty runes_chunk_nonempty by blast

text \<open>The facts that evaluate string functions on ASCII literals.\<close>

lemmas string_eval = normalize_space_def fields_def trim_space_def to_lower_def to_upper_def
  trim_cut_def trim_right_def runes_ascii_Cons ascii_def is_space_def lower_rune_def upper_rune_def
  has_prefix_def has_suffix_def encode_rune_def split2_def char_of_def bit_0 bit_Suc

lemma truncate_short: "0 < n \<Longrightarrow> int (rune_count s) \<le> n \<Longrightarrow> go_truncate s n = s"
  by (simp add: go_truncate_def rune_count_def Let_def)

section \<open>Whole runes\<close>

text \<open>A chunk that decodes on its own, whatever follows it.\<close>

definition whole :: "nat \<times> string \<Rightarrow> bool" where
  "whole rb \<longleftrightarrow> decode_rune (snd rb) = (fst rb, length (snd rb)) \<and> snd rb \<noteq> [] \<and> \<not> (fst rb = 65533 \<and> length (snd rb) = 1)"

lemma decode_rune_prefix:
  assumes "decode_rune b = (r, length b)" and "b \<noteq> []" and "\<not> (r = 65533 \<and> length b = 1)"
  shows "decode_rune (b @ t) = (r, length b)"
proof -
  obtain a b1 where b: "b = a # b1" using assms(2) by (cases b) auto
  show ?thesis
  proof (cases b1)
    case Nil
    with assms b show ?thesis by (auto simp: decode_rune_def split: if_splits)
  next
    case b1: (Cons x b2)
    show ?thesis
    proof (cases b2)
      case Nil
      with assms b b1 show ?thesis by (auto simp: decode_rune_def split: if_splits)
    next
      case b2: (Cons y b3)
      show ?thesis
      proof (cases b3)
        case Nil
        with assms b b1 b2 show ?thesis by (auto simp: decode_rune_def split: if_splits)
      next
        case b3: (Cons z b4)
        with assms b b1 b2 show ?thesis by (simp add: decode_rune_def split: if_splits)
      qed
    qed
  qed
qed

lemma runes_whole:
  assumes "whole rb"
  shows "runes (snd rb @ t) = rb # runes t"
proof -
  obtain a s where b: "snd rb = a # s" using assms by (cases "snd rb") (auto simp: whole_def)
  have "decode_rune (a # s @ t) = (fst rb, Suc (length s))"
    using decode_rune_prefix [of "snd rb" "fst rb" t] assms by (simp add: whole_def b)
  then show ?thesis by (simp add: runes.simps(2) b) (simp add: b [symmetric])
qed

lemma runes_concat_whole: "list_all whole rs \<Longrightarrow> runes (concat (map snd rs)) = rs"
  by (induction rs) (auto simp: runes_whole)

lemma decode_rune_take:
  assumes "decode_rune (a # s) = (r, n)" and "\<not> (r = 65533 \<and> n = 1)"
  shows "decode_rune (take n (a # s)) = (r, length (take n (a # s)))" and "0 < n"
proof -
  have "decode_rune (take n (a # s)) = (r, length (take n (a # s))) \<and> 0 < n"
  proof (cases s)
    case Nil
    with assms show ?thesis by (auto simp: decode_rune_def split: if_splits)
  next
    case s: (Cons b s2)
    show ?thesis
    proof (cases s2)
      case Nil
      with assms s show ?thesis by (auto simp: decode_rune_def split: if_splits)
    next
      case s2: (Cons c s3)
      show ?thesis using assms s s2 by (cases s3) (auto simp: decode_rune_def split: if_splits)
    qed
  qed
  then show "decode_rune (take n (a # s)) = (r, length (take n (a # s)))" and "0 < n" by simp_all
qed

lemma runes_chunk_whole: "rb \<in> set (runes s) \<Longrightarrow> \<not> (fst rb = 65533 \<and> length (snd rb) = 1) \<Longrightarrow> whole rb"
proof (induction s rule: runes.induct)
  case (2 a s)
  obtain r n where d: "decode_rune (a # s) = (r, n)" by fastforce
  have "0 < n" using d by (auto simp: decode_rune_def split: if_splits list.splits)
  then have n: "max 1 n = n" by simp
  show ?case
  proof (cases "rb = (r, take n (a # s))")
    case True
    show ?thesis
    proof (cases "r = 65533 \<and> n = 1")
      case True
      with \<open>rb = _\<close> 2(3) show ?thesis by simp
    next
      case False
      with decode_rune_take [OF d] True \<open>0 < n\<close> 2(3) show ?thesis by (auto simp: whole_def)
    qed
  next
    case False
    with 2 d n show ?thesis by (auto simp: runes.simps(2))
  qed
qed simp

lemma whole_ascii [simp]: "ascii c \<Longrightarrow> whole (byte c, [c])"
  by (auto simp: whole_def decode_rune_ascii ascii_def)

text \<open>What lower case does to each rune.\<close>

definition lower_chunk :: "nat \<times> string \<Rightarrow> nat \<times> string" where
  "lower_chunk rb = (lower_rune (fst rb), if lower_rune (fst rb) = fst rb \<and> fst rb \<noteq> 65533 then snd rb else encode_rune (lower_rune (fst rb)))"

lemma lower_rune_low: "lower_rune r \<noteq> r \<Longrightarrow> lower_rune r < 128"
  by (simp add: lower_rune_def split: if_splits)

lemma lower_chunk_whole:
  assumes "rb \<in> set (runes s)"
  shows "whole (lower_chunk rb)"
proof (cases "lower_rune (fst rb) = fst rb \<and> fst rb \<noteq> 65533")
  case True
  with runes_chunk_whole [OF assms] show ?thesis by (simp add: lower_chunk_def)
next
  case False
  then consider "fst rb = 65533" | "lower_rune (fst rb) < 128" using lower_rune_low [of "fst rb"] by blast
  then show ?thesis
  proof cases
    case 1
    have "whole (65533, encode_rune 65533)" by (simp add: whole_def encode_rune_def decode_rune_def between_def cont_def)
    with 1 show ?thesis by (simp add: lower_chunk_def lower_rune_def)
  next
    case 2
    define c where "c = (char_of (lower_rune (fst rb)) :: char)"
    have "byte (char_of n :: char) = n" if "n < 256" for n :: nat using that by (simp add: of_char_of)
    from this [of "lower_rune (fst rb)"] 2 have c: "byte c = lower_rune (fst rb)" unfolding c_def by linarith
    then have "ascii c" using 2 by (simp add: ascii_def)
    moreover have "lower_chunk rb = (byte c, [c])"
    proof (cases "lower_rune (fst rb) = fst rb \<and> fst rb \<noteq> 65533")
      case True
      with \<open>\<not> _\<close> show ?thesis by simp
    next
      case False
      with 2 show ?thesis unfolding lower_chunk_def c by (simp add: encode_rune_def c_def)
    qed
    ultimately show ?thesis by simp
  qed
qed

lemma runes_to_lower: "runes (to_lower s) = map lower_chunk (runes s)"
proof -
  have "to_lower s = concat (map snd (map lower_chunk (runes s)))"
    unfolding to_lower_def by (intro arg_cong [where f = concat]) (auto simp: lower_chunk_def)
  then show ?thesis using lower_chunk_whole by (simp add: runes_concat_whole list_all_iff del: map_map)
qed

lemma lower_chunk_idem: "lower_chunk (lower_chunk rb) = lower_chunk rb"
  by (auto simp: lower_chunk_def lower_rune_def)

lemma to_lower_idem: "to_lower (to_lower s) = to_lower s"
proof -
  have "to_lower t = concat (map snd (map lower_chunk (runes t)))" for t
    unfolding to_lower_def by (intro arg_cong [where f = concat]) (auto simp: lower_chunk_def)
  note e = this
  show ?thesis by (subst e, simp only: runes_to_lower map_map) (simp add: e comp_def lower_chunk_idem)
qed

lemma to_lower_rune: "rb \<in> set (runes (to_lower s)) \<Longrightarrow> lower_rune (fst rb) = fst rb"
  by (auto simp: runes_to_lower lower_chunk_def lower_rune_def split: if_splits)

text \<open>A text without white space stays as it is.\<close>

lemma trim_space_no_space:
  assumes "\<forall>rb \<in> set (runes s). \<not> is_space (fst rb)"
  shows "trim_space s = s"
proof -
  have d: "dropWhile (\<lambda>x. is_space (fst x)) rs = rs" if "\<forall>rb \<in> set rs. \<not> is_space (fst rb)" for rs :: "(nat \<times> string) list"
    using that by (cases rs) auto
  from d [OF assms] d [of "rev (runes s)"] assms show ?thesis by (simp add: trim_space_def concat_runes)
qed

section \<open>Parts of a text\<close>

text \<open>A stretch of the runes of a text decodes to itself, ill-formed bytes included.\<close>

lemma decode_rune_shorter:
  assumes "fst (decode_rune (a # t @ u)) = 65533" and "snd (decode_rune (a # t @ u)) = 1"
  shows "decode_rune (a # t) = (65533, 1)"
proof (rule ccontr)
  assume "decode_rune (a # t) \<noteq> (65533, 1)"
  then obtain r n where d: "decode_rune (a # t) = (r, n)" and valid: "\<not> (r = 65533 \<and> n = 1)"
    by (cases "decode_rune (a # t)") auto
  note take = decode_rune_take [OF d valid]
  have nz: "take n (a # t) \<noteq> []" using take(2) by (cases n) auto
  have "length (take n (a # t)) = 1 \<Longrightarrow> n = 1 \<or> t = []" by (cases n) (auto simp: min_def split: if_splits)
  then have v: "\<not> (r = 65533 \<and> length (take n (a # t)) = 1)"
    using valid d by (auto simp: decode_rune_def split: if_splits)
  have "a # t @ u = take n (a # t) @ (drop n (a # t) @ u)"
    by (metis append.assoc append_Cons append_take_drop_id)
  with decode_rune_prefix [OF take(1) nz v, of "drop n (a # t) @ u"]
  have "decode_rune (a # t @ u) = (r, length (take n (a # t)))" by metis
  with assms v show False by simp
qed

lemma decode_rune_width: "0 < snd (decode_rune (a # s)) \<and> snd (decode_rune (a # s)) \<le> length (a # s)"
  by (auto simp: decode_rune_def split: if_splits list.splits)

lemma runes_Cons_chunk:
  assumes "runes s = rb # rs"
  shows "s = snd rb @ concat (map snd rs)" and "runes (concat (map snd rs)) = rs"
proof -
  from assms obtain a t where s: "s = a # t" by (cases s) auto
  let ?n = "max 1 (snd (decode_rune (a # t)))"
  from assms have rb: "snd rb = take ?n (a # t)" and rs: "rs = runes (drop (?n - 1) t)" unfolding s runes.simps(2) by auto
  have "drop (?n - 1) t = drop ?n (a # t)" by (simp add: drop_Cons')
  then show "s = snd rb @ concat (map snd rs)" unfolding rs concat_runes rb s by simp
  show "runes (concat (map snd rs)) = rs" unfolding rs concat_runes ..
qed

lemma runes_prefix: "runes s = ps @ qs \<Longrightarrow> runes (concat (map snd ps)) = ps"
proof (induction ps arbitrary: s)
  case (Cons rb ps)
  then have r: "runes s = rb # (ps @ qs)" by simp
  note part = runes_Cons_chunk [OF r]
  from Cons.IH [OF part(2)] have ps: "runes (concat (map snd ps)) = ps" .
  have mem: "rb \<in> set (runes s)" using r by simp
  show ?case
  proof (cases "fst rb = 65533 \<and> length (snd rb) = 1")
    case False
    with runes_whole [OF runes_chunk_whole [OF mem]] ps show ?thesis by simp
  next
    case True
    then obtain a where a: "snd rb = [a]" by (cases "snd rb") auto
    define x where "x = concat (map snd ps) @ concat (map snd qs)"
    have s: "s = a # x" using part(1) a by (simp add: x_def)
    from r have "fst (decode_rune s) = 65533" and "take (max 1 (snd (decode_rune s))) s = [a]"
      unfolding s runes.simps(2) using True a by auto
    moreover from this(2) have "length (take (max 1 (snd (decode_rune s))) s) = 1" by simp
    then have "snd (decode_rune s) = 1" using decode_rune_width [of a x] unfolding s by (simp add: min_def max_def split: if_splits)
    ultimately have "decode_rune (a # concat (map snd ps)) = (65533, 1)"
      unfolding s x_def by (intro decode_rune_shorter) simp_all
    with ps True a show ?thesis by (simp add: runes.simps(2)) (metis prod.collapse)
  qed
qed simp

lemma runes_suffix: "runes s = ps @ qs \<Longrightarrow> runes (concat (map snd qs)) = qs"
  by (induction ps arbitrary: s) (use concat_runes runes_Cons_chunk(2) in \<open>auto, metis\<close>)

definition trim_runes :: "(nat \<times> string) list \<Rightarrow> (nat \<times> string) list" where
  "trim_runes rs = rev (dropWhile (\<lambda>x. is_space (fst x)) (rev (dropWhile (\<lambda>x. is_space (fst x)) rs)))"

lemma trim_space_runes: "trim_space s = concat (map snd (trim_runes (runes s)))"
  by (simp add: trim_space_def trim_runes_def Let_def)

lemma runes_trim: "runes (trim_space s) = trim_runes (runes s)"
proof -
  let ?mid = "dropWhile (\<lambda>x. is_space (fst x)) (runes s)"
  have mid: "runes (concat (map snd ?mid)) = ?mid"
    by (rule runes_suffix [where ps = "takeWhile (\<lambda>x. is_space (fst x)) (runes s)"]) (simp add: takeWhile_dropWhile_id)
  have "?mid = trim_runes (runes s) @ rev (takeWhile (\<lambda>x. is_space (fst x)) (rev ?mid))"
    unfolding trim_runes_def by (metis rev_append rev_rev_ident takeWhile_dropWhile_id)
  with mid have "runes (concat (map snd ?mid)) = trim_runes (runes s) @ rev (takeWhile (\<lambda>x. is_space (fst x)) (rev ?mid))" by simp
  from runes_prefix [OF this] show ?thesis by (simp add: trim_space_runes)
qed

lemma trim_runes_map:
  assumes "\<And>x. is_space (fst (f x)) = is_space (fst x)"
  shows "trim_runes (map f rs) = map f (trim_runes rs)"
  by (simp add: trim_runes_def dropWhile_map comp_def assms rev_map)

lemma dropWhile_id: "ys = [] \<or> \<not> P (hd ys) \<Longrightarrow> dropWhile P ys = ys"
  by (cases ys) auto

lemma trim_runes_idem: "trim_runes (trim_runes rs) = trim_runes rs"
proof -
  let ?S = "\<lambda>x. is_space (fst x)"
  define ds where "ds = dropWhile ?S rs"
  define m where "m = dropWhile ?S (rev ds)"
  have t: "trim_runes rs = rev m" by (simp only: trim_runes_def m_def ds_def)
  have split: "rev ds = takeWhile ?S (rev ds) @ m" unfolding m_def by (rule takeWhile_dropWhile_id [symmetric])
  have first: "m = [] \<or> \<not> ?S (hd m)" unfolding m_def using hd_dropWhile by blast
  have "rev m = [] \<or> \<not> ?S (hd (rev m))"
  proof (cases "m = []")
    case False
    then have "ds \<noteq> []" using split by auto
    have "hd (rev m) = last m" using False by (simp add: hd_rev)
    also have "\<dots> = last (rev ds)" using False by (subst split) simp
    also have "\<dots> = hd ds" using \<open>ds \<noteq> []\<close> by (simp add: last_rev)
    finally show ?thesis using hd_dropWhile [of ?S rs] \<open>ds \<noteq> []\<close> unfolding ds_def by simp
  next
    case True
    then show ?thesis by blast
  qed
  from dropWhile_id [of _ ?S, OF this] dropWhile_id [of _ ?S, OF first] show ?thesis
    unfolding t unfolding trim_runes_def by simp
qed

lemma trim_space_idem: "trim_space (trim_space s) = trim_space s"
  by (subst trim_space_runes) (simp add: runes_trim trim_runes_idem trim_space_runes [symmetric])

lemma lower_chunk_space: "is_space (fst (lower_chunk x)) = is_space (fst x)"
  by (simp add: lower_chunk_def lower_rune_def is_space_def)

lemma trim_lower_trim: "trim_space (to_lower (trim_space s)) = to_lower (trim_space s)"
proof -
  have "runes (to_lower (trim_space s)) = map lower_chunk (trim_runes (runes s))" by (simp add: runes_to_lower runes_trim)
  then have "trim_runes (runes (to_lower (trim_space s))) = runes (to_lower (trim_space s))"
    by (simp add: trim_runes_map [OF lower_chunk_space] trim_runes_idem)
  then show ?thesis by (subst trim_space_runes) (simp add: concat_runes)
qed

end
