(* ===== verification/GoTime.thy ===== *)
theory GoTime
  imports GoStrings
begin

text \<open>
  Go's \<open>time.Time\<close> as the program uses it. An instant is the number of nanoseconds since
  1970-01-01 00:00:00 UTC; a location is the offset of local time from UTC, in seconds, at each
  Unix second. The offsets of a named zone come from the tz database, which is not part of the
  repository, so the location is a parameter of every definition that reads a wall clock; a
  zone without transitions is a constant function.

  The calendar is the proleptic Gregorian one, computed with the cycles of 400, 100, 4 and 1
  years that \<open>time.Time.abs\<close> works with.
\<close>

section \<open>The calendar\<close>

definition leap :: "int \<Rightarrow> bool" where
  "leap y \<longleftrightarrow> y mod 4 = 0 \<and> (y mod 100 \<noteq> 0 \<or> y mod 400 = 0)"

text \<open>Days from 1970-01-01 to January 1st of the year.\<close>

definition year_start :: "int \<Rightarrow> int" where
  "year_start y = 365 * (y - 1) + (y - 1) div 4 - (y - 1) div 100 + (y - 1) div 400 - 719162"

text \<open>Days from January 1st to the first of the month, in a year with \<open>l\<close> leap days.\<close>

definition month_start :: "int \<Rightarrow> int \<Rightarrow> int" where
  "month_start l m =
     (if m \<le> 1 then 0 else if m = 2 then 31 else if m = 3 then 59 + l else if m = 4 then 90 + l
      else if m = 5 then 120 + l else if m = 6 then 151 + l else if m = 7 then 181 + l
      else if m = 8 then 212 + l else if m = 9 then 243 + l else if m = 10 then 273 + l
      else if m = 11 then 304 + l else 334 + l)"

definition leap_day :: "int \<Rightarrow> int" where
  "leap_day y = (if leap y then 1 else 0)"

definition year_of_day :: "int \<Rightarrow> int" where
  "year_of_day n =
     (let d = n + 719162; n400 = d div 146097; d1 = d mod 146097;
          n100 = min 3 (d1 div 36524); d2 = d1 - 36524 * n100;
          n4 = d2 div 1461; d3 = d2 mod 1461;
          n1 = min 3 (d3 div 365)
      in 400 * n400 + 100 * n100 + 4 * n4 + n1 + 1)"

definition month_of_yday :: "int \<Rightarrow> int \<Rightarrow> int" where
  "month_of_yday l r =
     (if r < 31 then 1 else if r < 59 + l then 2 else if r < 90 + l then 3 else if r < 120 + l then 4
      else if r < 151 + l then 5 else if r < 181 + l then 6 else if r < 212 + l then 7
      else if r < 243 + l then 8 else if r < 273 + l then 9 else if r < 304 + l then 10
      else if r < 334 + l then 11 else 12)"

definition month_of_day :: "int \<Rightarrow> int" where
  "month_of_day n = (let y = year_of_day n in month_of_yday (leap_day y) (n - year_start y))"

definition mday_of_day :: "int \<Rightarrow> int" where
  "mday_of_day n =
     (let y = year_of_day n in n - year_start y - month_start (leap_day y) (month_of_day n) + 1)"

text \<open>1970-01-01 was a Thursday, and \<open>time.Weekday\<close> counts from Sunday.\<close>

definition weekday_of_day :: "int \<Rightarrow> int" where
  "weekday_of_day n = (n + 4) mod 7"

text \<open>
  \<open>time.Date\<close> normalises a month outside 1 to 12 into the year; days, hours, minutes, seconds and
  nanoseconds outside their range simply carry over, which is what the linear formula does.
\<close>

definition days_of_civil :: "int \<Rightarrow> int \<Rightarrow> int \<Rightarrow> int" where
  "days_of_civil y m d =
     (let y' = y + (m - 1) div 12; m' = (m - 1) mod 12 + 1
      in year_start y' + month_start (leap_day y') m' + d - 1)"

section \<open>Instants and locations\<close>

type_synonym instant = int
type_synonym location = "int \<Rightarrow> int"

definition utc :: location where
  "utc = (\<lambda>_. 0)"

definition second :: int where "second = 1000000000"
definition minute_ns :: int where "minute_ns = 60000000000"

text \<open>The zero \<open>time.Time\<close>, January 1st of the year 1.\<close>

definition zero_time :: instant where
  "zero_time = - 62135596800 * second"

definition unix :: "instant \<Rightarrow> int" where
  "unix t = t div second"

definition local_sec :: "location \<Rightarrow> instant \<Rightarrow> int" where
  "local_sec loc t = unix t + loc (unix t)"

definition day_no :: "location \<Rightarrow> instant \<Rightarrow> int" where
  "day_no loc t = local_sec loc t div 86400"

definition t_year :: "location \<Rightarrow> instant \<Rightarrow> int" where "t_year loc t = year_of_day (day_no loc t)"
definition t_month :: "location \<Rightarrow> instant \<Rightarrow> int" where "t_month loc t = month_of_day (day_no loc t)"
definition t_day :: "location \<Rightarrow> instant \<Rightarrow> int" where "t_day loc t = mday_of_day (day_no loc t)"
definition t_weekday :: "location \<Rightarrow> instant \<Rightarrow> int" where "t_weekday loc t = weekday_of_day (day_no loc t)"
definition t_hour :: "location \<Rightarrow> instant \<Rightarrow> int" where "t_hour loc t = local_sec loc t mod 86400 div 3600"
definition t_minute :: "location \<Rightarrow> instant \<Rightarrow> int" where "t_minute loc t = local_sec loc t mod 3600 div 60"
definition t_second :: "location \<Rightarrow> instant \<Rightarrow> int" where "t_second loc t = local_sec loc t mod 60"
definition t_nsec :: "instant \<Rightarrow> int" where "t_nsec t = t mod second"

text \<open>
  \<open>time.Date(year, month, day, hour, min, sec, nsec, loc)\<close>. The library reads the clock fields
  as if they were UTC, looks the offset up there, and, where that instant is outside the zone
  period it found, looks it up once more.
\<close>

definition time_date :: "location \<Rightarrow> int \<Rightarrow> int \<Rightarrow> int \<Rightarrow> int \<Rightarrow> int \<Rightarrow> int \<Rightarrow> int \<Rightarrow> instant" where
  "time_date loc y mo d h mi s ns =
     (let sec = days_of_civil y mo d * 86400 + h * 3600 + mi * 60 + s + ns div second;
          off = loc sec;
          ux = (if off = 0 then sec else sec - loc (sec - off))
      in ux * second + ns mod second)"

text \<open>\<open>t.AddDate(0, 0, n)\<close>.\<close>

definition add_days :: "location \<Rightarrow> instant \<Rightarrow> int \<Rightarrow> instant" where
  "add_days loc t n =
     time_date loc (t_year loc t) (t_month loc t) (t_day loc t + n)
       (t_hour loc t) (t_minute loc t) (t_second loc t) (t_nsec t)"

text \<open>Arithmetic on \<open>time.Duration\<close>, a 64-bit number of nanoseconds.\<close>

definition dur_mul :: "int \<Rightarrow> int \<Rightarrow> int" where
  "dur_mul a b = wrap64 (wrap64 a * b)"

definition time_sub :: "instant \<Rightarrow> instant \<Rightarrow> int" where
  "time_sub t u = max min_int64 (min max_int64 (t - u))"

text \<open>Go's integer division and the conversions built on it truncate towards zero.\<close>

definition quot :: "int \<Rightarrow> int \<Rightarrow> int" where
  "quot a b = (if (a < 0) = (b < 0) then \<bar>a\<bar> div \<bar>b\<bar> else - (\<bar>a\<bar> div \<bar>b\<bar>))"

text \<open>\<open>d.Round(m)\<close>: to the nearest multiple, halfway values away from zero, saturating.\<close>

definition dur_round :: "int \<Rightarrow> int \<Rightarrow> int" where
  "dur_round d m =
     (if m \<le> 0 then d
      else if d < 0 then
        (let r = (- d) mod m; d1 = wrap64 (d - m + r)
         in if r + r < m then d + r else if d1 < d then d1 else min_int64)
      else
        (let r = d mod m; d1 = wrap64 (d + m - r)
         in if r + r < m then d - r else if d1 > d then d1 else max_int64))"

section \<open>Lemmas\<close>

lemma second_pos [simp]: "0 < second" "second \<noteq> 0"
  by (simp_all add: second_def)

lemma days_of_civil_day_linear: "days_of_civil y m (d + k) = days_of_civil y m d + k"
  by (simp add: days_of_civil_def Let_def)

lemma month_of_yday_range: "1 \<le> month_of_yday l r \<and> month_of_yday l r \<le> 12"
  by (simp add: month_of_yday_def)

lemma month_of_day_range: "1 \<le> month_of_day n \<and> month_of_day n \<le> 12"
  by (simp add: month_of_day_def Let_def month_of_yday_range)

lemma civil_roundtrip: "days_of_civil (year_of_day n) (month_of_day n) (mday_of_day n) = n"
proof -
  have m: "(month_of_day n - 1) div 12 = 0" "(month_of_day n - 1) mod 12 = month_of_day n - 1"
    using month_of_day_range [of n] by auto
  then show ?thesis
    by (simp add: days_of_civil_def mday_of_day_def Let_def)
qed

end
