(* ===== verification/CronExpr.thy ===== *)
theory CronExpr
  imports GoRunes GoTime
begin

text \<open>
  Package cronexpr (\<open>pkg/cronexpr/cronexpr.go\<close>): parsing of five field expressions and the
  question whether an expression falls on a minute. The scan for the next firing is in
  \<open>CronNext\<close>. An error is a value of \<open>cron_error\<close>, one constructor per message of the source.
\<close>

section \<open>Parsing\<close>

record field_bounds =
  fb_min :: int
  fb_max :: int
  fb_name :: string

definition bounds :: "field_bounds list" where
  "bounds =
     [\<lparr>fb_min = 0, fb_max = 59, fb_name = ''minute''\<rparr>,
      \<lparr>fb_min = 0, fb_max = 23, fb_name = ''hour''\<rparr>,
      \<lparr>fb_min = 1, fb_max = 31, fb_name = ''day of month''\<rparr>,
      \<lparr>fb_min = 1, fb_max = 12, fb_name = ''month''\<rparr>,
      \<lparr>fb_min = 0, fb_max = 7, fb_name = ''day of week''\<rparr>]"

definition fieldMinute :: nat where "fieldMinute = 0"
definition fieldHour :: nat where "fieldHour = 1"
definition fieldDayOfMonth :: nat where "fieldDayOfMonth = 2"
definition fieldMonth :: nat where "fieldMonth = 3"
definition fieldDayOfWeek :: nat where "fieldDayOfWeek = 4"

record expr =
  e_raw :: "string list"
  e_sets :: "int set list"
  e_star :: "bool list"

datatype cron_error =
    ExpressionEmpty
  | FieldCount nat
  | FieldEmpty string
  | NoValue string string
  | EmptyElement string
  | InvalidStep string string
  | InvalidRange string string
  | ReversedRange string string
  | InvalidValue string string
  | OutOfBounds string int int string

text \<open>
  The loop \<open>for v := start; v <= end; v += step { set[v] = true }\<close>, over 64-bit integers: the
  addition wraps around.
\<close>

definition fill_guard :: "int \<Rightarrow> int \<times> int set \<Rightarrow> bool" where
  "fill_guard end p \<longleftrightarrow> fst p \<le> end"

definition fill_body :: "int \<Rightarrow> int \<times> int set \<Rightarrow> int \<times> int set" where
  "fill_body step p = (wrap64 (fst p + step), insert (fst p) (snd p))"

definition fill :: "int \<Rightarrow> int \<Rightarrow> int \<Rightarrow> int set \<Rightarrow> int set" where
  "fill start end step S = snd (while (fill_guard end) (fill_body step) (start, S))"

text \<open>The step of an element: what stands after its first slash.\<close>

definition part_step :: "string \<Rightarrow> field_bounds \<Rightarrow> cron_error + (string \<times> int)" where
  "part_step part b = (case split2 (CHR ''/'') part of
      (_, None) \<Rightarrow> Inr (part, 1)
    | (base, Some stepText) \<Rightarrow>
        (case atoi stepText of
           None \<Rightarrow> Inl (InvalidStep (fb_name b) stepText)
         | Some n \<Rightarrow> if n \<le> 0 then Inl (InvalidStep (fb_name b) stepText) else Inr (base, n)))"

text \<open>The \<open>switch\<close> over the shape of an element without its step: its start and its end.\<close>

definition part_range :: "string \<Rightarrow> int \<Rightarrow> field_bounds \<Rightarrow> cron_error + (int \<times> int)" where
  "part_range part step b =
     (if part = ''*'' then Inr (fb_min b, fb_max b)
      else (case split2 (CHR ''-'') part of
        (lo, Some hi) \<Rightarrow>
          (case (atoi lo, atoi hi) of
             (Some a, Some z) \<Rightarrow>
               if a > z then Inl (ReversedRange (fb_name b) part) else Inr (a, z)
           | _ \<Rightarrow> Inl (InvalidRange (fb_name b) part))
      | (_, None) \<Rightarrow>
          (case atoi part of
             None \<Rightarrow> Inl (InvalidValue (fb_name b) part)
           | Some n \<Rightarrow> Inr (n, if step > 1 then fb_max b else n))))"

definition parsePart :: "string \<Rightarrow> field_bounds \<Rightarrow> int set \<Rightarrow> cron_error + int set" where
  "parsePart part b S =
     (if part = [] then Inl (EmptyElement (fb_name b))
      else bind_res (part_step part b) (\<lambda>(base, step).
        bind_res (part_range base step b) (\<lambda>(start, end).
          if start < fb_min b \<or> end > fb_max b
          then Inl (OutOfBounds (fb_name b) (fb_min b) (fb_max b) base)
          else Inr (fill start end step S))))"

fun parse_parts :: "string list \<Rightarrow> field_bounds \<Rightarrow> int set \<Rightarrow> cron_error + int set" where
  "parse_parts [] b S = Inr S"
| "parse_parts (p # ps) b S = bind_res (parsePart p b S) (parse_parts ps b)"

definition parseField :: "string \<Rightarrow> field_bounds \<Rightarrow> cron_error + int set" where
  "parseField field b =
     (if field = [] then Inl (FieldEmpty (fb_name b))
      else bind_res (parse_parts (split_on (CHR '','') field) b {})
        (\<lambda>S. if S = {} then Inl (NoValue (fb_name b) field) else Inr S))"

fun parse_fields :: "string list \<Rightarrow> field_bounds list \<Rightarrow> cron_error + int set list" where
  "parse_fields (f # fs) (b # bs) =
     bind_res (parseField f b) (\<lambda>S. bind_res (parse_fields fs bs) (\<lambda>Ss. Inr (S # Ss)))"
| "parse_fields _ _ = Inr []"

text \<open>7 and 0 are the same day.\<close>

definition fold_sunday :: "int set \<Rightarrow> int set" where
  "fold_sunday S = (if 7 \<in> S then insert 0 (S - {7}) else S)"

definition cron_parse :: "string \<Rightarrow> cron_error + expr" where
  "cron_parse s =
     (let normalized = normalize_space s in
      if normalized = [] then Inl ExpressionEmpty
      else let fs = split_on (CHR '' '') normalized in
        if length fs \<noteq> 5 then Inl (FieldCount (length fs))
        else bind_res (parse_fields fs bounds) (\<lambda>Ss.
          Inr \<lparr>e_raw = fs,
               e_sets = Ss[fieldDayOfWeek := fold_sunday (Ss ! fieldDayOfWeek)],
               e_star = map (\<lambda>f. f = ''*'') fs\<rparr>))"

definition cron_validate :: "string \<Rightarrow> cron_error option" where
  "cron_validate s = (case cron_parse s of Inl e \<Rightarrow> Some e | Inr _ \<Rightarrow> None)"

definition Raw :: "expr \<Rightarrow> string" where
  "Raw e = join '' '' (e_raw e)"

section \<open>Matching\<close>

definition dayMatches :: "expr \<Rightarrow> int \<Rightarrow> int \<Rightarrow> bool" where
  "dayMatches e dayOfMonth dayOfWeek =
     (let domMatch = dayOfMonth \<in> e_sets e ! fieldDayOfMonth;
          dowMatch = dayOfWeek \<in> e_sets e ! fieldDayOfWeek;
          domStar = e_star e ! fieldDayOfMonth;
          dowStar = e_star e ! fieldDayOfWeek
      in if domStar \<and> dowStar then True
         else if domStar then dowMatch
         else if dowStar then domMatch
         else domMatch \<or> dowMatch)"

definition Matches :: "location \<Rightarrow> expr \<Rightarrow> instant \<Rightarrow> bool" where
  "Matches loc e t =
     (if t_minute loc t \<notin> e_sets e ! fieldMinute then False
      else if t_hour loc t \<notin> e_sets e ! fieldHour then False
      else if t_month loc t \<notin> e_sets e ! fieldMonth then False
      else dayMatches e (t_day loc t) (t_weekday loc t))"

section \<open>Describing\<close>

definition isNumber :: "string \<Rightarrow> bool" where
  "isNumber s = (atoi s \<noteq> None)"

text \<open>\<open>fmt.Sprintf("%02d")\<close>: at least two characters, the sign first.\<close>

definition pad2 :: "int \<Rightarrow> string" where
  "pad2 n =
     (if n < 0 then (if - n < 10 then CHR ''-'' # show_int (- n) else show_int n)
      else if n < 10 then CHR ''0'' # show_int n else show_int n)"

definition atoi_or_zero :: "string \<Rightarrow> int" where
  "atoi_or_zero s = (case atoi s of None \<Rightarrow> 0 | Some n \<Rightarrow> n)"

definition clock :: "string \<Rightarrow> string \<Rightarrow> string" where
  "clock hour minute = pad2 (atoi_or_zero hour) @ '':'' @ pad2 (atoi_or_zero minute)"

definition dayNames :: "string list" where
  "dayNames = [''Sunday'', ''Monday'', ''Tuesday'', ''Wednesday'', ''Thursday'', ''Friday'', ''Saturday'', ''Sunday'']"

fun weekday_parts :: "string list \<Rightarrow> string list option" where
  "weekday_parts [] = Some []"
| "weekday_parts (p # ps) =
     (case atoi p of
        None \<Rightarrow> None
      | Some n \<Rightarrow> if n < 0 \<or> n > 7 then None
                 else map_option ((#) (dayNames ! nat n)) (weekday_parts ps))"

definition weekdayNames :: "string \<Rightarrow> string" where
  "weekdayNames dow =
     (case weekday_parts (split_on (CHR '','') dow) of None \<Rightarrow> dow | Some out \<Rightarrow> join '', '' out)"

definition Describe :: "string \<Rightarrow> string" where
  "Describe s = (case cron_parse s of
      Inl _ \<Rightarrow> s
    | Inr e \<Rightarrow>
        (let mi = e_raw e ! 0; hour = e_raw e ! 1; dom = e_raw e ! 2; month = e_raw e ! 3; dow = e_raw e ! 4;
             everyDay = (dom = ''*'' \<and> month = ''*'' \<and> dow = ''*'')
         in if mi = ''*'' \<and> hour = ''*'' \<and> everyDay then ''every minute''
            else if has_prefix mi ''*/'' \<and> hour = ''*'' \<and> everyDay
              then ''every '' @ drop 2 mi @ '' minutes''
            else if hour = ''*'' \<and> everyDay \<and> isNumber mi then ''hourly at minute '' @ mi
            else if everyDay \<and> isNumber mi \<and> isNumber hour then ''daily at '' @ clock hour mi
            else if dom = ''*'' \<and> month = ''*'' \<and> isNumber mi \<and> isNumber hour
              then ''at '' @ clock hour mi @ '' on '' @ weekdayNames dow
            else if month = ''*'' \<and> dow = ''*'' \<and> isNumber mi \<and> isNumber hour \<and> isNumber dom
              then ''at '' @ clock hour mi @ '' on day '' @ dom @ '' of the month''
            else Raw e))"

end
