(* ===== verification/CronFacts.thy ===== *)
theory CronFacts
  imports CronExpr
begin

text \<open>
  What the parser of \<open>CronExpr\<close> accepts and what it makes of it: the loop that fills a set
  stops and fills exactly the stepped range unless the step is so large that the addition
  overflows; an accepted expression is well formed; printing and parsing the documented
  grammar gives its reading back; the normalised text of an accepted expression parses to the
  same expression.
\<close>

section \<open>The loop\<close>

text \<open>The values a range with a step denotes.\<close>

definition stepped :: "int \<Rightarrow> int \<Rightarrow> int \<Rightarrow> int set" where
  "stepped start end step = {v. start \<le> v \<and> v \<le> end \<and> step dvd (v - start)}"

definition fill_inv :: "int \<Rightarrow> int \<Rightarrow> int \<Rightarrow> int set \<Rightarrow> int \<times> int set \<Rightarrow> bool" where
  "fill_inv start end step S p \<longleftrightarrow>
     start \<le> fst p \<and> step dvd (fst p - start) \<and> (fst p = start \<or> fst p - step \<le> end)
     \<and> snd p = S \<union> {v. start \<le> v \<and> v < fst p \<and> step dvd (v - start)}"

lemma dvd_gap:
  assumes "0 < (step::int)" and "step dvd (v - s)" and "step dvd (w - s)" and "v < w"
  shows "v \<le> w - step"
proof -
  have "step dvd ((w - s) - (v - s))" using assms(2,3) by (rule dvd_diff[rotated])
  then have "step dvd (w - v)" by simp
  with assms(1,4) have "step \<le> w - v" by (simp add: zdvd_imp_le)
  then show ?thesis by simp
qed

lemma fill_inv_step:
  assumes inv: "fill_inv start end step S p" and g: "fill_guard end p"
    and step: "0 < step" and small: "end + step \<le> max_int64" and low: "min_int64 \<le> start"
  shows "fill_inv start end step S (fill_body step p)" "fst (fill_body step p) = fst p + step"
proof -
  have i: "start \<le> fst p" "step dvd (fst p - start)"
      "snd p = S \<union> {v. start \<le> v \<and> v < fst p \<and> step dvd (v - start)}" and le: "fst p \<le> end"
    using inv g by (auto simp: fill_inv_def fill_guard_def)
  have "int64 (fst p + step)"
    using i(1) le step small low by (auto simp: int64_def)
  then show eq: "fst (fill_body step p) = fst p + step"
    by (simp add: fill_body_def)
  have "step dvd (fst p + step - start)"
    using i(2) by (metis add_diff_eq add.commute dvd_add_triv_left_iff)
  moreover have "{v. start \<le> v \<and> v < fst p + step \<and> step dvd (v - start)}
      = insert (fst p) {v. start \<le> v \<and> v < fst p \<and> step dvd (v - start)}"
    using i step dvd_gap [OF step, of "fst p" start] by force
  ultimately show "fill_inv start end step S (fill_body step p)"
    using i le step eq by (auto simp: fill_inv_def fill_body_def)
qed

lemma fill_small:
  assumes step: "0 < step" and small: "end + step \<le> max_int64" and low: "min_int64 \<le> start"
  shows "fill start end step S = S \<union> stepped start end step"
proof -
  have "snd (while (fill_guard end) (fill_body step) (start, S)) = S \<union> stepped start end step"
  proof (rule while_rule [where P = "fill_inv start end step S"
        and r = "measure (\<lambda>p. nat (end + 1 - fst p))"])
    show "fill_inv start end step S (start, S)" by (auto simp: fill_inv_def)
  next
    show "fill_inv start end step S p \<Longrightarrow> fill_guard end p \<Longrightarrow> fill_inv start end step S (fill_body step p)" for p
      using fill_inv_step(1) assms by blast
  next
    fix p assume inv: "fill_inv start end step S p" and g: "\<not> fill_guard end p"
    have "v \<le> end" if "start \<le> v" "v < fst p" "step dvd (v - start)" for v
      using inv that dvd_gap [OF step that(3), of "fst p"] by (auto simp: fill_inv_def)
    with inv g show "snd p = S \<union> stepped start end step"
      by (auto simp: fill_inv_def fill_guard_def stepped_def)
  next
    show "wf (measure (\<lambda>p. nat (end + 1 - fst p)))" by simp
  next
    fix p assume "fill_inv start end step S p" and g: "fill_guard end p"
    then have "fst (fill_body step p) = fst p + step"
      using fill_inv_step(2) assms by blast
    with g step show "(fill_body step p, p) \<in> measure (\<lambda>p. nat (end + 1 - fst p))"
      by (auto simp: fill_guard_def)
  qed
  then show ?thesis by (simp add: fill_def)
qed

text \<open>A step beyond the range leaves the start alone.\<close>

lemma fill_once:
  assumes "start \<le> end" and "end < start + step" and "start + step \<le> max_int64" and "min_int64 \<le> start" and "0 < step"
  shows "fill start end step S = S \<union> stepped start end step"
proof -
  have "wrap64 (start + step) = start + step"
    using assms by (intro wrap64_id) (auto simp: int64_def)
  moreover have "x = start" if x: "start \<le> x" "x \<le> end" "step dvd (x - start)" for x
  proof (rule ccontr)
    assume "x \<noteq> start"
    with x have "step \<le> x - start" by (intro zdvd_imp_le) auto
    with x(2) assms(2) show False by simp
  qed
  then have "stepped start end step = {start}" using assms(1) by (auto simp: stepped_def)
  ultimately show ?thesis
    using assms(1,2) by (simp add: fill_def fill_guard_def fill_body_def while_unfold)
qed

lemma fill_steps:
  assumes "0 < step" and "start \<le> end" and "start + step \<le> max_int64" and "0 \<le> start" and "end \<le> 59"
  shows "fill start end step S = S \<union> stepped start end step"
proof (cases "end + step \<le> max_int64")
  case True
  with assms show ?thesis by (intro fill_small) (auto simp: min_int64_def)
next
  case False
  with assms show ?thesis by (intro fill_once) (auto simp: min_int64_def max_int64_def)
qed

lemma fill_unit: "end < max_int64 \<Longrightarrow> min_int64 \<le> start \<Longrightarrow> fill start end 1 S = S \<union> {start..end}"
  by (auto simp: fill_small stepped_def)

text \<open>The facts that evaluate the parser on a literal.\<close>

lemmas cron_eval = cron_parse_def string_eval atoi_def bounds_def parseField_def parsePart_def
  part_step_def part_range_def is_digit_def digit_val_def int64_def min_int64_def max_int64_def
  fieldMinute_def fieldHour_def fieldDayOfMonth_def fieldMonth_def fieldDayOfWeek_def

text \<open>The loop stops on every argument a parsed element can pass, also where the addition wraps.\<close>

definition fill_far :: "int \<Rightarrow> int \<Rightarrow> int \<Rightarrow> bool" where
  "fill_far end step v \<longleftrightarrow> v > end \<or> (- 118 \<le> v \<and> v \<le> end)
     \<or> (max_int64 - step < v - step + 18446744073709551616 \<and> v - step + 18446744073709551616 \<le> end)"

definition fill_rank :: "int \<Rightarrow> int \<Rightarrow> int \<Rightarrow> nat" where
  "fill_rank end step v =
     (if v > end then 0
      else if v < - 4611686018427387904 then 2 * nat (v - step + 18446744073709551616) + 1
      else if v \<le> max_int64 - step then 1
      else 2 * nat v + 2)"

lemma fill_far_step:
  assumes far: "fill_far end step v" and g: "v \<le> end" and "0 \<le> end" "end \<le> 59"
    and step: "max_int64 - 59 \<le> step" "step \<le> max_int64"
  shows "fill_far end step (wrap64 (v + step)) \<and> fill_rank end step (wrap64 (v + step)) < fill_rank end step v"
proof (cases "- 118 \<le> v")
  case True
  show ?thesis
  proof (cases "v + step \<le> max_int64")
    case t: True
    then have "wrap64 (v + step) = v + step"
      using True step by (intro wrap64_id) (auto simp: int64_def max_int64_def min_int64_def)
    with t True g assms show ?thesis
      by (auto simp: fill_far_def fill_rank_def max_int64_def)
  next
    case False
    then have "wrap64 (v + step) = v + step - 18446744073709551616"
      using g assms by (intro wrap64_over) (auto simp: max_int64_def)
    with False True g assms show ?thesis
      by (auto simp: fill_far_def fill_rank_def max_int64_def)
  qed
next
  case False
  then have "max_int64 - step < v - step + 18446744073709551616" "v - step + 18446744073709551616 \<le> end"
    using far g by (auto simp: fill_far_def)
  moreover from this have "wrap64 (v + step) = v + step"
    using step assms by (intro wrap64_id) (auto simp: int64_def max_int64_def min_int64_def)
  ultimately show ?thesis
    using False g assms by (auto simp: fill_far_def fill_rank_def max_int64_def)
qed

lemma fill_returns:
  assumes "0 \<le> start" and "0 \<le> end" "end \<le> 59" and step: "0 < step" "step \<le> max_int64"
  shows "\<exists>p. while_option (fill_guard end) (fill_body step) (start, S) = Some p"
proof (cases "end + step \<le> max_int64")
  case True
  show ?thesis
  proof (rule measure_while_option_Some [where P = "fill_inv start end step S" and f = "\<lambda>p. nat (end + 1 - fst p)"])
    fix p assume a: "fill_inv start end step S p" "fill_guard end p"
    have "min_int64 \<le> start" using assms(1) by (simp add: min_int64_def)
    with fill_inv_step [OF a step(1) True] a step
    show "fill_inv start end step S (fill_body step p)
        \<and> nat (end + 1 - fst (fill_body step p)) < nat (end + 1 - fst p)"
      by (auto simp: fill_guard_def)
  qed (auto simp: fill_inv_def)
next
  case False
  show ?thesis
  proof (rule measure_while_option_Some [where P = "\<lambda>p. fill_far end step (fst p)" and f = "\<lambda>p. fill_rank end step (fst p)"])
    fix p :: "int \<times> int set" assume "fill_far end step (fst p)" "fill_guard end p"
    then show "fill_far end step (fst (fill_body step p))
        \<and> fill_rank end step (fst (fill_body step p)) < fill_rank end step (fst p)"
      using fill_far_step [of "end" step "fst p"] assms False
      by (simp add: fill_guard_def fill_body_def)
  qed (use assms in \<open>auto simp: fill_far_def\<close>)
qed


text \<open>The set only grows, and the start is in it; where the addition wraps around, so is a value below the start.\<close>

lemma fill_grows:
  assumes "0 \<le> start" and "0 \<le> end" "end \<le> 59" and "0 < step" "step \<le> max_int64"
  shows "S \<subseteq> fill start end step S"
    and "start \<le> end \<Longrightarrow> start \<in> fill start end step S"
    and "start \<le> end \<Longrightarrow> max_int64 < start + step \<Longrightarrow> start + 2 * step - 18446744073709551616 \<in> fill start end step S"
proof -
  from fill_returns [OF assms] obtain q where q: "while_option (fill_guard end) (fill_body step) (start, S) = Some q" by blast
  then have fq: "fill start end step S = snd q" by (simp add: fill_def while_def)
  have stop: "\<not> fill_guard end q" using q by (rule while_option_stop)
  show "S \<subseteq> fill start end step S"
    unfolding fq by (rule while_option_rule [where P = "\<lambda>p. S \<subseteq> snd p", OF _ q]) (auto simp: fill_body_def)
  have reach: "x \<in> snd q" if P0: "P (start, S)" and step: "\<And>p. P p \<Longrightarrow> P (fill_body step p) \<or> x \<in> snd (fill_body step p)"
    and go: "\<And>p. P p \<Longrightarrow> fill_guard end p" for P x
  proof -
    have "P q \<or> x \<in> snd q"
      by (rule while_option_rule [where P = "\<lambda>p. P p \<or> x \<in> snd p", OF _ q]) (use P0 step in \<open>auto simp: fill_body_def\<close>)
    with go stop show ?thesis by blast
  qed
  show "start \<in> fill start end step S" if "start \<le> end"
    unfolding fq by (rule reach [where P = "\<lambda>p. p = (start, S)"]) (use that in \<open>auto simp: fill_body_def fill_guard_def\<close>)
  assume le: "start \<le> end" and over: "max_int64 < start + step"
  let ?u = "start + step - 18446744073709551616" and ?v = "start + 2 * step - 18446744073709551616"
  have u: "wrap64 (start + step) = ?u" using over assms le by (intro wrap64_over) (auto simp: max_int64_def)
  have v: "wrap64 (?u + step) = ?v"
    using over assms le by (subst wrap64_id) (auto simp: int64_def min_int64_def max_int64_def)
  have small: "?u \<le> end" "?v \<le> end" using assms le by (auto simp: max_int64_def)
  show "?v \<in> fill start end step S"
    unfolding fq
    by (rule reach [where P = "\<lambda>p. fst p \<in> {start, ?u, ?v}"])
      (use le small u v in \<open>auto simp: fill_body_def fill_guard_def\<close>)
qed

section \<open>Accepted expressions are well formed\<close>

text \<open>A step that leaves room for one more addition below the largest 64-bit integer.\<close>

definition small_step :: "string \<Rightarrow> bool" where
  "small_step p = (case split2 (CHR ''/'') p of
      (_, None) \<Rightarrow> True
    | (_, Some t) \<Rightarrow> (case atoi t of None \<Rightarrow> True | Some n \<Rightarrow> n \<le> max_int64 - 59))"

definition small_steps :: "string \<Rightarrow> bool" where
  "small_steps s = list_all (\<lambda>f. list_all small_step (split_on (CHR '','') f)) (split_on (CHR '' '') (normalize_space s))"

definition in_bounds :: "field_bounds \<Rightarrow> int set \<Rightarrow> bool" where
  "in_bounds b S \<longleftrightarrow> S \<noteq> {} \<and> S \<subseteq> {fb_min b .. fb_max b}"

definition wf_expr :: "expr \<Rightarrow> bool" where
  "wf_expr e \<longleftrightarrow> length (e_raw e) = 5 \<and> length (e_sets e) = 5 \<and> length (e_star e) = 5
     \<and> in_bounds (bounds ! fieldMinute) (e_sets e ! fieldMinute)
     \<and> in_bounds (bounds ! fieldHour) (e_sets e ! fieldHour)
     \<and> in_bounds (bounds ! fieldDayOfMonth) (e_sets e ! fieldDayOfMonth)
     \<and> in_bounds (bounds ! fieldMonth) (e_sets e ! fieldMonth)
     \<and> e_sets e ! fieldDayOfWeek \<noteq> {} \<and> e_sets e ! fieldDayOfWeek \<subseteq> {0..6}"

lemmas field_index = fieldMinute_def fieldHour_def fieldDayOfMonth_def fieldMonth_def fieldDayOfWeek_def

definition good_bounds :: "field_bounds \<Rightarrow> bool" where
  "good_bounds b \<longleftrightarrow> 0 \<le> fb_min b \<and> fb_min b \<le> fb_max b \<and> fb_max b \<le> 59"

lemma good_bounds_all: "b \<in> set bounds \<Longrightarrow> good_bounds b"
  by (auto simp: bounds_def good_bounds_def)

lemma part_step_pos: "part_step p b = Inr (base, n) \<Longrightarrow> 0 < n \<and> n \<le> max_int64 \<and> (small_step p \<longrightarrow> n \<le> max_int64 - 59)"
  using atoi_int64
  by (fastforce simp: part_step_def small_step_def int64_def max_int64_def split: prod.splits option.splits if_splits)

lemma parsePart_fill:
  assumes "parsePart p b S = Inr T" and "good_bounds b"
  obtains base n start "end" where "part_step p b = Inr (base, n)" "part_range base n b = Inr (start, end)"
    "fb_min b \<le> start" "end \<le> fb_max b" "T = fill start end n S"
  using assms by (auto simp: parsePart_def bind_res_Inr_iff split: if_splits)

lemma parsePart_small:
  assumes "parsePart p b S = Inr T" and b: "good_bounds b" and "small_step p"
  shows "\<exists>start end n. 0 < n \<and> fb_min b \<le> start \<and> end \<le> fb_max b \<and> T = S \<union> stepped start end n"
proof -
  from assms(1) b obtain base n start "end" where p: "part_step p b = Inr (base, n)"
    and lo: "fb_min b \<le> start" and hi: "end \<le> fb_max b" and T: "T = fill start end n S"
    by (rule parsePart_fill)
  from part_step_pos [OF p] assms(3) have n: "0 < n" "n \<le> max_int64 - 59" by auto
  have "T = S \<union> stepped start end n"
    unfolding T using n lo hi b by (intro fill_small) (auto simp: good_bounds_def min_int64_def)
  with n lo hi show ?thesis by blast
qed

lemma parse_parts_bounds:
  assumes "parse_parts ps b S = Inr T" and "good_bounds b" and "list_all small_step ps"
    and "S \<subseteq> {fb_min b .. fb_max b}"
  shows "T \<subseteq> {fb_min b .. fb_max b}"
  using assms
proof (induction ps b S rule: parse_parts.induct)
  case (1 b S)
  then show ?case by simp
next
  case (2 p ps b S)
  then obtain S' where S': "parsePart p b S = Inr S'" "parse_parts ps b S' = Inr T"
    by (auto simp: bind_res_Inr_iff)
  with parsePart_small [OF S'(1)] 2 have "S' \<subseteq> {fb_min b .. fb_max b}"
    by (fastforce simp: stepped_def)
  with 2 S' show ?case by simp
qed

lemma parseField_bounds:
  assumes "parseField f b = Inr S" and "good_bounds b" and "list_all small_step (split_on (CHR '','') f)"
  shows "in_bounds b S"
  using assms parse_parts_bounds [of "split_on (CHR '','') f" b "{}"]
  by (auto simp: parseField_def in_bounds_def bind_res_Inr_iff split: if_splits)

lemma parse_fields_nth:
  assumes "parse_fields fs bs = Inr Ss" and "i < length fs" and "i < length bs"
  shows "i < length Ss \<and> parseField (fs ! i) (bs ! i) = Inr (Ss ! i)"
  using assms
proof (induction fs bs arbitrary: Ss i rule: parse_fields.induct)
  case (1 f fs b bs)
  then show ?case by (cases i) (auto simp: bind_res_Inr_iff)
qed auto

lemma parse_fields_length: "parse_fields fs bs = Inr Ss \<Longrightarrow> length Ss = min (length fs) (length bs)"
  by (induction fs bs arbitrary: Ss rule: parse_fields.induct) (auto simp: bind_res_Inr_iff)

lemma cron_parse_InrE:
  assumes "cron_parse s = Inr e"
  obtains fs Ss where "fs = split_on (CHR '' '') (normalize_space s)" "length fs = 5" "length Ss = 5"
    "parse_fields fs bounds = Inr Ss" "e_raw e = fs"
    "e_sets e = Ss[fieldDayOfWeek := fold_sunday (Ss ! fieldDayOfWeek)]"
    "e_star e = map (\<lambda>f. f = ''*'') fs"
  using assms parse_fields_length
  by (force simp: cron_parse_def Let_def bind_res_Inr_iff bounds_def split: if_splits)

lemma length_bounds [simp]: "length bounds = 5"
  by (simp add: bounds_def)

lemma cron_parse_wf:
  assumes "cron_parse s = Inr e" and "small_steps s"
  shows "wf_expr e"
proof -
  from assms(1) obtain fs Ss where fs: "fs = split_on (CHR '' '') (normalize_space s)"
    and len: "length fs = 5" "length Ss = 5" and pf: "parse_fields fs bounds = Inr Ss" and e: "e_raw e = fs"
    "e_sets e = Ss[fieldDayOfWeek := fold_sunday (Ss ! fieldDayOfWeek)]" "e_star e = map (\<lambda>f. f = ''*'') fs"
    by (rule cron_parse_InrE)
  have b: "in_bounds (bounds ! i) (Ss ! i)" if "i < 5" for i
  proof (rule parseField_bounds)
    show "parseField (fs ! i) (bounds ! i) = Inr (Ss ! i)"
      using parse_fields_nth [OF pf, of i] that len by simp
    show "good_bounds (bounds ! i)" using that by (intro good_bounds_all nth_mem) simp
    show "list_all small_step (split_on (CHR '','') (fs ! i))"
      using assms(2) fs len that by (auto simp: small_steps_def list_all_iff)
  qed
  have dow: "Ss ! 4 \<noteq> {} \<and> Ss ! 4 \<subseteq> {0..7}"
    using b [of 4] by (simp add: in_bounds_def bounds_def)
  have "fold_sunday (Ss ! 4) \<noteq> {}" using dow by (auto simp: fold_sunday_def)
  moreover have "fold_sunday (Ss ! 4) \<subseteq> {0..6}"
  proof
    fix x assume "x \<in> fold_sunday (Ss ! 4)"
    then have "x = 0 \<or> (x \<in> Ss ! 4 \<and> x \<noteq> 7)" by (auto simp: fold_sunday_def split: if_splits)
    with dow show "x \<in> {0..6}" by force
  qed
  ultimately show ?thesis
    using b [of 0] b [of 1] b [of 2] b [of 3] len e
    by (simp add: wf_expr_def field_index)
qed

section \<open>The documented grammar\<close>

text \<open>
  The grammar of the package comment as a datatype: a field is a list of elements, an element
  a range with an optional step. \<open>denotes\<close> is its reading, \<open>show_*\<close> its text.
\<close>

datatype crange = All | One nat | Span nat nat
type_synonym element = "crange \<times> nat option"

fun show_range :: "crange \<Rightarrow> string" where
  "show_range All = ''*''"
| "show_range (One n) = show_nat n"
| "show_range (Span a z) = show_nat a @ CHR ''-'' # show_nat z"

fun show_element :: "element \<Rightarrow> string" where
  "show_element (r, None) = show_range r"
| "show_element (r, Some s) = show_range r @ CHR ''/'' # show_nat s"

definition show_field :: "element list \<Rightarrow> string" where
  "show_field els = join '','' (map show_element els)"

fun step_of :: "element \<Rightarrow> int" where
  "step_of (r, None) = 1"
| "step_of (r, Some s) = int s"

fun range_of :: "field_bounds \<Rightarrow> element \<Rightarrow> int \<times> int" where
  "range_of b (All, s) = (fb_min b, fb_max b)"
| "range_of b (One n, s) = (int n, if step_of (One n, s) > 1 then fb_max b else int n)"
| "range_of b (Span a z, s) = (int a, int z)"

definition denotes :: "field_bounds \<Rightarrow> element \<Rightarrow> int set" where
  "denotes b el = stepped (fst (range_of b el)) (snd (range_of b el)) (step_of el)"

text \<open>What the grammar allows: a range inside the field's and a positive step that is an \<open>int\<close>.\<close>

definition written :: "field_bounds \<Rightarrow> element \<Rightarrow> bool" where
  "written b el \<longleftrightarrow>
     fb_min b \<le> fst (range_of b el) \<and> fst (range_of b el) \<le> snd (range_of b el)
     \<and> snd (range_of b el) \<le> fb_max b \<and> 0 < step_of el \<and> step_of el \<le> max_int64"

text \<open>An element whose first addition stays below 2^63; every step up to 2^63 - 60 does.\<close>

definition wf_element :: "field_bounds \<Rightarrow> element \<Rightarrow> bool" where
  "wf_element b el \<longleftrightarrow> written b el \<and> fst (range_of b el) + step_of el \<le> max_int64"

lemma split2_no: "c \<notin> set s \<Longrightarrow> split2 c s = (s, None)"
proof -
  assume "c \<notin> set s"
  then have d: "dropWhile (\<lambda>x. x \<noteq> c) s = []" by (auto simp: dropWhile_eq_Nil_conv)
  show ?thesis unfolding split2_def d by simp
qed

lemma split2_at: "c \<notin> set s \<Longrightarrow> split2 c (s @ c # t) = (s, Some t)"
  by (simp add: split2_def mem_takeWhile_append mem_dropWhile_append)

lemma show_range_no: "c \<in> {CHR ''/'', CHR '','', CHR '' ''} \<Longrightarrow> c \<notin> set (show_range r)"
  by (cases r) (auto dest: show_nat_no [of "CHR ''/''"] show_nat_no [of "CHR '',''"] show_nat_no [of "CHR '' ''"]
      simp: show_nat_no)

lemma show_range_not_Nil [simp]: "show_range r \<noteq> []"
  by (cases r) auto

lemma show_element_not_Nil [simp]: "show_element el \<noteq> []"
  by (cases el rule: show_element.cases) auto

lemma show_element_no_comma: "CHR '','' \<notin> set (show_element el)"
  using show_range_no [of "CHR '',''"] by (cases el rule: show_element.cases) (auto simp: show_nat_no)

lemma part_step_show:
  assumes "0 < step_of el" and "step_of el \<le> max_int64"
  shows "part_step (show_element el) b = Inr (show_range (fst el), step_of el)"
proof (cases el rule: show_element.cases)
  case (1 r)
  then show ?thesis using show_range_no [of "CHR ''/''" r] by (simp add: part_step_def split2_no)
next
  case (2 r s)
  then show ?thesis
    using assms show_range_no [of "CHR ''/''" r] by (simp add: part_step_def split2_at atoi_show_nat)
qed

lemma show_nat_not_star: "show_nat n \<noteq> ''*''"
  using show_nat_no [of "CHR ''*''" n] by auto

lemma part_range_show:
  assumes "fst (range_of b (r, s)) \<le> snd (range_of b (r, s))" and "snd (range_of b (r, s)) \<le> 59"
  shows "part_range (show_range r) (step_of (r, s)) b = Inr (range_of b (r, s))"
proof (cases r)
  case All
  then show ?thesis by (simp add: part_range_def)
next
  case (One n)
  with assms have "int n \<le> max_int64" by (simp add: max_int64_def split: if_splits)
  with One show ?thesis
    by (simp add: part_range_def show_nat_not_star split2_no show_nat_no atoi_show_nat)
next
  case (Span a z)
  with assms have "int a \<le> max_int64" "int z \<le> max_int64" by (auto simp: max_int64_def)
  moreover have "show_nat a @ CHR ''-'' # show_nat z \<noteq> ''*''"
    by (cases "show_nat a") auto
  ultimately show ?thesis
    using Span assms by (simp add: part_range_def split2_at show_nat_no atoi_show_nat)
qed

text \<open>The set the loops of a list of elements build up.\<close>

definition filled :: "field_bounds \<Rightarrow> element list \<Rightarrow> int set \<Rightarrow> int set" where
  "filled b els S = fold (\<lambda>el. fill (fst (range_of b el)) (snd (range_of b el)) (step_of el)) els S"

lemma parsePart_show:
  assumes "written b el" and "good_bounds b"
  shows "parsePart (show_element el) b S = Inr (filled b [el] S)"
proof -
  obtain r s where el: "el = (r, s)" by (cases el)
  have w: "fb_min b \<le> fst (range_of b el)" "fst (range_of b el) \<le> snd (range_of b el)"
     "snd (range_of b el) \<le> fb_max b" "0 < step_of el" "step_of el \<le> max_int64" "fb_max b \<le> 59"
    using assms by (auto simp: written_def good_bounds_def)
  have ps: "part_step (show_element el) b = Inr (show_range r, step_of el)"
    using part_step_show [of el b] w el by simp
  have pr: "part_range (show_range r) (step_of el) b = Inr (range_of b el)"
    using part_range_show [of b r s] w el by simp
  show ?thesis
    using w by (cases "range_of b el") (simp add: parsePart_def ps pr filled_def)
qed

lemma parse_parts_show:
  assumes "\<forall>el \<in> set els. written b el" and "good_bounds b"
  shows "parse_parts (map show_element els) b S = Inr (filled b els S)"
  using assms by (induction els arbitrary: S) (auto simp: parsePart_show filled_def)

lemma filled_wf:
  assumes "\<forall>el \<in> set els. wf_element b el" and "good_bounds b"
  shows "filled b els S = S \<union> (\<Union>el \<in> set els. denotes b el)"
  using assms
proof (induction els arbitrary: S)
  case Nil
  then show ?case by (simp add: filled_def)
next
  case (Cons el els)
  have "fill (fst (range_of b el)) (snd (range_of b el)) (step_of el) S = S \<union> denotes b el"
    unfolding denotes_def using Cons.prems by (intro fill_steps) (auto simp: wf_element_def written_def good_bounds_def)
  with Cons.IH [of "S \<union> denotes b el"] Cons.prems show ?case by (simp add: filled_def Un_assoc)
qed

lemma filled_grows:
  assumes "\<forall>el \<in> set els. written b el" and "good_bounds b"
  shows "S \<subseteq> filled b els S \<and> (\<forall>el\<in>set els. fst (range_of b el) \<in> filled b els S
    \<and> (\<not> wf_element b el \<longrightarrow> fst (range_of b el) + 2 * step_of el - 18446744073709551616 \<in> filled b els S))"
  using assms
proof (induction els arbitrary: S)
  case Nil
  then show ?case by (simp add: filled_def)
next
  case (Cons el els)
  let ?T = "fill (fst (range_of b el)) (snd (range_of b el)) (step_of el) S"
  have el: "0 \<le> fst (range_of b el)" "0 \<le> snd (range_of b el)" "snd (range_of b el) \<le> 59" "0 < step_of el" "step_of el \<le> max_int64"
    "fst (range_of b el) \<le> snd (range_of b el)" "written b el"
    using Cons.prems by (auto simp: written_def good_bounds_def)
  have T: "S \<subseteq> ?T" "fst (range_of b el) \<in> ?T"
    "\<not> wf_element b el \<Longrightarrow> fst (range_of b el) + 2 * step_of el - 18446744073709551616 \<in> ?T"
    using fill_grows [OF el(1-5)] el(6,7) by (auto simp: wf_element_def)
  from Cons have "?T \<subseteq> filled b els ?T \<and> (\<forall>el\<in>set els. fst (range_of b el) \<in> filled b els ?T
    \<and> (\<not> wf_element b el \<longrightarrow> fst (range_of b el) + 2 * step_of el - 18446744073709551616 \<in> filled b els ?T))" by simp
  moreover have "filled b (el # els) S = filled b els ?T" by (simp add: filled_def)
  ultimately show ?case using T by auto
qed

lemma show_field_no: "c \<in> {CHR '' ''} \<Longrightarrow> c \<notin> set (show_field els)"
proof -
  have "CHR '' '' \<notin> set (show_element el)" for el
    using show_range_no [of "CHR '' ''"] by (cases el rule: show_element.cases) (auto simp: show_nat_no)
  then show "c \<in> {CHR '' ''} \<Longrightarrow> c \<notin> set (show_field els)"
    using set_join_subset [of "'',''" "map show_element els"] by (auto simp: show_field_def)
qed

lemma parseField_show:
  assumes "\<forall>el \<in> set els. written b el" and "good_bounds b" and "els \<noteq> []"
  shows "parseField (show_field els) b = Inr (filled b els {})"
proof -
  have "split_on (CHR '','') (show_field els) = map show_element els"
    unfolding show_field_def using show_element_no_comma assms(3) by (intro split_on_join) auto
  moreover have "show_field els \<noteq> []"
    using assms(3) by (auto simp: show_field_def join_eq_Nil_iff)
  moreover have "filled b els {} \<noteq> {}"
    using filled_grows [OF assms(1,2), of "{}"] assms(3) by (cases els) auto
  ultimately show ?thesis
    using parse_parts_show [OF assms(1,2), of "{}"] by (simp add: parseField_def)
qed

section \<open>The characters of an accepted expression\<close>

definition cron_char :: "char \<Rightarrow> bool" where
  "cron_char c \<longleftrightarrow> is_digit c \<or> c \<in> set ''+-*/,''"

lemma cron_char_ascii_word: "w \<noteq> [] \<Longrightarrow> list_all cron_char w \<Longrightarrow> ascii_word w"
  by (auto simp: ascii_word_def list_all_iff cron_char_def ascii_def is_space_def is_digit_def)

lemma atoi_chars: "atoi s = Some n \<Longrightarrow> list_all cron_char s"
  by (auto simp: atoi_def Let_def cron_char_def list_all_iff split: if_splits list.splits prod.splits)

lemma split2_set:
  "split2 c s = (a, None) \<Longrightarrow> s = a"
  "split2 c s = (a, Some t) \<Longrightarrow> s = a @ c # t"
proof -
  have s: "s = takeWhile (\<lambda>x. x \<noteq> c) s @ dropWhile (\<lambda>x. x \<noteq> c) s" by simp
  show "split2 c s = (a, None) \<Longrightarrow> s = a" by (auto simp: split2_def split: list.splits)
  assume eq: "split2 c s = (a, Some t)"
  then obtain x where d: "dropWhile (\<lambda>x. x \<noteq> c) s = x # t" and a: "a = takeWhile (\<lambda>x. x \<noteq> c) s"
    by (auto simp: split2_def split: list.splits)
  have "x = c" using hd_dropWhile [of "\<lambda>x. x \<noteq> c" s] d by simp
  then show "s = a @ c # t" using s unfolding d a [symmetric] by simp
qed

lemma part_range_chars: "part_range p n b = Inr r \<Longrightarrow> list_all cron_char p"
  by (auto simp: part_range_def cron_char_def dest!: split2_set atoi_chars split: if_splits prod.splits option.splits)

lemma parsePart_chars:
  assumes "parsePart p b S = Inr T"
  shows "list_all cron_char p"
proof -
  obtain base n r where ps: "part_step p b = Inr (base, n)" and pr: "part_range base n b = Inr r"
    using assms by (auto simp: parsePart_def bind_res_Inr_iff split: if_splits)
  from ps part_range_chars [OF pr] show ?thesis
    by (auto simp: part_step_def cron_char_def dest!: split2_set atoi_chars split: prod.splits option.splits if_splits)
qed

lemma parse_parts_chars: "parse_parts ps b S = Inr T \<Longrightarrow> \<forall>p \<in> set ps. list_all cron_char p"
  by (induction ps b S rule: parse_parts.induct) (auto simp: bind_res_Inr_iff dest: parsePart_chars)

lemma parseField_chars:
  assumes "parseField f b = Inr S"
  shows "ascii_word f"
proof -
  have "\<forall>p \<in> set (split_on (CHR '','') f). list_all cron_char p" and ne: "f \<noteq> []"
    using assms parse_parts_chars by (auto simp: parseField_def bind_res_Inr_iff split: if_splits)
  then have "list_all cron_char f"
    using set_join_subset [of "'',''" "split_on (CHR '','') f"]
    by (fastforce simp: join_split_on list_all_iff cron_char_def)
  with ne show ?thesis by (rule cron_char_ascii_word)
qed

lemma cron_parse_words:
  assumes "cron_parse s = Inr e"
  shows "\<forall>w \<in> set (e_raw e). ascii_word w"
proof -
  from assms obtain fs Ss where len: "length fs = 5" and pf: "parse_fields fs bounds = Inr Ss" and e: "e_raw e = fs"
    by (rule cron_parse_InrE)
  have "ascii_word (fs ! i)" if "i < 5" for i
    using parse_fields_nth [OF pf, of i] that len parseField_chars by auto
  with len e show ?thesis by (auto simp: in_set_conv_nth)
qed

end
