(* ===== verification/CronMeaning.thy ===== *)
theory CronMeaning
  imports CronFacts
begin

text \<open>
  The properties of the parser: its agreement with the documented grammar, well-formedness of
  what it accepts, normalisation, termination of its loop, and the two inputs on which it does
  not keep the promise that an invalid expression is an error.
\<close>

section \<open>Text and meaning\<close>

lemma show_field_star_iff: "els \<noteq> [] \<Longrightarrow> show_field els = ''*'' \<longleftrightarrow> els = [(All, None)]"
proof -
  assume ne: "els \<noteq> []"
  have one: "show_element el = ''*'' \<longleftrightarrow> el = (All, None)" for el
  proof (cases el rule: show_element.cases)
    case (1 r)
    have "show_nat a @ CHR ''-'' # show_nat z \<noteq> ''*''" for a z by (cases "show_nat a") auto
    with 1 show ?thesis by (cases r) (auto simp: show_nat_not_star)
  next
    case (2 r s)
    have "show_range r @ CHR ''/'' # show_nat s \<noteq> ''*''" by (cases "show_range r") auto
    with 2 show ?thesis by simp
  qed
  show ?thesis
  proof (cases els)
    case Nil
    with ne show ?thesis by simp
  next
    case (Cons el rest)
    show ?thesis
    proof (cases rest)
      case Nil
      with Cons one show ?thesis by (simp add: show_field_def)
    next
      case r: (Cons el' rest')
      then have "show_field els = show_element el @ CHR '','' # show_field (el' # rest')"
        using Cons by (simp add: show_field_def)
      moreover have "\<dots> \<noteq> ''*''" by (cases "show_element el") auto
      ultimately show ?thesis using Cons r by auto
    qed
  qed
qed


definition grammar_fields :: "element list list \<Rightarrow> bool" where
  "grammar_fields fss \<longleftrightarrow> length fss = 5
     \<and> (\<forall>i < 5. fss ! i \<noteq> [] \<and> (\<forall>el \<in> set (fss ! i). written (bounds ! i) el))"



definition show_fields :: "element list list \<Rightarrow> string" where
  "show_fields fss = join '' '' (map show_field fss)"



definition field_filled :: "nat \<Rightarrow> element list \<Rightarrow> int set" where
  "field_filled i els = filled (bounds ! i) els {}"


lemma parseField_show_nth:
  "grammar_fields fss \<Longrightarrow> i < 5 \<Longrightarrow> parseField (show_field (fss ! i)) (bounds ! i) = Inr (field_filled i (fss ! i))"
  unfolding field_filled_def grammar_fields_def by (intro parseField_show good_bounds_all nth_mem) auto

lemma parse_fields_Inr:
  assumes "length fs = length bs" and "length Ss = length fs"
    and "\<forall>i < length fs. parseField (fs ! i) (bs ! i) = Inr (Ss ! i)"
  shows "parse_fields fs bs = Inr Ss"
  using assms
proof (induction fs bs arbitrary: Ss rule: parse_fields.induct)
  case (1 f fs b bs)
  then obtain S Ss' where Ss: "Ss = S # Ss'" by (cases Ss) auto
  have "parseField f b = Inr S" using 1 Ss by (auto dest: spec [of _ 0])
  moreover have "parse_fields fs bs = Inr Ss'"
  proof (rule "1.IH")
    show "\<forall>i < length fs. parseField (fs ! i) (bs ! i) = Inr (Ss' ! i)"
      using 1(4) Ss by (auto dest: spec [of _ "Suc _"])
  qed (use 1 Ss calculation in auto)
  ultimately show ?case by (simp add: Ss)
qed auto

definition expr_of_fields :: "element list list \<Rightarrow> expr" where
  "expr_of_fields fss =
     \<lparr>e_raw = map show_field fss,
      e_sets = [field_filled 0 (fss ! 0), field_filled 1 (fss ! 1), field_filled 2 (fss ! 2),
                field_filled 3 (fss ! 3), fold_sunday (field_filled 4 (fss ! 4))],
      e_star = map (\<lambda>els. els = [(All, None)]) fss\<rparr>"

lemma cron_parse_show:
  assumes "grammar_fields fss"
  shows "cron_parse (show_fields fss) = Inr (expr_of_fields fss)"
proof -
  let ?fs = "map show_field fss"
  let ?Ss = "[field_filled 0 (fss ! 0), field_filled 1 (fss ! 1), field_filled 2 (fss ! 2),
              field_filled 3 (fss ! 3), field_filled 4 (fss ! 4)]"
  have len: "length fss = 5" using assms by (simp add: grammar_fields_def)
  have pf: "parse_fields ?fs bounds = Inr ?Ss"
  proof (rule parse_fields_Inr)
    show "\<forall>i < length ?fs. parseField (?fs ! i) (bounds ! i) = Inr (?Ss ! i)"
    proof (intro allI impI)
      fix i assume "i < length ?fs"
      with len have "i < 5" by simp
      then have "i \<in> {0, 1, 2, 3, 4}" by auto
      with parseField_show_nth [OF assms, of i] len \<open>i < 5\<close>
      show "parseField (?fs ! i) (bounds ! i) = Inr (?Ss ! i)" by auto
    qed
  qed (use len in auto)
  have words: "\<forall>w \<in> set ?fs. ascii_word w"
    using parseField_chars parseField_show_nth [OF assms] len by (force simp: in_set_conv_nth)
  then have norm: "normalize_space (show_fields fss) = join '' '' ?fs"
    by (simp add: normalize_space_def show_fields_def fields_join_words)
  have "?fs \<noteq> []" using len by auto
  then have split: "split_on (CHR '' '') (join '' '' ?fs) = ?fs"
    using show_field_no by (intro split_on_join) auto
  have "join '' '' ?fs \<noteq> []"
    using split len by auto
  moreover have "map (\<lambda>f. f = ''*'') ?fs = map (\<lambda>els. els = [(All, None)]) fss"
    using assms len by (auto simp: grammar_fields_def in_set_conv_nth show_field_star_iff)
  ultimately show ?thesis
    using pf len by (simp add: cron_parse_def norm split expr_of_fields_def fieldDayOfWeek_def)
qed







section \<open>Accepted expressions\<close>

text \<open>
  C35. Whatever text is accepted in which no step exceeds 2^63 - 60, every set of the parsed form is
  non-empty and inside the range of its field, and day-of-week is folded into 0 to 6.
\<close>

theorem cron_parse_well_formed:
  assumes "cron_parse s = Inr e" and "small_steps s"
  shows "wf_expr e"
  using assms by (rule cron_parse_wf)

theorem cron_parse_well_formed_witness:
  "small_steps ''*/15  9-17 * * 1,7'' \<and> (\<exists>e. cron_parse ''*/15  9-17 * * 1,7'' = Inr e \<and> wf_expr e)"
proof -
  have f: "fill 0 59 15 {} = {0, 15, 30, 45}" "fill 9 17 1 {} = {9..17}" "fill 1 1 1 {} = {1}" "fill 7 7 1 {1} = {1, 7}"
    by (auto simp: fill_def fill_guard_def fill_body_def while_unfold wrap64_def)
  have "\<exists>e. cron_parse ''*/15  9-17 * * 1,7'' = Inr e"
    by (simp add: cron_eval fill_unit f)
  then obtain e where e: "cron_parse ''*/15  9-17 * * 1,7'' = Inr e" ..
  moreover have h: "small_steps ''*/15  9-17 * * 1,7''"
    by (simp add: small_steps_def small_step_def cron_eval)
  ultimately show ?thesis using cron_parse_well_formed [OF e h] by blast
qed

text \<open> The normalised text of an accepted expression parses to the same expression: \<open>Raw\<close> and
  \<open>Parse\<close> are inverse on accepted input, so what is stored and shown is what runs.
\<close>

theorem cron_raw_roundtrip:
  assumes "cron_parse s = Inr e"
  shows "cron_parse (Raw e) = Inr e"
proof -
  from assms obtain fs Ss where fs: "fs = split_on (CHR '' '') (normalize_space s)" and e: "e_raw e = fs"
    by (rule cron_parse_InrE)
  have "Raw e = normalize_space s"
    by (simp add: Raw_def e fs join_split_on)
  moreover have "normalize_space (Raw e) = Raw e"
    using cron_parse_words [OF assms] by (simp add: normalize_space_def Raw_def fields_join_words)
  ultimately have "normalize_space (Raw e) = normalize_space s" by simp
  then show ?thesis using assms by (simp add: cron_parse_def)
qed

theorem cron_raw_roundtrip_witness:
  "\<exists>e. cron_parse ''  0   3 * *  * '' = Inr e \<and> Raw e = ''0 3 * * *'' \<and> cron_parse (Raw e) = Inr e"
proof -
  have "\<exists>e. cron_parse ''  0   3 * *  * '' = Inr e \<and> Raw e = ''0 3 * * *''"
    by (simp add: cron_eval fill_unit Raw_def)
  then obtain e where e: "cron_parse ''  0   3 * *  * '' = Inr e" and r: "Raw e = ''0 3 * * *''"
    by blast
  from cron_raw_roundtrip [OF e] e r show ?thesis by blast
qed

text \<open>
  C38. The loop that fills a set returns on every range and step an element can pass to it, also on
  the steps for which the 64-bit addition wraps around.
\<close>

theorem cron_fill_terminates:
  assumes "part_step p b = Inr (base, step)" and "part_range base step b = Inr (start, end)"
    and "fb_min b \<le> start" and "end \<le> fb_max b" and "b \<in> set bounds"
  shows "\<exists>q. while_option (fill_guard end) (fill_body step) (start, S) = Some q"
proof (cases "0 \<le> end")
  case True
  then show ?thesis
    using assms good_bounds_all [of b] part_step_pos [OF assms(1)]
    by (intro fill_returns) (auto simp: good_bounds_def)
next
  case False
  then have "\<not> fill_guard end (start, S)"
    using assms(3) good_bounds_all [OF assms(5)] by (auto simp: fill_guard_def good_bounds_def)
  then show ?thesis by (auto simp: while_option_unfold)
qed

theorem cron_fill_terminates_witness:
  "part_step ''1/9223372036854775807'' (bounds ! 0) = Inr (''1'', 9223372036854775807)
   \<and> (\<exists>q. while_option (fill_guard 59) (fill_body 9223372036854775807) (1, {}) = Some q)"
proof -
  have s: "part_step ''1/9223372036854775807'' (bounds ! 0) = Inr (''1'', 9223372036854775807)"
    by (simp add: cron_eval)
  moreover have r: "part_range ''1'' 9223372036854775807 (bounds ! 0) = Inr (1, 59)"
    by (simp add: cron_eval)
  ultimately show ?thesis
    using cron_fill_terminates [OF s r, of "{}"] by (simp add: bounds_def)
qed

section \<open>Inputs the parser should refuse\<close>

text \<open>
  C39. Where the step of an element added to its start reaches 2^63, the loop's addition wraps around: the
  expression is accepted, not refused, and the element also puts start + 2 * step - 2^64 in its field's set,
  which lies below the start; in the field of minutes, hours or months, where that is a minute, hour or month,
  the field then lets it through although the element denotes the start alone.
\<close>

theorem cron_step_overflow:
  assumes "grammar_fields fss" and "i < 5" and "el \<in> set (fss ! i)" and "\<not> wf_element (bounds ! i) el"
  shows "\<exists>e. cron_parse (show_fields fss) = Inr e
    \<and> denotes (bounds ! i) el = {fst (range_of (bounds ! i) el)}
    \<and> fst (range_of (bounds ! i) el) + 2 * step_of el - 18446744073709551616 \<in> e_sets e ! i
    \<and> fst (range_of (bounds ! i) el) + 2 * step_of el - 18446744073709551616 < fst (range_of (bounds ! i) el)"
proof -
  let ?b = "bounds ! i" let ?v = "fst (range_of ?b el) + 2 * step_of el - 18446744073709551616"
  have b: "good_bounds ?b" using assms(2) by (intro good_bounds_all nth_mem) (simp add: bounds_def)
  have w: "written ?b el" and all: "\<forall>el \<in> set (fss ! i). written ?b el"
    using assms(1-3) by (auto simp: grammar_fields_def)
  from filled_grows [OF all b, of "{}"] assms(3,4) have v: "?v \<in> field_filled i (fss ! i)"
    by (auto simp: field_filled_def)
  have below: "?v < fst (range_of ?b el)" using w by (auto simp: written_def max_int64_def)
  have one: "denotes ?b el = {fst (range_of ?b el)}"
  proof -
    have "x = fst (range_of ?b el)" if x: "fst (range_of ?b el) \<le> x" "x \<le> snd (range_of ?b el)" "step_of el dvd (x - fst (range_of ?b el))" for x
    proof (rule ccontr)
      assume "x \<noteq> fst (range_of ?b el)"
      with x have "step_of el \<le> x - fst (range_of ?b el)" by (intro zdvd_imp_le) auto
      with x(2) w b assms(4) show False by (auto simp: written_def wf_element_def good_bounds_def max_int64_def)
    qed
    with w show ?thesis by (auto simp: denotes_def stepped_def written_def)
  qed
  have "?v \<in> e_sets (expr_of_fields fss) ! i"
  proof (cases "i = 4")
    case True
    have "snd (range_of (bounds ! 4) el) \<le> 7" "fst (range_of (bounds ! 4) el) \<le> snd (range_of (bounds ! 4) el)"
      using w unfolding True written_def by (simp_all add: bounds_def del: range_of.simps)
    with below True have "?v < 7" by simp
    then have "?v \<noteq> 7" by (rule less_imp_neq)
    with v True have "?v \<in> fold_sunday (field_filled 4 (fss ! 4))" unfolding fold_sunday_def by simp
    with True show ?thesis by (simp add: expr_of_fields_def)
  next
    case False
    with assms(2) consider "i = 0" | "i = 1" | "i = 2" | "i = 3" by linarith
    then have "e_sets (expr_of_fields fss) ! i = field_filled i (fss ! i)" by cases (simp_all add: expr_of_fields_def)
    with v show ?thesis by simp
  qed
  with cron_parse_show [OF assms(1)] below one show ?thesis by blast
qed

definition overflow_sample :: "element list list" where
  "overflow_sample = [[(One 10, Some 9223372036854775804)], [(All, None)], [(All, None)], [(All, None)], [(All, None)]]"

theorem cron_step_overflow_witness:
  "\<exists>e. cron_parse (show_fields overflow_sample) = Inr e \<and> denotes (bounds ! 0) (One 10, Some 9223372036854775804) = {10}
     \<and> 2 \<in> e_sets e ! fieldMinute"
proof -
  have "overflow_sample ! i \<noteq> [] \<and> (\<forall>el\<in>set (overflow_sample ! i). written (bounds ! i) el)" if "i < 5" for i
  proof -
    from that consider "i = 0" | "i = 1" | "i = 2" | "i = 3" | "i = 4" by linarith
    then show ?thesis by cases (simp_all add: overflow_sample_def written_def bounds_def max_int64_def)
  qed
  then have "grammar_fields overflow_sample" by (simp add: grammar_fields_def) (simp add: overflow_sample_def)
  moreover have "(One 10, Some 9223372036854775804) \<in> set (overflow_sample ! 0)" by (simp add: overflow_sample_def)
  moreover have "\<not> wf_element (bounds ! 0) (One 10, Some 9223372036854775804)"
    by (simp add: wf_element_def bounds_def max_int64_def)
  ultimately show ?thesis
    using cron_step_overflow [of overflow_sample 0 "(One 10, Some 9223372036854775804)"] by (simp add: fieldMinute_def)
qed

text \<open>
  A bare value above its field's range is refused on its own but accepted, and silently
  ignored, when it carries a step and stands beside another element.
\<close>

lemma cron_out_of_range_step_ignored:
  "(\<exists>err. cron_parse ''75 0 * * *'' = Inl err)
   \<and> (\<exists>e e'. cron_parse ''0,75/10 0 * * *'' = Inr e \<and> cron_parse ''0 0 * * *'' = Inr e' \<and> e_sets e = e_sets e')"
proof -
  have f: "fill 75 59 10 S = S" for S
    by (simp add: fill_def fill_guard_def fill_body_def while_unfold)
  show ?thesis
    by (simp add: cron_eval fill_unit f)
qed

end
