(* ===== verification/CronNext.thy ===== *)
theory CronNext
  imports CronFacts
begin

text \<open>
  The scan for the next firing of an expression: \<open>NextRun\<close>, \<open>NextRuns\<close> and the helpers of
  \<open>pkg/cronexpr/cronexpr.go\<close> they use.
\<close>

section \<open>The scan\<close>

definition DefaultScanDays :: int where
  "DefaultScanDays = 366"

definition sortedKeys :: "int set \<Rightarrow> int list" where
  "sortedKeys S = sorted_list_of_set S"

text \<open>The minute after the one \<open>from\<close> is in.\<close>

definition scan_start :: "location \<Rightarrow> instant \<Rightarrow> instant" where
  "scan_start loc t =
     time_date loc (t_year loc t) (t_month loc t) (t_day loc t) (t_hour loc t) (t_minute loc t) 0 0 + minute_ns"

text \<open>The candidates of one day, in the order of the two nested loops.\<close>

definition day_candidates :: "location \<Rightarrow> expr \<Rightarrow> instant \<Rightarrow> instant list" where
  "day_candidates loc e day =
     concat (map (\<lambda>hour. map (\<lambda>mi. time_date loc (t_year loc day) (t_month loc day) (t_day loc day) hour mi 0 0)
       (sortedKeys (e_sets e ! fieldMinute))) (sortedKeys (e_sets e ! fieldHour)))"

text \<open>Stepping to the start of the next day.\<close>

definition next_day :: "location \<Rightarrow> instant \<Rightarrow> instant" where
  "next_day loc day =
     (let nx = add_days loc day 1 in time_date loc (t_year loc nx) (t_month loc nx) (t_day loc nx) 0 0 0 0)"

definition day_fires :: "location \<Rightarrow> expr \<Rightarrow> instant \<Rightarrow> bool" where
  "day_fires loc e day \<longleftrightarrow>
     t_month loc day \<in> e_sets e ! fieldMonth \<and> dayMatches e (t_day loc day) (t_weekday loc day)"

fun scan_days :: "nat \<Rightarrow> location \<Rightarrow> expr \<Rightarrow> instant \<Rightarrow> instant \<Rightarrow> instant option" where
  "scan_days 0 loc e start day = None"
| "scan_days (Suc n) loc e start day =
     (case (if day_fires loc e day then find (\<lambda>c. \<not> c < start) (day_candidates loc e day) else None) of
        Some c \<Rightarrow> Some c
      | None \<Rightarrow> scan_days n loc e start (next_day loc day))"

definition NextRun :: "location \<Rightarrow> expr \<Rightarrow> instant \<Rightarrow> int \<Rightarrow> instant option" where
  "NextRun loc e from maxDays =
     (let md = (if maxDays \<le> 0 then DefaultScanDays else maxDays);
          start = scan_start loc from
      in scan_days (nat (md + 1)) loc e start start)"

fun next_runs_from :: "nat \<Rightarrow> location \<Rightarrow> expr \<Rightarrow> instant \<Rightarrow> instant list" where
  "next_runs_from 0 loc e cursor = []"
| "next_runs_from (Suc n) loc e cursor =
     (case NextRun loc e cursor DefaultScanDays of
        None \<Rightarrow> []
      | Some nx \<Rightarrow> nx # next_runs_from n loc e nx)"

definition NextRuns :: "location \<Rightarrow> expr \<Rightarrow> instant \<Rightarrow> int \<Rightarrow> instant list" where
  "NextRuns loc e from n = next_runs_from (nat n) loc e from"

section \<open>Wall clocks without transitions\<close>

definition fixed :: "int \<Rightarrow> location" where
  "fixed c = (\<lambda>_. c)"

text \<open>The instant at which the wall clock of a fixed zone shows a given minute of a given day.\<close>

definition wall :: "int \<Rightarrow> int \<Rightarrow> int \<Rightarrow> int \<Rightarrow> instant" where
  "wall c D h m = (D * 86400 + h * 3600 + m * 60 - c) * second"

definition on_minute :: "location \<Rightarrow> instant \<Rightarrow> bool" where
  "on_minute loc t \<longleftrightarrow> t_second loc t = 0 \<and> t_nsec t = 0"

lemma time_date_fixed:
  "time_date (fixed c) y mo d h mi 0 0 = wall c (days_of_civil y mo d) h mi"
  by (simp add: time_date_def fixed_def wall_def Let_def)

lemma unix_wall [simp]: "unix (x * second) = x"
  by (simp add: unix_def)

lemma local_sec_wall: "local_sec (fixed c) (wall c D h m) = D * 86400 + h * 3600 + m * 60"
  by (simp add: local_sec_def wall_def fixed_def)

lemma wall_fields:
  assumes "0 \<le> h" "h < 24" "0 \<le> m" "m < 60"
  shows "day_no (fixed c) (wall c D h m) = D" "t_hour (fixed c) (wall c D h m) = h"
    "t_minute (fixed c) (wall c D h m) = m" "on_minute (fixed c) (wall c D h m)"
proof -
  have r: "0 \<le> h * 3600 + m * 60" "h * 3600 + m * 60 < 86400" "0 \<le> m * 60" "m * 60 < 3600"
    using assms by auto
  show "day_no (fixed c) (wall c D h m) = D"
    using r by (simp add: day_no_def local_sec_wall add.assoc)
  have "(D * 86400 + h * 3600 + m * 60) mod 86400 = h * 3600 + m * 60"
    using r by (simp add: add.assoc mod_pos_pos_trivial)
  then show "t_hour (fixed c) (wall c D h m) = h"
    using r by (simp add: t_hour_def local_sec_wall)
  have "D * 86400 + h * 3600 + m * 60 = m * 60 + (D * 24 + h) * 3600" by (simp add: algebra_simps)
  then have "(D * 86400 + h * 3600 + m * 60) mod 3600 = (m * 60) mod 3600"
    by (simp only: mod_mult_self1)
  then have "(D * 86400 + h * 3600 + m * 60) mod 3600 = m * 60"
    using r by (simp only: mod_pos_pos_trivial)
  then show "t_minute (fixed c) (wall c D h m) = m"
    by (simp add: t_minute_def local_sec_wall)
  have "D * 86400 + h * 3600 + m * 60 = (D * 1440 + h * 60 + m) * 60" by (simp add: algebra_simps)
  then have "(D * 86400 + h * 3600 + m * 60) mod 60 = 0" by (simp only: mod_mult_self2_is_0)
  then show "on_minute (fixed c) (wall c D h m)"
    by (simp add: on_minute_def t_second_def t_nsec_def local_sec_wall) (simp add: wall_def)
qed

lemma clock_ranges:
  "0 \<le> t_hour loc t" "t_hour loc t < 24" "0 \<le> t_minute loc t" "t_minute loc t < 60"
proof -
  have "0 \<le> local_sec loc t mod 86400" "local_sec loc t mod 86400 < 86400" by simp_all
  then show "0 \<le> t_hour loc t" "t_hour loc t < 24" by (simp_all add: t_hour_def)
  have "0 \<le> local_sec loc t mod 3600" "local_sec loc t mod 3600 < 3600" by simp_all
  then show "0 \<le> t_minute loc t" "t_minute loc t < 60" by (simp_all add: t_minute_def)
qed

lemma split_seconds:
  "(x::int) = x div 86400 * 86400 + x mod 86400 div 3600 * 3600 + x mod 3600 div 60 * 60 + x mod 60"
proof -
  have "x mod 86400 mod 3600 = x mod 3600" "x mod 3600 mod 60 = x mod 60"
    by (simp_all add: mod_mod_cancel)
  then show ?thesis
    using div_mult_mod_eq [of x 86400] div_mult_mod_eq [of "x mod 86400" 3600] div_mult_mod_eq [of "x mod 3600" 60]
    by linarith
qed

lemma instant_eq_wall:
  "t = wall c (day_no (fixed c) t) (t_hour (fixed c) t) (t_minute (fixed c) t)
     + t_second (fixed c) t * second + t_nsec t"
proof -
  let ?x = "local_sec (fixed c) t"
  have "?x = day_no (fixed c) t * 86400 + t_hour (fixed c) t * 3600 + t_minute (fixed c) t * 60 + t_second (fixed c) t"
    unfolding day_no_def t_hour_def t_minute_def t_second_def by (rule split_seconds)
  then have "unix t = day_no (fixed c) t * 86400 + t_hour (fixed c) t * 3600 + t_minute (fixed c) t * 60
      - c + t_second (fixed c) t"
    by (simp add: local_sec_def fixed_def)
  moreover have "t = unix t * second + t_nsec t" by (simp add: unix_def t_nsec_def)
  moreover have "u = x + s \<Longrightarrow> v = u * K + n \<Longrightarrow> v = x * K + s * K + n" for u v x s K n :: int
    by (simp add: algebra_simps)
  ultimately show ?thesis unfolding wall_def by blast
qed

lemma on_minute_wall:
  "on_minute (fixed c) t \<Longrightarrow> t = wall c (day_no (fixed c) t) (t_hour (fixed c) t) (t_minute (fixed c) t)"
  using instant_eq_wall [of t c] by (simp add: on_minute_def)

lemma fixed_app: "fixed c x = c"
  by (simp add: fixed_def)

lemma time_date_fixed_full:
  "time_date (fixed c) y mo d h mi s ns =
     (days_of_civil y mo d * 86400 + h * 3600 + mi * 60 + s + ns div second - c) * second + ns mod second"
  by (simp add: time_date_def Let_def fixed_app)

lemma wall_le_iff:
  assumes "0 \<le> h" "h < 24" "0 \<le> m" "m < 60" "0 \<le> h'" "h' < 24" "0 \<le> m'" "m' < 60"
  shows "wall c D h m \<le> wall c D' h' m' \<longleftrightarrow> D < D' \<or> (D = D' \<and> (h < h' \<or> (h = h' \<and> m \<le> m')))"
proof -
  have "wall c D h m \<le> wall c D' h' m' \<longleftrightarrow>
      D * 86400 + h * 3600 + m * 60 - c \<le> D' * 86400 + h' * 3600 + m' * 60 - c"
    unfolding wall_def by (rule mult_le_cancel_right_pos) simp
  then show ?thesis using assms by (auto; linarith)
qed

lemma day_no_shift:
  assumes "0 \<le> s" "s < 60" "0 \<le> n" "n < second"
  shows "day_no (fixed c) (wall c D (t_hour loc t) (t_minute loc t) + s * second + n) = D"
proof -
  let ?h = "t_hour loc t" and ?m = "t_minute loc t"
  have "wall c D ?h ?m + s * second + n = n + (D * 86400 + ?h * 3600 + ?m * 60 - c + s) * second"
    unfolding wall_def by (simp add: algebra_simps)
  then have "unix (wall c D ?h ?m + s * second + n) = D * 86400 + ?h * 3600 + ?m * 60 - c + s"
    using assms by (simp add: unix_def)
  then have "local_sec (fixed c) (wall c D ?h ?m + s * second + n) = (?h * 3600 + ?m * 60 + s) + D * 86400"
    by (simp add: local_sec_def fixed_app)
  moreover have "0 \<le> ?h * 3600 + ?m * 60 + s" "?h * 3600 + ?m * 60 + s < 86400"
    using clock_ranges [of loc t] assms by auto
  ultimately show ?thesis by (simp add: day_no_def)
qed

lemma days_of_civil_fields:
  "days_of_civil (t_year loc u) (t_month loc u) (t_day loc u) = day_no loc u"
  by (simp add: t_year_def t_month_def t_day_def civil_roundtrip)

lemma next_day_fixed: "next_day (fixed c) t = wall c (day_no (fixed c) t + 1) 0 0"
proof -
  let ?nx = "add_days (fixed c) t 1"
  have s: "0 \<le> t_second (fixed c) t" "t_second (fixed c) t < 60" by (simp_all add: t_second_def)
  have ns: "0 \<le> t_nsec t" "t_nsec t < second" by (simp_all add: t_nsec_def second_def)
  have dc: "days_of_civil (t_year (fixed c) t) (t_month (fixed c) t) (t_day (fixed c) t + 1) = day_no (fixed c) t + 1"
    by (simp add: days_of_civil_day_linear [of _ _ _ 1] days_of_civil_fields)
  have "?nx = wall c (day_no (fixed c) t + 1) (t_hour (fixed c) t) (t_minute (fixed c) t)
      + t_second (fixed c) t * second + t_nsec t"
    unfolding add_days_def time_date_fixed_full dc wall_def using ns by (simp add: algebra_simps)
  then have "day_no (fixed c) ?nx = day_no (fixed c) t + 1"
    using day_no_shift [OF s ns] by simp
  then show ?thesis
    by (simp add: next_day_def Let_def time_date_fixed days_of_civil_fields)
qed

lemma scan_start_fixed:
  "scan_start (fixed c) t = wall c (day_no (fixed c) t) (t_hour (fixed c) t) (t_minute (fixed c) t) + 60 * second"
  by (simp add: scan_start_def time_date_fixed days_of_civil_fields minute_ns_def second_def)

text \<open>The start of the scan is the first whole minute after \<open>from\<close>.\<close>

lemma scan_start_bounds:
  "t < scan_start (fixed c) t" "scan_start (fixed c) t \<le> t + 60 * second" "on_minute (fixed c) (scan_start (fixed c) t)"
proof -
  have s: "0 \<le> t_second (fixed c) t" "t_second (fixed c) t \<le> 59" by (simp_all add: t_second_def)
  have ns: "0 \<le> t_nsec t" "t_nsec t < second" by (simp_all add: t_nsec_def second_def)
  have "0 \<le> t_second (fixed c) t * second + t_nsec t"
    using s ns by (simp add: second_def)
  moreover have "t_second (fixed c) t * second + t_nsec t < 60 * second"
    using s ns by (simp add: second_def)
  ultimately show "t < scan_start (fixed c) t" "scan_start (fixed c) t \<le> t + 60 * second"
    using instant_eq_wall [of t c] unfolding scan_start_fixed by linarith+
  let ?D = "day_no (fixed c) t" and ?h = "t_hour (fixed c) t" and ?m = "t_minute (fixed c) t"
  have eq: "scan_start (fixed c) t = (?D * 86400 + ?h * 3600 + ?m * 60 + 60 - c) * second"
    unfolding scan_start_fixed wall_def by (simp add: algebra_simps)
  have "?D * 86400 + ?h * 3600 + ?m * 60 + 60 = (?D * 1440 + ?h * 60 + ?m + 1) * 60" by simp
  then have "(?D * 86400 + ?h * 3600 + ?m * 60 + 60) mod 60 = 0" by (simp only: mod_mult_self2_is_0)
  then show "on_minute (fixed c) (scan_start (fixed c) t)"
    unfolding eq by (simp add: on_minute_def t_second_def t_nsec_def local_sec_def fixed_app)
qed

lemma day_no_mono: "t \<le> u \<Longrightarrow> day_no (fixed c) t \<le> day_no (fixed c) u"
  by (simp add: day_no_def local_sec_def unix_def zdiv_mono1 second_def fixed_app)

text \<open>Two whole minutes of a fixed zone are at least a minute apart.\<close>

lemma on_minute_gap:
  assumes "on_minute (fixed c) u" and "on_minute (fixed c) v" and "v < u + 60 * second"
  shows "v \<le> u"
proof -
  have "\<exists>k. w = (k * 60 - c) * second" if "on_minute (fixed c) w" for w
  proof -
    have "w = ((day_no (fixed c) w * 1440 + t_hour (fixed c) w * 60 + t_minute (fixed c) w) * 60 - c) * second"
      using on_minute_wall [OF that] by (simp add: wall_def algebra_simps)
    then show ?thesis by blast
  qed
  with assms obtain k l where "u = (k * 60 - c) * second" "v = (l * 60 - c) * second" by blast
  with assms(3) show ?thesis by (simp add: second_def)
qed

lemma scan_start_least:
  assumes "on_minute (fixed c) u" and "t < u"
  shows "scan_start (fixed c) t \<le> u"
proof -
  have "scan_start (fixed c) t < u + 60 * second"
    using scan_start_bounds(2) [of c t] assms(2) by linarith
  with on_minute_gap [OF assms(1) scan_start_bounds(3)] show ?thesis by blast
qed


section \<open>Correctness of the scan on a fixed zone\<close>

definition clock_sets :: "expr \<Rightarrow> bool" where
  "clock_sets e \<longleftrightarrow> e_sets e ! fieldMinute \<subseteq> {0..59} \<and> e_sets e ! fieldHour \<subseteq> {0..23}"

lemma wf_clock_sets: "wf_expr e \<Longrightarrow> clock_sets e"
  by (auto simp: wf_expr_def clock_sets_def in_bounds_def bounds_def field_index)

lemma clock_sets_sorted:
  assumes "clock_sets e"
  shows "set (sortedKeys (e_sets e ! fieldMinute)) = e_sets e ! fieldMinute"
    "set (sortedKeys (e_sets e ! fieldHour)) = e_sets e ! fieldHour"
    "sorted (sortedKeys S)" "distinct (sortedKeys S)"
proof -
  have "finite (e_sets e ! fieldMinute)" "finite (e_sets e ! fieldHour)"
    using assms finite_subset by (auto simp: clock_sets_def)
  then show "set (sortedKeys (e_sets e ! fieldMinute)) = e_sets e ! fieldMinute"
    "set (sortedKeys (e_sets e ! fieldHour)) = e_sets e ! fieldHour"
    "sorted (sortedKeys S)" "distinct (sortedKeys S)"
    by (simp_all add: sortedKeys_def)
qed

lemma Matches_wall:
  assumes "0 \<le> h" "h < 24" "0 \<le> m" "m < 60"
  shows "Matches (fixed c) e (wall c D h m) \<longleftrightarrow>
    m \<in> e_sets e ! fieldMinute \<and> h \<in> e_sets e ! fieldHour \<and> month_of_day D \<in> e_sets e ! fieldMonth
    \<and> dayMatches e (mday_of_day D) (weekday_of_day D)"
  using wall_fields [OF assms, of c D]
  by (simp add: Matches_def t_month_def t_day_def t_weekday_def)

lemma day_fires_day_no:
  "day_fires loc e d \<longleftrightarrow> month_of_day (day_no loc d) \<in> e_sets e ! fieldMonth
     \<and> dayMatches e (mday_of_day (day_no loc d)) (weekday_of_day (day_no loc d))"
  by (simp add: day_fires_def t_month_def t_day_def t_weekday_def)

lemma day_candidates_fixed:
  "day_candidates (fixed c) e d = concat (map (\<lambda>h. map (\<lambda>m. wall c (day_no (fixed c) d) h m)
     (sortedKeys (e_sets e ! fieldMinute))) (sortedKeys (e_sets e ! fieldHour)))"
  by (simp add: day_candidates_def time_date_fixed days_of_civil_fields)

lemma day_candidates_set:
  assumes "clock_sets e"
  shows "t \<in> set (day_candidates (fixed c) e d) \<longleftrightarrow>
    (\<exists>h \<in> e_sets e ! fieldHour. \<exists>m \<in> e_sets e ! fieldMinute. t = wall c (day_no (fixed c) d) h m)"
  using clock_sets_sorted [OF assms] by (auto simp: day_candidates_fixed)

lemma day_candidates_sorted:
  assumes "clock_sets e"
  shows "sorted (day_candidates (fixed c) e d)"
proof -
  have m: "0 \<le> m \<and> m < 60" if "m \<in> e_sets e ! fieldMinute" for m
    using assms that by (force simp: clock_sets_def)
  have h: "0 \<le> h \<and> h < 24" if "h \<in> e_sets e ! fieldHour" for h
    using assms that by (force simp: clock_sets_def)
  show ?thesis
    unfolding day_candidates_fixed
  proof (rule sorted_concat_blocks)
    show "sorted (map (wall c (day_no (fixed c) d) h) (sortedKeys (e_sets e ! fieldMinute)))" for h
      using clock_sets_sorted [OF assms] by (intro sorted_map_strict_mono) (auto simp: wall_def second_def)
  next
    fix h h' x y
    assume "h \<in> set (sortedKeys (e_sets e ! fieldHour))" "h' \<in> set (sortedKeys (e_sets e ! fieldHour))" "h < h'"
      "x \<in> set (map (wall c (day_no (fixed c) d) h) (sortedKeys (e_sets e ! fieldMinute)))"
      "y \<in> set (map (wall c (day_no (fixed c) d) h') (sortedKeys (e_sets e ! fieldMinute)))"
    then show "x \<le> y"
      using clock_sets_sorted [OF assms] m h by (auto simp: wall_le_iff)
  qed (use clock_sets_sorted [OF assms] in auto)
qed

text \<open>An instant of the day that matches is among the candidates, and the other way round.\<close>

lemma matches_iff_candidate:
  assumes cs: "clock_sets e" and om: "on_minute (fixed c) t" and day: "day_no (fixed c) t = day_no (fixed c) d"
  shows "Matches (fixed c) e t \<longleftrightarrow> day_fires (fixed c) e d \<and> t \<in> set (day_candidates (fixed c) e d)"
proof -
  let ?D = "day_no (fixed c) t" and ?h = "t_hour (fixed c) t" and ?m = "t_minute (fixed c) t"
  have t: "t = wall c ?D ?h ?m" using om by (rule on_minute_wall)
  have "h = ?h \<and> m = ?m" if "t = wall c ?D h m" "h \<in> e_sets e ! fieldHour" "m \<in> e_sets e ! fieldMinute" for h m
  proof -
    have "0 \<le> h" "h < 24" "0 \<le> m" "m < 60" using cs that by (force simp: clock_sets_def)+
    from wall_fields(2,3) [OF this, of c ?D] that(1) show ?thesis by simp
  qed
  then have "t \<in> set (day_candidates (fixed c) e d) \<longleftrightarrow> ?h \<in> e_sets e ! fieldHour \<and> ?m \<in> e_sets e ! fieldMinute"
    using t day unfolding day_candidates_set [OF cs] by metis
  moreover have "Matches (fixed c) e t \<longleftrightarrow> ?m \<in> e_sets e ! fieldMinute \<and> ?h \<in> e_sets e ! fieldHour
      \<and> day_fires (fixed c) e d"
    using Matches_wall [OF clock_ranges [of "fixed c" t], of c e ?D] t day by (simp add: day_fires_day_no)
  ultimately show ?thesis by blast
qed

lemma candidate_on_minute:
  assumes "clock_sets e" and "t \<in> set (day_candidates (fixed c) e d)"
  shows "on_minute (fixed c) t \<and> day_no (fixed c) t = day_no (fixed c) d"
proof -
  obtain h m where "h \<in> e_sets e ! fieldHour" "m \<in> e_sets e ! fieldMinute" and t: "t = wall c (day_no (fixed c) d) h m"
    using assms day_candidates_set by blast
  then have "0 \<le> h" "h < 24" "0 \<le> m" "m < 60" using assms(1) by (force simp: clock_sets_def)+
  from wall_fields(1,4) [OF this] t show ?thesis by simp
qed

lemma scan_days_Some:
  assumes "clock_sets e" and "scan_days n (fixed c) e start day = Some t"
  shows "Matches (fixed c) e t \<and> on_minute (fixed c) t \<and> start \<le> t
    \<and> (\<forall>u. on_minute (fixed c) u \<and> start \<le> u \<and> day_no (fixed c) day \<le> day_no (fixed c) u \<and> Matches (fixed c) e u \<longrightarrow> t \<le> u)"
  using assms
proof (induction n arbitrary: day)
  case 0
  then show ?case by simp
next
  case (Suc n)
  let ?f = "if day_fires (fixed c) e day then find (\<lambda>c. \<not> c < start) (day_candidates (fixed c) e day) else None"
  show ?case
  proof (cases ?f)
    case None
    then have rest: "scan_days n (fixed c) e start (next_day (fixed c) day) = Some t"
      using Suc.prems by simp
    have nd: "day_no (fixed c) (next_day (fixed c) day) = day_no (fixed c) day + 1"
      using wall_fields(1) [of 0 0 c] by (simp add: next_day_fixed)
    have "day_no (fixed c) u \<noteq> day_no (fixed c) day"
      if "on_minute (fixed c) u" "start \<le> u" "Matches (fixed c) e u" for u
      using None that matches_iff_candidate [OF Suc.prems(1) that(1), of day]
      by (fastforce simp: find_None_iff split: if_splits)
    with Suc.IH [OF Suc.prems(1) rest] nd show ?thesis
      by (metis add1_zle_eq order_le_less)
  next
    case (Some x)
    then have f: "day_fires (fixed c) e day" "find (\<lambda>c. \<not> c < start) (day_candidates (fixed c) e day) = Some t"
      using Suc.prems by (auto split: if_splits)
    from find_SomeD [OF f(2)] have t: "t \<in> set (day_candidates (fixed c) e day)" "start \<le> t" by auto
    note om = candidate_on_minute [OF Suc.prems(1) t(1)]
    have "Matches (fixed c) e t"
      using matches_iff_candidate [OF Suc.prems(1)] om f(1) t(1) by blast
    moreover have "t \<le> u" if u: "on_minute (fixed c) u" "start \<le> u" "day_no (fixed c) day \<le> day_no (fixed c) u"
      "Matches (fixed c) e u" for u
    proof (cases "day_no (fixed c) u = day_no (fixed c) day")
      case True
      then have "u \<in> set (day_candidates (fixed c) e day)"
        using matches_iff_candidate [OF Suc.prems(1) u(1)] u(4) by blast
      with find_sorted_least [OF f(2) day_candidates_sorted [OF Suc.prems(1)]] u(2) show ?thesis by simp
    next
      case False
      with u(3) om have "day_no (fixed c) t < day_no (fixed c) u" by simp
      then show ?thesis using day_no_mono [of u t c] by linarith
    qed
    ultimately show ?thesis using om t by blast
  qed
qed

lemma scan_days_None:
  assumes "clock_sets e" and "scan_days n (fixed c) e start day = None" and "on_minute (fixed c) u"
    and "start \<le> u" and "day_no (fixed c) day \<le> day_no (fixed c) u" and "day_no (fixed c) u < day_no (fixed c) day + int n"
  shows "\<not> Matches (fixed c) e u"
  using assms
proof (induction n arbitrary: day)
  case 0
  then show ?case by simp
next
  case (Suc n)
  let ?f = "if day_fires (fixed c) e day then find (\<lambda>c. \<not> c < start) (day_candidates (fixed c) e day) else None"
  have none: "?f = None" and rest: "scan_days n (fixed c) e start (next_day (fixed c) day) = None"
    using Suc.prems(2) by (auto split: option.splits)
  have nd: "day_no (fixed c) (next_day (fixed c) day) = day_no (fixed c) day + 1"
    using wall_fields(1) [of 0 0 c] by (simp add: next_day_fixed)
  show ?case
  proof (cases "day_no (fixed c) u = day_no (fixed c) day")
    case True
    with none Suc.prems matches_iff_candidate [OF Suc.prems(1,3), of day] show ?thesis
      by (fastforce simp: find_None_iff split: if_splits)
  next
    case False
    with Suc.prems nd show ?thesis
      by (intro Suc.IH [OF Suc.prems(1) rest Suc.prems(3,4)]) auto
  qed
qed

section \<open>Properties of the scan\<close>

definition scan_window :: "int \<Rightarrow> int" where
  "scan_window maxDays = (if maxDays \<le> 0 then DefaultScanDays else maxDays)"

lemma NextRun_Some:
  assumes "clock_sets e" and "NextRun (fixed c) e from maxDays = Some t"
  shows "from < t \<and> on_minute (fixed c) t \<and> Matches (fixed c) e t
    \<and> (\<forall>u. on_minute (fixed c) u \<and> from < u \<and> Matches (fixed c) e u \<longrightarrow> t \<le> u)"
proof -
  from scan_days_Some [OF assms(1)] assms(2)
  have s: "Matches (fixed c) e t \<and> on_minute (fixed c) t \<and> scan_start (fixed c) from \<le> t
    \<and> (\<forall>u. on_minute (fixed c) u \<and> scan_start (fixed c) from \<le> u
        \<and> day_no (fixed c) (scan_start (fixed c) from) \<le> day_no (fixed c) u \<and> Matches (fixed c) e u \<longrightarrow> t \<le> u)"
    unfolding NextRun_def Let_def by blast
  moreover have "from < t"
    using s scan_start_bounds(1) [of "from" c] by linarith
  moreover have "t \<le> u" if "on_minute (fixed c) u" "from < u" "Matches (fixed c) e u" for u
  proof -
    have "scan_start (fixed c) from \<le> u" using scan_start_least that by blast
    with s that day_no_mono show ?thesis by blast
  qed
  ultimately show ?thesis by blast
qed

text \<open>
  C13. On a wall clock without transitions, the scan's answer is the first firing: it lies strictly
  after \<open>from\<close>, on a whole minute, the expression matches it, and no earlier whole minute after
  \<open>from\<close> matches.
\<close>

theorem next_run_is_first_firing:
  assumes "wf_expr e" and "NextRun (fixed c) e from maxDays = Some t"
  shows "from < t \<and> on_minute (fixed c) t \<and> Matches (fixed c) e t
    \<and> (\<forall>u. on_minute (fixed c) u \<and> from < u \<and> Matches (fixed c) e u \<longrightarrow> t \<le> u)"
  using NextRun_Some [OF wf_clock_sets [OF assms(1)] assms(2)] .

definition daily_0030 :: expr where
  "daily_0030 = \<lparr>e_raw = [''30'', ''0'', ''*'', ''*'', ''*''],
     e_sets = [{30}, {0}, {1..31}, {1..12}, {0..6}], e_star = [False, False, True, True, True]\<rparr>"

lemma daily_0030_wf: "wf_expr daily_0030"
  by (auto simp: wf_expr_def daily_0030_def in_bounds_def bounds_def field_index)

theorem next_run_is_first_firing_witness:
  "wf_expr daily_0030 \<and> NextRun (fixed 10800) daily_0030 0 366 = Some 77400000000000
   \<and> Matches (fixed 10800) daily_0030 77400000000000 \<and> on_minute (fixed 10800) 77400000000000"
proof -
  have n: "NextRun (fixed 10800) daily_0030 0 366 = Some 77400000000000" by code_simp
  with next_run_is_first_firing [OF daily_0030_wf n] daily_0030_wf show ?thesis by blast
qed

text \<open> When the scan finds nothing, nothing fires: no whole minute after \<open>from\<close> matches, up to the
  end of the last day of the window.
\<close>

theorem next_run_none_means_none:
  assumes "wf_expr e" and "NextRun (fixed c) e from maxDays = None"
    and "on_minute (fixed c) u" and "from < u"
    and "day_no (fixed c) u \<le> day_no (fixed c) (scan_start (fixed c) from) + scan_window maxDays"
  shows "\<not> Matches (fixed c) e u"
proof (rule scan_days_None [OF wf_clock_sets [OF assms(1)] _ assms(3)])
  show "scan_days (nat (scan_window maxDays + 1)) (fixed c) e (scan_start (fixed c) from) (scan_start (fixed c) from) = None"
    using assms(2) by (simp add: NextRun_def scan_window_def Let_def)
  show start: "scan_start (fixed c) from \<le> u" using scan_start_least assms(3,4) by blast
  show "day_no (fixed c) (scan_start (fixed c) from) \<le> day_no (fixed c) u" using day_no_mono [OF start] .
  show "day_no (fixed c) u < day_no (fixed c) (scan_start (fixed c) from) + int (nat (scan_window maxDays + 1))"
    using assms(5) by (auto simp: scan_window_def DefaultScanDays_def)
qed

definition leap_only :: expr where
  "leap_only = \<lparr>e_raw = [''0'', ''0'', ''29'', ''2'', ''*''],
     e_sets = [{0}, {0}, {29}, {2}, {0..6}], e_star = [False, False, False, False, True]\<rparr>"

lemma leap_only_wf: "wf_expr leap_only"
  by (auto simp: wf_expr_def leap_only_def in_bounds_def bounds_def field_index)

lemma scan_days_day:
  assumes "clock_sets e" and "scan_days n (fixed c) e start day = Some t"
  shows "day_no (fixed c) day \<le> day_no (fixed c) t \<and> day_no (fixed c) t < day_no (fixed c) day + int n"
  using assms
proof (induction n arbitrary: day)
  case 0
  then show ?case by simp
next
  case (Suc n)
  have nd: "day_no (fixed c) (next_day (fixed c) day) = day_no (fixed c) day + 1"
    using wall_fields(1) [of 0 0 c] by (simp add: next_day_fixed)
  show ?case
  proof (cases "if day_fires (fixed c) e day then find (\<lambda>c. \<not> c < start) (day_candidates (fixed c) e day) else None")
    case None
    with Suc nd show ?thesis by fastforce
  next
    case (Some x)
    then have "t \<in> set (day_candidates (fixed c) e day)"
      using Suc.prems find_SomeD by (fastforce split: if_splits)
    from candidate_on_minute [OF Suc.prems(1) this] show ?thesis by simp
  qed
qed

lemma feb_29_leap:
  assumes "month_of_day D = 2" and "mday_of_day D = 29"
  shows "leap (year_of_day D)"
proof (rule ccontr)
  assume "\<not> leap (year_of_day D)"
  then have "D - year_start (year_of_day D) < 59"
    using assms(1) by (auto simp: month_of_day_def month_of_yday_def leap_day_def Let_def split: if_splits)
  moreover have "D - year_start (year_of_day D) = 59"
    using assms by (auto simp: mday_of_day_def month_start_def Let_def)
  ultimately show False by simp
qed

lemma year_after_march_2025:
  assumes "20148 \<le> D" and "D \<le> 20514"
  shows "year_of_day D = 2025 \<or> year_of_day D = 2026"
proof -
  have f1: "(D + 719162) div 146097 = 5"
    by (rule int_div_pos_eq [where r = "D - 11323"]) (use assms in auto)
  have f2: "(D + 719162) mod 146097 = D - 11323"
    by (rule int_mod_pos_eq [where q = 5]) (use assms in auto)
  have f3: "(D - 11323) div 36524 = 0" using assms by simp
  have f4: "(D - 11323) div 1461 = 6"
    by (rule int_div_pos_eq [where r = "D - 20089"]) (use assms in auto)
  have f5: "(D - 11323) mod 1461 = D - 20089"
    by (rule int_mod_pos_eq [where q = 6]) (use assms in auto)
  have z: "min 3 (0::int) = 0" "D - 11323 - 36524 * 0 = D - 11323" by simp_all
  have y: "year_of_day D = 2025 + min 3 ((D - 20089) div 365)"
    unfolding year_of_day_def Let_def f1 f2 f3 z f4 f5 by simp
  show ?thesis
  proof (cases "D - 20089 < 365")
    case True
    with assms have "(D - 20089) div 365 = 0" by simp
    with y show ?thesis by simp
  next
    case False
    then have "(D - 20089) div 365 = 1"
      by (intro int_div_pos_eq [where r = "D - 20454"]) (use assms in auto)
    with y show ?thesis by simp
  qed
qed

lemma leap_only_none: "NextRun (fixed 0) leap_only 1740787200000000000 366 = None"
proof (rule ccontr)
  assume "NextRun (fixed 0) leap_only 1740787200000000000 366 \<noteq> None"
  then obtain t where t: "NextRun (fixed 0) leap_only 1740787200000000000 366 = Some t" by auto
  note cs = wf_clock_sets [OF leap_only_wf]
  have st: "day_no (fixed 0) (scan_start (fixed 0) 1740787200000000000) = 20148" by code_simp
  have "20148 \<le> day_no (fixed 0) t \<and> day_no (fixed 0) t < 20148 + 367"
    using scan_days_day [OF cs t [unfolded NextRun_def Let_def]] unfolding st by simp
  then have "year_of_day (day_no (fixed 0) t) = 2025 \<or> year_of_day (day_no (fixed 0) t) = 2026"
    by (intro year_after_march_2025) auto
  then have "\<not> leap (year_of_day (day_no (fixed 0) t))" by (auto simp: leap_def)
  moreover have "Matches (fixed 0) leap_only t" using NextRun_Some [OF cs t] by blast
  then have "month_of_day (day_no (fixed 0) t) = 2 \<and> mday_of_day (day_no (fixed 0) t) = 29"
    by (auto simp: Matches_def dayMatches_def leap_only_def field_index t_month_def t_day_def split: if_splits)
  ultimately show False using feb_29_leap by blast
qed

theorem next_run_none_means_none_witness:
  "NextRun (fixed 0) leap_only 1740787200000000000 366 = None
   \<and> \<not> Matches (fixed 0) leap_only 1772236800000000000"
proof -
  have "on_minute (fixed 0) 1772236800000000000"
    "(1740787200000000000::int) < 1772236800000000000"
    "day_no (fixed 0) 1772236800000000000 \<le> day_no (fixed 0) (scan_start (fixed 0) 1740787200000000000) + scan_window 366"
    by code_simp+
  from next_run_none_means_none [OF leap_only_wf leap_only_none this] leap_only_none show ?thesis by blast
qed

lemma next_runs_from_complete:
  assumes "clock_sets e"
  shows "sorted_wrt (<) (from # next_runs_from n (fixed c) e from)
    \<and> (\<forall>t \<in> set (next_runs_from n (fixed c) e from). on_minute (fixed c) t \<and> Matches (fixed c) e t
        \<and> (\<forall>u. on_minute (fixed c) u \<and> Matches (fixed c) e u \<and> from < u \<and> u \<le> t
            \<longrightarrow> u \<in> set (next_runs_from n (fixed c) e from)))"
proof (induction n arbitrary: "from")
  case 0
  then show ?case by simp
next
  case (Suc n)
  show ?case
  proof (cases "NextRun (fixed c) e from DefaultScanDays")
    case None
    then show ?thesis by simp
  next
    case (Some nx)
    note N = NextRun_Some [OF assms Some]
    let ?rest = "next_runs_from n (fixed c) e nx"
    note IH = Suc.IH [of nx]
    have gt: "nx < t" if "t \<in> set ?rest" for t using IH that by auto
    have "sorted_wrt (<) (from # nx # ?rest)" using N IH gt by fastforce
    moreover have "u \<in> set (nx # ?rest)"
      if "t \<in> set (nx # ?rest)" "on_minute (fixed c) u" "Matches (fixed c) e u" "from < u" "u \<le> t" for t u
    proof (cases "u = nx")
      case False
      with N that have "nx < u" by force
      with that have t: "t \<in> set ?rest" by auto
      from IH t that(2,3,5) \<open>nx < u\<close> have "u \<in> set ?rest" by blast
      then show ?thesis by simp
    qed simp
    moreover have "on_minute (fixed c) t \<and> Matches (fixed c) e t" if t: "t \<in> set (nx # ?rest)" for t
    proof (cases "t = nx")
      case False
      with t have "t \<in> set ?rest" by simp
      with IH show ?thesis by blast
    qed (use N in blast)
    ultimately show ?thesis by (simp only: next_runs_from.simps Some option.case) blast
  qed
qed

text \<open> The list of upcoming firings is strictly increasing and misses nothing: it holds exactly the
  whole minutes after \<open>from\<close>, up to its last element, on which the expression matches.
\<close>

theorem next_runs_exact:
  assumes "wf_expr e"
  shows "sorted_wrt (<) (from # NextRuns (fixed c) e from n)
    \<and> (\<forall>t \<in> set (NextRuns (fixed c) e from n). \<forall>u. from < u \<and> u \<le> t \<and> on_minute (fixed c) u \<longrightarrow>
         (Matches (fixed c) e u \<longleftrightarrow> u \<in> set (NextRuns (fixed c) e from n)))"
  using next_runs_from_complete [OF wf_clock_sets [OF assms], of "from" "nat n" c]
  unfolding NextRuns_def by blast

theorem next_runs_exact_witness:
  "NextRuns (fixed 10800) daily_0030 0 2 = [77400000000000, 163800000000000]
   \<and> \<not> Matches (fixed 10800) daily_0030 120000000000000"
proof -
  have l: "NextRuns (fixed 10800) daily_0030 0 2 = [77400000000000, 163800000000000]" by code_simp
  have m: "on_minute (fixed 10800) 120000000000000" by code_simp
  have "120000000000000 \<notin> set (NextRuns (fixed 10800) daily_0030 0 2)" by (simp add: l)
  moreover have "163800000000000 \<in> set (NextRuns (fixed 10800) daily_0030 0 2)" by (simp add: l)
  ultimately have "\<not> Matches (fixed 10800) daily_0030 120000000000000"
    using next_runs_exact [OF daily_0030_wf, of 0 10800 2] m by auto
  with l show ?thesis by simp
qed

section \<open>Where the scan and the clock disagree\<close>

text \<open> A year is not enough: an expression for the 29th of February is reported as never firing,
  although it fires, on the instant named here.
\<close>

theorem leap_day_reported_unreachable:
  "cron_parse ''0 0 29 2 *'' = Inr leap_only
   \<and> NextRun (fixed 0) leap_only 1740787200000000000 DefaultScanDays = None
   \<and> Matches (fixed 0) leap_only 1835395200000000000"
proof (intro conjI)
  have "{0..7} - {7} = {0..6::int}" by auto
  then show "cron_parse ''0 0 29 2 *'' = Inr leap_only"
    by (simp add: cron_eval fill_unit leap_only_def fold_sunday_def insert_absorb)
  show "NextRun (fixed 0) leap_only 1740787200000000000 DefaultScanDays = None"
    using leap_only_none by (simp add: DefaultScanDays_def)
  show "Matches (fixed 0) leap_only 1835395200000000000" by code_simp
qed

definition summer_zone :: location where
  "summer_zone u = (if u < 1743296400 then 3600 else 7200)"

definition daily_0230 :: expr where
  "daily_0230 = \<lparr>e_raw = [''30'', ''2'', ''*'', ''*'', ''*''],
     e_sets = [{30}, {2}, {1..31}, {1..12}, {0..6}], e_star = [False, False, True, True, True]\<rparr>"

text \<open> Across a forward clock change the next firing shown is a minute the dispatcher will not
  match: 02:30 does not exist on that day, the scan answers 03:30, and the expression does not
  match it.
\<close>

theorem next_run_in_clock_gap:
  "wf_expr daily_0230
   \<and> NextRun summer_zone daily_0230 1743292800000000000 DefaultScanDays = Some 1743298200000000000
   \<and> \<not> Matches summer_zone daily_0230 1743298200000000000"
proof (intro conjI)
  show "wf_expr daily_0230"
    by (auto simp: wf_expr_def daily_0230_def in_bounds_def bounds_def field_index)
  show "NextRun summer_zone daily_0230 1743292800000000000 DefaultScanDays = Some 1743298200000000000"
    by code_simp
  show "\<not> Matches summer_zone daily_0230 1743298200000000000" by code_simp
qed

end
