(* ===== verification/Domain.thy ===== *)
theory Domain
  imports GoTime GoRunes
begin

text \<open>
  The domain types of \<open>internal/domain\<close>: jobs, runs, schedules, chain links, projects, accounts,
  the narrow types of the execution path, and the methods the package defines on them. Pointers to
  optional values are options; identifiers and counters are integers; instants are those of
  \<open>GoTime\<close>. A status, a trigger or a link condition is the text the schema stores.
\<close>

section \<open>Constants\<close>

definition StatusPending :: string where "StatusPending = ''pending''"
definition StatusRunning :: string where "StatusRunning = ''running''"
definition StatusSuccess :: string where "StatusSuccess = ''success''"
definition StatusFailed :: string where "StatusFailed = ''failed''"
definition StatusTimeout :: string where "StatusTimeout = ''timeout''"
definition StatusSkipped :: string where "StatusSkipped = ''skipped''"

lemmas status_defs = StatusPending_def StatusRunning_def StatusSuccess_def StatusFailed_def
  StatusTimeout_def StatusSkipped_def

definition TriggerSchedule :: string where "TriggerSchedule = ''schedule''"
definition TriggerManual :: string where "TriggerManual = ''manual''"
definition TriggerChain :: string where "TriggerChain = ''chain''"
definition TriggerAPI :: string where "TriggerAPI = ''api''"

definition ChainMaxDepth :: int where "ChainMaxDepth = 5"
definition ChainDirectMaxSec :: int where "ChainDirectMaxSec = 120"
definition ChainMaxDelaySec :: int where "ChainMaxDelaySec = 3600"
definition MinTimeoutSec :: int where "MinTimeoutSec = 1"
definition MaxTimeoutSec :: int where "MaxTimeoutSec = 600"
definition DefaultTimeoutSec :: int where "DefaultTimeoutSec = 30"
definition OutputMaxLen :: int where "OutputMaxLen = 16000"
definition ErrorMaxLen :: int where "ErrorMaxLen = 2000"

definition terminal :: "string \<Rightarrow> bool" where
  "terminal st \<longleftrightarrow> st \<in> {StatusSuccess, StatusFailed, StatusTimeout, StatusSkipped}"

section \<open>Jobs\<close>

record job =
  j_id :: int
  j_project_id :: int
  j_code :: string
  j_name :: string
  j_description :: string
  j_tag :: string
  j_method :: string
  j_url :: string
  j_body :: string
  j_timeout_sec :: int
  j_max_duration_sec :: int
  j_retries :: int
  j_single_run :: bool
  j_run_missed :: bool
  j_max_delay_min :: int
  j_priority :: int
  j_success_min :: int
  j_success_max :: int
  j_notification_id :: "int option"
  j_active :: bool
  j_last_run_at :: "instant option"
  j_last_status :: string
  j_last_duration_ms :: "int option"
  j_created_at :: instant
  j_updated_at :: "instant option"

text \<open>\<open>Job.Timeout\<close> and \<open>RunTarget.Timeout\<close>, in nanoseconds.\<close>

definition clamp_timeout :: "int \<Rightarrow> int" where
  "clamp_timeout t =
     (let sec = (if t < MinTimeoutSec then DefaultTimeoutSec else t);
          sec = (if sec > MaxTimeoutSec then MaxTimeoutSec else sec)
      in sec * second)"

definition job_timeout :: "job \<Rightarrow> int" where
  "job_timeout j = clamp_timeout (j_timeout_sec j)"

definition job_successful_status :: "job \<Rightarrow> int \<Rightarrow> bool" where
  "job_successful_status j code \<longleftrightarrow> code \<ge> j_success_min j \<and> code \<le> j_success_max j"

record job_header =
  h_id :: int
  h_job_id :: int
  h_key :: string
  h_value :: string
  h_is_secret :: bool

record job_schedule =
  sc_id :: int
  sc_job_id :: int
  sc_expression :: string
  sc_active :: bool
  sc_created_at :: instant

record job_link =
  l_id :: int
  l_job_id :: int
  l_target_job_id :: int
  l_condition :: string
  l_delay_sec :: int
  l_active :: bool
  l_created_at :: instant

text \<open>A chain edge with the identity of the jobs on its two ends.\<close>

record job_link_row = job_link +
  l_target_code :: string
  l_target_name :: string
  l_target_active :: bool
  l_source_code :: string
  l_source_name :: string

text \<open>A row of the list screen: \<open>NeverRuns\<close> and \<open>ChainOnly\<close> read these columns only.\<close>

record job_row =
  jr_job :: job
  jr_project_name :: string
  jr_project_slug :: string
  jr_schedules :: "string list"
  jr_next_run :: "instant option"
  jr_day_success :: int
  jr_day_failed :: int
  jr_day_timeout :: int
  jr_link_count :: int
  jr_trigger_count :: int

definition never_runs :: "job_row \<Rightarrow> bool" where
  "never_runs r \<longleftrightarrow> j_active (jr_job r) \<and> length (jr_schedules r) = 0 \<and> jr_trigger_count r = 0"

definition chain_only :: "job_row \<Rightarrow> bool" where
  "chain_only r \<longleftrightarrow> length (jr_schedules r) = 0 \<and> jr_trigger_count r > 0"

record job_option =
  jo_id :: int
  jo_code :: string
  jo_name :: string
  jo_project_slug :: string
  jo_active :: bool

section \<open>Runs\<close>

record run =
  r_id :: int
  r_job_id :: int
  r_planned_minute :: "instant option"
  r_run_after :: "instant option"
  r_trigger :: string
  r_user_id :: "int option"
  r_parent_run_id :: "int option"
  r_status :: string
  r_attempt :: int
  r_instance_id :: string
  r_started_at :: "instant option"
  r_finished_at :: "instant option"
  r_duration_ms :: "int option"
  r_http_status :: "int option"
  r_request_url :: string
  r_output :: string
  r_error :: string
  r_created_at :: instant

record run_result =
  rr_status :: string
  rr_duration_ms :: int
  rr_http_status :: int
  rr_request_url :: string
  rr_output :: string
  rr_error :: string
  rr_attempt :: int

text \<open>The zero value of \<open>RunResult\<close>.\<close>

definition run_result_zero :: run_result where
  "run_result_zero = \<lparr>rr_status = '''', rr_duration_ms = 0, rr_http_status = 0, rr_request_url = '''',
     rr_output = '''', rr_error = '''', rr_attempt = 0\<rparr>"

section \<open>The execution path\<close>

record scheduled_job =
  sj_id :: int
  sj_code :: string
  sj_priority :: int
  sj_run_missed :: bool
  sj_max_delay_min :: int

record pending_run =
  pr_id :: int
  pr_job_id :: int
  pr_code :: string
  pr_single_run :: bool

record run_target =
  rt_id :: int
  rt_job_id :: int
  rt_status :: string
  rt_attempt :: int
  rt_code :: string
  rt_name :: string
  rt_project_id :: int
  rt_project_slug :: string
  rt_base_url :: string
  rt_method :: string
  rt_url :: string
  rt_body :: string
  rt_headers :: "(string \<times> string) list"
  rt_timeout_sec :: int
  rt_retries :: int
  rt_single_run :: bool
  rt_success_min :: int
  rt_success_max :: int
  rt_notification_id :: "int option"

definition rt_timeout :: "run_target \<Rightarrow> int" where
  "rt_timeout t = clamp_timeout (rt_timeout_sec t)"

definition rt_successful_status :: "run_target \<Rightarrow> int \<Rightarrow> bool" where
  "rt_successful_status t code \<longleftrightarrow> code \<ge> rt_success_min t \<and> code \<le> rt_success_max t"

record chain_target =
  ct_job_id :: int
  ct_code :: string
  ct_active :: bool
  ct_single_run :: bool
  ct_delay_sec :: int
  ct_condition :: string

text \<open>\<open>ChainTarget.Delay\<close>, in nanoseconds.\<close>

definition ct_delay :: "chain_target \<Rightarrow> int" where
  "ct_delay c =
     (let sec = ct_delay_sec c;
          sec = (if sec < 0 then 0 else sec);
          sec = (if sec > ChainMaxDelaySec then ChainMaxDelaySec else sec)
      in sec * second)"

record heartbeat =
  hb_last_run :: instant
  hb_app_time :: "instant option"
  hb_drift_sec :: int
  hb_instance_id :: string
  hb_note :: string

record notify_target =
  nt_on_success :: bool
  nt_on_failure :: bool
  nt_emails :: "string list"

record error_summary =
  es_code :: string
  es_name :: string
  es_count :: int
  es_last_error :: string

section \<open>Projects and accounts\<close>

record project =
  p_id :: int
  p_name :: string
  p_slug :: string
  p_description :: string
  p_base_url :: string
  p_key_prefix :: string
  p_key_hash :: string
  p_active :: bool
  p_user_id :: "int option"
  p_created_at :: instant
  p_updated_at :: "instant option"

record user =
  u_id :: int
  u_fullname :: string
  u_email :: string
  u_password :: string
  u_phone :: string
  u_is_admin :: bool
  u_active :: bool
  u_last_login :: "instant option"
  u_tokens_valid_after :: "instant option"
  u_created_at :: instant
  u_updated_at :: "instant option"

record password_reset =
  ps_id :: int
  ps_user_id :: int
  ps_token_hash :: string
  ps_expires_at :: instant
  ps_used_at :: "instant option"
  ps_created_at :: instant

text \<open>\<open>domain/notification.go\<close>, \<open>domain/host_override.go\<close>.\<close>

record notification =
  nf_id :: int
  nf_user_id :: "int option"
  nf_name :: string
  nf_on_success :: bool
  nf_on_failure :: bool
  nf_active :: bool
  nf_emails :: "string list"
  nf_created_at :: instant
  nf_updated_at :: "instant option"

record app_log =
  al_id :: int
  al_level :: string
  al_message :: string
  al_detail :: string
  al_created_at :: instant

record host_override =
  ho_id :: int
  ho_hostname :: string
  ho_address :: string
  ho_port :: "int option"
  ho_note :: string
  ho_active :: bool
  ho_created_by :: "int option"
  ho_created_at :: instant
  ho_updated_at :: instant

definition reset_live :: "password_reset \<Rightarrow> instant \<Rightarrow> bool" where
  "reset_live r at \<longleftrightarrow> ps_used_at r = None \<and> at < ps_expires_at r"

definition token_retired :: "user \<Rightarrow> instant \<Rightarrow> bool" where
  "token_retired u issuedAt = (case u_tokens_valid_after u of None \<Rightarrow> False | Some cutoff \<Rightarrow> issuedAt < cutoff)"

section \<open>Lemmas\<close>

lemma clamp_timeout_range: "second \<le> clamp_timeout t \<and> clamp_timeout t \<le> 600 * second"
  by (simp add: clamp_timeout_def Let_def MinTimeoutSec_def MaxTimeoutSec_def DefaultTimeoutSec_def second_def)

lemma ct_delay_range: "0 \<le> ct_delay c \<and> ct_delay c \<le> ChainMaxDelaySec * second"
  by (simp add: ct_delay_def Let_def ChainMaxDelaySec_def second_def)

lemma never_runs_chain_only_disjoint: "\<not> (never_runs r \<and> chain_only r)"
  by (auto simp: never_runs_def chain_only_def)

end
