(* ===== verification/Scope.thy ===== *)
theory Scope
  imports Domain
begin

text \<open>
  Access decisions: \<open>ProjectScope\<close> (\<open>internal/domain/scope.go\<close>), the reading of stored grants
  into a scope (\<open>internal/authz/scope.go\<close>), and the questions \<open>Service\<close> answers with them
  (\<open>internal/authz/authz.go\<close>). The grant library folds the stored grants into a decision and is
  not part of the repository: the decision is an argument of the definitions that use it.
\<close>

section \<open>Scopes\<close>

record ProjectScope =
  All :: bool
  IDs :: "int list"

definition AllProjects :: ProjectScope where
  "AllProjects = \<lparr>All = True, IDs = []\<rparr>"

definition NoProjects :: ProjectScope where
  "NoProjects = \<lparr>All = False, IDs = []\<rparr>"

definition ScopeOf :: "int list \<Rightarrow> ProjectScope" where
  "ScopeOf ids = \<lparr>All = False, IDs = sort ids\<rparr>"

fun mem_id :: "int list \<Rightarrow> int \<Rightarrow> bool" where
  "mem_id [] projectID = False"
| "mem_id (i # ids) projectID = (if i = projectID then True else mem_id ids projectID)"

definition Allows :: "ProjectScope \<Rightarrow> int \<Rightarrow> bool" where
  "Allows s projectID = (if All s then True else mem_id (IDs s) projectID)"

definition Empty :: "ProjectScope \<Rightarrow> bool" where
  "Empty s \<longleftrightarrow> \<not> All s \<and> length (IDs s) = 0"

definition Restricted :: "ProjectScope \<Rightarrow> bool" where
  "Restricted s \<longleftrightarrow> \<not> All s"

definition Intersect :: "ProjectScope \<Rightarrow> ProjectScope \<Rightarrow> ProjectScope" where
  "Intersect s other =
     (if All s then other
      else if All other then s
      else let keep = set (IDs other) in \<lparr>All = False, IDs = filter (\<lambda>i. i \<in> keep) (IDs s)\<rparr>)"

section \<open>Reading grants\<close>

text \<open>
  A decoded JSON value or a value built in Go. A float64 is its mantissa and binary exponent; a
  \<open>json.Number\<close> is its text.
\<close>

datatype any =
    AnyFloat int int
  | AnyInt int
  | AnyNumber string
  | AnyString string
  | AnyBool bool
  | AnyNull
  | AnyList "any list"
  | AnyMap "(string \<times> any) list"

datatype authz_error =
    ErrDenied string
  | ErrNoUser
  | ScopeNotList any
  | NoScopeKey "(string \<times> any) list"
  | NotAnID any
  | NumberSyntax string
  | GrantError string

definition ScopeKey :: string where "ScopeKey = ''project_ids''"
definition ScopeKeySingle :: string where "ScopeKeySingle = ''project_id''"

text \<open>The conversion of a float64 to int64: truncation, and on amd64 the least integer when out of range.\<close>

definition float_to_int64 :: "int \<Rightarrow> int \<Rightarrow> int" where
  "float_to_int64 m e =
     (let v = (if 0 \<le> e then m * 2 ^ nat e else quot m (2 ^ nat (- e)))
      in if int64 v then v else min_int64)"

fun asID :: "any \<Rightarrow> authz_error + int" where
  "asID (AnyFloat m e) = Inr (float_to_int64 m e)"
| "asID (AnyInt n) = Inr n"
| "asID (AnyNumber s) = (case atoi s of Some n \<Rightarrow> Inr n | None \<Rightarrow> Inl (NumberSyntax s))"
| "asID v = Inl (NotAnID v)"

fun asIDs :: "any list \<Rightarrow> authz_error + int list" where
  "asIDs [] = Inr []"
| "asIDs (item # items) = bind_res (asID item) (\<lambda>i. bind_res (asIDs items) (\<lambda>is. Inr (i # is)))"

definition projectIDsFrom :: "(string \<times> any) list \<Rightarrow> authz_error + int list" where
  "projectIDsFrom scope =
     (case map_of scope ScopeKey of
        Some raw \<Rightarrow> (case raw of AnyList items \<Rightarrow> asIDs items | _ \<Rightarrow> Inl (ScopeNotList raw))
      | None \<Rightarrow>
          (case map_of scope ScopeKeySingle of
             Some raw \<Rightarrow> bind_res (asID raw) (\<lambda>i. Inr [i])
           | None \<Rightarrow> Inl (NoScopeKey scope)))"

fun seen_ids :: "(string \<times> any) list list \<Rightarrow> authz_error + int list" where
  "seen_ids [] = Inr []"
| "seen_ids (scope # raw) = bind_res (projectIDsFrom scope) (\<lambda>ids. bind_res (seen_ids raw) (\<lambda>rest. Inr (ids @ rest)))"

text \<open>The scope comes back beside the error, and is the empty one then.\<close>

definition scopeFromGrants :: "(string \<times> any) list list \<Rightarrow> ProjectScope \<times> authz_error option" where
  "scopeFromGrants raw =
     (if raw = [] then (AllProjects, None)
      else case seen_ids raw of
          Inl e \<Rightarrow> (NoProjects, Some e)
        | Inr seen \<Rightarrow> (\<lparr>All = False, IDs = sort (remdups seen)\<rparr>, None))"

section \<open>The questions\<close>

record decision =
  de_allowed :: bool
  de_scopes :: "(string \<times> any) list list"

definition Can :: "(int \<Rightarrow> string \<Rightarrow> string + bool) \<Rightarrow> user option \<Rightarrow> string \<Rightarrow> bool \<times> authz_error option" where
  "Can can usr key = (case usr of
      None \<Rightarrow> (False, Some ErrNoUser)
    | Some u \<Rightarrow> (case can (u_id u) key of
          Inl e \<Rightarrow> (False, Some (GrantError e))
        | Inr allowed \<Rightarrow> (allowed, None)))"

definition Require :: "(int \<Rightarrow> string \<Rightarrow> string + bool) \<Rightarrow> user option \<Rightarrow> string \<Rightarrow> authz_error option" where
  "Require can usr key = (case Can can usr key of
      (_, Some e) \<Rightarrow> Some e
    | (allowed, None) \<Rightarrow> if \<not> allowed then Some (ErrDenied key) else None)"

definition Scope :: "(int \<Rightarrow> string \<Rightarrow> string + decision) \<Rightarrow> user option \<Rightarrow> string \<Rightarrow> ProjectScope \<times> authz_error option" where
  "Scope decide usr key = (case usr of
      None \<Rightarrow> (NoProjects, Some ErrNoUser)
    | Some u \<Rightarrow> (case decide (u_id u) key of
          Inl e \<Rightarrow> (NoProjects, Some (GrantError e))
        | Inr d \<Rightarrow> if \<not> de_allowed d then (NoProjects, None) else scopeFromGrants (de_scopes d)))"

definition RequireProject :: "(int \<Rightarrow> string \<Rightarrow> string + decision) \<Rightarrow> user option \<Rightarrow> string \<Rightarrow> int \<Rightarrow> authz_error option" where
  "RequireProject decide usr key projectID = (case Scope decide usr key of
      (_, Some e) \<Rightarrow> Some e
    | (scope, None) \<Rightarrow> if \<not> Allows scope projectID then Some (ErrDenied key) else None)"

record RunView =
  Output :: bool
  Error :: bool
  RequestURL :: bool

definition RunFieldOutput :: string where "RunFieldOutput = ''output''"
definition RunFieldError :: string where "RunFieldError = ''error''"
definition RunFieldRequest :: string where "RunFieldRequest = ''request_url''"

definition FullRunView :: RunView where
  "FullRunView = \<lparr>Output = True, Error = True, RequestURL = True\<rparr>"

definition NoRunView :: RunView where
  "NoRunView = \<lparr>Output = False, Error = False, RequestURL = False\<rparr>"

definition run_view_step :: "string \<Rightarrow> RunView \<Rightarrow> RunView" where
  "run_view_step f view =
     (if f = RunFieldOutput then view\<lparr>Output := True\<rparr>
      else if f = RunFieldError then view\<lparr>Error := True\<rparr>
      else if f = RunFieldRequest then view\<lparr>RequestURL := True\<rparr>
      else view)"

definition RunViewOf :: "string list \<Rightarrow> RunView" where
  "RunViewOf names = fold run_view_step names NoRunView"

definition Fields :: "RunView \<Rightarrow> string list" where
  "Fields v =
     (if Output v then [RunFieldOutput] else []) @ (if Error v then [RunFieldError] else [])
     @ (if RequestURL v then [RunFieldRequest] else [])"

text \<open>
  \<open>Service.RunView\<close>, on the answer of \<open>Service.Fields\<close>: no list (nil) means unrestricted, a list
  means what it names, and a denied permission shows nothing.
\<close>

definition service_run_view :: "authz_error + string list option \<Rightarrow> RunView \<times> authz_error option" where
  "service_run_view answer = (case answer of
      Inl e \<Rightarrow> (case e of ErrDenied _ \<Rightarrow> (NoRunView, None) | _ \<Rightarrow> (NoRunView, Some e))
    | Inr None \<Rightarrow> (FullRunView, None)
    | Inr (Some names) \<Rightarrow> (RunViewOf names, None))"

section \<open>Lemmas\<close>

lemma mem_id_iff [simp]: "mem_id ids p \<longleftrightarrow> p \<in> set ids"
  by (induction ids) auto

lemma Allows_iff: "Allows s p \<longleftrightarrow> All s \<or> p \<in> set (IDs s)"
  by (simp add: Allows_def)

lemma Allows_AllProjects [simp]: "Allows AllProjects p"
  by (simp add: Allows_iff AllProjects_def)

lemma Allows_NoProjects [simp]: "\<not> Allows NoProjects p"
  by (simp add: Allows_iff NoProjects_def)

lemma Allows_ScopeOf [simp]: "Allows (ScopeOf ids) p \<longleftrightarrow> p \<in> set ids"
  by (simp add: Allows_iff ScopeOf_def)

lemma Allows_Intersect: "Allows (Intersect s t) p \<longleftrightarrow> Allows s p \<and> Allows t p"
  by (auto simp: Allows_iff Intersect_def Let_def)

lemma Empty_iff: "Empty s \<longleftrightarrow> (\<forall>p. \<not> Allows s p)"
  by (auto simp: Empty_def Allows_iff)

lemma seen_ids_set:
  "seen_ids raw = Inr seen \<Longrightarrow>
     (\<forall>p. p \<in> set seen \<longleftrightarrow> (\<exists>g\<in>set raw. \<exists>ids. projectIDsFrom g = Inr ids \<and> p \<in> set ids))
     \<and> (\<forall>g\<in>set raw. \<exists>ids. projectIDsFrom g = Inr ids)"
proof (induction raw arbitrary: seen)
  case Nil
  then show ?case by simp
next
  case (Cons g raw)
  then obtain ids rest where "projectIDsFrom g = Inr ids" "seen_ids raw = Inr rest" "seen = ids @ rest"
    by (auto simp: bind_res_Inr_iff)
  with Cons.IH [of rest] show ?case by auto
qed

lemma seen_ids_Inl: "seen_ids raw = Inl e \<Longrightarrow> \<exists>g\<in>set raw. projectIDsFrom g = Inl e"
  by (induction raw) (auto simp: bind_res_Inl_iff)

lemma seen_ids_Inr_iff: "(\<exists>seen. seen_ids raw = Inr seen) \<longleftrightarrow> (\<forall>g\<in>set raw. \<exists>ids. projectIDsFrom g = Inr ids)"
  by (induction raw) (auto simp: bind_res_Inr_iff)

section \<open>Properties\<close>

text \<open> The intersection of two scopes reaches exactly the projects both reach, whichever of the
  two is the unrestricted one, and a scope is empty exactly when it reaches no project. \<close>
theorem scope_intersection:
  "(Allows (Intersect s t) p \<longleftrightarrow> Allows s p \<and> Allows t p)
   \<and> (Empty (Intersect s t) \<longleftrightarrow> (\<forall>q. \<not> (Allows s q \<and> Allows t q)))"
  by (simp add: Allows_Intersect Empty_iff)

text \<open> C25. Who may act on a project: \<open>RequireProject\<close> lets a call through exactly when there is an
  account, the grant library answered, it allows the permission, every stored scope could be read,
  and the project is named by one of them or there is no scope at all. A missing account, a store
  error, an unreadable scope and the zero scope all refuse. \<close>
theorem require_project_exact:
  "RequireProject decide usr key p = None \<longleftrightarrow>
     (\<exists>u d. usr = Some u \<and> decide (u_id u) key = Inr d \<and> de_allowed d
        \<and> (de_scopes d = []
           \<or> (\<forall>g\<in>set (de_scopes d). \<exists>ids. projectIDsFrom g = Inr ids)
             \<and> (\<exists>g\<in>set (de_scopes d). \<exists>ids. projectIDsFrom g = Inr ids \<and> p \<in> set ids)))"
proof (cases usr)
  case None
  then show ?thesis by (simp add: RequireProject_def Scope_def)
next
  case (Some u)
  show ?thesis
  proof (cases "decide (u_id u) key")
    case (Inl e)
    with Some show ?thesis by (simp add: RequireProject_def Scope_def)
  next
    case (Inr d)
    show ?thesis
    proof (cases "de_allowed d \<and> de_scopes d \<noteq> []")
      case False
      with Some Inr show ?thesis
        by (auto simp: RequireProject_def Scope_def scopeFromGrants_def)
    next
      case True
      show ?thesis
      proof (cases "seen_ids (de_scopes d)")
        case (Inl e)
        then obtain g where "g \<in> set (de_scopes d)" "projectIDsFrom g = Inl e"
          using seen_ids_Inl by blast
        then have "\<not> (\<forall>g\<in>set (de_scopes d). \<exists>ids. projectIDsFrom g = Inr ids)" by force
        with Inl Some \<open>decide (u_id u) key = Inr d\<close> True show ?thesis
          by (simp add: RequireProject_def Scope_def scopeFromGrants_def)
      next
        case (Inr seen)
        from seen_ids_set [OF Inr] have
          "p \<in> set seen \<longleftrightarrow> (\<exists>g\<in>set (de_scopes d). \<exists>ids. projectIDsFrom g = Inr ids \<and> p \<in> set ids)"
          and "\<forall>g\<in>set (de_scopes d). \<exists>ids. projectIDsFrom g = Inr ids"
          by blast+
        with Inr Some \<open>decide (u_id u) key = Inr d\<close> True show ?thesis
          by (simp add: RequireProject_def Scope_def scopeFromGrants_def Allows_iff)
      qed
    qed
  qed
qed

definition demo_user :: user where
  "demo_user = \<lparr>u_id = 7, u_fullname = [], u_email = [], u_password = [], u_phone = [], u_is_admin = False, u_active = True,
     u_last_login = None, u_tokens_valid_after = None, u_created_at = 0, u_updated_at = None\<rparr>"

definition demo_grant :: "int \<Rightarrow> string \<Rightarrow> string + decision" where
  "demo_grant uid key = Inr \<lparr>de_allowed = True, de_scopes = [[(''project_ids'', AnyList [AnyInt 3, AnyNumber ''5''])], [(''project_id'', AnyInt 8)]]\<rparr>"

theorem require_project_exact_witness:
  "RequireProject demo_grant (Some demo_user) ''jobs.write'' 5 = None
   \<and> RequireProject demo_grant (Some demo_user) ''jobs.write'' 4 \<noteq> None
   \<and> RequireProject demo_grant None ''jobs.write'' 5 \<noteq> None"
  unfolding require_project_exact
  by (simp add: demo_grant_def projectIDsFrom_def ScopeKey_def ScopeKeySingle_def atoi_def is_digit_def
      digit_val_def int64_def max_int64_def min_int64_def)

text \<open> A stored field restriction on runs survives the round trip: reading back the allow-list a
  view is stored as gives the view, for each of the eight views, and no list names a field twice. \<close>
theorem run_view_roundtrip:
  "RunViewOf (Fields v) = v \<and> distinct (Fields v)"
proof (cases v)
  case (fields out err req)
  then show ?thesis
    by (cases out; cases err; cases req)
      (simp_all add: RunViewOf_def Fields_def run_view_step_def NoRunView_def RunFieldOutput_def
        RunFieldError_def RunFieldRequest_def)
qed

end
