(* ===== verification/Effects.thy ===== *)
theory Effects
  imports Domain "HOL-Library.State_Monad"
begin

text \<open>
  How the stateful parts of the program are written: a Go function with effects is a value of the
  library's state monad over a world, a call that may fail returns \<open>go_error + 'a\<close>, and an early
  return is a branch of a case distinction. \<open>valid\<close> and \<open>keeps\<close> are the two ways properties of
  such a function are stated: from a precondition to a postcondition, and as a relation between
  the world before and after.
\<close>

section \<open>Errors\<close>

datatype go_error =
    ErrNotFound
  | ErrDuplicate
  | ErrForbidden
  | ErrText string

fun err_text :: "go_error \<Rightarrow> string" where
  "err_text ErrNotFound = ''record not found''"
| "err_text ErrDuplicate = ''record already exists''"
| "err_text ErrForbidden = ''the write was not permitted''"
| "err_text (ErrText s) = s"

type_synonym ('w, 'a) call = "('w, go_error + 'a) state"

section \<open>Loops\<close>

text \<open>
  A Go \<open>for ... range\<close> loop whose body updates the local variables \<open>s\<close>; \<open>continue\<close> is a body
  that returns early.
\<close>

fun for_each :: "'a list \<Rightarrow> ('a \<Rightarrow> 's \<Rightarrow> ('w, 's) state) \<Rightarrow> 's \<Rightarrow> ('w, 's) state" where
  "for_each [] body s = State_Monad.return s"
| "for_each (x # xs) body s = State_Monad.bind (body x s) (for_each xs body)"

definition modify :: "('w \<Rightarrow> 'w) \<Rightarrow> ('w, unit) state" where
  "modify f = State (\<lambda>w. ((), f w))"

lemma run_state_modify [simp]: "run_state (modify f) w = ((), f w)"
  by (simp add: modify_def)

section \<open>Postconditions\<close>

named_theorems valid_intro \<open>rules that take a program apart\<close>

definition valid :: "('w \<Rightarrow> bool) \<Rightarrow> ('w, 'a) state \<Rightarrow> ('a \<Rightarrow> 'w \<Rightarrow> bool) \<Rightarrow> bool" where
  "valid P m Q \<longleftrightarrow> (\<forall>w. P w \<longrightarrow> (case run_state m w of (a, w') \<Rightarrow> Q a w'))"

lemma validI: "(\<And>w a w'. P w \<Longrightarrow> run_state m w = (a, w') \<Longrightarrow> Q a w') \<Longrightarrow> valid P m Q"
  by (auto simp: valid_def)

lemma validD: "valid P m Q \<Longrightarrow> P w \<Longrightarrow> run_state m w = (a, w') \<Longrightarrow> Q a w'"
  by (force simp: valid_def)

lemma valid_pre: "valid P m Q \<Longrightarrow> (\<And>w. P' w \<Longrightarrow> P w) \<Longrightarrow> valid P' m Q"
  by (auto simp: valid_def)

lemma valid_post: "valid P m Q \<Longrightarrow> (\<And>a w. Q a w \<Longrightarrow> Q' a w) \<Longrightarrow> valid P m Q'"
  by (fastforce simp: valid_def)

lemma valid_return [valid_intro]: "(\<And>w. P w \<Longrightarrow> Q a w) \<Longrightarrow> valid P (State_Monad.return a) Q"
  by (simp add: valid_def)

lemma valid_bind: "valid P m Q \<Longrightarrow> (\<And>a. valid (Q a) (f a) R) \<Longrightarrow> valid P (State_Monad.bind m f) R"
  by (fastforce simp: valid_def split: prod.splits)

lemma valid_if [valid_intro]:
  "(b \<Longrightarrow> valid P m Q) \<Longrightarrow> (\<not> b \<Longrightarrow> valid P n Q) \<Longrightarrow> valid P (if b then m else n) Q"
  by simp

lemma valid_sum [valid_intro]:
  "(\<And>e. r = Inl e \<Longrightarrow> valid P (f e) Q) \<Longrightarrow> (\<And>x. r = Inr x \<Longrightarrow> valid P (g x) Q)
     \<Longrightarrow> valid P (case r of Inl e \<Rightarrow> f e | Inr x \<Rightarrow> g x) Q"
  by (cases r) auto

lemma valid_option [valid_intro]:
  "(r = None \<Longrightarrow> valid P f Q) \<Longrightarrow> (\<And>x. r = Some x \<Longrightarrow> valid P (g x) Q)
     \<Longrightarrow> valid P (case r of None \<Rightarrow> f | Some x \<Rightarrow> g x) Q"
  by (cases r) auto

lemma valid_for_each:
  assumes "\<And>x ys zs s. xs = ys @ x # zs \<Longrightarrow> valid (I ys s) (body x s) (I (ys @ [x]))"
  shows "valid (I [] s) (for_each xs body s) (I xs)"
proof -
  have "valid (I ys s) (for_each zs body s) (I (ys @ zs))"
    if "\<And>x us vs s. ys @ zs = us @ x # vs \<Longrightarrow> valid (I us s) (body x s) (I (us @ [x]))" for ys zs s
    using that
  proof (induction zs arbitrary: ys s)
    case Nil
    then show ?case by (simp add: valid_def)
  next
    case (Cons z zs)
    have "valid (I (ys @ [z]) t) (for_each zs body t) (I ((ys @ [z]) @ zs))" for t
      by (rule Cons.IH) (use Cons.prems in auto)
    with Cons.prems [of ys z zs s] show ?case
      by (auto intro: valid_bind)
  qed
  from this [of "[]" xs s] assms show ?thesis by simp
qed

section \<open>Relations between the world before and after\<close>

definition keeps :: "('w \<Rightarrow> 'w \<Rightarrow> bool) \<Rightarrow> ('w, 'a) state \<Rightarrow> bool" where
  "keeps R m \<longleftrightarrow> (\<forall>w. R w (snd (run_state m w)))"

lemma keepsI: "(\<And>w a w'. run_state m w = (a, w') \<Longrightarrow> R w w') \<Longrightarrow> keeps R m"
  by (metis keeps_def prod.collapse)

lemma keepsD: "keeps R m \<Longrightarrow> run_state m w = (a, w') \<Longrightarrow> R w w'"
  by (metis keeps_def snd_conv)

text \<open>
  A reflexive and transitive relation composes along a program: it is enough that every call the
  program makes keeps it.
\<close>

locale frame =
  fixes R :: "'w \<Rightarrow> 'w \<Rightarrow> bool"
  assumes R_refl: "R w w"
    and R_trans: "R u v \<Longrightarrow> R v w \<Longrightarrow> R u w"
begin

lemma keeps_return: "keeps R (State_Monad.return a)"
  by (simp add: keeps_def R_refl)

lemma keeps_bind: "keeps R m \<Longrightarrow> (\<And>a. keeps R (f a)) \<Longrightarrow> keeps R (State_Monad.bind m f)"
  by (auto simp: keeps_def split: prod.splits) (metis R_trans snd_conv)

lemma keeps_if: "keeps R m \<Longrightarrow> keeps R n \<Longrightarrow> keeps R (if b then m else n)"
  by simp

lemma keeps_sum:
  "(\<And>e. keeps R (f e)) \<Longrightarrow> (\<And>x. keeps R (g x)) \<Longrightarrow> keeps R (case r of Inl e \<Rightarrow> f e | Inr x \<Rightarrow> g x)"
  by (cases r) auto

lemma keeps_option:
  "keeps R f \<Longrightarrow> (\<And>x. keeps R (g x)) \<Longrightarrow> keeps R (case r of None \<Rightarrow> f | Some x \<Rightarrow> g x)"
  by (cases r) auto

lemma keeps_prod: "(\<And>x y. keeps R (f x y)) \<Longrightarrow> keeps R (case p of (x, y) \<Rightarrow> f x y)"
  by (cases p) auto

lemma keeps_for_each: "(\<And>x s. x \<in> set xs \<Longrightarrow> keeps R (body x s)) \<Longrightarrow> keeps R (for_each xs body s)"
  by (induction xs arbitrary: s) (auto intro: keeps_return keeps_bind)

lemmas keeps_rules = keeps_return keeps_bind keeps_if keeps_sum keeps_option keeps_prod

end

section \<open>Relations that start from an invariant\<close>

definition within :: "('w \<Rightarrow> bool) \<Rightarrow> ('w \<Rightarrow> 'w \<Rightarrow> bool) \<Rightarrow> 'w \<Rightarrow> 'w \<Rightarrow> bool" where
  "within sound same w w' \<longleftrightarrow> (sound w \<longrightarrow> sound w' \<and> same w w')"

end
