(* ===== verification/Store.thy ===== *)
theory Store
  imports Effects "HOL-Library.Product_Lexorder"
begin

text \<open>
  The tables of \<open>cronsole.sql\<close> the execution path works on and the statements of
  \<open>internal/repository/exec_repo.go\<close>. A table is the list of its rows. A statement is a function
  of the database clock and the tables; it either fails, leaving the tables as they are, or
  returns its rows and the new tables. The order a query leaves open is that of the table.
  Times are kept at full resolution (PostgreSQL stores microseconds).
\<close>

section \<open>Tables\<close>

record job_t = job +
  jt_deleted_at :: "instant option"

record project_t = project +
  pt_deleted_at :: "instant option"

record notification_t =
  n_id :: int
  n_user_id :: "int option"
  n_name :: string
  n_on_success :: bool
  n_on_failure :: bool
  n_active :: bool
  n_created_at :: instant
  n_updated_at :: "instant option"
  n_deleted_at :: "instant option"

record notify_email_t =
  e_notification_id :: int
  e_email :: string
  e_active :: bool

text \<open>
  Values of \<open>jsonb\<close> columns. A number is an integer, as the program writes them; the keys of an object
  are different ones. A scope is an object.
\<close>

datatype json =
    JNull
  | JBool bool
  | JNum int
  | JStr string
  | JArr "json list"
  | JObj "(string \<times> json) list"

record user_t = user +
  ut_deleted_at :: "instant option"

record role_t =
  ro_id :: int
  ro_key :: string
  ro_name :: string
  ro_description :: "string option"
  ro_active :: bool

record role_permission_t =
  rp_role_id :: int
  rp_key :: string
  rp_fields :: "json option"

record user_role_t =
  ur_user_id :: int
  ur_role_id :: int
  ur_scope :: "(string \<times> json) list option"

record user_permission_t =
  up_user_id :: int
  up_key :: string
  up_effect :: string

record db =
  job_runs :: "run list"
  runs_seq :: int
  jobs :: "job_t list"
  jobs_seq :: int
  job_schedules :: "job_schedule list"
  schedules_seq :: int
  job_headers :: "job_header list"
  headers_seq :: int
  job_links :: "job_link list"
  links_seq :: int
  projects :: "project_t list"
  heartbeat_row :: "heartbeat option"
  notifications :: "notification_t list"
  notify_emails :: "notify_email_t list"
  app_logs :: "app_log list"
  users :: "user_t list"
  users_seq :: int
  projects_seq :: int
  password_resets :: "password_reset list"
  resets_seq :: int
  permission_keys :: "string list"
  role_rows :: "role_t list"
  roles_seq :: int
  role_permissions :: "role_permission_t list"
  user_roles :: "user_role_t list"
  user_permissions :: "user_permission_t list"
  notifications_seq :: int
  app_logs_seq :: int
  host_overrides :: "host_override list"
  overrides_seq :: int

type_synonym 'a statement = "instant \<Rightarrow> db \<Rightarrow> (go_error + 'a) \<times> db"

definition query :: "(db \<Rightarrow> 'a) \<Rightarrow> 'a statement" where
  "query f now d = (Inr (f d), d)"

text \<open>A query whose condition reads the database clock.\<close>

definition query_at :: "(instant \<Rightarrow> db \<Rightarrow> 'a) \<Rightarrow> 'a statement" where
  "query_at f now d = (Inr (f now d), d)"

definition exec :: "(db \<Rightarrow> db) \<Rightarrow> unit statement" where
  "exec f now d = (Inr (), f d)"

section \<open>What the database refuses\<close>

definition quoted :: "string \<Rightarrow> string" where
  "quoted s = [CHR 0x22] @ s @ [CHR 0x22]"

definition fk_violation :: "string \<Rightarrow> string \<Rightarrow> go_error" where
  "fk_violation table constraint =
     ErrText (''pq: insert or update on table '' @ quoted table @ '' violates foreign key constraint ''
       @ quoted constraint)"

definition check_violation :: "string \<Rightarrow> string \<Rightarrow> go_error" where
  "check_violation table constraint =
     ErrText (''pq: new row for relation '' @ quoted table @ '' violates check constraint '' @ quoted constraint)"

definition invalid_text :: go_error where
  "invalid_text = ErrText (''pq: invalid byte sequence for encoding '' @ quoted ''UTF8'')"

definition out_of_range :: go_error where
  "out_of_range = ErrText ''pq: integer out of range''"

text \<open>A text parameter has to be valid UTF-8 without the zero character.\<close>

definition pg_text :: "string \<Rightarrow> bool" where
  "pg_text s \<longleftrightarrow> (\<forall>(r, bs) \<in> set (runes s). r \<noteq> 0 \<and> \<not> (r = 65533 \<and> length bs = 1))"

lemma pg_text_ascii: "list_all (\<lambda>c. ascii c \<and> c \<noteq> CHR 0x00) s \<Longrightarrow> pg_text s"
proof (induction s)
  case Nil
  then show ?case by (simp add: pg_text_def)
next
  case (Cons a s)
  then have "a \<noteq> CHR 0x00" "ascii a" by auto
  have "of_char a \<noteq> (0 :: nat)"
  proof
    assume "of_char a = (0 :: nat)"
    then have "char_of (of_char a :: nat) = char_of (0 :: nat)" by simp
    also have "char_of (0 :: nat) = CHR 0x00" by (simp add: char_of_def)
    finally show False using \<open>a \<noteq> CHR 0x00\<close> by simp
  qed
  moreover have "of_char a < (128 :: nat)" using \<open>ascii a\<close> by (simp add: ascii_def)
  ultimately show ?case using Cons by (auto simp: pg_text_def runes_ascii_Cons)
qed

definition int4 :: "int \<Rightarrow> bool" where
  "int4 n \<longleftrightarrow> - 2147483648 \<le> n \<and> n \<le> 2147483647"

definition run_statuses :: "string list" where
  "run_statuses = [StatusPending, StatusRunning, StatusSuccess, StatusFailed, StatusTimeout, StatusSkipped]"

section \<open>Rows\<close>

definition find_job :: "db \<Rightarrow> int \<Rightarrow> job_t option" where
  "find_job d i = find (\<lambda>j. j_id j = i) (jobs d)"

definition find_project :: "db \<Rightarrow> int \<Rightarrow> project_t option" where
  "find_project d i = find (\<lambda>p. p_id p = i) (projects d)"

definition find_run :: "db \<Rightarrow> int \<Rightarrow> run option" where
  "find_run d i = find (\<lambda>r. r_id r = i) (job_runs d)"

text \<open>The defaults of the \<open>job_runs\<close> columns.\<close>

definition new_run :: "int \<Rightarrow> int \<Rightarrow> string \<Rightarrow> instant \<Rightarrow> run" where
  "new_run i jobID trigger now =
     \<lparr>r_id = i, r_job_id = jobID, r_planned_minute = None, r_run_after = None, r_trigger = trigger,
      r_user_id = None, r_parent_run_id = None, r_status = StatusPending, r_attempt = 0,
      r_instance_id = [], r_started_at = None, r_finished_at = None, r_duration_ms = None,
      r_http_status = None, r_request_url = [], r_output = [], r_error = [], r_created_at = now\<rparr>"

text \<open>Postgres's \<open>left(s, n)\<close> for a non-negative \<open>n\<close>: the first \<open>n\<close> characters.\<close>

definition pg_left :: "string \<Rightarrow> nat \<Rightarrow> string" where
  "pg_left s n = concat (map snd (take n (runes s)))"

definition clamp :: "int \<Rightarrow> int \<Rightarrow> int \<Rightarrow> int" where
  "clamp v lo hi = (if v < lo then lo else if v > hi then hi else v)"

definition seconds :: "int \<Rightarrow> int" where
  "seconds n = n * second"

section \<open>Heartbeat\<close>

definition db_time :: "instant statement" where
  "db_time = query_at (\<lambda>now d. now)"

definition read_heartbeat :: "heartbeat option statement" where
  "read_heartbeat = query heartbeat_row"

definition touch_heartbeat :: "instant \<Rightarrow> instant \<Rightarrow> int \<Rightarrow> string \<Rightarrow> unit statement" where
  "touch_heartbeat dbTime appTime driftSec instanceID = exec (\<lambda>d.
     d\<lparr>heartbeat_row := Some (case heartbeat_row d of
          None \<Rightarrow> \<lparr>hb_last_run = dbTime, hb_app_time = Some appTime, hb_drift_sec = driftSec,
                   hb_instance_id = instanceID, hb_note = []\<rparr>
        | Some h \<Rightarrow> h\<lparr>hb_last_run := dbTime, hb_app_time := Some appTime, hb_drift_sec := driftSec,
                     hb_instance_id := instanceID\<rparr>)\<rparr>)"

definition set_warning_marker :: "string \<Rightarrow> unit statement" where
  "set_warning_marker marker = exec (\<lambda>d.
     d\<lparr>heartbeat_row := map_option (\<lambda>h. h\<lparr>hb_note := marker\<rparr>) (heartbeat_row d)\<rparr>)"

section \<open>Dispatcher\<close>

text \<open>A job the dispatcher considers: neither it nor its project is inactive or deleted.\<close>

definition schedulable :: "db \<Rightarrow> job_t \<Rightarrow> bool" where
  "schedulable d j \<longleftrightarrow> j_active j \<and> jt_deleted_at j = None
     \<and> (case find_project d (j_project_id j) of
          None \<Rightarrow> False | Some p \<Rightarrow> p_active p \<and> pt_deleted_at p = None)"

definition scheduled_job_of :: "job_t \<Rightarrow> scheduled_job" where
  "scheduled_job_of j = \<lparr>sj_id = j_id j, sj_code = j_code j, sj_priority = j_priority j,
     sj_run_missed = j_run_missed j, sj_max_delay_min = j_max_delay_min j\<rparr>"

definition list_scheduled_jobs :: "scheduled_job list statement" where
  "list_scheduled_jobs = query (\<lambda>d.
     map scheduled_job_of (sort_key (\<lambda>j. (j_priority j, j_id j)) (filter (schedulable d) (jobs d))))"

definition list_active_schedules :: "(int \<Rightarrow> string list) statement" where
  "list_active_schedules = query (\<lambda>d jobID.
     map sc_expression (filter (\<lambda>s. sc_job_id s = jobID \<and> sc_active s
       \<and> (case find_job d (sc_job_id s) of None \<Rightarrow> False | Some j \<Rightarrow> schedulable d j)) (job_schedules d)))"

text \<open>The key of the partial unique index.\<close>

definition run_key :: "run \<Rightarrow> (int \<times> instant) option" where
  "run_key r = map_option (\<lambda>m. (r_job_id r, m)) (r_planned_minute r)"

text \<open>The sequence is read before the conflict is found.\<close>

definition queue_run :: "int \<Rightarrow> instant \<Rightarrow> unit statement" where
  "queue_run jobID plannedMinute now d =
     (let i = runs_seq d + 1; d1 = d\<lparr>runs_seq := i\<rparr> in
      if list_ex (\<lambda>r. run_key r = Some (jobID, plannedMinute)) (job_runs d) then (Inr (), d1)
      else if find_job d jobID = None then (Inl (fk_violation ''job_runs'' ''job_runs_job_id_fkey''), d1)
      else (Inr (), d1\<lparr>job_runs := job_runs d @ [(new_run i jobID TriggerSchedule now)\<lparr>r_planned_minute := Some plannedMinute\<rparr>]\<rparr>))"

definition count_running :: "int statement" where
  "count_running = query (\<lambda>d. int (length (filter (\<lambda>r. r_status r = StatusRunning) (job_runs d))))"

definition running_job_ids :: "int set statement" where
  "running_job_ids = query (\<lambda>d. set (map r_job_id (filter (\<lambda>r. r_status r = StatusRunning) (job_runs d))))"

definition job_priority :: "db \<Rightarrow> int \<Rightarrow> int" where
  "job_priority d i = (case find_job d i of None \<Rightarrow> 0 | Some j \<Rightarrow> j_priority j)"

definition due_pending :: "db \<Rightarrow> instant \<Rightarrow> run \<Rightarrow> bool" where
  "due_pending d now r \<longleftrightarrow> r_status r = StatusPending \<and> find_job d (r_job_id r) \<noteq> None
     \<and> (case r_run_after r of None \<Rightarrow> True | Some t \<Rightarrow> t \<le> now)"

definition pending_run_of :: "db \<Rightarrow> run \<Rightarrow> pending_run" where
  "pending_run_of d r = \<lparr>pr_id = r_id r, pr_job_id = r_job_id r,
     pr_code = (case find_job d (r_job_id r) of None \<Rightarrow> [] | Some j \<Rightarrow> j_code j),
     pr_single_run = (case find_job d (r_job_id r) of None \<Rightarrow> False | Some j \<Rightarrow> j_single_run j)\<rparr>"

definition list_pending :: "instant \<Rightarrow> int \<Rightarrow> pending_run list statement" where
  "list_pending now limit = query (\<lambda>d.
     map (pending_run_of d) (take (nat (clamp limit 1 500))
       (sort_key (\<lambda>r. (job_priority d (r_job_id r), r_id r)) (filter (due_pending d now) (job_runs d)))))"

definition skip_run :: "int \<Rightarrow> string \<Rightarrow> unit statement" where
  "skip_run runID reason now d =
     (if \<not> pg_text (go_truncate reason ErrorMaxLen) then (Inl invalid_text, d)
      else (Inr (), d\<lparr>job_runs := update_where (\<lambda>r. r_id r = runID \<and> r_status r = StatusPending)
        (\<lambda>r. r\<lparr>r_status := StatusSkipped, r_finished_at := Some now, r_error := go_truncate reason ErrorMaxLen\<rparr>)
        (job_runs d)\<rparr>))"

section \<open>One run\<close>

definition run_target_of :: "run \<Rightarrow> job_t \<Rightarrow> project_t \<Rightarrow> run_target" where
  "run_target_of r j p =
     \<lparr>rt_id = r_id r, rt_job_id = r_job_id r, rt_status = r_status r, rt_attempt = r_attempt r,
      rt_code = j_code j, rt_name = j_name j, rt_project_id = j_project_id j, rt_project_slug = p_slug p,
      rt_base_url = p_base_url p, rt_method = j_method j, rt_url = j_url j, rt_body = j_body j,
      rt_headers = [], rt_timeout_sec = j_timeout_sec j, rt_retries = j_retries j,
      rt_single_run = j_single_run j, rt_success_min = j_success_min j, rt_success_max = j_success_max j,
      rt_notification_id = j_notification_id j\<rparr>"

definition get_run :: "int \<Rightarrow> run_target statement" where
  "get_run runID now d =
     ((case find_run d runID of
         None \<Rightarrow> Inl ErrNotFound
       | Some r \<Rightarrow> (case find_job d (r_job_id r) of
           None \<Rightarrow> Inl ErrNotFound
         | Some j \<Rightarrow> (case find_project d (j_project_id j) of
             None \<Rightarrow> Inl ErrNotFound
           | Some p \<Rightarrow> Inr (run_target_of r j p)))), d)"

definition headers_for :: "int \<Rightarrow> (string \<times> string) list statement" where
  "headers_for jobID = query (\<lambda>d. map (\<lambda>h. (h_key h, h_value h)) (filter (\<lambda>h. h_job_id h = jobID) (job_headers d)))"

definition count_running_for_job :: "int \<Rightarrow> int \<Rightarrow> int statement" where
  "count_running_for_job jobID excludeRunID = query (\<lambda>d.
     int (length (filter (\<lambda>r. r_job_id r = jobID \<and> r_status r = StatusRunning \<and> r_id r \<noteq> excludeRunID) (job_runs d))))"

text \<open>The result is the number of rows affected.\<close>

definition claim_run :: "int \<Rightarrow> string \<Rightarrow> instant \<Rightarrow> int statement" where
  "claim_run runID instanceID at now d =
     (Inr (int (length (filter (\<lambda>r. r_id r = runID \<and> r_status r = StatusPending) (job_runs d)))),
      d\<lparr>job_runs := update_where (\<lambda>r. r_id r = runID \<and> r_status r = StatusPending)
        (\<lambda>r. r\<lparr>r_status := StatusRunning, r_started_at := Some at, r_instance_id := instanceID\<rparr>) (job_runs d)\<rparr>)"

definition finish_row :: "instant \<Rightarrow> run_result \<Rightarrow> run \<Rightarrow> run" where
  "finish_row now res r =
     r\<lparr>r_status := rr_status res, r_finished_at := Some now, r_duration_ms := Some (rr_duration_ms res),
       r_http_status := (if rr_http_status res > 0 then Some (rr_http_status res) else None),
       r_request_url := go_truncate (rr_request_url res) 2000,
       r_output := go_truncate (rr_output res) OutputMaxLen,
       r_error := go_truncate (rr_error res) ErrorMaxLen, r_attempt := rr_attempt res\<rparr>"

definition storable_text :: "run_result \<Rightarrow> bool" where
  "storable_text res \<longleftrightarrow> pg_text (go_truncate (rr_request_url res) 2000)
     \<and> pg_text (go_truncate (rr_output res) OutputMaxLen) \<and> pg_text (go_truncate (rr_error res) ErrorMaxLen)"

text \<open>What the columns of a result hold: valid text, and numbers of 32 and, for the attempt, 16 bits.\<close>

definition storable_result :: "run_result \<Rightarrow> bool" where
  "storable_result res \<longleftrightarrow> storable_text res \<and> int4 (rr_duration_ms res)
     \<and> (rr_http_status res > 0 \<longrightarrow> int4 (rr_http_status res)) \<and> - 32768 \<le> rr_attempt res \<and> rr_attempt res \<le> 32767"

definition finish_run :: "int \<Rightarrow> run_result \<Rightarrow> unit statement" where
  "finish_run runID res now d =
     (if \<not> storable_result res then (Inl (if storable_text res then out_of_range else invalid_text), d)
      else if list_ex (\<lambda>r. r_id r = runID) (job_runs d) \<and> rr_status res \<notin> set run_statuses
        then (Inl (check_violation ''job_runs'' ''job_runs_status_check''), d)
      else (Inr (), d\<lparr>job_runs := update_where (\<lambda>r. r_id r = runID) (finish_row now res) (job_runs d)\<rparr>))"

definition write_job_summary :: "int \<Rightarrow> string \<Rightarrow> instant \<Rightarrow> int \<Rightarrow> unit statement" where
  "write_job_summary jobID status at durationMs now d =
     (if \<not> int4 durationMs then (Inl out_of_range, d)
      else (Inr (), d\<lparr>jobs := update_where (\<lambda>j. j_id j = jobID)
        (\<lambda>j. j\<lparr>j_last_run_at := Some at, j_last_status := status, j_last_duration_ms := Some durationMs\<rparr>) (jobs d)\<rparr>))"

definition noted :: "string \<Rightarrow> string \<Rightarrow> string" where
  "noted err message = pg_left (if err = [] then message else err @ '' | '' @ message) (nat ErrorMaxLen)"

definition append_run_note :: "int \<Rightarrow> string \<Rightarrow> unit statement" where
  "append_run_note runID message now d =
     (if \<not> pg_text message then (Inl invalid_text, d)
      else (Inr (), d\<lparr>job_runs := update_where (\<lambda>r. r_id r = runID)
        (\<lambda>r. r\<lparr>r_error := noted (r_error r) message\<rparr>) (job_runs d)\<rparr>))"

section \<open>Chain\<close>

definition chain_target_of :: "db \<Rightarrow> job_link \<Rightarrow> chain_target list" where
  "chain_target_of d l = (case find_job d (l_target_job_id l) of
      None \<Rightarrow> []
    | Some t \<Rightarrow> (case find_project d (j_project_id t) of
        None \<Rightarrow> []
      | Some p \<Rightarrow>
          if jt_deleted_at t = None \<and> pt_deleted_at p = None
          then [\<lparr>ct_job_id = l_target_job_id l, ct_code = j_code t, ct_active = (j_active t \<and> p_active p),
                 ct_single_run = j_single_run t, ct_delay_sec = l_delay_sec l, ct_condition = l_condition l\<rparr>]
          else []))"

definition list_chain_targets :: "int \<Rightarrow> string \<Rightarrow> chain_target list statement" where
  "list_chain_targets jobID outcome = query (\<lambda>d.
     concat (map (chain_target_of d) (filter (\<lambda>l. l_job_id l = jobID \<and> l_active l
       \<and> (l_condition l = outcome \<or> l_condition l = ''always'')) (job_links d))))"

text \<open>The walk up the parents, bounded at 50 steps by the query itself.\<close>

fun up_steps :: "nat \<Rightarrow> db \<Rightarrow> int option \<Rightarrow> int" where
  "up_steps 0 d p = 0"
| "up_steps (Suc n) d None = 0"
| "up_steps (Suc n) d (Some i) = (case find_run d i of None \<Rightarrow> 0 | Some r \<Rightarrow> 1 + up_steps n d (r_parent_run_id r))"

definition chain_step_count :: "int \<Rightarrow> int statement" where
  "chain_step_count runID = query (\<lambda>d. case find_run d runID of
     None \<Rightarrow> 0 | Some r \<Rightarrow> up_steps 50 d (r_parent_run_id r))"

definition insert_run :: "run \<Rightarrow> int statement" where
  "insert_run r now d =
     (let d1 = d\<lparr>runs_seq := r_id r\<rparr> in
      if find_job d (r_job_id r) = None then (Inl (fk_violation ''job_runs'' ''job_runs_job_id_fkey''), d1)
      else if (case r_parent_run_id r of None \<Rightarrow> False | Some p \<Rightarrow> find_run d p = None)
        then (Inl (fk_violation ''job_runs'' ''job_runs_parent_run_id_fkey''), d1)
      else (Inr (r_id r), d1\<lparr>job_runs := job_runs d @ [r]\<rparr>))"

definition create_chain_run :: "int \<Rightarrow> int \<Rightarrow> int \<Rightarrow> int statement" where
  "create_chain_run jobID delaySec parentRunID now d =
     insert_run ((new_run (runs_seq d + 1) jobID TriggerChain now)
       \<lparr>r_parent_run_id := Some parentRunID, r_run_after := Some (now + seconds delaySec)\<rparr>) now d"

definition create_chain_skipped :: "int \<Rightarrow> int \<Rightarrow> string \<Rightarrow> unit statement" where
  "create_chain_skipped jobID parentRunID reason now d =
     (if \<not> pg_text (go_truncate reason ErrorMaxLen) then (Inl invalid_text, d)
      else let (res, d') = insert_run ((new_run (runs_seq d + 1) jobID TriggerChain now)
          \<lparr>r_parent_run_id := Some parentRunID, r_status := StatusSkipped, r_finished_at := Some now,
           r_error := go_truncate reason ErrorMaxLen\<rparr>) now d
        in (map_sum id (\<lambda>_. ()) res, d'))"

section \<open>Watchdog\<close>

definition stuck_message :: string where
  "stuck_message = ''Still running past max_duration_sec; closed by the watchdog. The target may have finished.''"

definition stuck :: "db \<Rightarrow> instant \<Rightarrow> run \<Rightarrow> bool" where
  "stuck d now r \<longleftrightarrow> r_status r = StatusRunning
     \<and> (case (find_job d (r_job_id r), r_started_at r) of
          (Some j, Some t) \<Rightarrow> t < now - seconds (j_max_duration_sec j)
        | _ \<Rightarrow> False)"

text \<open>\<open>EXTRACT(EPOCH FROM interval) * 1000\<close> cast to an integer: rounded, halves away from zero.\<close>

definition elapsed_ms :: "instant \<Rightarrow> instant option \<Rightarrow> int" where
  "elapsed_ms now started = (case started of None \<Rightarrow> 0 | Some t \<Rightarrow> quot (2 * (now - t) + sgn (now - t) * 1000000) 2000000)"

definition close_stuck_row :: "instant \<Rightarrow> run \<Rightarrow> run" where
  "close_stuck_row now r =
     r\<lparr>r_status := StatusTimeout, r_finished_at := Some now,
       r_duration_ms := Some (case r_duration_ms r of Some n \<Rightarrow> n | None \<Rightarrow> elapsed_ms now (r_started_at r)),
       r_error := (if r_error r = [] then stuck_message else r_error r @ '' | '' @ stuck_message)\<rparr>"

definition close_stuck_runs :: "int statement" where
  "close_stuck_runs now d =
     (let hit = filter (stuck d now) (job_runs d) in
      if list_ex (\<lambda>r. r_duration_ms r = None \<and> \<not> int4 (elapsed_ms now (r_started_at r))) hit
      then (Inl out_of_range, d)
      else (Inr (int (length hit)), d\<lparr>job_runs := update_where (stuck d now) (close_stuck_row now) (job_runs d)\<rparr>))"

text \<open>The threshold of a \<open>time.Duration\<close> reaches the database in seconds.\<close>

definition count_stale_pending :: "int \<Rightarrow> int statement" where
  "count_stale_pending threshold = query_at (\<lambda>now d.
     int (length (filter (\<lambda>r. r_status r = StatusPending \<and> r_created_at r < now - threshold) (job_runs d))))"

definition failing_rows :: "db \<Rightarrow> instant \<Rightarrow> int \<Rightarrow> run list" where
  "failing_rows d now window = filter (\<lambda>r. (r_status r = StatusFailed \<or> r_status r = StatusTimeout)
     \<and> r_created_at r > now - window \<and> find_job d (r_job_id r) \<noteq> None) (job_runs d)"

definition failing_group :: "db \<Rightarrow> run \<Rightarrow> string \<times> string" where
  "failing_group d r = (case find_job d (r_job_id r) of None \<Rightarrow> ([], []) | Some j \<Rightarrow> (j_code j, j_name j))"

text \<open>The largest text of a group in the byte order (the C collation).\<close>

definition max_text :: "string list \<Rightarrow> string" where
  "max_text ss = (if ss = [] then [] else fold max (tl ss) (hd ss))"

definition list_failing_jobs :: "int \<Rightarrow> int \<Rightarrow> error_summary list statement" where
  "list_failing_jobs window threshold = query_at (\<lambda>now d.
     let rows = failing_rows d now window;
         summary = (\<lambda>g. let rs = filter (\<lambda>r. failing_group d r = g) rows in
           \<lparr>es_code = fst g, es_name = snd g, es_count = int (length rs), es_last_error = max_text (map r_error rs)\<rparr>)
     in sort_key (\<lambda>s. - es_count s)
          (filter (\<lambda>s. es_count s \<ge> threshold) (map summary (remdups (map (failing_group d) rows)))))"

definition days :: "int \<Rightarrow> int" where
  "days n = n * 86400 * second"

text \<open>A deleted run is no longer the parent of any (\<open>ON DELETE SET NULL\<close>).\<close>

definition delete_runs :: "int list \<Rightarrow> db \<Rightarrow> db" where
  "delete_runs ids d = d\<lparr>job_runs :=
     map (\<lambda>r. case r_parent_run_id r of Some p \<Rightarrow> if p \<in> set ids then r\<lparr>r_parent_run_id := None\<rparr> else r | None \<Rightarrow> r)
       (filter (\<lambda>r. r_id r \<notin> set ids) (job_runs d))\<rparr>"

definition purgeable :: "instant \<Rightarrow> int \<Rightarrow> int \<Rightarrow> db \<Rightarrow> int list" where
  "purgeable now ndays limit d =
     take (nat (clamp limit 1 50000)) (sort (map r_id (filter (\<lambda>r. r_created_at r < now - days ndays) (job_runs d))))"

definition purge_runs :: "int \<Rightarrow> int \<Rightarrow> int statement" where
  "purge_runs ndays limit now d =
     (let ids = purgeable now ndays limit d in (Inr (int (length ids)), delete_runs ids d))"

definition purge_app_logs :: "int \<Rightarrow> int statement" where
  "purge_app_logs ndays now d =
     (Inr (int (length (filter (\<lambda>l. al_created_at l < now - days ndays) (app_logs d)))),
      d\<lparr>app_logs := filter (\<lambda>l. \<not> al_created_at l < now - days ndays) (app_logs d)\<rparr>)"

section \<open>Recipients\<close>

definition target_for_job :: "int \<Rightarrow> notify_target option statement" where
  "target_for_job notificationID = query (\<lambda>d.
     case find (\<lambda>n. n_id n = notificationID \<and> n_active n \<and> n_deleted_at n = None) (notifications d) of
       None \<Rightarrow> None
     | Some n \<Rightarrow> Some \<lparr>nt_on_success = n_on_success n, nt_on_failure = n_on_failure n,
         nt_emails = map e_email (filter (\<lambda>e. e_notification_id e = notificationID \<and> e_active e) (notify_emails d))\<rparr>)"

section \<open>Issuing a statement\<close>

text \<open>
  A world is the database together with what happens around it. Before a statement runs, other
  processes may have changed the tables; the statement may fail before it reaches the database
  or after it has taken effect there. Each statement consumes one \<open>event\<close> saying so; when no
  event is left, nothing interferes. \<open>w_app\<close> are the readings of the application's own clock.
\<close>

datatype fault = Fine | FailBefore string | FailAfter string

record event =
  ev_env :: "db \<Rightarrow> db"
  ev_now :: instant
  ev_fault :: fault

text \<open>A request as it leaves: the headers under their canonical names.\<close>

record http_request =
  hq_method :: string
  hq_url :: string
  hq_body :: string
  hq_headers :: "(string \<times> string) list"

text \<open>
  What a process does to the world outside the database: hand a run over, count it in the metrics,
  send a request, arm a timer.
\<close>

datatype effect =
    Dispatched int string
  | Observed string string string int int
  | Requested http_request
  | TimerSet int int string

record world =
  w_db :: db
  w_events :: "event list"
  w_now :: instant
  w_app :: "instant list"
  w_out :: "effect list"

definition stmt :: "'a statement \<Rightarrow> ('w world_scheme, 'a) call" where
  "stmt f = State (\<lambda>w. case w_events w of
      [] \<Rightarrow> (case f (w_now w) (w_db w) of (res, d) \<Rightarrow> (res, w\<lparr>w_db := d\<rparr>))
    | ev # evs \<Rightarrow>
        (let d0 = ev_env ev (w_db w); w1 = w\<lparr>w_events := evs, w_now := ev_now ev\<rparr> in
         case ev_fault ev of
           FailBefore m \<Rightarrow> (Inl (ErrText m), w1\<lparr>w_db := d0\<rparr>)
         | FailAfter m \<Rightarrow> (Inl (ErrText m), w1\<lparr>w_db := snd (f (ev_now ev) d0)\<rparr>)
         | Fine \<Rightarrow> (case f (ev_now ev) d0 of (res, d) \<Rightarrow> (res, w1\<lparr>w_db := d\<rparr>))))"

text \<open>\<open>time.Now()\<close> of the application.\<close>

definition app_now :: "('w world_scheme, instant) state" where
  "app_now = State (\<lambda>w. case w_app w of [] \<Rightarrow> (w_now w, w) | t # ts \<Rightarrow> (t, w\<lparr>w_app := ts\<rparr>))"

definition emit :: "effect \<Rightarrow> ('w world_scheme, unit) state" where
  "emit e = modify (\<lambda>w. w\<lparr>w_out := w_out w @ [e]\<rparr>)"

text \<open>Where nothing interferes, a statement does what it says.\<close>

lemma run_stmt_alone:
  "w_events w = [] \<Longrightarrow> run_state (stmt f) w = (fst (f (w_now w) (w_db w)), w\<lparr>w_db := snd (f (w_now w) (w_db w))\<rparr>)"
  by (simp add: stmt_def split: prod.split)

lemma stmt_alone_Inr:
  "w_events w = [] \<Longrightarrow> run_state (stmt f) w = (Inr x, w') \<longleftrightarrow>
     fst (f (w_now w) (w_db w)) = Inr x \<and> w' = w\<lparr>w_db := snd (f (w_now w) (w_db w))\<rparr>"
  by (auto simp: run_stmt_alone)

text \<open>A statement that only reads.\<close>

definition reads_only :: "'a statement \<Rightarrow> bool" where
  "reads_only f \<longleftrightarrow> (\<forall>now d. snd (f now d) = d)"

lemma reads_onlyI: "(\<And>now d. snd (f now d) = d) \<Longrightarrow> reads_only f"
  by (simp add: reads_only_def)

lemma reads_only_query [simp]: "reads_only (query f)"
  by (simp add: reads_only_def query_def)

lemma run_read:
  fixes w :: "'w world_scheme"
  shows "w_events w = [] \<Longrightarrow> reads_only f \<Longrightarrow> run_state (stmt f) w = (fst (f (w_now w) (w_db w)), w)"
  by (simp add: run_stmt_alone reads_only_def)

end
