(* ===== verification/StoreFacts.thy ===== *)
theory StoreFacts
  imports Store
begin

text \<open>
  What every statement of the execution path guarantees about \<open>job_runs\<close>, whoever issues it:
  identifiers stay unique and below the sequence, a (job, minute) pair has at most one row, a row
  never changes its identity and never leaves a terminal state, and identifiers are not reused.
\<close>

section \<open>The table invariant\<close>

definition run_keys :: "db \<Rightarrow> (int \<times> instant) list" where
  "run_keys d = List.map_filter run_key (job_runs d)"

definition runs_ok :: "db \<Rightarrow> bool" where
  "runs_ok d \<longleftrightarrow> distinct (map r_id (job_runs d)) \<and> (\<forall>r\<in>set (job_runs d). 0 < r_id r \<and> r_id r \<le> runs_seq d)
     \<and> distinct (run_keys d) \<and> 0 \<le> runs_seq d"

section \<open>How a row and the table evolve\<close>

definition row_evolves :: "run \<Rightarrow> run \<Rightarrow> bool" where
  "row_evolves r r' \<longleftrightarrow> r_id r' = r_id r \<and> r_job_id r' = r_job_id r \<and> r_planned_minute r' = r_planned_minute r
     \<and> r_trigger r' = r_trigger r \<and> r_created_at r' = r_created_at r \<and> r_run_after r' = r_run_after r
     \<and> (r_parent_run_id r' = r_parent_run_id r \<or> r_parent_run_id r' = None)
     \<and> (terminal (r_status r) \<longrightarrow> terminal (r_status r'))
     \<and> (r_status r = StatusRunning \<longrightarrow> r_status r' = StatusRunning \<or> terminal (r_status r'))
     \<and> (r_status r' = StatusPending \<longrightarrow> r_status r = StatusPending)"

definition evolves :: "db \<Rightarrow> db \<Rightarrow> bool" where
  "evolves d d' \<longleftrightarrow> runs_seq d \<le> runs_seq d'
     \<and> (\<forall>r'\<in>set (job_runs d'). runs_seq d < r_id r' \<or> (\<exists>r\<in>set (job_runs d). row_evolves r r'))"

lemma status_distinct [simp]:
  "terminal StatusSuccess" "terminal StatusFailed" "terminal StatusTimeout" "terminal StatusSkipped"
  "\<not> terminal StatusPending" "\<not> terminal StatusRunning"
  "StatusPending \<noteq> StatusRunning" "StatusRunning \<noteq> StatusPending"
  "StatusSkipped \<noteq> StatusPending" "StatusTimeout \<noteq> StatusPending" "StatusSkipped \<noteq> StatusRunning"
  "StatusRunning \<noteq> StatusSkipped" "StatusPending \<noteq> StatusSkipped" "StatusRunning \<noteq> StatusTimeout"
  "StatusTimeout \<noteq> StatusSuccess" "StatusTimeout \<noteq> StatusFailed" "StatusFailed \<noteq> StatusSuccess"
  "StatusTimeout \<noteq> StatusRunning"
  by (simp_all add: terminal_def status_defs)

lemma terminal_not: "terminal st \<Longrightarrow> st \<noteq> StatusPending \<and> st \<noteq> StatusRunning"
  by auto

lemma row_evolves_refl: "row_evolves r r"
  by (auto simp: row_evolves_def)

lemma row_evolves_trans: "row_evolves a b \<Longrightarrow> row_evolves b c \<Longrightarrow> row_evolves a c"
  unfolding row_evolves_def by metis

lemma evolves_refl: "evolves d d"
  using row_evolves_refl by (auto simp: evolves_def)

lemma evolves_trans: assumes "evolves a b" and "evolves b c" shows "evolves a c"
  unfolding evolves_def
proof (intro conjI ballI)
  from assms show "runs_seq a \<le> runs_seq c" by (simp add: evolves_def)
next
  fix r'' assume r'': "r'' \<in> set (job_runs c)"
  with assms(2) consider "runs_seq b < r_id r''" | r' where "r' \<in> set (job_runs b)" "row_evolves r' r''"
    by (auto simp: evolves_def)
  then show "runs_seq a < r_id r'' \<or> (\<exists>r\<in>set (job_runs a). row_evolves r r'')"
  proof cases
    case 1
    with assms(1) show ?thesis by (auto simp: evolves_def)
  next
    case 2
    with assms(1) consider "runs_seq a < r_id r'" | r where "r \<in> set (job_runs a)" "row_evolves r r'"
      by (auto simp: evolves_def)
    then show ?thesis
    proof cases
      case 1
      with 2 show ?thesis by (simp add: row_evolves_def)
    next
      case (2 r)
      with \<open>row_evolves r' r''\<close> show ?thesis by (meson row_evolves_trans)
    qed
  qed
qed

interpretation ev: frame evolves
  by unfold_locales (auto intro: evolves_refl evolves_trans)

section \<open>Updating and inserting\<close>

lemma run_keys_update_where:
  assumes "\<And>r. r_job_id (f r) = r_job_id r \<and> r_planned_minute (f r) = r_planned_minute r"
  shows "List.map_filter run_key (update_where P f rs) = List.map_filter run_key rs"
proof -
  have "run_key (f r) = run_key r" for r
    using assms by (simp add: run_key_def)
  then show ?thesis by (induction rs) (simp_all add: map_filter_simps split: option.split)
qed

text \<open>An update of rows that keeps their identity keeps the table invariant.\<close>

lemma runs_ok_update:
  assumes "runs_ok d"
    and "\<And>r. r_id (f r) = r_id r \<and> r_job_id (f r) = r_job_id r \<and> r_planned_minute (f r) = r_planned_minute r"
  shows "runs_ok (d\<lparr>job_runs := update_where P f (job_runs d)\<rparr>)"
proof -
  have "map r_id (update_where P f (job_runs d)) = map r_id (job_runs d)"
    using assms(2) by (simp add: update_where_map_key)
  moreover have "0 < r_id r \<and> r_id r \<le> runs_seq d" if "r \<in> set (update_where P f (job_runs d))" for r
    using that assms by (auto simp: set_update_where runs_ok_def split: if_splits)
  ultimately show ?thesis
    using assms by (simp add: runs_ok_def run_keys_def run_keys_update_where)
qed

lemma evolves_update:
  assumes "\<And>r. r \<in> set (job_runs d) \<Longrightarrow> P r \<Longrightarrow> row_evolves r (f r)"
  shows "evolves d (d\<lparr>job_runs := update_where P f (job_runs d)\<rparr>)"
  using assms row_evolves_refl by (auto simp: evolves_def set_update_where)

lemma runs_ok_seq: "runs_ok d \<Longrightarrow> runs_ok (d\<lparr>runs_seq := runs_seq d + 1\<rparr>)"
  by (auto simp: runs_ok_def run_keys_def)

lemma evolves_seq: "evolves d (d\<lparr>runs_seq := runs_seq d + 1\<rparr>)"
  using row_evolves_refl by (auto simp: evolves_def)

lemma runs_ok_insert:
  assumes "runs_ok d" and "r_id r = runs_seq d + 1"
    and "\<And>k. run_key r = Some k \<Longrightarrow> k \<notin> set (run_keys d)"
  shows "runs_ok (d\<lparr>runs_seq := runs_seq d + 1, job_runs := job_runs d @ [r]\<rparr>)"
proof -
  have "distinct (List.map_filter run_key (job_runs d @ [r]))"
  proof (cases "run_key r")
    case None
    with assms(1) show ?thesis by (simp add: runs_ok_def run_keys_def map_filter_def)
  next
    case (Some k)
    with assms(1) assms(3) [OF Some] show ?thesis
      by (simp add: runs_ok_def run_keys_def map_filter_def)
  qed
  with assms(1,2) show ?thesis
    by (fastforce simp: runs_ok_def run_keys_def)
qed

lemma evolves_insert:
  assumes "r_id r = runs_seq d + 1"
  shows "evolves d (d\<lparr>runs_seq := runs_seq d + 1, job_runs := job_runs d @ [r]\<rparr>)"
  using row_evolves_refl assms by (auto simp: evolves_def)

lemma mem_run_keys: "k \<in> set (run_keys d) \<longleftrightarrow> (\<exists>r\<in>set (job_runs d). run_key r = Some k)"
  by (force simp: run_keys_def map_filter_def image_iff)

section \<open>The statements\<close>

text \<open>A statement is safe when it keeps the invariant and only lets rows evolve.\<close>

definition safe :: "'a statement \<Rightarrow> bool" where
  "safe f \<longleftrightarrow> (\<forall>now d. evolves d (snd (f now d)) \<and> (runs_ok d \<longrightarrow> runs_ok (snd (f now d))))"

named_theorems safe_intro \<open>the statements that are safe\<close>

lemma safe_query [safe_intro]: "safe (query f)"
  by (simp add: safe_def query_def evolves_refl)

lemma safe_query_at [safe_intro]: "safe (query_at f)"
  by (simp add: safe_def query_at_def evolves_refl)

lemma safe_aside:
  assumes "\<And>now d. job_runs (snd (f now d)) = job_runs d \<and> runs_seq (snd (f now d)) = runs_seq d"
  shows "safe f"
proof -
  have "evolves d (snd (f now d))" for now d
    using assms row_evolves_refl by (auto simp: evolves_def)
  moreover have "runs_ok d \<Longrightarrow> runs_ok (snd (f now d))" for now d
    using assms by (simp add: runs_ok_def run_keys_def)
  ultimately show ?thesis by (simp add: safe_def)
qed

lemma safe_exec: "(\<And>d. job_runs (f d) = job_runs d \<and> runs_seq (f d) = runs_seq d) \<Longrightarrow> safe (exec f)"
  by (rule safe_aside) (simp add: exec_def)

lemma safe_touch_heartbeat [safe_intro]: "safe (touch_heartbeat a b c e)"
  unfolding touch_heartbeat_def by (rule safe_exec) simp

lemma safe_set_warning_marker [safe_intro]: "safe (set_warning_marker m)"
  unfolding set_warning_marker_def by (rule safe_exec) simp

lemma safe_write_job_summary [safe_intro]: "safe (write_job_summary j s a n)"
  by (rule safe_aside) (simp add: write_job_summary_def)

lemma safe_reads [safe_intro]:
  "safe db_time" "safe read_heartbeat" "safe list_scheduled_jobs" "safe list_active_schedules"
  "safe count_running" "safe running_job_ids" "safe (list_pending n l)" "safe (headers_for j)"
  "safe (count_running_for_job j e)" "safe (list_chain_targets j oc)" "safe (chain_step_count i)"
  "safe (count_stale_pending th)" "safe (list_failing_jobs wd th)" "safe (target_for_job nid)"
  unfolding db_time_def read_heartbeat_def list_scheduled_jobs_def list_active_schedules_def
    count_running_def running_job_ids_def list_pending_def headers_for_def count_running_for_job_def
    list_chain_targets_def chain_step_count_def count_stale_pending_def list_failing_jobs_def
    target_for_job_def
  by (rule safe_query safe_query_at)+

lemma safe_get_run [safe_intro]: "safe (get_run i)"
  by (simp add: safe_def get_run_def evolves_refl)

lemma key_of_new_run [simp]: "run_key (new_run i j t now) = None"
  by (simp add: run_key_def new_run_def)

lemma queue_run_cases:
  obtains "(j, m) \<in> set (run_keys d)" "queue_run j m now d = (Inr (), d\<lparr>runs_seq := runs_seq d + 1\<rparr>)"
  | "(j, m) \<notin> set (run_keys d)" "find_job d j = None"
    "queue_run j m now d = (Inl (fk_violation ''job_runs'' ''job_runs_job_id_fkey''), d\<lparr>runs_seq := runs_seq d + 1\<rparr>)"
  | jt where "(j, m) \<notin> set (run_keys d)" "find_job d j = Some jt"
    "queue_run j m now d = (Inr (), d\<lparr>runs_seq := runs_seq d + 1, job_runs := job_runs d @
        [(new_run (runs_seq d + 1) j TriggerSchedule now)\<lparr>r_planned_minute := Some m\<rparr>]\<rparr>)"
  by (cases "(j, m) \<in> set (run_keys d)"; cases "find_job d j")
    (auto simp: queue_run_def Let_def mem_run_keys list_ex_iff)

lemma safe_queue_run [safe_intro]: "safe (queue_run j m)"
  unfolding safe_def
proof (intro allI conjI impI)
  fix now :: instant and d :: db
  let ?r = "(new_run (runs_seq d + 1) j TriggerSchedule now)\<lparr>r_planned_minute := Some m\<rparr>"
  have i: "r_id ?r = runs_seq d + 1" by (simp add: new_run_def)
  show "evolves d (snd (queue_run j m now d))"
    by (rule queue_run_cases [of j m d now]) (simp_all add: evolves_seq evolves_insert [OF i])
  assume ok: "runs_ok d"
  show "runs_ok (snd (queue_run j m now d))"
  proof (rule queue_run_cases [of j m d now])
    assume n: "(j, m) \<notin> set (run_keys d)"
    have "run_key ?r = Some k \<Longrightarrow> k \<notin> set (run_keys d)" for k
      using n by (auto simp: run_key_def new_run_def)
    then have "runs_ok (d\<lparr>runs_seq := runs_seq d + 1, job_runs := job_runs d @ [?r]\<rparr>)"
      using runs_ok_insert [OF ok i] by blast
    then show "queue_run j m now d = (Inr (), d\<lparr>runs_seq := runs_seq d + 1, job_runs := job_runs d @ [?r]\<rparr>)
        \<Longrightarrow> runs_ok (snd (queue_run j m now d))" by simp
  qed (use ok in \<open>simp_all add: runs_ok_seq\<close>)
qed

lemma safe_skip_run [safe_intro]: "safe (skip_run i reason)"
  unfolding safe_def skip_run_def
  by (auto intro!: evolves_update runs_ok_update simp: row_evolves_def evolves_refl)

lemma safe_claim_run [safe_intro]: "safe (claim_run i inst at)"
  unfolding safe_def claim_run_def
  by (auto intro!: evolves_update runs_ok_update simp: row_evolves_def)

lemma finish_row_keys [simp]:
  "r_id (finish_row now res r) = r_id r" "r_job_id (finish_row now res r) = r_job_id r"
  "r_planned_minute (finish_row now res r) = r_planned_minute r" "r_status (finish_row now res r) = rr_status res"
  by (simp_all add: finish_row_def)

text \<open>A result that is neither pending nor running is safe to write, also one the schema refuses.\<close>

lemma safe_finish_run:
  assumes "rr_status res \<noteq> StatusPending" and "rr_status res \<noteq> StatusRunning"
  shows "safe (finish_run i res)"
proof -
  have t: "terminal (rr_status res)" if "rr_status res \<in> set run_statuses"
    using that assms by (auto simp: run_statuses_def terminal_def)
  have none: "update_where (\<lambda>r. r_id r = i) f (job_runs d) = job_runs d"
    if "\<not> list_ex (\<lambda>r. r_id r = i) (job_runs d)" for d :: db and f
    using that by (intro update_where_none) (auto simp: list_ex_iff)
  have "evolves d (snd (finish_run i res now d)) \<and> (runs_ok d \<longrightarrow> runs_ok (snd (finish_run i res now d)))" for now d
  proof (cases "list_ex (\<lambda>r. r_id r = i) (job_runs d)")
    case True
    then show ?thesis
      using t assms by (auto simp: finish_run_def evolves_refl intro!: evolves_update runs_ok_update)
        (auto simp: row_evolves_def finish_row_def)
  next
    case False
    then show ?thesis by (simp add: finish_run_def none evolves_refl)
  qed
  then show ?thesis by (simp add: safe_def)
qed

lemma safe_append_run_note [safe_intro]: "safe (append_run_note i msg)"
  unfolding safe_def append_run_note_def
  by (auto intro!: evolves_update runs_ok_update simp: row_evolves_def evolves_refl)

lemma close_stuck_row_keys [simp]:
  "r_id (close_stuck_row now r) = r_id r" "r_job_id (close_stuck_row now r) = r_job_id r"
  "r_planned_minute (close_stuck_row now r) = r_planned_minute r"
  "r_status (close_stuck_row now r) = StatusTimeout"
  by (simp_all add: close_stuck_row_def)

lemma safe_close_stuck_runs [safe_intro]: "safe close_stuck_runs"
  unfolding safe_def close_stuck_runs_def Let_def
  by (auto intro!: evolves_update runs_ok_update simp: evolves_refl)
    (auto simp: row_evolves_def close_stuck_row_def)

lemma insert_run_cases:
  obtains e where "insert_run r now d = (Inl e, d\<lparr>runs_seq := r_id r\<rparr>)"
  | "insert_run r now d = (Inr (r_id r), d\<lparr>runs_seq := r_id r, job_runs := job_runs d @ [r]\<rparr>)"
    "find_job d (r_job_id r) \<noteq> None" "\<And>p. r_parent_run_id r = Some p \<Longrightarrow> find_run d p \<noteq> None"
proof (cases "find_job d (r_job_id r) = None \<or> (case r_parent_run_id r of None \<Rightarrow> False | Some p \<Rightarrow> find_run d p = None)")
  case True
  then have "\<exists>e. insert_run r now d = (Inl e, d\<lparr>runs_seq := r_id r\<rparr>)"
    by (auto simp: insert_run_def Let_def split: option.splits)
  then show ?thesis using that(1) by blast
next
  case False
  then show ?thesis
    by (intro that(2)) (auto simp: insert_run_def Let_def split: option.splits)
qed

lemma insert_run_safe:
  assumes "r_id r = runs_seq d + 1" and "run_key r = None"
  shows "evolves d (snd (insert_run r now d))" "runs_ok d \<Longrightarrow> runs_ok (snd (insert_run r now d))"
proof -
  show "evolves d (snd (insert_run r now d))"
    by (rule insert_run_cases [of r now d]) (simp_all add: assms evolves_seq evolves_insert)
  have new: "runs_ok (d\<lparr>runs_seq := runs_seq d + 1, job_runs := job_runs d @ [r]\<rparr>)" if "runs_ok d"
    using runs_ok_insert [OF that assms(1)] assms(2) by simp
  show "runs_ok (snd (insert_run r now d))" if ok: "runs_ok d"
    by (rule insert_run_cases [of r now d]) (simp_all add: assms(1) ok runs_ok_seq new)
qed

lemma safe_create_chain_run [safe_intro]: "safe (create_chain_run j delay p)"
  unfolding safe_def create_chain_run_def
  by (auto intro!: insert_run_safe simp: new_run_def run_key_def)

lemma safe_map_result:
  assumes "safe f"
  shows "safe (\<lambda>now d. let (res, d') = f now d in (g res, d'))"
  using assms by (simp add: safe_def split_def Let_def)

lemma safe_create_chain_skipped [safe_intro]: "safe (create_chain_skipped j p reason)"
proof -
  have "safe (\<lambda>now d. insert_run ((new_run (runs_seq d + 1) j TriggerChain now)
      \<lparr>r_parent_run_id := Some p, r_status := StatusSkipped, r_finished_at := Some now,
       r_error := go_truncate reason ErrorMaxLen\<rparr>) now d)"
    unfolding safe_def by (auto intro!: insert_run_safe simp: new_run_def run_key_def)
  from safe_map_result [OF this, of "map_sum id (\<lambda>_. ())"] show ?thesis
    by (simp add: safe_def create_chain_skipped_def evolves_refl)
qed

lemma evolves_delete: "evolves d (delete_runs ids d)"
  by (auto simp: evolves_def delete_runs_def split: option.splits intro!: bexI)
    (auto simp: row_evolves_def)

lemma run_keys_delete:
  "run_keys (delete_runs ids d) = List.map_filter run_key (filter (\<lambda>r. r_id r \<notin> set ids) (job_runs d))"
proof -
  let ?g = "\<lambda>r. case r_parent_run_id r of Some p \<Rightarrow> if p \<in> set ids then r\<lparr>r_parent_run_id := None\<rparr> else r | None \<Rightarrow> r"
  have "run_key (?g r) = run_key r" for r
    by (simp add: run_key_def split: option.split)
  then have "List.map_filter run_key (map ?g rs) = List.map_filter run_key rs" for rs
    by (induction rs) (simp_all add: map_filter_simps split: option.split)
  then show ?thesis by (simp add: run_keys_def delete_runs_def)
qed

lemma distinct_map_filter_filter:
  "distinct (List.map_filter f xs) \<Longrightarrow> distinct (List.map_filter f (filter P xs))"
proof (induction xs)
  case Nil
  then show ?case by simp
next
  case (Cons x xs)
  have "set (List.map_filter f (filter P xs)) \<subseteq> set (List.map_filter f xs)"
    by (auto simp: map_filter_def)
  with Cons show ?case by (auto simp: map_filter_simps split: option.splits)
qed

lemma runs_ok_delete: assumes "runs_ok d" shows "runs_ok (delete_runs ids d)"
proof -
  let ?g = "\<lambda>r. case r_parent_run_id r of Some p \<Rightarrow> if p \<in> set ids then r\<lparr>r_parent_run_id := None\<rparr> else r | None \<Rightarrow> r"
  have g: "r_id (?g r) = r_id r" for r by (simp split: option.split)
  then have "map r_id (job_runs (delete_runs ids d)) = map r_id (filter (\<lambda>r. r_id r \<notin> set ids) (job_runs d))"
    by (simp add: delete_runs_def split: option.split)
  moreover have "distinct (map r_id (filter (\<lambda>r. r_id r \<notin> set ids) (job_runs d)))"
    using assms by (auto simp: runs_ok_def intro: distinct_map_filter)
  moreover have "distinct (run_keys (delete_runs ids d))"
    unfolding run_keys_delete using assms by (intro distinct_map_filter_filter) (simp add: runs_ok_def run_keys_def)
  moreover have "0 < r_id r \<and> r_id r \<le> runs_seq d" if "r \<in> set (job_runs (delete_runs ids d))" for r
    using that assms by (auto simp: delete_runs_def runs_ok_def split: option.splits)
  moreover have "runs_seq (delete_runs ids d) = runs_seq d" by (simp add: delete_runs_def)
  ultimately show ?thesis using assms by (simp add: runs_ok_def)
qed

lemma safe_purge_runs [safe_intro]: "safe (purge_runs n l)"
  by (simp add: safe_def purge_runs_def Let_def evolves_delete runs_ok_delete)

lemma safe_purge_app_logs [safe_intro]: "safe (purge_app_logs n)"
proof -
  have "evolves d (d\<lparr>app_logs := xs\<rparr>)" "runs_ok d \<Longrightarrow> runs_ok (d\<lparr>app_logs := xs\<rparr>)" for d xs
    using row_evolves_refl by (auto simp: evolves_def runs_ok_def run_keys_def)
  then show ?thesis by (simp add: safe_def purge_app_logs_def)
qed

section \<open>Worlds\<close>

text \<open>
  What the other processes do between two statements is benign when it, too, is made of
  statements that are safe.
\<close>

definition benign :: "(db \<Rightarrow> db) \<Rightarrow> bool" where
  "benign f \<longleftrightarrow> (\<forall>d. evolves d (f d) \<and> (runs_ok d \<longrightarrow> runs_ok (f d)))"

definition calm :: "'w world_scheme \<Rightarrow> bool" where
  "calm w \<longleftrightarrow> (\<forall>ev\<in>set (w_events w). benign (ev_env ev))"

lemma benign_id [simp]: "benign (\<lambda>d. d)" "benign id"
  by (simp_all add: benign_def evolves_refl)

lemma benign_statement: "safe f \<Longrightarrow> benign (\<lambda>d. snd (f now d))"
  by (simp add: safe_def benign_def)

lemma benign_comp: "benign f \<Longrightarrow> benign g \<Longrightarrow> benign (\<lambda>d. f (g d))"
  unfolding benign_def by (meson evolves_trans)

definition world_evolves :: "'w world_scheme \<Rightarrow> 'w world_scheme \<Rightarrow> bool" where
  "world_evolves w w' \<longleftrightarrow> set (w_events w') \<subseteq> set (w_events w)
     \<and> (calm w \<longrightarrow> evolves (w_db w) (w_db w') \<and> (runs_ok (w_db w) \<longrightarrow> runs_ok (w_db w')))"

lemma world_evolves_refl: "world_evolves w w"
  by (simp add: world_evolves_def evolves_refl)

lemma world_evolves_trans: "world_evolves u v \<Longrightarrow> world_evolves v w \<Longrightarrow> world_evolves u w"
  unfolding world_evolves_def calm_def by (meson evolves_trans subset_iff)

interpretation we: frame world_evolves
  by unfold_locales (auto intro: world_evolves_refl world_evolves_trans)

lemma world_evolves_stmt: assumes "safe f" shows "keeps world_evolves (stmt f)"
proof (rule keepsI)
  fix w a w' assume run: "run_state (stmt f) w = (a, w')"
  show "world_evolves w w'"
  proof (cases "w_events w")
    case Nil
    with run assms show ?thesis
      by (auto simp: stmt_def world_evolves_def safe_def split: prod.splits dest!: spec [of _ "w_now w"] spec [of _ "w_db w"])
  next
    case (Cons ev evs)
    let ?d = "ev_env ev (w_db w)"
    have "benign (ev_env ev) \<Longrightarrow> evolves (w_db w) ?d \<and> (runs_ok (w_db w) \<longrightarrow> runs_ok ?d)"
      by (simp add: benign_def)
    moreover have "evolves ?d (snd (f (ev_now ev) ?d)) \<and> (runs_ok ?d \<longrightarrow> runs_ok (snd (f (ev_now ev) ?d)))"
      using assms by (simp add: safe_def)
    moreover from run Cons have "w_db w' \<in> {?d, snd (f (ev_now ev) ?d)} \<and> w_events w' = evs"
      by (auto simp: stmt_def Let_def split: fault.splits prod.splits)
    ultimately show ?thesis
      using Cons evolves_trans by (auto simp: world_evolves_def calm_def)
  qed
qed

lemma world_evolves_local: "keeps world_evolves app_now" "keeps world_evolves (emit e)"
  by (auto simp: keeps_def app_now_def emit_def world_evolves_def evolves_refl split: list.splits)

end
