(* ===== verification/Dispatcher.thy ===== *)
theory Dispatcher
  imports StoreFacts CronNext
begin

text \<open>
  The dispatcher (\<open>internal/service/dispatcher.go\<close>): one tick reads the minute from the database,
  opens a pending row for every job due on it, and hands pending rows over. The repository is the
  interface \<open>domain.DispatchRepository\<close>, a record of calls the definitions take as an argument;
  \<open>exec_dispatch\<close> is the implementation by \<open>ExecRepo\<close>.
\<close>

section \<open>Interface\<close>

record 'w DispatchRepository =
  dr_DBTime :: "('w, instant) call"
  dr_ReadHeartbeat :: "('w, heartbeat option) call"
  dr_TouchHeartbeat :: "instant \<Rightarrow> instant \<Rightarrow> int \<Rightarrow> string \<Rightarrow> ('w, unit) call"
  dr_ListScheduledJobs :: "('w, scheduled_job list) call"
  dr_ListActiveSchedules :: "('w, int \<Rightarrow> string list) call"
  dr_QueueRun :: "int \<Rightarrow> instant \<Rightarrow> ('w, unit) call"
  dr_CountRunning :: "('w, int) call"
  dr_RunningJobIDs :: "('w, int set) call"
  dr_ListPending :: "instant \<Rightarrow> int \<Rightarrow> ('w, pending_run list) call"
  dr_SkipRun :: "int \<Rightarrow> string \<Rightarrow> ('w, unit) call"

definition exec_dispatch :: "'w world_scheme DispatchRepository" where
  "exec_dispatch = \<lparr>dr_DBTime = stmt db_time, dr_ReadHeartbeat = stmt read_heartbeat,
     dr_TouchHeartbeat = (\<lambda>dbTime appTime drift inst. stmt (touch_heartbeat dbTime appTime drift inst)),
     dr_ListScheduledJobs = stmt list_scheduled_jobs, dr_ListActiveSchedules = stmt list_active_schedules,
     dr_QueueRun = (\<lambda>jobID m. stmt (queue_run jobID m)), dr_CountRunning = stmt count_running,
     dr_RunningJobIDs = stmt running_job_ids, dr_ListPending = (\<lambda>now limit. stmt (list_pending now limit)),
     dr_SkipRun = (\<lambda>runID reason. stmt (skip_run runID reason))\<rparr>"

section \<open>State and results\<close>

record candidate =
  cd_JobID :: int
  cd_Code :: string
  cd_Minute :: instant

record tick_result =
  tr_Skipped :: bool
  tr_DryRun :: bool
  tr_Minute :: instant
  tr_DriftSec :: int
  tr_MissedMinutes :: int
  tr_MinuteGap :: int
  tr_MinuteRepeat :: bool
  tr_Candidates :: "candidate list"
  tr_ActiveJobs :: int
  tr_QueuedRuns :: int
  tr_Running :: int
  tr_QuotaFull :: bool
  tr_Dispatched :: int
  tr_SkippedRuns :: int
  tr_ParseErrors :: "(string \<times> string \<times> cron_error) list"
  tr_WriteErrors :: "(string \<times> go_error) list"
  tr_Duration :: int

definition no_result :: tick_result where
  "no_result = \<lparr>tr_Skipped = False, tr_DryRun = False, tr_Minute = zero_time, tr_DriftSec = 0,
     tr_MissedMinutes = 0, tr_MinuteGap = 0, tr_MinuteRepeat = False, tr_Candidates = [], tr_ActiveJobs = 0,
     tr_QueuedRuns = 0, tr_Running = 0, tr_QuotaFull = False, tr_Dispatched = 0, tr_SkippedRuns = 0,
     tr_ParseErrors = [], tr_WriteErrors = [], tr_Duration = 0\<rparr>"

record dispatcher =
  d_missScanMin :: int
  d_maxConcurrent :: int
  d_dryRun :: bool
  d_instanceID :: string
  d_location :: location
  d_running :: bool
  d_lastMinute :: instant
  d_exprCache :: "string \<rightharpoonup> cron_error + expr"

definition NewDispatcher :: "int \<Rightarrow> int \<Rightarrow> bool \<Rightarrow> string \<Rightarrow> location option \<Rightarrow> location \<Rightarrow> dispatcher" where
  "NewDispatcher MissScanMin MaxConcurrent DryRun InstanceID loc Local =
     \<lparr>d_missScanMin = (if MissScanMin < 0 then 0 else MissScanMin),
      d_maxConcurrent = (if MaxConcurrent < 1 then 1 else MaxConcurrent),
      d_dryRun = DryRun, d_instanceID = InstanceID,
      d_location = (case loc of None \<Rightarrow> Local | Some l \<Rightarrow> l),
      d_running = False, d_lastMinute = zero_time, d_exprCache = Map.empty\<rparr>"

section \<open>Minutes\<close>

definition minuteStart :: "location \<Rightarrow> instant \<Rightarrow> instant" where
  "minuteStart loc t = time_date loc (t_year loc t) (t_month loc t) (t_day loc t) (t_hour loc t) (t_minute loc t) 0 0"

function minutes_from :: "instant \<Rightarrow> instant \<Rightarrow> instant list" where
  "minutes_from t minute = (if t < minute then t # minutes_from (t + minute_ns) minute else [])"
  by pat_completeness auto
termination
  by (relation "measure (\<lambda>(t, minute). nat (minute - t))") (auto simp: minute_ns_def)

declare minutes_from.simps [simp del]

definition missedMinutes :: "dispatcher \<Rightarrow> instant \<Rightarrow> instant \<Rightarrow> instant list" where
  "missedMinutes d minute lastRun =
     (if lastRun = zero_time then []
      else let oldest = minute + dur_mul (- d_missScanMin d) minute_ns;
               start = minuteStart (d_location d) lastRun + minute_ns;
               start = (if start < oldest then oldest else start)
           in minutes_from start minute)"

definition candidateMinutes :: "scheduled_job \<Rightarrow> instant \<Rightarrow> instant list \<Rightarrow> instant list" where
  "candidateMinutes job minute past =
     (if \<not> sj_run_missed job \<or> length past = 0 then [minute]
      else let limit = dur_mul (sj_max_delay_min job) minute_ns
           in minute # filter (\<lambda>t. time_sub minute t \<le> limit) past)"

section \<open>Queueing\<close>

text \<open>The cached parse: a broken expression is cached too.\<close>

definition d_parse :: "string \<Rightarrow> (string \<rightharpoonup> cron_error + expr) \<Rightarrow> (cron_error + expr) \<times> (string \<rightharpoonup> cron_error + expr)" where
  "d_parse text cache = (case cache text of
      Some v \<Rightarrow> (v, cache)
    | None \<Rightarrow> (case cron_parse text of
          Inl e \<Rightarrow> (Inl e, cache(text \<mapsto> Inl e))
        | Inr x \<Rightarrow> (Inr x, cache(text \<mapsto> Inr x))))"

definition queue_candidate ::
  "'w DispatchRepository \<Rightarrow> bool \<Rightarrow> location \<Rightarrow> scheduled_job \<Rightarrow> expr \<Rightarrow> instant \<Rightarrow> tick_result \<Rightarrow> ('w, tick_result) state" where
  "queue_candidate repo dry loc job expr candidate result =
     (if \<not> Matches loc expr candidate then State_Monad.return result
      else if dry then State_Monad.return
        (result\<lparr>tr_Candidates := tr_Candidates result @ [\<lparr>cd_JobID = sj_id job, cd_Code = sj_code job, cd_Minute = candidate\<rparr>],
                tr_QueuedRuns := tr_QueuedRuns result + 1\<rparr>)
      else do {
        r \<leftarrow> dr_QueueRun repo (sj_id job) candidate;
        case r of
          Inl e \<Rightarrow> State_Monad.return (result\<lparr>tr_WriteErrors := tr_WriteErrors result @ [(sj_code job, e)]\<rparr>)
        | Inr _ \<Rightarrow> State_Monad.return (result\<lparr>tr_QueuedRuns := tr_QueuedRuns result + 1\<rparr>) })"

type_synonym cache = "string \<rightharpoonup> cron_error + expr"

definition queue_expr ::
  "'w DispatchRepository \<Rightarrow> bool \<Rightarrow> location \<Rightarrow> scheduled_job \<Rightarrow> instant list \<Rightarrow> string \<Rightarrow> tick_result \<times> cache
     \<Rightarrow> ('w, tick_result \<times> cache) state" where
  "queue_expr repo dry loc job candidates text s =
     (case s of (result, cache) \<Rightarrow> case d_parse text cache of (parsed, cache) \<Rightarrow>
        (case parsed of
           Inl e \<Rightarrow> State_Monad.return (result\<lparr>tr_ParseErrors := tr_ParseErrors result @ [(sj_code job, text, e)]\<rparr>, cache)
         | Inr expr \<Rightarrow> do {
             result \<leftarrow> for_each candidates (queue_candidate repo dry loc job expr) result;
             State_Monad.return (result, cache) }))"

definition queue_job ::
  "'w DispatchRepository \<Rightarrow> bool \<Rightarrow> location \<Rightarrow> (int \<Rightarrow> string list) \<Rightarrow> instant \<Rightarrow> instant list \<Rightarrow> scheduled_job
     \<Rightarrow> tick_result \<times> cache \<Rightarrow> ('w, tick_result \<times> cache) state" where
  "queue_job repo dry loc schedules minute past job s =
     (let exprs = schedules (sj_id job) in
      if length exprs = 0 then State_Monad.return s
      else for_each exprs (queue_expr repo dry loc job (candidateMinutes job minute past)) s)"

definition queueDue ::
  "'w DispatchRepository \<Rightarrow> dispatcher \<Rightarrow> scheduled_job list \<Rightarrow> (int \<Rightarrow> string list) \<Rightarrow> instant \<Rightarrow> instant list
     \<Rightarrow> tick_result \<Rightarrow> ('w, tick_result \<times> cache) state" where
  "queueDue repo d joblist schedules minute past result =
     for_each joblist (queue_job repo (d_dryRun d) (d_location d) schedules minute past) (result, d_exprCache d)"

section \<open>Handing over\<close>

definition single_run_reason :: string where
  "single_run_reason = ''Previous run still going (single run)''"

definition dispatch_row ::
  "'w DispatchRepository \<Rightarrow> (int \<Rightarrow> string \<Rightarrow> ('w, unit) state) \<Rightarrow> pending_run \<Rightarrow> tick_result \<times> int set
     \<Rightarrow> ('w, tick_result \<times> int set) state" where
  "dispatch_row repo dispatch row s =
     (case s of (result, runningJobs) \<Rightarrow>
        if pr_single_run row \<and> pr_job_id row \<in> runningJobs then do {
          r \<leftarrow> dr_SkipRun repo (pr_id row) single_run_reason;
          case r of
            Inl e \<Rightarrow> State_Monad.return (result\<lparr>tr_WriteErrors := tr_WriteErrors result @ [(pr_code row, e)]\<rparr>, runningJobs)
          | Inr _ \<Rightarrow> State_Monad.return (result\<lparr>tr_SkippedRuns := tr_SkippedRuns result + 1\<rparr>, runningJobs) }
        else do {
          dispatch (pr_id row) (pr_code row);
          State_Monad.return (result\<lparr>tr_Dispatched := tr_Dispatched result + 1\<rparr>, insert (pr_job_id row) runningJobs) })"

definition dispatchPending ::
  "'w DispatchRepository \<Rightarrow> (int \<Rightarrow> string \<Rightarrow> ('w, unit) state) \<Rightarrow> dispatcher \<Rightarrow> instant \<Rightarrow> tick_result
     \<Rightarrow> ('w, tick_result \<times> go_error option) state" where
  "dispatchPending repo dispatch d now result = do {
     r \<leftarrow> dr_CountRunning repo;
     case r of Inl e \<Rightarrow> State_Monad.return (result, Some e) | Inr running \<Rightarrow>
       let result = result\<lparr>tr_Running := running\<rparr>; quota = d_maxConcurrent d - running in
       if quota \<le> 0 then State_Monad.return (result\<lparr>tr_QuotaFull := True\<rparr>, None)
       else do {
         r \<leftarrow> dr_RunningJobIDs repo;
         case r of Inl e \<Rightarrow> State_Monad.return (result, Some e) | Inr runningJobs \<Rightarrow> do {
           r \<leftarrow> dr_ListPending repo now quota;
           case r of Inl e \<Rightarrow> State_Monad.return (result, Some e) | Inr pending \<Rightarrow> do {
             s \<leftarrow> for_each pending (dispatch_row repo dispatch) (result, runningJobs);
             State_Monad.return (fst s, None) } } } }"

section \<open>A tick\<close>

text \<open>The audit of the chain of minutes.\<close>

definition audit_minute :: "dispatcher \<Rightarrow> instant \<Rightarrow> tick_result \<Rightarrow> tick_result" where
  "audit_minute d minute result =
     (if d_lastMinute d = zero_time then result
      else if minute = d_lastMinute d then result\<lparr>tr_MinuteRepeat := True\<rparr>
      else if minute > d_lastMinute d
        then result\<lparr>tr_MinuteGap := quot (time_sub minute (d_lastMinute d)) minute_ns - 1\<rparr>
      else result)"

text \<open>Steps 5 and 6: queue what is due, then hand over.\<close>

definition tick_dispatch ::
  "'w DispatchRepository \<Rightarrow> (int \<Rightarrow> string \<Rightarrow> ('w, unit) state) \<Rightarrow> instant \<Rightarrow> tick_result \<Rightarrow> dispatcher
     \<Rightarrow> ('w, tick_result \<times> go_error option \<times> dispatcher) state" where
  "tick_dispatch repo dispatch dbTime result d =
     (if d_dryRun d then State_Monad.return (result\<lparr>tr_DryRun := True\<rparr>, None, d)
      else do {
        s \<leftarrow> dispatchPending repo dispatch d dbTime result;
        State_Monad.return (fst s, snd s, d) })"

definition tick_queue ::
  "'w DispatchRepository \<Rightarrow> (int \<Rightarrow> string \<Rightarrow> ('w, unit) state) \<Rightarrow> instant \<Rightarrow> instant \<Rightarrow> instant list \<Rightarrow> tick_result \<Rightarrow> dispatcher
     \<Rightarrow> ('w, tick_result \<times> go_error option \<times> dispatcher) state" where
  "tick_queue repo dispatch dbTime minute past result d = do {
     r \<leftarrow> dr_ListScheduledJobs repo;
     case r of Inl e \<Rightarrow> State_Monad.return (result, Some e, d) | Inr joblist \<Rightarrow>
       let result = result\<lparr>tr_ActiveJobs := int (length joblist)\<rparr> in
       if length joblist > 0 then do {
         r \<leftarrow> dr_ListActiveSchedules repo;
         case r of Inl e \<Rightarrow> State_Monad.return (result, Some e, d) | Inr schedules \<Rightarrow> do {
           s \<leftarrow> queueDue repo d joblist schedules minute past result;
           tick_dispatch repo dispatch dbTime (fst s) (d\<lparr>d_exprCache := snd s\<rparr>) } }
       else tick_dispatch repo dispatch dbTime result d }"

text \<open>Step 2: the pulse is read, and written unless this is a dry run.\<close>

definition tick_pulse ::
  "'w DispatchRepository \<Rightarrow> instant \<Rightarrow> instant \<Rightarrow> tick_result \<Rightarrow> dispatcher \<Rightarrow> ('w, go_error + instant) state" where
  "tick_pulse repo dbTime appTime result d = do {
     r \<leftarrow> dr_ReadHeartbeat repo;
     case r of Inl e \<Rightarrow> State_Monad.return (Inl e) | Inr hb \<Rightarrow>
       let lastRun = (case hb of None \<Rightarrow> zero_time | Some h \<Rightarrow> hb_last_run h) in
       if \<not> d_dryRun d then do {
         r \<leftarrow> dr_TouchHeartbeat repo dbTime appTime (tr_DriftSec result) (d_instanceID d);
         case r of Inl e \<Rightarrow> State_Monad.return (Inl e) | Inr _ \<Rightarrow> State_Monad.return (Inr lastRun) }
       else State_Monad.return (Inr lastRun) }"

definition tick_body ::
  "'w DispatchRepository \<Rightarrow> ('w, instant) state \<Rightarrow> (int \<Rightarrow> string \<Rightarrow> ('w, unit) state) \<Rightarrow> dispatcher
     \<Rightarrow> ('w, tick_result \<times> go_error option \<times> dispatcher) state" where
  "tick_body repo now dispatch d = do {
     r \<leftarrow> dr_DBTime repo;
     case r of Inl e \<Rightarrow> State_Monad.return (no_result, Some e, d) | Inr dbTime \<Rightarrow> do {
       appTime \<leftarrow> now;
       let minute = minuteStart (d_location d) dbTime;
       let result = audit_minute d minute (no_result\<lparr>tr_Minute := minute,
         tr_DriftSec := quot (dur_round (time_sub appTime dbTime) second) second\<rparr>);
       let d = d\<lparr>d_lastMinute := minute\<rparr>;
       r \<leftarrow> tick_pulse repo dbTime appTime result d;
       case r of Inl e \<Rightarrow> State_Monad.return (result, Some e, d) | Inr lastRun \<Rightarrow>
         let past = missedMinutes d minute lastRun in
         tick_queue repo dispatch dbTime minute past (result\<lparr>tr_MissedMinutes := int (length past)\<rparr>) d } }"

text \<open>The flag is taken on entry and released however the tick ends.\<close>

definition Tick ::
  "'w DispatchRepository \<Rightarrow> ('w, instant) state \<Rightarrow> (int \<Rightarrow> string \<Rightarrow> ('w, unit) state) \<Rightarrow> dispatcher
     \<Rightarrow> ('w, tick_result \<times> go_error option \<times> dispatcher) state" where
  "Tick repo now dispatch d =
     (if d_running d then State_Monad.return (no_result\<lparr>tr_Skipped := True\<rparr>, None, d)
      else do {
        start \<leftarrow> now;
        s \<leftarrow> tick_body repo now dispatch (d\<lparr>d_running := True\<rparr>);
        done \<leftarrow> now;
        State_Monad.return (case s of (result, err, d') \<Rightarrow>
          (result\<lparr>tr_Duration := time_sub done start\<rparr>, err, d'\<lparr>d_running := False\<rparr>)) })"

end
