(* ===== verification/DispatcherMinutes.thy ===== *)
theory DispatcherMinutes
  imports Dispatcher
begin

text \<open>
  The minutes a tick works on: which minutes were missed since the last pulse, and what the audit
  of the chain of minutes reports.
\<close>

lemma on_minute_iff: "on_minute (fixed c) t \<longleftrightarrow> (\<exists>k. t = (k * 60 - c) * second)"
proof
  assume "on_minute (fixed c) t"
  from on_minute_wall [OF this]
  have "t = ((day_no (fixed c) t * 1440 + t_hour (fixed c) t * 60 + t_minute (fixed c) t) * 60 - c) * second"
    by (simp add: wall_def algebra_simps)
  then show "\<exists>k. t = (k * 60 - c) * second" by blast
next
  assume "\<exists>k. t = (k * 60 - c) * second"
  then obtain k where "t = (k * 60 - c) * second" ..
  then show "on_minute (fixed c) t"
    by (simp add: on_minute_def t_second_def t_nsec_def local_sec_def fixed_app)
qed

lemma minuteStart_scan: "minuteStart loc t = scan_start loc t - minute_ns"
  by (simp add: minuteStart_def scan_start_def)

lemma minute_ns_second: "minute_ns = 60 * second"
  by (simp add: minute_ns_def second_def)

lemma on_minute_shift: "on_minute (fixed c) t \<Longrightarrow> on_minute (fixed c) (t + n * minute_ns)"
  unfolding on_minute_iff minute_ns_second
proof -
  assume "\<exists>k. t = (k * 60 - c) * second"
  then obtain k where "t = (k * 60 - c) * second" ..
  then have "t + n * (60 * second) = ((k + n) * 60 - c) * second" by (simp add: algebra_simps)
  then show "\<exists>k. t + n * (60 * second) = (k * 60 - c) * second" by blast
qed

lemma on_minute_minuteStart: "on_minute (fixed c) (minuteStart (fixed c) t)"
  using on_minute_shift [OF scan_start_bounds(3), of c t "- 1"] by (simp add: minuteStart_scan)

lemma minuteStart_bounds: "minuteStart (fixed c) t \<le> t" "t < minuteStart (fixed c) t + minute_ns"
  using scan_start_bounds [where c = c and t = t] by (simp_all add: minuteStart_scan minute_ns_second)

text \<open>Two whole minutes differ by a whole number of minutes.\<close>

lemma on_minute_diff:
  assumes "on_minute (fixed c) s" and "on_minute (fixed c) t"
  shows "\<exists>n. t = s + n * minute_ns"
proof -
  from assms obtain k l where "s = (k * 60 - c) * second" "t = (l * 60 - c) * second"
    by (auto simp: on_minute_iff)
  then have "t = s + (l - k) * minute_ns" by (simp add: minute_ns_second algebra_simps)
  then show ?thesis by blast
qed

lemma minutes_from_set: "m \<in> set (minutes_from t minute) \<longleftrightarrow> m < minute \<and> (\<exists>n\<ge>0. m = t + n * minute_ns)"
proof (induction t minute rule: minutes_from.induct)
  case (1 t minute)
  show ?case
  proof (cases "t < minute")
    case True
    have "(\<exists>n\<ge>0. m = t + n * minute_ns) \<longleftrightarrow> m = t \<or> (\<exists>n\<ge>0. m = t + minute_ns + n * minute_ns)"
    proof
      assume "\<exists>n\<ge>0. m = t + n * minute_ns"
      then obtain n where "0 \<le> n" "m = t + n * minute_ns" by blast
      then have "n = 0 \<and> m = t \<or> 0 \<le> n - 1 \<and> m = t + minute_ns + (n - 1) * minute_ns"
        by (auto simp: algebra_simps)
      then show "m = t \<or> (\<exists>n\<ge>0. m = t + minute_ns + n * minute_ns)" by blast
    next
      assume "m = t \<or> (\<exists>n\<ge>0. m = t + minute_ns + n * minute_ns)"
      then show "\<exists>n\<ge>0. m = t + n * minute_ns"
      proof
        assume "\<exists>n\<ge>0. m = t + minute_ns + n * minute_ns"
        then obtain n where "0 \<le> n" "m = t + minute_ns + n * minute_ns" by blast
        then have "0 \<le> n + 1 \<and> m = t + (n + 1) * minute_ns" by (auto simp: algebra_simps)
        then show ?thesis by blast
      qed auto
    qed
    with True 1 show ?thesis by (subst minutes_from.simps) auto
  next
    case False
    have "\<not> m < minute" if "0 \<le> n" "m = t + n * minute_ns" for n
    proof -
      have "0 \<le> n * minute_ns" using that by (simp add: minute_ns_def)
      with that False show ?thesis by linarith
    qed
    with False show ?thesis by (subst minutes_from.simps) auto
  qed
qed

lemma minutes_from_length: "minute \<le> t + int n * minute_ns \<Longrightarrow> length (minutes_from t minute) \<le> n"
proof (induction n arbitrary: t)
  case 0
  then show ?case by (subst minutes_from.simps) simp
next
  case (Suc n)
  then have "length (minutes_from (t + minute_ns) minute) \<le> n" by (intro Suc.IH) (simp add: algebra_simps)
  then show ?case by (subst minutes_from.simps) simp
qed

lemma minutes_from_sorted: "sorted (minutes_from t minute) \<and> distinct (minutes_from t minute)"
proof (induction t minute rule: minutes_from.induct)
  case (1 t minute)
  have later: "t < m" if m: "m \<in> set (minutes_from (t + minute_ns) minute)" for m
  proof -
    from m obtain n where "0 \<le> n" "m = t + minute_ns + n * minute_ns" by (auto simp: minutes_from_set)
    moreover from this have "0 \<le> n * minute_ns" "0 < minute_ns" by (simp_all add: minute_ns_def)
    ultimately show ?thesis by linarith
  qed
  show ?case
  proof (cases "t < minute")
    case True
    with 1 later show ?thesis by (subst (1 2) minutes_from.simps) (auto intro: less_imp_le)
  next
    case False
    then show ?thesis by (subst (1 2) minutes_from.simps) simp
  qed
qed

lemma dur_mul_minutes: "\<bar>n\<bar> \<le> 100000000 \<Longrightarrow> dur_mul n minute_ns = n * minute_ns"
proof -
  assume n: "\<bar>n\<bar> \<le> 100000000"
  then have "int64 n" "int64 (n * minute_ns)"
    by (auto simp: int64_def minute_ns_def min_int64_def max_int64_def)
  then show ?thesis by (simp add: dur_mul_def)
qed

lemma dvd_minute: "minute_ns dvd (x - m) \<longleftrightarrow> (\<exists>n. m = x + n * minute_ns)"
proof
  assume "minute_ns dvd (x - m)"
  then obtain n where "x - m = minute_ns * n" ..
  then have "m = x + (- n) * minute_ns" by (simp add: algebra_simps)
  then show "\<exists>n. m = x + n * minute_ns" by blast
next
  assume "\<exists>n. m = x + n * minute_ns"
  then obtain n where "m = x + n * minute_ns" ..
  then have "x - m = minute_ns * (- n)" by simp
  then show "minute_ns dvd (x - m)" by (rule dvdI)
qed

lemma on_minute_dvd:
  "on_minute (fixed c) x \<Longrightarrow> on_minute (fixed c) m \<longleftrightarrow> minute_ns dvd (x - m)"
  unfolding dvd_minute by (metis on_minute_diff on_minute_shift)

text \<open> C34. The minutes a dispatcher replays after an outage, in any time zone, for a catch-up limit of up to
  a hundred million minutes and where the current minute is a whole number of minutes after the
  minute the last pulse's wall time resolves to: exactly the instants in between that are a whole number of minutes
  before the current one and at most \<open>missScanMin\<close> of them before it, in order, none twice,
  at most \<open>missScanMin\<close> of them however long the outage was (and none at all when there never was a pulse).
  In a zone of fixed offset these are the whole minutes of the wall clock. Across a change of the clock they are
  whole minutes of elapsed time: an hour that repeats on the wall is replayed twice, and while it repeats
  the minute a pulse resolves to may be the earlier one. \<close>
theorem missed_minutes_exact:
  assumes "0 \<le> d_missScanMin d" and "d_missScanMin d \<le> 100000000"
    and "minute_ns dvd (minute - minuteStart (d_location d) lastRun)" and "lastRun \<noteq> zero_time"
  shows "set (missedMinutes d minute lastRun) =
           {m. minute_ns dvd (minute - m) \<and> minuteStart (d_location d) lastRun < m \<and> m < minute
             \<and> minute - m \<le> d_missScanMin d * minute_ns}
         \<and> sorted (missedMinutes d minute lastRun) \<and> distinct (missedMinutes d minute lastRun)
         \<and> int (length (missedMinutes d minute lastRun)) \<le> d_missScanMin d
         \<and> missedMinutes d minute zero_time = []
         \<and> (\<forall>c. d_location d = fixed c \<and> on_minute (fixed c) minute \<longrightarrow> set (missedMinutes d minute lastRun) =
             {m. on_minute (fixed c) m \<and> minuteStart (fixed c) lastRun < m \<and> m < minute
               \<and> minute - m \<le> d_missScanMin d * minute_ns})"
proof -
  let ?old = "minute - d_missScanMin d * minute_ns" and ?p = "minuteStart (d_location d) lastRun"
  let ?s = "max (?p + minute_ns) ?old"
  have pos: "0 < minute_ns" by (simp add: minute_ns_def)
  have eq: "missedMinutes d minute lastRun = minutes_from ?s minute"
    using assms by (auto simp: missedMinutes_def dur_mul_minutes max_def Let_def)
  have "minute_ns dvd (minute - (?p + minute_ns))" using dvd_diff [OF assms(3) dvd_refl] by (simp add: algebra_simps)
  then have s: "minute_ns dvd (minute - ?s)" by (simp add: max_def)
  have "m \<in> set (minutes_from ?s minute) \<longleftrightarrow>
      minute_ns dvd (minute - m) \<and> ?p < m \<and> m < minute \<and> ?old \<le> m" for m
  proof
    assume "m \<in> set (minutes_from ?s minute)"
    then obtain n where n: "0 \<le> n" "m = ?s + n * minute_ns" "m < minute" by (auto simp: minutes_from_set)
    have "minute - m = (minute - ?s) - minute_ns * n" using n(2) by (simp add: algebra_simps)
    then have "minute_ns dvd (minute - m)" using s by (metis dvd_diff dvd_triv_left)
    moreover have "?s \<le> m" using n pos by simp
    ultimately show "minute_ns dvd (minute - m) \<and> ?p < m \<and> m < minute \<and> ?old \<le> m"
      using n(3) pos by simp
  next
    assume m: "minute_ns dvd (minute - m) \<and> ?p < m \<and> m < minute \<and> ?old \<le> m"
    have "minute_ns dvd ((minute - ?p) - (minute - m))" using dvd_diff [OF assms(3) m [THEN conjunct1]] .
    then have "minute_ns dvd (m - ?p)" by (simp add: algebra_simps)
    then have "minute_ns \<le> m - ?p" by (rule zdvd_imp_le) (use m in simp)
    with m have le: "?s \<le> m" by simp
    have "minute_ns dvd ((minute - ?s) - (minute - m))" using dvd_diff [OF s m [THEN conjunct1]] .
    then have "minute_ns dvd (m - ?s)" by (simp add: algebra_simps)
    then obtain n where n: "m - ?s = minute_ns * n" ..
    have "0 \<le> minute_ns * n" unfolding n [symmetric] using le by linarith
    with pos have "0 \<le> n" by (simp add: zero_le_mult_iff)
    moreover from n have "m = ?s + n * minute_ns" by (simp add: algebra_simps)
    ultimately show "m \<in> set (minutes_from ?s minute)" using m by (auto simp: minutes_from_set)
  qed
  then have set: "set (missedMinutes d minute lastRun) = {m. minute_ns dvd (minute - m) \<and> ?p < m \<and> m < minute
      \<and> minute - m \<le> d_missScanMin d * minute_ns}"
    unfolding eq by (auto simp: algebra_simps)
  moreover have "length (missedMinutes d minute lastRun) \<le> nat (d_missScanMin d)"
    unfolding eq using assms(1) by (intro minutes_from_length) simp
  then have "int (length (missedMinutes d minute lastRun)) \<le> d_missScanMin d" using assms(1) by simp
  moreover have "missedMinutes d minute zero_time = []" by (simp add: missedMinutes_def)
  moreover have "set (missedMinutes d minute lastRun) =
      {m. on_minute (fixed c) m \<and> minuteStart (fixed c) lastRun < m \<and> m < minute \<and> minute - m \<le> d_missScanMin d * minute_ns}"
    if "d_location d = fixed c" "on_minute (fixed c) minute" for c
    using that(1) unfolding set by (simp add: on_minute_dvd [OF that(2)])
  ultimately show ?thesis using minutes_from_sorted by (simp add: eq)
qed

text \<open>A dispatcher in UTC, one minute's scan, back after three minutes.\<close>

definition demo_dispatcher :: dispatcher where
  "demo_dispatcher = NewDispatcher 2 10 False ''a'' (Some (fixed 0)) (fixed 0)"

theorem missed_minutes_exact_witness:
  "missedMinutes demo_dispatcher 1740787380000000000 1740787200000000000 = [1740787260000000000, 1740787320000000000]
   \<and> set (missedMinutes demo_dispatcher 1740787380000000000 1740787200000000000) =
           {m. on_minute (fixed 0) m \<and> minuteStart (fixed 0) 1740787200000000000 < m \<and> m < 1740787380000000000
             \<and> 1740787380000000000 - m \<le> d_missScanMin demo_dispatcher * minute_ns}"
proof (intro conjI)
  show "missedMinutes demo_dispatcher 1740787380000000000 1740787200000000000 = [1740787260000000000, 1740787320000000000]"
    by code_simp
  have l: "d_location demo_dispatcher = fixed 0" by (simp add: demo_dispatcher_def NewDispatcher_def)
  have p: "0 \<le> d_missScanMin demo_dispatcher" "d_missScanMin demo_dispatcher \<le> 100000000"
    by (simp_all add: demo_dispatcher_def NewDispatcher_def)
  have m: "on_minute (fixed 0) 1740787380000000000" "(1740787200000000000::int) \<noteq> zero_time"
    by code_simp+
  have "minute_ns dvd (1740787380000000000 - minuteStart (d_location demo_dispatcher) 1740787200000000000)"
    unfolding l using on_minute_dvd [OF m(1)] on_minute_minuteStart by blast
  from missed_minutes_exact [OF p this m(2)] l m(1)
  show "set (missedMinutes demo_dispatcher 1740787380000000000 1740787200000000000) =
           {m. on_minute (fixed 0) m \<and> minuteStart (fixed 0) 1740787200000000000 < m \<and> m < 1740787380000000000
             \<and> 1740787380000000000 - m \<le> d_missScanMin demo_dispatcher * minute_ns}"
    by blast
qed

end
