(* ===== verification/DispatcherFacts.thy ===== *)
theory DispatcherFacts
  imports Dispatcher
begin

text \<open>
  The contracts the dispatcher relies on, as locales over its interface, what a tick does on top of
  them, and the proof that \<open>ExecRepo\<close> fulfils them.
\<close>

section \<open>Reading and writing\<close>

text \<open>What a relation has to be kept by for a dry run, and for a tick that writes, to keep it.\<close>

locale dispatch_reader = frame R for R :: "'w \<Rightarrow> 'w \<Rightarrow> bool" +
  fixes repo :: "'w DispatchRepository" and now :: "('w, instant) state"
  assumes now: "keeps R now"
    and reads: "keeps R (dr_DBTime repo)" "keeps R (dr_ReadHeartbeat repo)" "keeps R (dr_ListScheduledJobs repo)"
      "keeps R (dr_ListActiveSchedules repo)"
begin

lemma queue_candidate_dry: "keeps R (queue_candidate repo True loc job expr c result)"
  by (simp add: queue_candidate_def keeps_return)

lemma queueDue_dry:
  assumes "d_dryRun d" shows "keeps R (queueDue repo d joblist schedules minute past result)"
proof -
  have "d_dryRun d = True" using assms by simp
  then show ?thesis
    unfolding queueDue_def queue_job_def queue_expr_def Let_def
    by (auto intro!: keeps_for_each keeps_rules queue_candidate_dry)
qed

lemma tick_dispatch_dry: "d_dryRun d \<Longrightarrow> keeps R (tick_dispatch repo dispatch t result d)"
  by (simp add: tick_dispatch_def keeps_return)

lemma tick_queue_dry: "d_dryRun d \<Longrightarrow> keeps R (tick_queue repo dispatch t minute past result d)"
  unfolding tick_queue_def Let_def
  by (intro keeps_rules reads queueDue_dry tick_dispatch_dry) simp_all

lemma tick_pulse_dry: "d_dryRun d \<Longrightarrow> keeps R (tick_pulse repo t a result d)"
  by (auto simp: tick_pulse_def Let_def intro!: keeps_rules reads)

lemma Tick_dry:
  assumes "d_dryRun d" shows "keeps R (Tick repo now dispatch d)"
  unfolding Tick_def tick_body_def Let_def
  by (intro keeps_rules now reads tick_pulse_dry tick_queue_dry) (simp_all add: assms)

end

locale dispatch_writer = dispatch_reader R repo now
  for R :: "'w \<Rightarrow> 'w \<Rightarrow> bool" and repo :: "'w DispatchRepository" and now :: "('w, instant) state" +
  fixes dispatch :: "int \<Rightarrow> string \<Rightarrow> ('w, unit) state"
  assumes dispatch: "keeps R (dispatch i c)"
    and more_reads: "keeps R (dr_CountRunning repo)" "keeps R (dr_RunningJobIDs repo)" "keeps R (dr_ListPending repo t l)"
    and writes: "keeps R (dr_TouchHeartbeat repo a b e s)" "keeps R (dr_QueueRun repo j m)" "keeps R (dr_SkipRun repo i s)"
begin

lemma queueDue_keeps: "keeps R (queueDue repo d joblist schedules minute past result)"
  unfolding queueDue_def queue_job_def queue_expr_def queue_candidate_def Let_def
  by (intro keeps_for_each keeps_rules writes)

lemma dispatchPending_keeps: "keeps R (dispatchPending repo dispatch d t result)"
  unfolding dispatchPending_def dispatch_row_def Let_def
  by (intro keeps_for_each keeps_rules writes more_reads dispatch)

lemma Tick_keeps: "keeps R (Tick repo now dispatch d)"
  unfolding Tick_def tick_body_def tick_pulse_def tick_queue_def tick_dispatch_def Let_def
  by (intro keeps_rules now reads writes queueDue_keeps dispatchPending_keeps)

end

section \<open>The queue contract\<close>

text \<open>
  Queueing a known job makes its (job, minute) pair present and changes nothing else the contract
  speaks about, whether the pair was there before or not.
\<close>

definition due_pairs :: "location \<Rightarrow> (int \<Rightarrow> string list) \<Rightarrow> instant \<Rightarrow> instant list \<Rightarrow> scheduled_job \<Rightarrow> (int \<times> instant) set" where
  "due_pairs loc schedules minute past job =
     {(sj_id job, m) | m. m \<in> set (candidateMinutes job minute past)
        \<and> (\<exists>text\<in>set (schedules (sj_id job)). \<exists>e. cron_parse text = Inr e \<and> Matches loc e m)}"

definition cache_ok :: "cache \<Rightarrow> bool" where
  "cache_ok cache \<longleftrightarrow> (\<forall>text v. cache text = Some v \<longrightarrow> v = cron_parse text)"

lemma d_parse_correct: "cache_ok cache \<Longrightarrow> d_parse text cache = (v, cache') \<Longrightarrow> v = cron_parse text \<and> cache_ok cache'"
  by (auto simp: d_parse_def cache_ok_def split: option.splits sum.splits if_splits)

locale run_queue = frame R for R :: "'w \<Rightarrow> 'w \<Rightarrow> bool" +
  fixes repo :: "'w DispatchRepository" and ok :: "'w \<Rightarrow> bool" and known :: "'w \<Rightarrow> int set"
    and keys :: "'w \<Rightarrow> (int \<times> instant) set"
  assumes enqueue: "ok w \<Longrightarrow> j \<in> known w \<Longrightarrow> run_state (dr_QueueRun repo j m) w = (r, w') \<Longrightarrow>
      r = Inr () \<and> ok w' \<and> known w' = known w \<and> keys w' = insert (j, m) (keys w) \<and> R w w'"
begin

definition queued :: "'w \<Rightarrow> (int \<times> instant) set \<Rightarrow> tick_result \<Rightarrow> tick_result \<Rightarrow> 'w \<Rightarrow> bool" where
  "queued w0 ps result0 result w \<longleftrightarrow> ok w \<and> known w = known w0 \<and> keys w = keys w0 \<union> ps \<and> R w0 w
     \<and> tr_WriteErrors result = tr_WriteErrors result0 \<and> tr_Dispatched result = tr_Dispatched result0
     \<and> tr_SkippedRuns result = tr_SkippedRuns result0"

lemma queued_refl: "ok w \<Longrightarrow> queued w {} result result w"
  by (simp add: queued_def R_refl)

lemma queue_candidate_valid:
  assumes "sj_id job \<in> known w0"
  shows "valid (queued w0 ps result0 result) (queue_candidate repo False loc job expr c result)
    (queued w0 (ps \<union> {(sj_id job, m) | m. m = c \<and> Matches loc expr m}) result0)"
proof (rule validI)
  fix w res w' assume q: "queued w0 ps result0 result w"
    and run: "run_state (queue_candidate repo False loc job expr c result) w = (res, w')"
  show "queued w0 (ps \<union> {(sj_id job, m) | m. m = c \<and> Matches loc expr m}) result0 res w'"
  proof (cases "Matches loc expr c")
    case False
    then have "{(sj_id job, m) | m. m = c \<and> Matches loc expr m} = {}" by auto
    with False run q show ?thesis by (simp add: queue_candidate_def)
  next
    case True
    obtain r w1 where st: "run_state (dr_QueueRun repo (sj_id job) c) w = (r, w1)" by fastforce
    from q assms enqueue [OF _ _ st]
    have e: "r = Inr ()" "ok w1" "known w1 = known w" "keys w1 = insert (sj_id job, c) (keys w)" "R w w1"
      by (auto simp: queued_def)
    have "{(sj_id job, m) | m. m = c \<and> Matches loc expr m} = {(sj_id job, c)}" using True by auto
    with True run e st q show ?thesis
      by (auto simp: queue_candidate_def queued_def intro: R_trans)
  qed
qed

lemma queue_candidates_valid:
  assumes "sj_id job \<in> known w0"
  shows "valid (queued w0 ps result0 result) (for_each cs (queue_candidate repo False loc job expr) result)
    (queued w0 (ps \<union> {(sj_id job, m) | m. m \<in> set cs \<and> Matches loc expr m}) result0)"
proof -
  let ?I = "\<lambda>ys. queued w0 (ps \<union> {(sj_id job, m) | m. m \<in> set ys \<and> Matches loc expr m}) result0"
  have "valid (?I [] result) (for_each cs (queue_candidate repo False loc job expr) result) (?I cs)"
  proof (rule valid_for_each)
    fix c ys zs s
    have "ps \<union> {(sj_id job, m) | m. m \<in> set ys \<and> Matches loc expr m} \<union> {(sj_id job, m) | m. m = c \<and> Matches loc expr m}
        = ps \<union> {(sj_id job, m) | m. m \<in> set (ys @ [c]) \<and> Matches loc expr m}" by auto
    with queue_candidate_valid [OF assms, of "ps \<union> {(sj_id job, m) | m. m \<in> set ys \<and> Matches loc expr m}" result0 s loc expr c]
    show "valid (?I ys s) (queue_candidate repo False loc job expr c s) (?I (ys @ [c]))" by simp
  qed
  then show ?thesis by simp
qed

definition inv :: "'w \<Rightarrow> (int \<times> instant) set \<Rightarrow> tick_result \<Rightarrow> tick_result \<times> cache \<Rightarrow> 'w \<Rightarrow> bool" where
  "inv w0 ps result0 s w \<longleftrightarrow> queued w0 ps result0 (fst s) w \<and> cache_ok (snd s)"

lemma queue_expr_valid:
  assumes "sj_id job \<in> known w0"
  shows "valid (inv w0 ps result0 s) (queue_expr repo False loc job cs text s)
    (inv w0 (ps \<union> {(sj_id job, m) | m. m \<in> set cs \<and> (\<exists>e. cron_parse text = Inr e \<and> Matches loc e m)}) result0)"
proof (rule validI)
  fix w res w' assume i: "inv w0 ps result0 s w"
    and run: "run_state (queue_expr repo False loc job cs text s) w = (res, w')"
  obtain v cache where p: "d_parse text (snd s) = (v, cache)" by fastforce
  from d_parse_correct [OF _ p] i have v: "v = cron_parse text" "cache_ok cache" by (auto simp: inv_def)
  show "inv w0 (ps \<union> {(sj_id job, m) | m. m \<in> set cs \<and> (\<exists>e. cron_parse text = Inr e \<and> Matches loc e m)}) result0 res w'"
  proof (cases v)
    case (Inl e)
    with v have "{(sj_id job, m) | m. m \<in> set cs \<and> (\<exists>e. cron_parse text = Inr e \<and> Matches loc e m)} = {}"
      by auto
    with Inl run i p v show ?thesis
      by (auto simp: queue_expr_def inv_def queued_def split: prod.splits)
  next
    case (Inr expr)
    obtain r w1 where st: "run_state (for_each cs (queue_candidate repo False loc job expr) (fst s)) w = (r, w1)"
      by fastforce
    from validD [OF queue_candidates_valid [OF assms] _ st] i
    have "queued w0 (ps \<union> {(sj_id job, m) | m. m \<in> set cs \<and> Matches loc expr m}) result0 r w1"
      by (auto simp: inv_def)
    with Inr run p v st show ?thesis
      by (auto simp: queue_expr_def inv_def split: prod.splits)
  qed
qed

lemma queue_job_valid:
  assumes "sj_id job \<in> known w0"
  shows "valid (inv w0 ps result0 s) (queue_job repo False loc schedules minute past job s)
    (inv w0 (ps \<union> due_pairs loc schedules minute past job) result0)"
proof (cases "schedules (sj_id job) = []")
  case True
  then show ?thesis by (simp add: queue_job_def due_pairs_def valid_return)
next
  case False
  let ?cs = "candidateMinutes job minute past"
  let ?D = "\<lambda>ts. {(sj_id job, m) | m. m \<in> set ?cs \<and> (\<exists>text\<in>set ts. \<exists>e. cron_parse text = Inr e \<and> Matches loc e m)}"
  have "valid (inv w0 (ps \<union> ?D []) result0 s) (for_each (schedules (sj_id job)) (queue_expr repo False loc job ?cs) s)
      (inv w0 (ps \<union> ?D (schedules (sj_id job))) result0)"
  proof (rule valid_for_each [where I = "\<lambda>ys. inv w0 (ps \<union> ?D ys) result0"])
    fix t ys zs u
    have "ps \<union> ?D ys \<union> {(sj_id job, m) | m. m \<in> set ?cs \<and> (\<exists>e. cron_parse t = Inr e \<and> Matches loc e m)} = ps \<union> ?D (ys @ [t])"
      by auto
    with queue_expr_valid [OF assms, of "ps \<union> ?D ys" result0 u loc ?cs t]
    show "valid (inv w0 (ps \<union> ?D ys) result0 u) (queue_expr repo False loc job ?cs t u) (inv w0 (ps \<union> ?D (ys @ [t])) result0)"
      by simp
  qed
  with False show ?thesis by (simp add: queue_job_def due_pairs_def)
qed

lemma queueDue_valid:
  assumes "\<not> d_dryRun d" and "\<And>job. job \<in> set joblist \<Longrightarrow> sj_id job \<in> known w0" and "cache_ok (d_exprCache d)" and "ok w0"
    and "run_state (queueDue repo d joblist schedules minute past result) w0 = (s, w)"
  shows "inv w0 (\<Union>job\<in>set joblist. due_pairs (d_location d) schedules minute past job) result s w"
proof -
  let ?loc = "d_location d"
  let ?I = "\<lambda>ys. inv w0 (\<Union>job\<in>set ys. due_pairs ?loc schedules minute past job) result"
  have "valid (?I [] (result, d_exprCache d)) (for_each joblist (queue_job repo False ?loc schedules minute past) (result, d_exprCache d)) (?I joblist)"
  proof (rule valid_for_each)
    fix x ys zs u assume "joblist = ys @ x # zs"
    then have "sj_id x \<in> known w0" using assms(2) by auto
    from queue_job_valid [OF this, of "\<Union>job\<in>set ys. due_pairs ?loc schedules minute past job" result u ?loc schedules minute past]
    show "valid (?I ys u) (queue_job repo False ?loc schedules minute past x u) (?I (ys @ [x]))"
      by (simp add: Un_commute)
  qed
  moreover have "?I [] (result, d_exprCache d) w0" using assms(3,4) by (simp add: inv_def queued_refl)
  ultimately show ?thesis using assms(1,5) by (auto simp: queueDue_def valid_def)
qed

end

section \<open>The hand-over contract\<close>

text \<open>The rows of a pending list that are handed over, when the jobs of \<open>B\<close> count as running.\<close>

fun handed :: "pending_run list \<Rightarrow> int set \<Rightarrow> pending_run list" where
  "handed [] B = []"
| "handed (r # rs) B =
     (if pr_single_run r \<and> pr_job_id r \<in> B then handed rs B else r # handed rs (insert (pr_job_id r) B))"

lemma handed_subset: "set (handed rs B) \<subseteq> set rs"
  by (induction rs arbitrary: B) auto

lemma handed_length: "length (handed rs B) \<le> length rs"
  by (induction rs arbitrary: B) (auto simp: le_SucI)

lemma handed_distinct: "distinct (map pr_id rs) \<Longrightarrow> distinct (map pr_id (handed rs B))"
proof (induction rs arbitrary: B)
  case Nil
  then show ?case by simp
next
  case (Cons r rs)
  with handed_subset [of rs "insert (pr_job_id r) B"] show ?case by auto
qed

lemma handed_single:
  "handed rs B = us @ r # vs \<Longrightarrow> pr_single_run r \<Longrightarrow> pr_job_id r \<notin> B \<and> pr_job_id r \<notin> pr_job_id ` set us"
proof (induction rs arbitrary: B us)
  case Nil
  then show ?case by simp
next
  case (Cons a rs)
  show ?case
  proof (cases "pr_single_run a \<and> pr_job_id a \<in> B")
    case True
    with Cons show ?thesis by simp
  next
    case False
    with Cons.prems show ?thesis
      by (cases us) (auto dest: Cons.IH)
  qed
qed

locale hand_over =
  fixes repo :: "'w DispatchRepository" and now :: "('w, instant) state"
    and dispatch :: "int \<Rightarrow> string \<Rightarrow> ('w, unit) state" and log :: "'w \<Rightarrow> (int \<times> string) list"
  assumes dispatched: "run_state (dispatch i c) w = (u, w') \<Longrightarrow> log w' = log w @ [(i, c)]"
    and silent_now: "keeps (\<lambda>w w'. log w' = log w) now"
    and silent: "keeps (\<lambda>w w'. log w' = log w) (dr_DBTime repo)" "keeps (\<lambda>w w'. log w' = log w) (dr_ReadHeartbeat repo)"
      "keeps (\<lambda>w w'. log w' = log w) (dr_TouchHeartbeat repo a b e s)" "keeps (\<lambda>w w'. log w' = log w) (dr_ListScheduledJobs repo)"
      "keeps (\<lambda>w w'. log w' = log w) (dr_ListActiveSchedules repo)" "keeps (\<lambda>w w'. log w' = log w) (dr_QueueRun repo j m)"
      "keeps (\<lambda>w w'. log w' = log w) (dr_CountRunning repo)" "keeps (\<lambda>w w'. log w' = log w) (dr_RunningJobIDs repo)"
      "keeps (\<lambda>w w'. log w' = log w) (dr_ListPending repo t l)" "keeps (\<lambda>w w'. log w' = log w) (dr_SkipRun repo i s)"
    and bounded: "0 < l \<Longrightarrow> run_state (dr_ListPending repo t l) w = (Inr rows, w') \<Longrightarrow> int (length rows) \<le> l"

sublocale hand_over \<subseteq> lg: frame "\<lambda>w w'. log w' = log w"
  by unfold_locales auto

context hand_over
begin

lemma silent_valid: "keeps (\<lambda>w w'. log w' = log w) m \<Longrightarrow> valid (\<lambda>w. log w = L) m (\<lambda>_ w. log w = L)"
  by (auto simp: keeps_def valid_def split: prod.splits) (metis snd_conv)

lemma dispatch_rows:
  "run_state (for_each rows (dispatch_row repo dispatch) (result, B)) w = (s, w') \<Longrightarrow>
     log w' = log w @ map (\<lambda>r. (pr_id r, pr_code r)) (handed rows B)
     \<and> tr_Dispatched (fst s) = tr_Dispatched result + int (length (handed rows B))
     \<and> tr_Running (fst s) = tr_Running result"
proof (induction rows arbitrary: result B w)
  case Nil
  then show ?case by auto
next
  case (Cons r rows)
  obtain s1 w1 where st: "run_state (dispatch_row repo dispatch r (result, B)) w = (s1, w1)" by fastforce
  with Cons.prems have rest: "run_state (for_each rows (dispatch_row repo dispatch) (fst s1, snd s1)) w1 = (s, w')"
    by simp
  show ?case
  proof (cases "pr_single_run r \<and> pr_job_id r \<in> B")
    case True
    obtain q w2 where sk: "run_state (dr_SkipRun repo (pr_id r) single_run_reason) w = (q, w2)" by fastforce
    have "log w2 = log w" using keepsD [OF silent(10) sk] .
    with True sk st have "log w1 = log w \<and> tr_Dispatched (fst s1) = tr_Dispatched result
        \<and> tr_Running (fst s1) = tr_Running result \<and> snd s1 = B"
      by (cases q) (auto simp: dispatch_row_def)
    with Cons.IH [OF rest] True show ?thesis by simp
  next
    case False
    obtain u w2 where di: "run_state (dispatch (pr_id r) (pr_code r)) w = (u, w2)" by (metis surj_pair)
    from dispatched [OF di] False di st have "log w1 = log w @ [(pr_id r, pr_code r)]
        \<and> tr_Dispatched (fst s1) = tr_Dispatched result + 1 \<and> tr_Running (fst s1) = tr_Running result
        \<and> snd s1 = insert (pr_job_id r) B"
      by (auto simp: dispatch_row_def)
    moreover from False have "handed (r # rows) B = r # handed rows (insert (pr_job_id r) B)" by auto
    ultimately show ?thesis using Cons.IH [OF rest] by simp
  qed
qed

text \<open>What a tick may have handed over when it ends with this result.\<close>

definition handed_over :: "(int \<times> string) list \<Rightarrow> dispatcher \<Rightarrow> tick_result \<Rightarrow> 'w \<Rightarrow> bool" where
  "handed_over L d result w \<longleftrightarrow> (\<exists>rows B. log w = L @ map (\<lambda>r. (pr_id r, pr_code r)) (handed rows B)
     \<and> tr_Dispatched result = int (length (handed rows B))
     \<and> int (length (handed rows B)) \<le> max 0 (d_maxConcurrent d - tr_Running result))"

lemma handed_over_none: "log w = L \<Longrightarrow> tr_Dispatched result = 0 \<Longrightarrow> handed_over L d result w"
  by (auto simp: handed_over_def intro!: exI [of _ "[]"])

lemma dispatchPending_valid:
  assumes "tr_Dispatched result = 0"
  shows "valid (\<lambda>w. log w = L) (dispatchPending repo dispatch d t result) (\<lambda>s w. handed_over L d (fst s) w)"
proof (rule validI)
  fix w s w' assume L: "log w = L" and run: "run_state (dispatchPending repo dispatch d t result) w = (s, w')"
  obtain r1 w1 where c1: "run_state (dr_CountRunning repo) w = (r1, w1)" by fastforce
  have L1: "log w1 = L" using keepsD [OF silent(7) c1] L by simp
  show "handed_over L d (fst s) w'"
  proof (cases r1)
    case (Inl e)
    with run c1 L1 assms show ?thesis by (auto simp: dispatchPending_def intro: handed_over_none)
  next
    case (Inr running)
    show ?thesis
    proof (cases "d_maxConcurrent d - running \<le> 0")
      case True
      with run c1 L1 assms Inr show ?thesis
        by (auto simp: dispatchPending_def Let_def intro: handed_over_none)
    next
      case q: False
      obtain r2 w2 where c2: "run_state (dr_RunningJobIDs repo) w1 = (r2, w2)" by fastforce
      have L2: "log w2 = L" using keepsD [OF silent(8) c2] L1 by simp
      show ?thesis
      proof (cases r2)
        case (Inl e)
        with run c1 c2 L2 assms \<open>r1 = Inr running\<close> q show ?thesis
          by (auto simp: dispatchPending_def Let_def intro: handed_over_none)
      next
        case (Inr B)
        obtain r3 w3 where c3: "run_state (dr_ListPending repo t (d_maxConcurrent d - running)) w2 = (r3, w3)" by fastforce
        have L3: "log w3 = L" using keepsD [OF silent(9) c3] L2 by simp
        show ?thesis
        proof (cases r3)
          case (Inl e)
          with run c1 c2 c3 L3 assms \<open>r1 = Inr running\<close> \<open>r2 = Inr B\<close> q show ?thesis
            by (auto simp: dispatchPending_def Let_def intro: handed_over_none)
        next
          case (Inr rows)
          let ?res = "result\<lparr>tr_Running := running\<rparr>"
          obtain s4 w4 where c4: "run_state (for_each rows (dispatch_row repo dispatch) (?res, B)) w3 = (s4, w4)" by fastforce
          from run c1 c2 c3 c4 Inr \<open>r1 = Inr running\<close> \<open>r2 = Inr B\<close> q have e: "s = (fst s4, None)" "w' = w4"
            by (auto simp: dispatchPending_def Let_def)
          have "int (length rows) \<le> d_maxConcurrent d - running"
            using bounded [OF _ c3 [unfolded Inr]] q by simp
          with handed_length [of rows B] dispatch_rows [OF c4] L3 assms e show ?thesis
            by (auto simp: handed_over_def intro!: exI [of _ rows] exI [of _ B])
        qed
      qed
    qed
  qed
qed

lemma queueDue_valid:
  "valid (\<lambda>w. log w = L) (queueDue repo d joblist schedules minute past result)
     (\<lambda>s w. log w = L \<and> tr_Dispatched (fst s) = tr_Dispatched result)"
proof -
  let ?I = "\<lambda>s w. log w = L \<and> tr_Dispatched (fst s) = tr_Dispatched result"
  have c: "valid (\<lambda>w. log w = L \<and> tr_Dispatched u = k) (queue_candidate repo dry loc job e m u)
      (\<lambda>s w. log w = L \<and> tr_Dispatched s = k)" for dry loc job e m u k
    unfolding queue_candidate_def
    by (intro valid_if valid_return valid_bind [where Q = "\<lambda>_ w. log w = L \<and> tr_Dispatched u = k"] valid_sum)
      (use silent_valid [OF silent(6)] in \<open>auto simp: valid_def\<close>)
  have x: "valid (?I s) (queue_expr repo dry loc job cs t s) ?I" for dry loc job cs t s
    unfolding queue_expr_def
    by (auto split: prod.split sum.split intro!: valid_return
      valid_bind [where Q = "\<lambda>u w. log w = L \<and> tr_Dispatched u = tr_Dispatched result"]
      valid_for_each [where I = "\<lambda>_ u w. log w = L \<and> tr_Dispatched u = tr_Dispatched result"] c)
  have j: "valid (?I s) (queue_job repo dry loc schedules minute past job s) ?I" for dry loc job s
        unfolding queue_job_def Let_def
    by (intro valid_if valid_return valid_for_each [where I = "\<lambda>_. ?I"] x)
  have "valid (?I (result, d_exprCache d)) (queueDue repo d joblist schedules minute past result) ?I"
    unfolding queueDue_def by (intro valid_for_each [where I = "\<lambda>_. ?I"] j)
  then show ?thesis by (simp add: valid_def)
qed

lemma tick_dispatch_valid:
  "tr_Dispatched result = 0 \<Longrightarrow>
     valid (\<lambda>w. log w = L) (tick_dispatch repo dispatch t result d) (\<lambda>s w. handed_over L d (fst s) w)"
  unfolding tick_dispatch_def
  by (intro valid_if valid_return valid_bind [OF dispatchPending_valid]) (auto intro: handed_over_none)

lemma handed_over_cache: "handed_over L (d\<lparr>d_exprCache := x\<rparr>) = handed_over L d"
  "handed_over L (d\<lparr>d_lastMinute := y\<rparr>) = handed_over L d" "handed_over L (d\<lparr>d_running := z\<rparr>) = handed_over L d"
  by (simp_all add: handed_over_def fun_eq_iff)

lemma tick_queue_valid:
  assumes "tr_Dispatched result = 0"
  shows "valid (\<lambda>w. log w = L) (tick_queue repo dispatch t minute past result d) (\<lambda>s w. handed_over L d (fst s) w)"
proof -
  have q: "valid (\<lambda>w. log w = L) (State_Monad.bind (queueDue repo d joblist schedules minute past r)
      (\<lambda>s. tick_dispatch repo dispatch t (fst s) (d\<lparr>d_exprCache := snd s\<rparr>))) (\<lambda>s w. handed_over L d (fst s) w)"
    if "tr_Dispatched r = 0" for joblist schedules r
  proof (rule valid_bind [OF queueDue_valid])
    fix a
    show "valid (\<lambda>w. log w = L \<and> tr_Dispatched (fst a) = tr_Dispatched r)
        (tick_dispatch repo dispatch t (fst a) (d\<lparr>d_exprCache := snd a\<rparr>)) (\<lambda>s w. handed_over L d (fst s) w)"
    proof (cases "tr_Dispatched (fst a) = 0")
      case True
      with tick_dispatch_valid [OF True, of L t "d\<lparr>d_exprCache := snd a\<rparr>"] show ?thesis
        by (auto simp: valid_def handed_over_cache)
    next
      case False
      with that show ?thesis by (simp add: valid_def)
    qed
  qed
  show ?thesis
    unfolding tick_queue_def Let_def
    by (intro valid_bind [OF silent_valid [OF silent(4)]] valid_bind [OF silent_valid [OF silent(5)]]
        valid_sum valid_if valid_return q tick_dispatch_valid)
      (auto simp: assms intro: handed_over_none)
qed

lemma tick_pulse_silent: "keeps (\<lambda>w w'. log w' = log w) (tick_pulse repo t a result d)"
  unfolding tick_pulse_def Let_def by (intro lg.keeps_rules silent)

lemma audit_dispatched: "tr_Dispatched (audit_minute d m r) = tr_Dispatched r"
  by (simp add: audit_minute_def)

lemma Tick_hands_over:
  assumes "run_state (Tick repo now dispatch d) w = ((result, err, d'), w')"
  shows "handed_over (log w) d result w'"
proof -
  have res: "tr_Dispatched no_result = 0" by (simp add: no_result_def)
  have body: "valid (\<lambda>w. log w = L) (tick_body repo now dispatch e) (\<lambda>s w. handed_over L e (fst s) w)" for L e
  proof -
    have "valid (\<lambda>w. log w = L) (tick_queue repo dispatch t minute past r (e\<lparr>d_lastMinute := y\<rparr>)) (\<lambda>s w. handed_over L e (fst s) w)"
      if "tr_Dispatched r = 0" for t minute past r y
      using tick_queue_valid [OF that, of L t minute past "e\<lparr>d_lastMinute := y\<rparr>"] by (simp add: handed_over_cache)
    then show ?thesis
      unfolding tick_body_def Let_def
      by (intro valid_bind [OF silent_valid [OF silent(1)]] valid_bind [OF silent_valid [OF silent_now]]
          valid_bind [OF silent_valid [OF tick_pulse_silent]] valid_sum valid_return)
        (auto simp: audit_dispatched res intro: handed_over_none)
  qed
  have fin: "handed_over L (e\<lparr>d_running := z\<rparr>) r v \<Longrightarrow> handed_over L e (r\<lparr>tr_Duration := x\<rparr>) v" for L e z r x v
    by (simp add: handed_over_def)
  have "valid (\<lambda>v. log v = log w) (Tick repo now dispatch d) (\<lambda>s v. handed_over (log w) d (fst s) v)"
    unfolding Tick_def
  proof (intro valid_if valid_return valid_bind [OF silent_valid [OF silent_now]] valid_bind [OF body])
    fix v assume "log v = log w"
    then show "handed_over (log w) d (fst (no_result\<lparr>tr_Skipped := True\<rparr>, None, d)) v"
      by (auto simp: res intro: handed_over_none)
  next
    fix a :: instant and s :: "tick_result \<times> go_error option \<times> dispatcher"
    show "valid (\<lambda>v. handed_over (log w) (d\<lparr>d_running := True\<rparr>) (fst s) v)
       (State_Monad.bind now (\<lambda>done. State_Monad.return (case s of (result, err, d') \<Rightarrow>
          (result\<lparr>tr_Duration := time_sub done a\<rparr>, err, d'\<lparr>d_running := False\<rparr>)))) (\<lambda>s v. handed_over (log w) d (fst s) v)"
      using silent_now
      by (auto simp: valid_def keeps_def handed_over_def split: prod.splits) (metis snd_conv)
  qed
  with assms show ?thesis by (auto simp: valid_def)
qed

end

end
