(* ===== verification/Demo.thy ===== *)
theory Demo
  imports Store
begin

text \<open>
  A small database the witnesses evaluate on: one project with two jobs, two schedules, a run that is
  going and one that waits.
\<close>

definition demo_project :: project_t where
  "demo_project = \<lparr>p_id = 1, p_name = ''Shop'', p_slug = ''shop'', p_description = [], p_base_url = [],
     p_key_prefix = [], p_key_hash = [], p_active = True, p_user_id = None, p_created_at = 0,
     p_updated_at = None, pt_deleted_at = None\<rparr>"

definition demo_job :: "int \<Rightarrow> string \<Rightarrow> bool \<Rightarrow> job_t" where
  "demo_job i code single = \<lparr>j_id = i, j_project_id = 1, j_code = code, j_name = code, j_description = [],
     j_tag = [], j_method = ''GET'', j_url = ''https://shop.test/cron'', j_body = [], j_timeout_sec = 30,
     j_max_duration_sec = 300, j_retries = 0, j_single_run = single, j_run_missed = False,
     j_max_delay_min = 10, j_priority = 100, j_success_min = 200, j_success_max = 399,
     j_notification_id = None, j_active = True, j_last_run_at = None, j_last_status = [],
     j_last_duration_ms = None, j_created_at = 0, j_updated_at = None, jt_deleted_at = None\<rparr>"

definition demo_now :: instant where
  "demo_now = 1740787380000000000"

definition demo_schedule :: "int \<Rightarrow> string \<Rightarrow> job_schedule" where
  "demo_schedule i ex = \<lparr>sc_id = i, sc_job_id = 1, sc_expression = ex, sc_active = True, sc_created_at = 0\<rparr>"

definition demo_db :: db where
  "demo_db = \<lparr>job_runs =
       [(new_run 1 2 TriggerManual 0)\<lparr>r_status := StatusRunning, r_started_at := Some demo_now\<rparr>, new_run 2 2 TriggerAPI 0],
     runs_seq = 2, jobs = [demo_job 1 ''nightly'' False, demo_job 2 ''sync'' True], jobs_seq = 2,
     job_schedules = [demo_schedule 1 ''3 0 * * *'', demo_schedule 2 ''every minute''], schedules_seq = 2,
     job_headers = [], headers_seq = 0, job_links = [], links_seq = 0, projects = [demo_project],
     heartbeat_row = None, notifications = [], notify_emails = [], app_logs = [], users = [], users_seq = 0,
     projects_seq = 1, password_resets = [], resets_seq = 0, permission_keys = [], role_rows = [], roles_seq = 0,
     role_permissions = [], user_roles = [], user_permissions = [],
     notifications_seq = 0, app_logs_seq = 0, host_overrides = [], overrides_seq = 0\<rparr>"

definition demo_world :: world where
  "demo_world = \<lparr>w_db = demo_db, w_events = [], w_now = demo_now, w_app = [], w_out = []\<rparr>"

end
