(* ===== verification/DispatcherProps.thy ===== *)
theory DispatcherProps
  imports DispatcherFacts DispatcherMinutes Demo
begin

text \<open>
  \<open>ExecRepo\<close> provides what the dispatcher relies on, and what a tick then does to the tables: what
  it queues, what it hands over, and that a dry run writes nothing.
\<close>

section \<open>The composition root\<close>

definition hand :: "int \<Rightarrow> string \<Rightarrow> ('w world_scheme, unit) state" where
  "hand i c = emit (Dispatched i c)"

definition log_of :: "effect list \<Rightarrow> (int \<times> string) list" where
  "log_of es = List.map_filter (\<lambda>e. case e of Dispatched i c \<Rightarrow> Some (i, c) | _ \<Rightarrow> None) es"

lemma log_of_append: "log_of (es @ es') = log_of es @ log_of es'"
  by (simp add: log_of_def map_filter_def)

lemma stmt_out: "keeps (\<lambda>w w'. w_out w' = w_out w) (stmt f)"
  by (auto simp: keeps_def stmt_def Let_def split: list.splits fault.splits prod.splits)

lemma stmt_quiet:
  "w_events w = [] \<Longrightarrow> run_state (stmt f) w = (fst (f (w_now w) (w_db w)), w\<lparr>w_db := snd (f (w_now w) (w_db w))\<rparr>)"
  by (simp add: stmt_def split: prod.splits)

lemma stmt_value:
  assumes "run_state (stmt f) w = (Inr x, w')"
  shows "\<exists>now d. fst (f now d) = Inr x"
  using assms by (auto simp: stmt_def Let_def split: list.splits fault.splits prod.splits) (metis fst_conv)+

section \<open>Interpretations\<close>

interpretation du: dispatch_writer "world_evolves :: 'w world_scheme \<Rightarrow> _" exec_dispatch app_now hand
  by unfold_locales
    (auto simp: exec_dispatch_def hand_def intro!: world_evolves_stmt safe_intro world_evolves_local)

text \<open>A world is left alone when nothing was sent out and, unless others interfered, no table changed.\<close>

definition left_alone :: "'w world_scheme \<Rightarrow> 'w world_scheme \<Rightarrow> bool" where
  "left_alone w w' \<longleftrightarrow> w_out w' = w_out w \<and> set (w_events w') \<subseteq> set (w_events w)
     \<and> ((\<forall>ev\<in>set (w_events w). ev_env ev = id) \<longrightarrow> w_db w' = w_db w)"

lemma left_alone_stmt: "(\<And>now d. snd (f now d) = d) \<Longrightarrow> keeps left_alone (stmt f)"
  by (auto simp: keeps_def left_alone_def stmt_def Let_def split: list.splits fault.splits prod.splits)
    (metis snd_conv id_apply)+

lemma left_alone_now: "keeps left_alone app_now"
  by (auto simp: keeps_def left_alone_def app_now_def split: list.splits)

interpretation la: dispatch_reader "left_alone :: 'w world_scheme \<Rightarrow> _" exec_dispatch app_now
proof unfold_locales
  show "left_alone u v \<Longrightarrow> left_alone v w \<Longrightarrow> left_alone u w" for u v w :: "'w world_scheme"
    unfolding left_alone_def by (metis (no_types, lifting) subset_iff)
qed (auto simp: left_alone_def exec_dispatch_def db_time_def read_heartbeat_def list_scheduled_jobs_def
  list_active_schedules_def query_def query_at_def intro!: left_alone_stmt left_alone_now)

lemma log_stmt: "keeps (\<lambda>w w'. log_of (w_out w') = log_of (w_out w)) (stmt f)"
  by (rule keepsI) (simp add: keepsD [OF stmt_out])

interpretation ho: hand_over exec_dispatch app_now hand "\<lambda>w :: 'w world_scheme. log_of (w_out w)"
proof unfold_locales
  show "run_state (hand i c) w = (u, w') \<Longrightarrow> log_of (w_out w') = log_of (w_out w) @ [(i, c)]"
    for i c u and w w' :: "'w world_scheme"
    by (auto simp: hand_def emit_def log_of_append) (simp add: log_of_def map_filter_def)
  show "keeps (\<lambda>w w' :: 'w world_scheme. log_of (w_out w') = log_of (w_out w)) app_now"
    by (auto simp: keeps_def app_now_def split: list.splits)
  show "int (length rows) \<le> l" if "0 < l" and run: "run_state (dr_ListPending exec_dispatch t l) w = (Inr rows, w')"
    for l t rows and w w' :: "'w world_scheme"
  proof -
    from run obtain now d where "fst (list_pending t l now d) = Inr rows"
      by (auto simp: exec_dispatch_def dest: stmt_value)
    then have "length rows \<le> nat (clamp l 1 500)" by (auto simp: list_pending_def query_def)
    with \<open>0 < l\<close> show ?thesis by (auto simp: clamp_def split: if_splits)
  qed
qed (simp_all add: exec_dispatch_def log_stmt)

text \<open>Without interference, queueing only appends pending rows.\<close>

definition only_queues :: "'w world_scheme \<Rightarrow> 'w world_scheme \<Rightarrow> bool" where
  "only_queues w w' \<longleftrightarrow> (\<exists>n rs. w' = w\<lparr>w_db := (w_db w)\<lparr>runs_seq := n, job_runs := job_runs (w_db w) @ rs\<rparr>\<rparr>
     \<and> (\<forall>r\<in>set rs. r_status r = StatusPending \<and> r_trigger r = TriggerSchedule \<and> r_run_after r = None))"

lemma only_queues_refl: "only_queues w w"
  by (auto simp: only_queues_def intro!: exI [of _ "runs_seq (w_db w)"] exI [of _ "[]"])

lemma only_queues_trans: "only_queues u v \<Longrightarrow> only_queues v w \<Longrightarrow> only_queues u w"
proof -
  assume "only_queues u v" and "only_queues v w"
  then obtain n rs m rs'
    where v: "v = u\<lparr>w_db := (w_db u)\<lparr>runs_seq := n, job_runs := job_runs (w_db u) @ rs\<rparr>\<rparr>"
      and w: "w = v\<lparr>w_db := (w_db v)\<lparr>runs_seq := m, job_runs := job_runs (w_db v) @ rs'\<rparr>\<rparr>"
      and pend: "\<forall>r\<in>set rs. r_status r = StatusPending \<and> r_trigger r = TriggerSchedule \<and> r_run_after r = None"
        "\<forall>r\<in>set rs'. r_status r = StatusPending \<and> r_trigger r = TriggerSchedule \<and> r_run_after r = None"
    unfolding only_queues_def by blast
  have "w = u\<lparr>w_db := (w_db u)\<lparr>runs_seq := m, job_runs := job_runs (w_db u) @ rs @ rs'\<rparr>\<rparr>"
    using v w by simp
  with pend show ?thesis
    unfolding only_queues_def by (intro exI [of _ m] exI [of _ "rs @ rs'"]) auto
qed

definition quiet :: "'w world_scheme \<Rightarrow> bool" where
  "quiet w \<longleftrightarrow> w_events w = []"

lemma find_job_None: "find_job d i = None \<longleftrightarrow> i \<notin> j_id ` set (jobs d)"
  by (auto simp: find_job_def find_None_iff image_iff)

interpretation rq: run_queue only_queues exec_dispatch quiet "\<lambda>w :: 'w world_scheme. j_id ` set (jobs (w_db w))"
  "\<lambda>w. set (run_keys (w_db w))"
proof unfold_locales
  show "only_queues w w" for w :: "'w world_scheme" by (rule only_queues_refl)
  show "only_queues u v \<Longrightarrow> only_queues v w \<Longrightarrow> only_queues u w" for u v w :: "'w world_scheme"
    by (rule only_queues_trans)
  fix w w' :: "'w world_scheme" and j m r
  assume q: "quiet w" and j: "j \<in> j_id ` set (jobs (w_db w))"
    and run: "run_state (dr_QueueRun exec_dispatch j m) w = (r, w')"
  have run': "(r, w') = (fst (queue_run j m (w_now w) (w_db w)), w\<lparr>w_db := snd (queue_run j m (w_now w) (w_db w))\<rparr>)"
    using run stmt_quiet [of w "queue_run j m"] q by (simp add: exec_dispatch_def quiet_def)
  have q': "quiet w'" using run' q by (simp add: quiet_def)
  show "r = Inr () \<and> quiet w' \<and> j_id ` set (jobs (w_db w')) = j_id ` set (jobs (w_db w))
      \<and> set (run_keys (w_db w')) = insert (j, m) (set (run_keys (w_db w))) \<and> only_queues w w'"
  proof (rule queue_run_cases [of j m "w_db w" "w_now w"])
    assume "(j, m) \<in> set (run_keys (w_db w))"
      and "queue_run j m (w_now w) (w_db w) = (Inr (), (w_db w)\<lparr>runs_seq := runs_seq (w_db w) + 1\<rparr>)"
    with run' q' show ?thesis
      by (auto simp: run_keys_def only_queues_def intro!: exI [of _ "[]"])
  next
    assume "find_job (w_db w) j = None"
    with j show ?thesis by (simp add: find_job_None)
  next
    let ?r = "(new_run (runs_seq (w_db w) + 1) j TriggerSchedule (w_now w))\<lparr>r_planned_minute := Some m\<rparr>"
    assume e: "queue_run j m (w_now w) (w_db w) = (Inr (), (w_db w)
        \<lparr>runs_seq := runs_seq (w_db w) + 1, job_runs := job_runs (w_db w) @ [?r]\<rparr>)"
    have "run_key ?r = Some (j, m)" by (simp add: run_key_def new_run_def)
    with e run' q' show ?thesis
      by (auto simp: run_keys_def only_queues_def map_filter_def new_run_def intro!: exI [of _ "[?r]"])
  qed
qed

section \<open>A tick that nobody interferes with\<close>

lemma single_run_reason_text: "go_truncate single_run_reason ErrorMaxLen = single_run_reason" "pg_text single_run_reason"
proof -
  have "list_all ascii single_run_reason" by (simp add: single_run_reason_def ascii_def)
  then have "rune_count single_run_reason = length single_run_reason" by (simp add: rune_count_def runes_ascii)
  then show "go_truncate single_run_reason ErrorMaxLen = single_run_reason"
    by (intro truncate_short) (simp_all add: ErrorMaxLen_def single_run_reason_def)
  show "pg_text single_run_reason"
    by (rule pg_text_ascii) (simp add: single_run_reason_def ascii_def)
qed

text \<open>The rows closed as skipped instead of being handed over.\<close>

fun passed :: "pending_run list \<Rightarrow> int set \<Rightarrow> pending_run list" where
  "passed [] B = []"
| "passed (r # rs) B =
     (if pr_single_run r \<and> pr_job_id r \<in> B then r # passed rs B else passed rs (insert (pr_job_id r) B))"





definition skip_ids :: "instant \<Rightarrow> int list \<Rightarrow> db \<Rightarrow> db" where
  "skip_ids now ids d = fold (\<lambda>i d. snd (skip_run i single_run_reason now d)) ids d"

lemma skip_ids_rows:
  "jobs (skip_ids now ids d) = jobs d \<and> runs_seq (skip_ids now ids d) = runs_seq d \<and> projects (skip_ids now ids d) = projects d
   \<and> set (job_runs (skip_ids now ids d)) =
       (\<lambda>r. if r_id r \<in> set ids \<and> r_status r = StatusPending
          then r\<lparr>r_status := StatusSkipped, r_finished_at := Some now, r_error := single_run_reason\<rparr> else r) ` set (job_runs d)
   \<and> run_keys (skip_ids now ids d) = run_keys d"
proof (induction ids arbitrary: d)
  case Nil
  then show ?case by (simp add: skip_ids_def)
next
  case (Cons i ids)
  let ?f = "\<lambda>r. r\<lparr>r_status := StatusSkipped, r_finished_at := Some now, r_error := single_run_reason\<rparr>"
  let ?d = "d\<lparr>job_runs := update_where (\<lambda>r. r_id r = i \<and> r_status r = StatusPending) ?f (job_runs d)\<rparr>"
  have s: "snd (skip_run i single_run_reason now d) = ?d"
    by (simp add: skip_run_def single_run_reason_text)
  have k: "run_keys ?d = run_keys d"
    by (simp add: run_keys_def run_keys_update_where)
  have "skip_ids now (i # ids) d = skip_ids now ids ?d"
    by (simp add: skip_ids_def s)
  with Cons.IH [of ?d] k show ?case
    by (auto simp: set_update_where image_image intro!: image_cong)
qed

lemma rows_quiet:
  "quiet w \<Longrightarrow> run_state (for_each rows (dispatch_row exec_dispatch hand) (result, B)) w = (s, w') \<Longrightarrow>
     w' = w\<lparr>w_db := skip_ids (w_now w) (map pr_id (passed rows B)) (w_db w),
            w_out := w_out w @ map (\<lambda>r. Dispatched (pr_id r) (pr_code r)) (handed rows B)\<rparr>
     \<and> tr_SkippedRuns (fst s) = tr_SkippedRuns result + int (length (passed rows B))
     \<and> tr_Dispatched (fst s) = tr_Dispatched result + int (length (handed rows B))
     \<and> tr_WriteErrors (fst s) = tr_WriteErrors result \<and> tr_Running (fst s) = tr_Running result"
proof (induction rows arbitrary: result B w)
  case Nil
  then show ?case by (auto simp: skip_ids_def)
next
  case (Cons r rows)
  obtain s1 w1 where st: "run_state (dispatch_row exec_dispatch hand r (result, B)) w = (s1, w1)" by fastforce
  with Cons.prems have rest: "run_state (for_each rows (dispatch_row exec_dispatch hand) (fst s1, snd s1)) w1 = (s, w')"
    by simp
  show ?case
  proof (cases "pr_single_run r \<and> pr_job_id r \<in> B")
    case True
    have f: "fst (skip_run (pr_id r) single_run_reason now d) = Inr ()" for now d
      by (simp add: skip_run_def single_run_reason_text)
    have "w1 = w\<lparr>w_db := snd (skip_run (pr_id r) single_run_reason (w_now w) (w_db w))\<rparr>
        \<and> s1 = (result\<lparr>tr_SkippedRuns := tr_SkippedRuns result + 1\<rparr>, B)"
      using st True Cons.prems(1) stmt_quiet [of w "skip_run (pr_id r) single_run_reason"] f
      by (auto simp: dispatch_row_def exec_dispatch_def quiet_def)
    with Cons.IH [OF _ rest] Cons.prems(1) True show ?thesis
      by (simp add: quiet_def skip_ids_def)
  next
    case False
    have "w1 = w\<lparr>w_out := w_out w @ [Dispatched (pr_id r) (pr_code r)]\<rparr>
        \<and> s1 = (result\<lparr>tr_Dispatched := tr_Dispatched result + 1\<rparr>, insert (pr_job_id r) B)"
      using st False by (auto simp: dispatch_row_def hand_def emit_def)
    moreover from False have "handed (r # rows) B = r # handed rows (insert (pr_job_id r) B)"
      "passed (r # rows) B = passed rows (insert (pr_job_id r) B)" by auto
    ultimately show ?thesis
      using Cons.IH [OF _ rest] Cons.prems(1) by (simp add: quiet_def)
  qed
qed

text \<open>What is due according to the tables, in terms of their rows.\<close>

definition due_now :: "location \<Rightarrow> db \<Rightarrow> instant \<Rightarrow> instant list \<Rightarrow> (int \<times> instant) set" where
  "due_now loc d minute past =
     {(j_id j, m) | j s e m. j \<in> set (jobs d) \<and> schedulable d j \<and> s \<in> set (job_schedules d)
        \<and> sc_job_id s = j_id j \<and> sc_active s \<and> cron_parse (sc_expression s) = Inr e \<and> Matches loc e m
        \<and> (m = minute \<or> j_run_missed j \<and> m \<in> set past \<and> time_sub minute m \<le> dur_mul (j_max_delay_min j) minute_ns)}"

lemma due_nowI:
  "j \<in> set (jobs d) \<Longrightarrow> schedulable d j \<Longrightarrow> s \<in> set (job_schedules d) \<Longrightarrow> sc_job_id s = j_id j \<Longrightarrow> sc_active s
     \<Longrightarrow> cron_parse (sc_expression s) = Inr e \<Longrightarrow> Matches loc e minute \<Longrightarrow> (j_id j, minute) \<in> due_now loc d minute past"
  by (auto simp: due_now_def)

lemma find_job_unique: "distinct (map j_id (jobs d)) \<Longrightarrow> j \<in> set (jobs d) \<Longrightarrow> find_job d (j_id j) = Some j"
  unfolding find_job_def
  by (induction "jobs d") (auto simp: find_Some_iff distinct_conv_nth in_set_conv_nth nth_eq_iff_index_eq)

lemma candidateMinutes_set:
  "m \<in> set (candidateMinutes (scheduled_job_of j) minute past) \<longleftrightarrow>
     m = minute \<or> j_run_missed j \<and> m \<in> set past \<and> time_sub minute m \<le> dur_mul (j_max_delay_min j) minute_ns"
  by (auto simp: candidateMinutes_def scheduled_job_of_def Let_def)

definition scheduled_jobs :: "db \<Rightarrow> scheduled_job list" where
  "scheduled_jobs d = map scheduled_job_of (sort_key (\<lambda>j. (j_priority j, j_id j)) (filter (schedulable d) (jobs d)))"

definition active_schedules :: "db \<Rightarrow> int \<Rightarrow> string list" where
  "active_schedules d jobID = map sc_expression (filter (\<lambda>s. sc_job_id s = jobID \<and> sc_active s
       \<and> (case find_job d (sc_job_id s) of None \<Rightarrow> False | Some j \<Rightarrow> schedulable d j)) (job_schedules d))"

lemma due_now_pairs:
  assumes "distinct (map j_id (jobs d))"
  shows "(\<Union>job\<in>set (scheduled_jobs d). due_pairs loc (active_schedules d) minute past job) = due_now loc d minute past"
proof -
  have "due_pairs loc (active_schedules d) minute past (scheduled_job_of j) =
      {(j_id j, m) | s e m. s \<in> set (job_schedules d) \<and> sc_job_id s = j_id j \<and> sc_active s
        \<and> cron_parse (sc_expression s) = Inr e \<and> Matches loc e m
        \<and> (m = minute \<or> j_run_missed j \<and> m \<in> set past \<and> time_sub minute m \<le> dur_mul (j_max_delay_min j) minute_ns)}"
    if "j \<in> set (jobs d)" "schedulable d j" for j
  proof -
    have "set (active_schedules d (j_id j)) = {sc_expression s | s. s \<in> set (job_schedules d) \<and> sc_job_id s = j_id j \<and> sc_active s}"
      using that find_job_unique [OF assms that(1)] by (force simp: active_schedules_def)
    moreover have "sj_id (scheduled_job_of j) = j_id j" by (simp add: scheduled_job_of_def)
    ultimately show ?thesis
      unfolding due_pairs_def candidateMinutes_set by (simp only: Bex_def mem_Collect_eq) blast
  qed
  then show ?thesis
    by (auto simp: scheduled_jobs_def due_now_def)
qed

lemma dispatchPending_quiet:
  assumes "quiet w" and "run_state (dispatchPending exec_dispatch hand d t result) w = (s, w')"
  defines "running \<equiv> int (length (filter (\<lambda>r. r_status r = StatusRunning) (job_runs (w_db w))))"
    and "B \<equiv> set (map r_job_id (filter (\<lambda>r. r_status r = StatusRunning) (job_runs (w_db w))))"
  defines "rows \<equiv> map (pending_run_of (w_db w)) (take (nat (clamp (d_maxConcurrent d - running) 1 500))
       (sort_key (\<lambda>r. (job_priority (w_db w) (r_job_id r), r_id r)) (filter (due_pending (w_db w) t) (job_runs (w_db w)))))"
  shows "snd s = None \<and> tr_WriteErrors (fst s) = tr_WriteErrors result \<and> tr_Running (fst s) = running
    \<and> (if d_maxConcurrent d \<le> running then w' = w \<and> tr_QuotaFull (fst s)
       else w' = w\<lparr>w_db := skip_ids (w_now w) (map pr_id (passed rows B)) (w_db w),
            w_out := w_out w @ map (\<lambda>r. Dispatched (pr_id r) (pr_code r)) (handed rows B)\<rparr>
          \<and> tr_SkippedRuns (fst s) = tr_SkippedRuns result + int (length (passed rows B))
          \<and> tr_Dispatched (fst s) = tr_Dispatched result + int (length (handed rows B)))"
proof -
  have c1: "run_state (dr_CountRunning exec_dispatch) w = (Inr running, w)"
    using assms(1) by (simp add: exec_dispatch_def stmt_quiet quiet_def count_running_def query_def running_def)
  have c2: "run_state (dr_RunningJobIDs exec_dispatch) w = (Inr B, w)"
    using assms(1) by (simp add: exec_dispatch_def stmt_quiet quiet_def running_job_ids_def query_def B_def)
  have c3: "run_state (dr_ListPending exec_dispatch t (d_maxConcurrent d - running)) w = (Inr rows, w)"
    using assms(1) by (simp add: exec_dispatch_def stmt_quiet quiet_def list_pending_def query_def rows_def)
  show ?thesis
  proof (cases "d_maxConcurrent d \<le> running")
    case True
    with assms(2) c1 show ?thesis by (auto simp: dispatchPending_def Let_def)
  next
    case False
    obtain s4 w4 where c4: "run_state (for_each rows (dispatch_row exec_dispatch hand) (result\<lparr>tr_Running := running\<rparr>, B)) w = (s4, w4)"
      by fastforce
    with assms(2) c1 c2 c3 False have "s = (fst s4, None)" "w' = w4"
      by (auto simp: dispatchPending_def Let_def)
    with rows_quiet [OF assms(1) c4] False show ?thesis by simp
  qed
qed

lemma tick_queue_quiet:
  assumes "quiet w" and "\<not> d_dryRun d" and "cache_ok (d_exprCache d)" and "distinct (map j_id (jobs (w_db w)))"
    and "run_state (tick_queue exec_dispatch hand t minute past result d) w = ((res, err, d'), w')"
  shows "\<exists>w1 r0. only_queues w w1 \<and> quiet w1 \<and> world_evolves w w1 \<and> tr_WriteErrors r0 = tr_WriteErrors result
    \<and> tr_Dispatched r0 = tr_Dispatched result \<and> tr_SkippedRuns r0 = tr_SkippedRuns result
    \<and> set (run_keys (w_db w1)) = set (run_keys (w_db w)) \<union> due_now (d_location d) (w_db w) minute past
    \<and> run_state (dispatchPending exec_dispatch hand d t r0) w1 = ((res, err), w')
    \<and> cache_ok (d_exprCache d') \<and> d_location d' = d_location d \<and> d_maxConcurrent d' = d_maxConcurrent d"
proof -
  have c1: "run_state (dr_ListScheduledJobs exec_dispatch) w = (Inr (scheduled_jobs (w_db w)), w)"
    using assms(1) by (simp add: exec_dispatch_def stmt_quiet quiet_def list_scheduled_jobs_def query_def scheduled_jobs_def)
  have c2: "run_state (dr_ListActiveSchedules exec_dispatch) w = (Inr (active_schedules (w_db w)), w)"
    using assms(1) by (simp add: exec_dispatch_def stmt_quiet quiet_def list_active_schedules_def query_def active_schedules_def [abs_def])
  have dispatch: "dispatchPending exec_dispatch hand (d\<lparr>d_exprCache := x\<rparr>) t r = dispatchPending exec_dispatch hand d t r" for x r
    by (simp add: dispatchPending_def Let_def cong del: sum.case_cong_weak if_weak_cong)
  let ?r = "result\<lparr>tr_ActiveJobs := int (length (scheduled_jobs (w_db w)))\<rparr>"
  show ?thesis
  proof (cases "scheduled_jobs (w_db w) = []")
    case True
    have "due_now (d_location d) (w_db w) minute past = {}"
      using due_now_pairs [OF assms(4)] True by auto
    moreover from assms(2,5) c1 True
    obtain s where "run_state (dispatchPending exec_dispatch hand d t ?r) w = (s, w')" "res = fst s" "err = snd s" "d' = d"
      by (auto simp: tick_queue_def tick_dispatch_def Let_def split: prod.splits)
    ultimately show ?thesis
      using assms only_queues_refl [of w] world_evolves_refl [of w] by (intro exI [of _ w] exI [of _ ?r]) simp
  next
    case False
    obtain s w1 where q: "run_state (queueDue exec_dispatch d (scheduled_jobs (w_db w)) (active_schedules (w_db w)) minute past ?r) w = (s, w1)"
      by fastforce
    have known: "sj_id job \<in> j_id ` set (jobs (w_db w))" if "job \<in> set (scheduled_jobs (w_db w))" for job
      using that by (auto simp: scheduled_jobs_def scheduled_job_of_def)
    have i: "rq.inv w (due_now (d_location d) (w_db w) minute past) ?r s w1"
      using rq.queueDue_valid [OF assms(2) known assms(3,1) q] due_now_pairs [OF assms(4)] by simp
    from assms(2,5) c1 c2 q False
    obtain u where "run_state (dispatchPending exec_dispatch hand d t (fst s)) w1 = (u, w')" "res = fst u" "err = snd u"
      "d' = d\<lparr>d_exprCache := snd s\<rparr>"
      by (auto simp: tick_queue_def tick_dispatch_def Let_def dispatch split: prod.splits)
    moreover have "world_evolves w w1" using keepsD [OF du.queueDue_keeps q] .
    ultimately show ?thesis using i
      by (intro exI [of _ w1] exI [of _ "fst s"]) (auto simp: rq.inv_def rq.queued_def)
  qed
qed





lemma app_now_state: "run_state app_now w = (a, w') \<Longrightarrow> \<exists>ts. w' = w\<lparr>w_app := ts\<rparr>"
  by (cases "w_app w") (auto simp: app_now_def intro: exI [of _ "w_app w"])

lemma due_now_heartbeat [simp]: "due_now loc (d\<lparr>heartbeat_row := h\<rparr>) minute past = due_now loc d minute past"
  by (simp add: due_now_def schedulable_def find_project_def)

lemma missedMinutes_fields [simp]:
  "missedMinutes (d\<lparr>d_running := b\<rparr>) = missedMinutes d" "missedMinutes (d\<lparr>d_lastMinute := m\<rparr>) = missedMinutes d"
  by (simp_all add: missedMinutes_def fun_eq_iff)

definition last_pulse :: "db \<Rightarrow> instant" where
  "last_pulse d = (case heartbeat_row d of None \<Rightarrow> zero_time | Some h \<Rightarrow> hb_last_run h)"

lemma tick_pulse_quiet:
  assumes "quiet w" and "\<not> d_dryRun d" and "run_state (tick_pulse exec_dispatch t a r d) w = (x, w')"
  shows "x = Inr (last_pulse (w_db w)) \<and> (\<exists>h. w' = w\<lparr>w_db := (w_db w)\<lparr>heartbeat_row := h\<rparr>\<rparr>)"
proof -
  have "run_state (dr_ReadHeartbeat exec_dispatch) w = (Inr (heartbeat_row (w_db w)), w)"
    using assms(1) by (simp add: exec_dispatch_def stmt_quiet quiet_def read_heartbeat_def query_def)
  with assms show ?thesis
    by (auto simp: tick_pulse_def Let_def exec_dispatch_def stmt_quiet quiet_def touch_heartbeat_def exec_def last_pulse_def)
qed

lemma audit_errors: "tr_WriteErrors (audit_minute d m r) = tr_WriteErrors r"
  "tr_Dispatched (audit_minute d m r) = tr_Dispatched r" "tr_SkippedRuns (audit_minute d m r) = tr_SkippedRuns r"
  by (simp_all add: audit_minute_def)

lemma tick_quiet:
  fixes w w' :: "'w world_scheme"
  assumes "quiet w" and "\<not> d_running d" and "\<not> d_dryRun d" and "cache_ok (d_exprCache d)"
    and "distinct (map j_id (jobs (w_db w)))"
    and run: "run_state (Tick exec_dispatch app_now hand d) w = ((result, err, d'), w')"
  defines "minute \<equiv> minuteStart (d_location d) (w_now w)"
  shows "\<exists>(w0 :: 'w world_scheme) w1 w2 h r0 res. w_db w0 = (w_db w)\<lparr>heartbeat_row := h\<rparr> \<and> w_out w0 = w_out w \<and> w_now w0 = w_now w
    \<and> only_queues w0 w1 \<and> quiet w1 \<and> world_evolves w0 w1 \<and> quiet w0
    \<and> tr_WriteErrors r0 = [] \<and> tr_Dispatched r0 = 0 \<and> tr_SkippedRuns r0 = 0
    \<and> set (run_keys (w_db w1)) = set (run_keys (w_db w))
        \<union> due_now (d_location d) (w_db w) minute (missedMinutes d minute (last_pulse (w_db w)))
    \<and> run_state (dispatchPending exec_dispatch hand d (w_now w) r0) w1 = ((res, err), w2)
    \<and> w_db w' = w_db w2 \<and> w_out w' = w_out w2 \<and> (\<exists>x. result = res\<lparr>tr_Duration := x\<rparr>)
    \<and> cache_ok (d_exprCache d') \<and> \<not> d_running d'"
proof -
  let ?d = "d\<lparr>d_running := True\<rparr>"
  obtain a wa where na: "run_state app_now w = (a, wa)" by fastforce
  then obtain tsa where wa: "wa = w\<lparr>w_app := tsa\<rparr>" using app_now_state by blast
  obtain b wb where nb: "run_state app_now wa = (b, wb)" by fastforce
  then obtain tsb where wb: "wb = w\<lparr>w_app := tsb\<rparr>" using app_now_state wa by fastforce
  have t: "run_state (dr_DBTime exec_dispatch) wa = (Inr (w_now w), wa)"
    using assms(1) wa by (simp add: exec_dispatch_def stmt_quiet quiet_def db_time_def query_at_def)
  define r1 where "r1 = audit_minute ?d minute (no_result\<lparr>tr_Minute := minute,
      tr_DriftSec := quot (dur_round (time_sub b (w_now w)) second) second\<rparr>)"
  obtain x w0 where pu: "run_state (tick_pulse exec_dispatch (w_now w) b r1 (?d\<lparr>d_lastMinute := minute\<rparr>)) wb = (x, w0)"
    by fastforce
  have qb: "quiet wb" "w_db wb = w_db w" using assms(1) wb by (simp_all add: quiet_def)
  from tick_pulse_quiet [OF qb(1) _ pu] assms(3) qb
  obtain h where x: "x = Inr (last_pulse (w_db w))" and w0: "w0 = wb\<lparr>w_db := (w_db w)\<lparr>heartbeat_row := h\<rparr>\<rparr>" by auto
  define past where "past = missedMinutes d minute (last_pulse (w_db w))"
  define r2 where "r2 = r1\<lparr>tr_MissedMinutes := int (length past)\<rparr>"
  obtain res e2 d2 w2 where q: "run_state (tick_queue exec_dispatch hand (w_now w) minute past r2 (?d\<lparr>d_lastMinute := minute\<rparr>)) w0 = ((res, e2, d2), w2)"
    by (metis prod.exhaust)
  have body: "run_state (tick_body exec_dispatch app_now hand ?d) wa = ((res, e2, d2), w2)"
    using t nb pu x q by (simp add: tick_body_def Let_def minute_def r1_def r2_def past_def)
  obtain c w3 where nc: "run_state app_now w2 = (c, w3)" by fastforce
  then obtain tsc where w3: "w3 = w2\<lparr>w_app := tsc\<rparr>" using app_now_state by blast
  from run na body nc assms(2)
  have fin: "result = res\<lparr>tr_Duration := time_sub c a\<rparr>" "err = e2" "d' = d2\<lparr>d_running := False\<rparr>" "w' = w3"
    by (auto simp: Tick_def)
  have q0: "quiet w0" "distinct (map j_id (jobs (w_db w0)))" using qb w0 assms(5) by (simp_all add: quiet_def)
  from tick_queue_quiet [OF q0(1) _ _ q0(2) q] assms(3,4)
  obtain w1 r0 where 1: "only_queues w0 w1" "quiet w1" "tr_WriteErrors r0 = tr_WriteErrors r2" "world_evolves w0 w1"
    "tr_Dispatched r0 = tr_Dispatched r2" "tr_SkippedRuns r0 = tr_SkippedRuns r2"
    "set (run_keys (w_db w1)) = set (run_keys (w_db w0)) \<union> due_now (d_location d) (w_db w0) minute past"
    "run_state (dispatchPending exec_dispatch hand (?d\<lparr>d_lastMinute := minute\<rparr>) (w_now w) r0) w1 = ((res, e2), w2)"
    "cache_ok (d_exprCache d2)" by auto
  have deq: "dispatchPending exec_dispatch hand (?d\<lparr>d_lastMinute := minute\<rparr>) (w_now w) r0 = dispatchPending exec_dispatch hand d (w_now w) r0"
    by (simp add: dispatchPending_def Let_def cong del: sum.case_cong_weak if_weak_cong)
  have "run_state (dispatchPending exec_dispatch hand d (w_now w) r0) w1 = ((res, e2), w2)"
    using 1(8) unfolding deq .
  moreover have "tr_WriteErrors r2 = []" "tr_Dispatched r2 = 0" "tr_SkippedRuns r2 = 0"
    by (simp_all add: r2_def r1_def audit_errors no_result_def)
  moreover have "run_keys (w_db w0) = run_keys (w_db w)" by (simp add: w0 run_keys_def)
  ultimately have "w_db w0 = (w_db w)\<lparr>heartbeat_row := h\<rparr> \<and> w_out w0 = w_out w \<and> w_now w0 = w_now w
    \<and> only_queues w0 w1 \<and> quiet w1 \<and> world_evolves w0 w1 \<and> quiet w0
    \<and> tr_WriteErrors r0 = [] \<and> tr_Dispatched r0 = 0 \<and> tr_SkippedRuns r0 = 0
    \<and> set (run_keys (w_db w1)) = set (run_keys (w_db w))
        \<union> due_now (d_location d) (w_db w) minute (missedMinutes d minute (last_pulse (w_db w)))
    \<and> run_state (dispatchPending exec_dispatch hand d (w_now w) r0) w1 = ((res, err), w2)
    \<and> w_db w' = w_db w2 \<and> w_out w' = w_out w2 \<and> result = res\<lparr>tr_Duration := time_sub c a\<rparr>
    \<and> cache_ok (d_exprCache d') \<and> \<not> d_running d'"
    using 1 fin w0 wb w3 q0 by (simp add: past_def)
  then show ?thesis by blast
qed

section \<open>A small deployment\<close>

text \<open>
  One project with two active jobs: job 1, scheduled at three minutes past midnight, with a second
  expression that does not parse, and job 2, single-run, with one run in flight and one pending.
  It is 00:03 UTC on 2025-03-01.
\<close>

lemma demo_quiet: "quiet demo_world" "\<not> d_running demo_dispatcher" "\<not> d_dryRun demo_dispatcher"
  "cache_ok (d_exprCache demo_dispatcher)" "distinct (map j_id (jobs (w_db demo_world)))" "runs_ok (w_db demo_world)"
  by (simp_all add: quiet_def demo_world_def demo_dispatcher_def NewDispatcher_def cache_ok_def demo_db_def
    demo_job_def runs_ok_def run_keys_def new_run_def map_filter_simps run_key_def)

lemma demo_parse: "\<exists>e. cron_parse ''3 0 * * *'' = Inr e \<and> Matches (fixed 0) e demo_now"
proof -
  have f: "t_minute (fixed 0) demo_now = 3" "t_hour (fixed 0) demo_now = 0" "t_month (fixed 0) demo_now = 3"
    "t_day (fixed 0) demo_now = 1" "t_weekday (fixed 0) demo_now = 6"
    by code_simp+
  show ?thesis
    by (simp add: cron_eval fill_unit Matches_def dayMatches_def f)
qed

lemma demo_due: "(1, demo_now) \<in> due_now (d_location demo_dispatcher) (w_db demo_world)
    (minuteStart (d_location demo_dispatcher) (w_now demo_world)) past"
proof -
  have m: "minuteStart (fixed 0) demo_now = demo_now" by code_simp
  obtain e where e: "cron_parse ''3 0 * * *'' = Inr e" "Matches (fixed 0) e demo_now" using demo_parse by blast
  have "demo_job 1 ''nightly'' False \<in> set (jobs demo_db)" "demo_schedule 1 ''3 0 * * *'' \<in> set (job_schedules demo_db)"
    "schedulable demo_db (demo_job 1 ''nightly'' False)"
    by (simp_all add: demo_db_def schedulable_def find_project_def demo_project_def) (simp_all add: demo_job_def)
  from due_nowI [OF this(1,3,2), where loc = "fixed 0" and minute = demo_now and e = e] e m show ?thesis
    by (simp add: demo_dispatcher_def NewDispatcher_def demo_world_def demo_job_def demo_schedule_def)
qed

section \<open>Properties\<close>

text \<open> A tick hands over at most as many runs as the cap leaves room for, whatever other
  processes do to the tables between its statements and whichever of them fail: the runs it hands
  over are at most \<open>maxConcurrent\<close> minus the number of running ones it read, and the job of a
  single-run row is not the job of any row handed over before it in the same tick. \<close>
theorem tick_respects_quota:
  "run_state (Tick exec_dispatch app_now hand d) w = ((result, err, d'), w') \<Longrightarrow>
   \<exists>(hs :: pending_run list). log_of (w_out w') = log_of (w_out w) @ map (\<lambda>r. (pr_id r, pr_code r)) hs
      \<and> tr_Dispatched result = int (length hs)
      \<and> tr_Dispatched result \<le> max 0 (d_maxConcurrent d - tr_Running result)
      \<and> (\<forall>us r vs. hs = us @ r # vs \<longrightarrow> pr_single_run r \<longrightarrow> pr_job_id r \<notin> pr_job_id ` set us)"
proof -
  assume "run_state (Tick exec_dispatch app_now hand d) w = ((result, err, d'), w')"
  from ho.Tick_hands_over [OF this] obtain rows B
    where "log_of (w_out w') = log_of (w_out w) @ map (\<lambda>r. (pr_id r, pr_code r)) (handed rows B)"
      and "tr_Dispatched result = int (length (handed rows B))"
      and "int (length (handed rows B)) \<le> max 0 (d_maxConcurrent d - tr_Running result)"
    by (auto simp: ho.handed_over_def)
  moreover have "\<forall>us r vs. handed rows B = us @ r # vs \<longrightarrow> pr_single_run r \<longrightarrow> pr_job_id r \<notin> pr_job_id ` set us"
    using handed_single by blast
  ultimately show ?thesis
    by (intro exI [of _ "handed rows B"] conjI) simp_all
qed

text \<open> A dry run writes nothing: no table changes (other processes aside), nothing is handed
  over, and this holds for every configuration, every state of the tables and every fault. \<close>
theorem dry_run_writes_nothing:
  assumes "d_dryRun d" and "\<forall>ev\<in>set (w_events w). ev_env ev = id"
  shows "w_db (snd (run_state (Tick exec_dispatch app_now hand d) w)) = w_db w
    \<and> w_out (snd (run_state (Tick exec_dispatch app_now hand d) w)) = w_out w"
  using la.Tick_dry [OF assms(1), of hand] assms(2) by (auto simp: keeps_def left_alone_def)

definition dry_dispatcher :: dispatcher where
  "dry_dispatcher = demo_dispatcher\<lparr>d_dryRun := True\<rparr>"

theorem dry_run_writes_nothing_witness:
  "w_db (snd (run_state (Tick exec_dispatch app_now hand dry_dispatcher) demo_world)) = demo_db
   \<and> w_out (snd (run_state (Tick exec_dispatch app_now hand dry_dispatcher) demo_world)) = []"
  using dry_run_writes_nothing [of dry_dispatcher demo_world]
  by (simp add: dry_dispatcher_def demo_world_def)

text \<open> C1. What a tick queues: when no statement fails and nobody interferes, a tick ends without
  an error or a write error, and afterwards the (job, minute) pairs that have a run are those that
  had one before and, besides, exactly the due ones: the pairs of an active job of an active
  project and a minute on which one of its active, well-formed expressions falls, the minute being
  the current one or, for a job that replays, a missed one within its \<open>maxDelayMin\<close>. A broken
  expression affects no other; the parse cache stays correct and the running flag is released. \<close>
theorem tick_queues_exactly_due:
  fixes w w' :: "'w world_scheme"
  assumes "quiet w" and "\<not> d_running d" and "\<not> d_dryRun d" and "cache_ok (d_exprCache d)"
    and "distinct (map j_id (jobs (w_db w)))"
    and "run_state (Tick exec_dispatch app_now hand d) w = ((result, err, d'), w')"
  defines "minute \<equiv> minuteStart (d_location d) (w_now w)"
  shows "err = None \<and> tr_WriteErrors result = []
    \<and> set (run_keys (w_db w')) = set (run_keys (w_db w))
        \<union> due_now (d_location d) (w_db w) minute (missedMinutes d minute (last_pulse (w_db w)))
    \<and> cache_ok (d_exprCache d') \<and> \<not> d_running d'"
proof -
  from tick_quiet [OF assms(1-6)] obtain w0 w1 w2 :: "'w world_scheme" and r0 res where
    1: "quiet w1" "tr_WriteErrors r0 = []" "set (run_keys (w_db w1)) = set (run_keys (w_db w))
        \<union> due_now (d_location d) (w_db w) minute (missedMinutes d minute (last_pulse (w_db w)))"
    "run_state (dispatchPending exec_dispatch hand d (w_now w) r0) w1 = ((res, err), w2)"
    "w_db w' = w_db w2" "\<exists>x. result = res\<lparr>tr_Duration := x\<rparr>" "cache_ok (d_exprCache d')" "\<not> d_running d'"
    unfolding minute_def by blast
  from dispatchPending_quiet [OF 1(1,4)] 1 have "err = None" "tr_WriteErrors result = []" by auto
  moreover have "run_keys (w_db w2) = run_keys (w_db w1)"
    using dispatchPending_quiet [OF 1(1,4)] by (auto simp: skip_ids_rows split: if_splits)
  ultimately show ?thesis using 1 by simp
qed

theorem tick_queues_exactly_due_witness:
  "case run_state (Tick exec_dispatch app_now hand demo_dispatcher) demo_world of ((result, err, d'), w') \<Rightarrow>
     err = None \<and> tr_WriteErrors result = [] \<and> (1, demo_now) \<in> set (run_keys (w_db w'))
     \<and> (1, demo_now) \<notin> set (run_keys demo_db)"
proof -
  obtain result err d' w' where r: "run_state (Tick exec_dispatch app_now hand demo_dispatcher) demo_world = ((result, err, d'), w')"
    by (metis prod.exhaust)
  have "(1, demo_now) \<notin> set (run_keys demo_db)"
    by (simp add: demo_db_def run_keys_def map_filter_simps new_run_def run_key_def)
  with tick_queues_exactly_due [OF demo_quiet(1-5) r] demo_due r show ?thesis by simp
qed


theorem tick_respects_quota_witness:
  "case run_state (Tick exec_dispatch app_now hand demo_dispatcher) demo_world of ((result, err, d'), w') \<Rightarrow>
     \<exists>(hs :: pending_run list). log_of (w_out w') = map (\<lambda>r. (pr_id r, pr_code r)) hs
       \<and> tr_Dispatched result = int (length hs) \<and> tr_Dispatched result \<le> max 0 (10 - tr_Running result)"
proof -
  obtain result err d' w' where r: "run_state (Tick exec_dispatch app_now hand demo_dispatcher) demo_world = ((result, err, d'), w')"
    by (metis prod.exhaust)
  from tick_respects_quota [OF r] r show ?thesis
    by (auto simp: demo_world_def log_of_def map_filter_simps demo_dispatcher_def NewDispatcher_def)
qed


end
