(* ===== verification/Headers.thy ===== *)
theory Headers
  imports Domain
begin

text \<open>
  Request headers: the two checks of \<open>internal/service/target.go\<close> that keep a header from
  splitting a request, and \<open>http.Header.Set\<close> as the runner uses it.
\<close>

section \<open>Checks\<close>

definition header_delims :: string where
  "header_delims = '':()<>@,;'' @ [CHR 0x5C, CHR 0x22] @ ''/[]?={}''"

definition name_rune_ok :: "nat \<Rightarrow> bool" where
  "name_rune_ok r \<longleftrightarrow> \<not> (r \<le> 32 \<or> r \<ge> 127) \<and> r \<notin> of_char ` set header_delims"

definition ValidHeaderName :: "string \<Rightarrow> bool" where
  "ValidHeaderName name =
     (if name = [] \<or> length name > 128 then False
      else list_all (\<lambda>(r, _). name_rune_ok r) (runes name))"

definition ValidHeaderValue :: "string \<Rightarrow> bool" where
  "ValidHeaderValue value =
     (if length value > 4096 then False
      else \<not> list_ex (\<lambda>c. c = CHR 0x0D \<or> c = CHR 0x0A \<or> c = CHR 0x00) value)"

definition MaskSecret :: "string \<Rightarrow> string" where
  "MaskSecret v =
     (if v = [] then []
      else if length v \<le> 4 then replicate (length v) (CHR ''*'')
      else replicate (length v - 4) (CHR ''*'') @ drop (length v - 4) v)"

section \<open>Setting a header\<close>

text \<open>
  \<open>textproto.CanonicalMIMEHeaderKey\<close> on a name made of token characters: the first letter and
  every letter after a dash is upper case, the others are lower case.
\<close>

fun canon_go :: "bool \<Rightarrow> string \<Rightarrow> string" where
  "canon_go up [] = []"
| "canon_go up (c # cs) =
     (let c' = char_of (if up then upper_rune (of_char c) else lower_rune (of_char c))
      in c' # canon_go (c = CHR ''-'') cs)"

definition canonical_key :: "string \<Rightarrow> string" where
  "canonical_key k = canon_go True k"

definition header_set :: "(string \<times> string) list \<Rightarrow> string \<Rightarrow> string \<Rightarrow> (string \<times> string) list" where
  "header_set hs k v = filter (\<lambda>(k', _). k' \<noteq> canonical_key k) hs @ [(canonical_key k, v)]"

definition header_get :: "(string \<times> string) list \<Rightarrow> string \<Rightarrow> string" where
  "header_get hs k = (case map_of hs (canonical_key k) of None \<Rightarrow> [] | Some v \<Rightarrow> v)"

lemma MaskSecret_length: "length (MaskSecret v) = length v"
  by (auto simp: MaskSecret_def)

end
