(* ===== verification/Runner.thy ===== *)
theory Runner
  imports StoreFacts Headers
begin

text \<open>
  The runner (\<open>internal/service/runner.go\<close>) and the notifier it mails through
  (\<open>internal/service/notifier.go\<close>): one queued run is claimed, executed, closed, reported, and its
  chain triggered. What the target answers is not under the program's control: each request
  consumes one \<open>outcome\<close>. The address policy is an argument (\<open>Target\<close> holds the one the program
  uses).
\<close>

section \<open>Interface\<close>

record 'w RunRepositoryExec =
  re_GetRun :: "int \<Rightarrow> ('w, run_target) call"
  re_CountRunningForJob :: "int \<Rightarrow> int \<Rightarrow> ('w, int) call"
  re_ClaimRun :: "int \<Rightarrow> string \<Rightarrow> instant \<Rightarrow> ('w, bool) call"
  re_FinishRun :: "int \<Rightarrow> run_result \<Rightarrow> ('w, unit) call"
  re_WriteJobSummary :: "int \<Rightarrow> string \<Rightarrow> instant \<Rightarrow> int \<Rightarrow> ('w, unit) call"
  re_AppendRunNote :: "int \<Rightarrow> string \<Rightarrow> ('w, unit) call"
  re_SkipRun :: "int \<Rightarrow> string \<Rightarrow> ('w, unit) call"
  re_ListChainTargets :: "int \<Rightarrow> string \<Rightarrow> ('w, chain_target list) call"
  re_ChainStepCount :: "int \<Rightarrow> ('w, int) call"
  re_CreateChainRun :: "int \<Rightarrow> int \<Rightarrow> int \<Rightarrow> ('w, int) call"
  re_CreateChainSkipped :: "int \<Rightarrow> int \<Rightarrow> string \<Rightarrow> ('w, unit) call"
  re_TargetForJob :: "int \<Rightarrow> ('w, notify_target option) call"

text \<open>\<open>ExecRepo\<close>: reading a run takes two statements, claiming one compares the rows affected with 1.\<close>

definition exec_get_run :: "int \<Rightarrow> ('w world_scheme, run_target) call" where
  "exec_get_run runID = do {
     r \<leftarrow> stmt (get_run runID);
     case r of Inl e \<Rightarrow> State_Monad.return (Inl e) | Inr t \<Rightarrow> do {
       r \<leftarrow> stmt (headers_for (rt_job_id t));
       case r of Inl e \<Rightarrow> State_Monad.return (Inl e)
       | Inr headers \<Rightarrow> State_Monad.return (Inr (t\<lparr>rt_headers := headers\<rparr>)) } }"

definition exec_claim_run :: "int \<Rightarrow> string \<Rightarrow> instant \<Rightarrow> ('w world_scheme, bool) call" where
  "exec_claim_run runID instanceID at = do {
     r \<leftarrow> stmt (claim_run runID instanceID at);
     case r of Inl e \<Rightarrow> State_Monad.return (Inl e) | Inr n \<Rightarrow> State_Monad.return (Inr (n = 1)) }"

definition exec_run :: "'w world_scheme RunRepositoryExec" where
  "exec_run = \<lparr>re_GetRun = exec_get_run,
     re_CountRunningForJob = (\<lambda>jobID ex. stmt (count_running_for_job jobID ex)),
     re_ClaimRun = exec_claim_run, re_FinishRun = (\<lambda>runID res. stmt (finish_run runID res)),
     re_WriteJobSummary = (\<lambda>jobID status at ms. stmt (write_job_summary jobID status at ms)),
     re_AppendRunNote = (\<lambda>runID msg. stmt (append_run_note runID msg)),
     re_SkipRun = (\<lambda>runID reason. stmt (skip_run runID reason)),
     re_ListChainTargets = (\<lambda>jobID oc. stmt (list_chain_targets jobID oc)),
     re_ChainStepCount = (\<lambda>runID. stmt (chain_step_count runID)),
     re_CreateChainRun = (\<lambda>jobID delay parent. stmt (create_chain_run jobID delay parent)),
     re_CreateChainSkipped = (\<lambda>jobID parent reason. stmt (create_chain_skipped jobID parent reason)),
     re_TargetForJob = (\<lambda>nid. stmt (target_for_job nid))\<rparr>"

section \<open>The world of a runner\<close>

text \<open>
  What becomes of one attempt: the request cannot be built, or it is sent and answered (status,
  the bytes of the body that could be read), runs into its deadline, is cancelled, fails otherwise,
  or panics. Every case but the first carries the milliseconds it took.
\<close>

datatype http_outcome =
    NotBuilt string
  | Answered int int string
  | Deadline int
  | Cancelled int
  | FailedWith int string
  | Panicked string

text \<open>
  Timers not yet collected, by run: armed, or expired with the callback still to come. A mail is
  its recipients, subject and body, waiting in the notifier's queue.
\<close>

record timer =
  ti_armed :: bool
  ti_code :: string

record rworld = world +
  w_http :: "http_outcome list"
  w_cancelled :: "bool list"
  w_timers :: "(int \<times> timer) list"
  w_closed :: bool
  w_mail :: "(string list \<times> string \<times> string) list"

record runner =
  ru_resolve :: "string \<Rightarrow> string \<Rightarrow> string + string"
  ru_userAgent :: string
  ru_maxBodyBytes :: int
  ru_instanceID :: string
  ru_observer :: bool
  ru_notifier :: bool
  ru_baseURL :: string
  ru_dispatch :: bool

text \<open>\<open>NewRunner\<close> with the notifier's constructor, as far as they keep settings.\<close>

definition NewRunner :: "(string \<Rightarrow> string \<Rightarrow> string + string) \<Rightarrow> string \<Rightarrow> int \<Rightarrow> string \<Rightarrow> bool \<Rightarrow> bool \<Rightarrow> string \<Rightarrow> bool \<Rightarrow> runner" where
  "NewRunner resolve userAgent MaxBodyBytes InstanceID observer notifier baseURL dispatch =
     \<lparr>ru_resolve = resolve, ru_userAgent = userAgent,
      ru_maxBodyBytes = (if MaxBodyBytes \<le> 0 then 65536 else MaxBodyBytes), ru_instanceID = InstanceID,
      ru_observer = observer, ru_notifier = notifier, ru_baseURL = trim_right ''/'' baseURL, ru_dispatch = dispatch\<rparr>"

section \<open>Notifier\<close>

definition notifyQueueSize :: nat where "notifyQueueSize = 256"

definition enqueue :: "string list \<Rightarrow> string \<Rightarrow> string \<Rightarrow> ('w rworld_scheme, unit) state" where
  "enqueue to subject body = modify (\<lambda>w.
     if length to = 0 then w
     else if length (w_mail w) < notifyQueueSize then w\<lparr>w_mail := w_mail w @ [(to, subject, body)]\<rparr>
     else w)"

definition run_mail_subject :: "run_target \<Rightarrow> run_result \<Rightarrow> string" where
  "run_mail_subject row result =
     (let verb = (if rr_status result \<noteq> StatusSuccess then to_upper (rr_status result) else ''succeeded'')
      in ''[cron] '' @ rt_project_slug row @ '' / '' @ rt_code row @ '' '' @ verb)"

definition nl :: string where "nl = [CHR 0x0A]"

definition run_mail_body :: "string \<Rightarrow> run_target \<Rightarrow> run_result \<Rightarrow> string" where
  "run_mail_body baseURL row result =
     (let trimmed = trim_space (rr_output result) in
      ''Job:      '' @ rt_name row @ '' ('' @ rt_code row @ '')'' @ nl
      @ ''Project:  '' @ rt_project_slug row @ nl
      @ ''Status:   '' @ rr_status result @ nl
      @ ''Duration: '' @ show_int (rr_duration_ms result) @ '' ms'' @ nl
      @ (if rr_http_status result > 0 then ''HTTP:     '' @ show_int (rr_http_status result) @ nl else [])
      @ (if rr_request_url result \<noteq> [] then ''Target:   '' @ rr_request_url result @ nl else [])
      @ (if rr_error result \<noteq> [] then nl @ ''Error:'' @ nl @ rr_error result @ nl else [])
      @ (if trimmed \<noteq> [] then nl @ ''Response (first 1000 characters):'' @ nl @ first_runes trimmed 1000 @ nl else [])
      @ (if baseURL \<noteq> [] then nl @ baseURL @ ''/runs?job_id='' @ show_int (rt_job_id row) @ nl else []))"

definition notify_run_finished :: "runner \<Rightarrow> string list \<Rightarrow> run_target \<Rightarrow> run_result \<Rightarrow> ('w rworld_scheme, unit) state" where
  "notify_run_finished ru to row result =
     enqueue to (run_mail_subject row result) (run_mail_body (ru_baseURL ru) row result)"

section \<open>One attempt\<close>

definition add_header :: "string \<times> string \<Rightarrow> (string \<times> string) list \<Rightarrow> (string \<times> string) list" where
  "add_header h hs = (if ValidHeaderName (fst h) \<and> ValidHeaderValue (snd h) then header_set hs (fst h) (snd h) else hs)"

definition build_request :: "runner \<Rightarrow> run_target \<Rightarrow> string \<Rightarrow> http_request" where
  "build_request ru row targetURL =
     (let hs = header_set [] ''User-Agent'' (ru_userAgent ru);
          hs = header_set hs ''X-Cron-Job'' (rt_code row);
          hs = header_set hs ''X-Cron-Run-Id'' (show_int (rt_id row));
          hs = (if rt_body row \<noteq> [] \<and> header_get hs ''Content-Type'' = []
                then header_set hs ''Content-Type'' ''application/json'' else hs)
      in \<lparr>hq_method = rt_method row, hq_url = targetURL, hq_body = rt_body row,
          hq_headers = fold add_header (rt_headers row) hs\<rparr>)"

definition next_outcome :: "('w rworld_scheme, http_outcome) state" where
  "next_outcome = State (\<lambda>w. case w_http w of
      [] \<Rightarrow> (FailedWith 0 ''connection refused'', w)
    | o1 # os \<Rightarrow> (o1, w\<lparr>w_http := os\<rparr>))"

definition failed_result :: "int \<Rightarrow> string \<Rightarrow> run_result" where
  "failed_result ms err = run_result_zero\<lparr>rr_status := StatusFailed, rr_duration_ms := ms, rr_error := err\<rparr>"

text \<open>How an outcome is classified.\<close>

definition classify :: "runner \<Rightarrow> run_target \<Rightarrow> int \<Rightarrow> http_outcome \<Rightarrow> string + run_result" where
  "classify ru row timeout oc = (case oc of
      NotBuilt e \<Rightarrow> Inr (failed_result 0 (''request could not be built: '' @ e))
    | Deadline ms \<Rightarrow> Inr (run_result_zero\<lparr>rr_status := StatusTimeout, rr_duration_ms := ms,
        rr_error := ''Client gave up after '' @ show_int (quot timeout second) @ '' seconds. The target may still be running.''\<rparr>)
    | Cancelled ms \<Rightarrow> Inr (failed_result ms ''Run cancelled (the service is shutting down).'')
    | FailedWith ms e \<Rightarrow> Inr (failed_result ms e)
    | Panicked v \<Rightarrow> Inl v
    | Answered ms code body \<Rightarrow>
        (let out = run_result_zero\<lparr>rr_duration_ms := ms, rr_http_status := code,
               rr_output := take (nat (ru_maxBodyBytes ru)) body\<rparr>
         in if rt_successful_status row code then Inr (out\<lparr>rr_status := StatusSuccess\<rparr>)
            else Inr (out\<lparr>rr_status := StatusFailed,
              rr_error := ''HTTP '' @ show_int code @ '' (expected '' @ show_int (rt_success_min row) @ ''-''
                @ show_int (rt_success_max row) @ '')''\<rparr>)))"

definition attempt :: "runner \<Rightarrow> run_target \<Rightarrow> string \<Rightarrow> int \<Rightarrow> ('w rworld_scheme, string + run_result) state" where
  "attempt ru row targetURL timeout = do {
     oc \<leftarrow> next_outcome;
     case oc of
       NotBuilt e \<Rightarrow> State_Monad.return (classify ru row timeout oc)
     | _ \<Rightarrow> do {
         emit (Requested (build_request ru row targetURL));
         State_Monad.return (classify ru row timeout oc) } }"

text \<open>The pause between two attempts: true when the context ended during it.\<close>

definition pause :: "('w rworld_scheme, bool) state" where
  "pause = State (\<lambda>w. case w_cancelled w of [] \<Rightarrow> (False, w) | b # bs \<Rightarrow> (b, w\<lparr>w_cancelled := bs\<rparr>))"

section \<open>Execution\<close>

text \<open>The loop over the attempts; the first argument is how many are left, this one included.\<close>

fun attempts_loop :: "nat \<Rightarrow> runner \<Rightarrow> run_target \<Rightarrow> string \<Rightarrow> int \<Rightarrow> int \<Rightarrow> run_result \<Rightarrow> ('w rworld_scheme, string + run_result) state" where
  "attempts_loop 0 ru row targetURL timeout i latest = State_Monad.return (Inr latest)"
| "attempts_loop (Suc n) ru row targetURL timeout i latest = do {
     r \<leftarrow> attempt ru row targetURL timeout;
     case r of
       Inl v \<Rightarrow> State_Monad.return (Inl v)
     | Inr res \<Rightarrow>
         let latest = res\<lparr>rr_attempt := i, rr_request_url := targetURL\<rparr> in
         if rr_status latest = StatusSuccess then State_Monad.return (Inr latest)
         else if rr_status latest = StatusTimeout then State_Monad.return (Inr latest)
         else if n > 0 then do {
           done \<leftarrow> pause;
           if done then State_Monad.return (Inr latest) else attempts_loop n ru row targetURL timeout (i + 1) latest }
         else State_Monad.return (Inr latest) }"

definition execute :: "runner \<Rightarrow> run_target \<Rightarrow> ('w rworld_scheme, string + run_result) state" where
  "execute ru row = (case ru_resolve ru (rt_base_url row) (rt_url row) of
      Inl e \<Rightarrow> State_Monad.return (Inr (run_result_zero\<lparr>rr_status := StatusFailed, rr_error := e\<rparr>))
    | Inr targetURL \<Rightarrow>
        attempts_loop (nat (rt_retries row + 1)) ru row targetURL (rt_timeout row) 1 run_result_zero)"

section \<open>Chain\<close>

definition appendNote :: "'w RunRepositoryExec \<Rightarrow> int \<Rightarrow> string \<Rightarrow> ('w, unit) state" where
  "appendNote repo runID message = do { r \<leftarrow> re_AppendRunNote repo runID message; State_Monad.return () }"

definition recordChainSkipped :: "'w RunRepositoryExec \<Rightarrow> chain_target \<Rightarrow> int \<Rightarrow> string \<Rightarrow> ('w, unit) state" where
  "recordChainSkipped repo target parentRunID reason = do {
     r \<leftarrow> re_CreateChainSkipped repo (ct_job_id target) parentRunID reason; State_Monad.return () }"

definition dispatchBlocker :: "'w RunRepositoryExec \<Rightarrow> chain_target \<Rightarrow> ('w, string) call" where
  "dispatchBlocker repo target =
     (if ct_single_run target then do {
        r \<leftarrow> re_CountRunningForJob repo (ct_job_id target) 0;
        case r of Inl e \<Rightarrow> State_Monad.return (Inl e)
        | Inr n \<Rightarrow> if n > 0 then State_Monad.return (Inr ''the target job is already running (single run)'')
                  else State_Monad.return (Inr []) }
      else State_Monad.return (Inr []))"

definition timers_schedule :: "runner \<Rightarrow> int \<Rightarrow> int \<Rightarrow> string \<Rightarrow> ('w rworld_scheme, bool) state" where
  "timers_schedule ru delay runID code = State (\<lambda>w.
     if w_closed w \<or> \<not> ru_dispatch ru then (False, w)
     else (True, w\<lparr>w_timers := filter (\<lambda>(i, _). i \<noteq> runID) (w_timers w) @ [(runID, \<lparr>ti_armed = True, ti_code = code\<rparr>)],
                   w_out := w_out w @ [TimerSet runID delay code]\<rparr>))"

definition chain_target_step ::
  "'w rworld_scheme RunRepositoryExec \<Rightarrow> runner \<Rightarrow> run_target \<Rightarrow> int \<Rightarrow> chain_target \<Rightarrow> unit \<Rightarrow> ('w rworld_scheme, unit) state" where
  "chain_target_step repo ru row step target u =
     (if \<not> ct_active target then
        recordChainSkipped repo target (rt_id row) ''Linked job is inactive; the chain step did not run.''
      else if step \<ge> ChainMaxDepth then
        recordChainSkipped repo target (rt_id row)
          (''Chain depth passed '' @ show_int ChainMaxDepth @ '' steps and was stopped.'')
      else let delay = ct_delay target in do {
        r \<leftarrow> re_CreateChainRun repo (ct_job_id target) (quot delay second) (rt_id row);
        case r of Inl e \<Rightarrow> State_Monad.return () | Inr newID \<Rightarrow>
          if delay > ChainDirectMaxSec * second then
            appendNote repo newID (''Delay is '' @ show_int (quot delay second) @ '' seconds, over the ''
              @ show_int ChainDirectMaxSec @ '' second direct hand-off cap. The dispatcher will take it.'')
          else do {
            b \<leftarrow> dispatchBlocker repo target;
            case b of
              Inl e \<Rightarrow> appendNote repo newID ''Hand-off check failed. The dispatcher will take it.''
            | Inr blocker \<Rightarrow>
                if blocker \<noteq> [] then
                  appendNote repo newID (''Not handed over directly: '' @ blocker @ ''. The dispatcher will take it.'')
                else do {
                  ok \<leftarrow> timers_schedule ru delay newID (ct_code target);
                  if \<not> ok then appendNote repo newID ''Timer closed. The dispatcher will take it.''
                  else State_Monad.return () } } })"

definition triggerChain ::
  "'w rworld_scheme RunRepositoryExec \<Rightarrow> runner \<Rightarrow> run_target \<Rightarrow> string \<Rightarrow> ('w rworld_scheme, unit) state" where
  "triggerChain repo ru row outcome = do {
     r \<leftarrow> re_ChainStepCount repo (rt_id row);
     case r of Inl e \<Rightarrow> State_Monad.return () | Inr step \<Rightarrow> do {
       r \<leftarrow> re_ListChainTargets repo (rt_job_id row) outcome;
       case r of Inl e \<Rightarrow> State_Monad.return ()
       | Inr targets \<Rightarrow> for_each targets (chain_target_step repo ru row step) () } }"

section \<open>Closing a run\<close>

definition sendNotification ::
  "'w rworld_scheme RunRepositoryExec \<Rightarrow> runner \<Rightarrow> run_target \<Rightarrow> run_result \<Rightarrow> ('w rworld_scheme, unit) state" where
  "sendNotification repo ru row result =
     (if \<not> ru_notifier ru then State_Monad.return ()
      else case rt_notification_id row of None \<Rightarrow> State_Monad.return () | Some nid \<Rightarrow> do {
        r \<leftarrow> re_TargetForJob repo nid;
        case r of Inl e \<Rightarrow> State_Monad.return () | Inr t \<Rightarrow>
          (case t of None \<Rightarrow> State_Monad.return () | Some target \<Rightarrow>
             if length (nt_emails target) = 0 then State_Monad.return ()
             else let success = (rr_status result = StatusSuccess) in
               if success \<and> \<not> nt_on_success target then State_Monad.return ()
               else if \<not> success \<and> \<not> nt_on_failure target then State_Monad.return ()
               else notify_run_finished ru (nt_emails target) row result) })"

definition finish ::
  "'w rworld_scheme RunRepositoryExec \<Rightarrow> runner \<Rightarrow> run_target \<Rightarrow> run_result \<Rightarrow> ('w rworld_scheme, unit) state" where
  "finish repo ru row result = do {
     r \<leftarrow> re_FinishRun repo (rt_id row) result;
     case r of Inl e \<Rightarrow> State_Monad.return () | Inr _ \<Rightarrow> do {
       at \<leftarrow> app_now;
       r \<leftarrow> re_WriteJobSummary repo (rt_job_id row) (rr_status result) at (rr_duration_ms result);
       (case r of
          Inl e \<Rightarrow> appendNote repo (rt_id row) (''job summary could not be written: '' @ err_text e)
        | Inr _ \<Rightarrow> State_Monad.return ());
       (if ru_observer ru then do {
          at \<leftarrow> app_now;
          emit (Observed (rt_project_slug row) (rt_code row) (rr_status result) (rr_duration_ms result) (unix at)) }
        else State_Monad.return ());
       sendNotification repo ru row result;
       (if rr_status result = StatusSuccess then triggerChain repo ru row ''success''
        else if rr_status result = StatusFailed then triggerChain repo ru row ''failure''
        else State_Monad.return ()) } }"

section \<open>A run\<close>

text \<open>
  What the deferred closer writes: the result, or, after a panic, what it makes of the panic. A
  call that panicked returns the zero result and false.
\<close>

definition run_claimed ::
  "'w rworld_scheme RunRepositoryExec \<Rightarrow> runner \<Rightarrow> run_target \<Rightarrow> ('w rworld_scheme, run_result \<times> bool) state" where
  "run_claimed repo ru row = do {
     r \<leftarrow> execute ru row;
     case r of
       Inl v \<Rightarrow> do {
         finish repo ru row (run_result_zero\<lparr>rr_status := StatusFailed, rr_error := ''panic: '' @ v\<rparr>);
         State_Monad.return (run_result_zero, False) }
     | Inr result \<Rightarrow> do {
         finish repo ru row result;
         State_Monad.return (result, True) } }"

definition claim_and_run ::
  "'w rworld_scheme RunRepositoryExec \<Rightarrow> runner \<Rightarrow> int \<Rightarrow> run_target \<Rightarrow> ('w rworld_scheme, run_result \<times> bool) state" where
  "claim_and_run repo ru runID row = do {
     at \<leftarrow> app_now;
     r \<leftarrow> re_ClaimRun repo runID (ru_instanceID ru) at;
     case r of Inl e \<Rightarrow> State_Monad.return (run_result_zero, False) | Inr claimed \<Rightarrow>
       if \<not> claimed then State_Monad.return (run_result_zero, False)
       else run_claimed repo ru row }"

definition Run :: "'w rworld_scheme RunRepositoryExec \<Rightarrow> runner \<Rightarrow> int \<Rightarrow> ('w rworld_scheme, run_result \<times> bool) state" where
  "Run repo ru runID = do {
     r \<leftarrow> re_GetRun repo runID;
     case r of Inl e \<Rightarrow> State_Monad.return (run_result_zero, False) | Inr row \<Rightarrow>
       if rt_single_run row then do {
         r \<leftarrow> re_CountRunningForJob repo (rt_job_id row) runID;
         case r of Inl e \<Rightarrow> State_Monad.return (run_result_zero, False) | Inr running \<Rightarrow>
           if running > 0 then do {
             r \<leftarrow> re_SkipRun repo runID ''Previous run still going (single run)'';
             State_Monad.return (run_result_zero\<lparr>rr_status := StatusSkipped\<rparr>, False) }
           else claim_and_run repo ru runID row }
       else claim_and_run repo ru runID row }"

section \<open>Timers\<close>

text \<open>A timer expires; its callback takes the lock and runs; \<open>Close\<close> takes the lock and stops what is still armed.\<close>

definition timer_expires :: "int \<Rightarrow> rworld \<Rightarrow> rworld" where
  "timer_expires runID w = w\<lparr>w_timers := map (\<lambda>(i, t). if i = runID then (i, t\<lparr>ti_armed := False\<rparr>) else (i, t)) (w_timers w)\<rparr>"

definition timer_callback :: "int \<Rightarrow> string \<Rightarrow> rworld \<Rightarrow> rworld" where
  "timer_callback runID code w =
     (let w1 = w\<lparr>w_timers := filter (\<lambda>(i, _). i \<noteq> runID) (w_timers w)\<rparr>
      in if w_closed w then w1 else w1\<lparr>w_out := w_out w1 @ [Dispatched runID code]\<rparr>)"

definition timers_close :: "rworld \<Rightarrow> int \<times> rworld" where
  "timers_close w = (int (length (filter (\<lambda>(_, t). ti_armed t) (w_timers w))), w\<lparr>w_closed := True, w_timers := []\<rparr>)"

end
