(* ===== verification/RunnerFacts.thy ===== *)
theory RunnerFacts
  imports Runner
begin

text \<open>
  What the runner's parts do, and the contract it relies on: its repository as a locale, with the
  proof that \<open>ExecRepo\<close> fulfils it.
\<close>

section \<open>Results\<close>

definition run_outcome :: "string \<Rightarrow> bool" where
  "run_outcome st \<longleftrightarrow> st = StatusSuccess \<or> st = StatusFailed \<or> st = StatusTimeout"

lemma run_outcome_terminal: "run_outcome st \<Longrightarrow> terminal st"
  by (auto simp: run_outcome_def)

lemma classify_status: "classify ru row t oc = Inr x \<Longrightarrow> run_outcome (rr_status x)"
  by (auto simp: classify_def failed_result_def run_outcome_def Let_def split: http_outcome.splits if_splits)

text \<open>The text of a request that was sent.\<close>

fun sent :: "http_outcome \<Rightarrow> bool" where
  "sent (NotBuilt e) = False"
| "sent _ = True"

lemma attempt_run:
  "run_state (attempt ru row url t) w =
     (let oc = hd (w_http w @ [FailedWith 0 ''connection refused'']) in
      (classify ru row t oc, w\<lparr>w_http := tl (w_http w),
         w_out := w_out w @ (if sent oc then [Requested (build_request ru row url)] else [])\<rparr>))"
  by (cases "w_http w")
    (auto simp: attempt_def next_outcome_def emit_def Let_def split: http_outcome.splits)

text \<open>
  The loop in full: it draws outcomes in order, retries only after a failed one, and its result is
  that of the last attempt, numbered.
\<close>

lemma attempts_loop_run:
  assumes "run_state (attempts_loop n ru row url t i latest) w = (r, w')" and "0 < n"
  shows "\<exists>os. os \<noteq> [] \<and> length os \<le> n
    \<and> (\<exists>rest. w_http w @ replicate n (FailedWith 0 ''connection refused'') = os @ rest)
    \<and> (\<forall>oc\<in>set (butlast os). \<exists>x. classify ru row t oc = Inr x \<and> rr_status x = StatusFailed)
    \<and> r = map_sum (\<lambda>v. v) (\<lambda>x. x\<lparr>rr_attempt := i + int (length os) - 1, rr_request_url := url\<rparr>) (classify ru row t (List.last os))
    \<and> w_out w' = w_out w @ replicate (length (filter sent os)) (Requested (build_request ru row url))
    \<and> w_db w' = w_db w \<and> w_events w' = w_events w \<and> w_timers w' = w_timers w"
  using assms
proof (induction n arbitrary: i latest w)
  case 0
  then show ?case by simp
next
  case (Suc n)
  let ?d = "FailedWith 0 ''connection refused''"
  define oc where "oc = hd (w_http w @ [?d])"
  define w1 where "w1 = w\<lparr>w_http := tl (w_http w), w_out := w_out w @ (if sent oc then [Requested (build_request ru row url)] else [])\<rparr>"
  have a: "run_state (attempt ru row url t) w = (classify ru row t oc, w1)"
    by (simp add: attempt_run oc_def w1_def Let_def)
  have pre: "\<exists>rest. w_http w @ replicate (Suc n) ?d = oc # rest"
    by (cases "w_http w") (auto simp: oc_def)
  show ?case
  proof (cases "\<exists>x. classify ru row t oc = Inr x \<and> rr_status x = StatusFailed \<and> 0 < n \<and> \<not> fst (run_state pause w1)")
    case False
    define s where "s = snd (run_state (attempts_loop (Suc n) ru row url t i latest) w)"
    have "r = map_sum (\<lambda>v. v) (\<lambda>x. x\<lparr>rr_attempt := i, rr_request_url := url\<rparr>) (classify ru row t oc)
        \<and> w_out w' = w_out w1 \<and> w_db w' = w_db w1 \<and> w_events w' = w_events w1 \<and> w_timers w' = w_timers w1"
    proof (cases "classify ru row t oc")
      case (Inl v)
      with a have a': "run_state (attempt ru row url t) w = (Inl v, w1)" by simp
      with Suc.prems(1) have "r = Inl v" "w' = w1" by simp_all
      then show ?thesis unfolding Inl by simp
    next
      case (Inr x)
      from classify_status [OF Inr] have o: "rr_status x = StatusSuccess \<or> rr_status x = StatusTimeout \<or> rr_status x = StatusFailed"
        by (auto simp: run_outcome_def)
      obtain b w2 where p: "run_state pause w1 = (b, w2)" by fastforce
      then have w2: "w_out w2 = w_out w1" "w_db w2 = w_db w1" "w_events w2 = w_events w1" "w_timers w2 = w_timers w1"
        by (auto simp: pause_def split: list.splits)
      from Suc.prems(1) a Inr o p w2 False show ?thesis
        by (auto simp: Let_def split: if_splits)
    qed
    with pre show ?thesis
      by (intro exI [of _ "[oc]"]) (auto simp: w1_def)
  next
    case True
    then obtain x where x: "classify ru row t oc = Inr x" "rr_status x = StatusFailed" "0 < n" "\<not> fst (run_state pause w1)" by blast
    obtain w2 where p: "run_state pause w1 = (False, w2)" using x(4) by (cases "run_state pause w1") auto
    then have w2: "w_out w2 = w_out w1" "w_db w2 = w_db w1" "w_events w2 = w_events w1" "w_timers w2 = w_timers w1" "w_http w2 = w_http w1"
      by (auto simp: pause_def split: list.splits)
    have f: "StatusFailed \<noteq> StatusSuccess" "StatusFailed \<noteq> StatusTimeout" by (simp_all add: status_defs)
    from Suc.prems(1) a x p f
    have "run_state (attempts_loop n ru row url t (i + 1) (x\<lparr>rr_attempt := i, rr_request_url := url\<rparr>)) w2 = (r, w')"
      by (auto simp: Let_def)
    from Suc.IH [OF this x(3)] obtain os rest where os: "os \<noteq> []" "length os \<le> n"
      "w_http w2 @ replicate n ?d = os @ rest"
      "\<forall>oc\<in>set (butlast os). \<exists>x. classify ru row t oc = Inr x \<and> rr_status x = StatusFailed"
      "r = map_sum (\<lambda>v. v) (\<lambda>x. x\<lparr>rr_attempt := i + 1 + int (length os) - 1, rr_request_url := url\<rparr>) (classify ru row t (List.last os))"
      "w_out w' = w_out w2 @ replicate (length (filter sent os)) (Requested (build_request ru row url))"
      "w_db w' = w_db w2" "w_events w' = w_events w2" "w_timers w' = w_timers w2" by blast
    have "\<exists>rest'. w_http w @ replicate (Suc n) ?d = oc # os @ rest'"
    proof (cases "w_http w")
      case Nil
      with os(3) w2 show ?thesis by (auto simp: oc_def w1_def intro: exI [of _ rest])
    next
      case (Cons o1 more)
      then have "w_http w @ replicate (Suc n) ?d = oc # (w_http w2 @ replicate n ?d) @ [?d]"
        using w2(5) by (simp add: oc_def w1_def replicate_append_same)
      with os(3) show ?thesis by auto
    qed
    then show ?thesis
      using os w2 x(1,2) by (intro exI [of _ "oc # os"]) (auto simp: w1_def)
  qed
qed

section \<open>The repository contract\<close>

locale runner_repo = frame R for R :: "'w rworld_scheme \<Rightarrow> 'w rworld_scheme \<Rightarrow> bool" +
  fixes repo :: "'w rworld_scheme RunRepositoryExec"
  assumes local: "w_db w' = w_db w \<Longrightarrow> w_events w' = w_events w \<Longrightarrow> R w w'"
    and calls: "keeps R (re_GetRun repo i)" "keeps R (re_CountRunningForJob repo j i)" "keeps R (re_ClaimRun repo i s t)"
      "keeps R (re_WriteJobSummary repo j s t n)" "keeps R (re_AppendRunNote repo i s)" "keeps R (re_SkipRun repo i s)"
      "keeps R (re_ListChainTargets repo j s)" "keeps R (re_ChainStepCount repo i)" "keeps R (re_CreateChainRun repo j n i)"
      "keeps R (re_CreateChainSkipped repo j i s)" "keeps R (re_TargetForJob repo i)"
    and finishing: "rr_status res \<noteq> StatusPending \<Longrightarrow> rr_status res \<noteq> StatusRunning \<Longrightarrow> keeps R (re_FinishRun repo i res)"
begin

lemma local_steps: "keeps R app_now" "keeps R (emit e)" "keeps R (enqueue a b c)" "keeps R (timers_schedule ru dl i s)"
  by (auto simp: keeps_def app_now_def emit_def enqueue_def timers_schedule_def intro!: local split: list.splits)

lemma appendNote_keeps: "keeps R (appendNote repo i s)"
  unfolding appendNote_def by (intro keeps_rules calls)

lemma chain_target_step_keeps: "keeps R (chain_target_step repo ru row step target u)"
  unfolding chain_target_step_def Let_def recordChainSkipped_def dispatchBlocker_def
  by (intro keeps_rules calls appendNote_keeps local_steps)

lemma triggerChain_keeps: "keeps R (triggerChain repo ru row oc)"
  unfolding triggerChain_def by (intro keeps_rules keeps_for_each calls chain_target_step_keeps)

lemma sendNotification_keeps: "keeps R (sendNotification repo ru row res)"
  unfolding sendNotification_def notify_run_finished_def Let_def by (intro keeps_rules calls local_steps)

lemma finish_keeps:
  "rr_status res \<noteq> StatusPending \<Longrightarrow> rr_status res \<noteq> StatusRunning \<Longrightarrow> keeps R (finish repo ru row res)"
  unfolding finish_def
  by (intro keeps_rules finishing calls local_steps appendNote_keeps sendNotification_keeps triggerChain_keeps)

lemma execute_local:
  "run_state (execute ru row) w = (r, w') \<Longrightarrow> w_db w' = w_db w \<and> w_events w' = w_events w \<and> w_timers w' = w_timers w
     \<and> (\<forall>x. r = Inr x \<longrightarrow> rr_status x \<noteq> StatusPending \<and> rr_status x \<noteq> StatusRunning)"
proof -
  assume run: "run_state (execute ru row) w = (r, w')"
  show ?thesis
  proof (cases "ru_resolve ru (rt_base_url row) (rt_url row)")
    case (Inl e)
    with run show ?thesis by (auto simp: execute_def status_defs)
  next
    case (Inr url)
    show ?thesis
    proof (cases "0 < nat (rt_retries row + 1)")
      case True
      from run Inr have "run_state (attempts_loop (nat (rt_retries row + 1)) ru row url (rt_timeout row) 1 run_result_zero) w = (r, w')"
        by (simp add: execute_def)
      from attempts_loop_run [OF this True] obtain os where
        "r = map_sum (\<lambda>v. v) (\<lambda>x. x\<lparr>rr_attempt := 1 + int (length os) - 1, rr_request_url := url\<rparr>) (classify ru row (rt_timeout row) (List.last os))"
        "w_db w' = w_db w" "w_events w' = w_events w" "w_timers w' = w_timers w" by blast
      moreover have "rr_status y \<noteq> StatusPending \<and> rr_status y \<noteq> StatusRunning"
        if "classify ru row (rt_timeout row) (List.last os) = Inr y" for y
        using classify_status [OF that] run_outcome_terminal terminal_not by blast
      ultimately show ?thesis by (cases "classify ru row (rt_timeout row) (List.last os)") auto
    next
      case False
      with run Inr show ?thesis by (auto simp: execute_def run_result_zero_def status_defs)
    qed
  qed
qed

lemma run_claimed_keeps: "keeps R (run_claimed repo ru row)"
proof (rule keepsI)
  fix w res w' assume run: "run_state (run_claimed repo ru row) w = (res, w')"
  obtain r w1 where e: "run_state (execute ru row) w = (r, w1)" by fastforce
  from execute_local [OF e] have l: "R w w1"
    and s: "\<And>x. r = Inr x \<Longrightarrow> rr_status x \<noteq> StatusPending \<and> rr_status x \<noteq> StatusRunning" by (auto intro: local)
  have f: "StatusFailed \<noteq> StatusPending" "StatusFailed \<noteq> StatusRunning" by (simp_all add: status_defs)
  show "R w w'"
  proof (cases r)
    case (Inl v)
    let ?p = "run_result_zero\<lparr>rr_status := StatusFailed, rr_error := ''panic: '' @ v\<rparr>"
    obtain u w2 where "run_state (finish repo ru row ?p) w1 = (u, w2)" by (metis surj_pair)
    with keepsD [OF finish_keeps this] f run e Inl l show ?thesis by (auto simp: run_claimed_def intro: R_trans)
  next
    case (Inr x)
    obtain u w2 where "run_state (finish repo ru row x) w1 = (u, w2)" by (metis surj_pair)
    with keepsD [OF finish_keeps this] s [OF Inr] run e Inr l show ?thesis by (auto simp: run_claimed_def intro: R_trans)
  qed
qed

lemma Run_keeps: "keeps R (Run repo ru i)"
  unfolding Run_def claim_and_run_def by (intro keeps_rules calls local_steps run_claimed_keeps)

end

interpretation rr: runner_repo "world_evolves :: 'w rworld_scheme \<Rightarrow> _" exec_run
proof unfold_locales
  show "world_evolves w w'" if "w_db w' = w_db w" "w_events w' = w_events w" for w w' :: "'w rworld_scheme"
    using that by (simp add: world_evolves_def evolves_refl)
  show "keeps world_evolves (re_GetRun exec_run i :: ('w rworld_scheme, _) call)" for i
    unfolding exec_run_def exec_get_run_def
    by (auto intro!: we.keeps_rules world_evolves_stmt safe_intro)
  show "keeps world_evolves (re_ClaimRun exec_run i s t :: ('w rworld_scheme, _) call)" for i s t
    unfolding exec_run_def exec_claim_run_def
    by (auto intro!: we.keeps_rules world_evolves_stmt safe_intro)
qed (auto simp: exec_run_def intro!: world_evolves_stmt safe_intro safe_finish_run)

end
