(* ===== verification/RunnerProps.thy ===== *)
theory RunnerProps
  imports RunnerFacts DispatcherProps
begin

text \<open>
  Properties of a run: how often its target is called, that it is closed whatever happens, what it
  triggers, and the results the repository cannot store.
\<close>

section \<open>Closing\<close>

definition closed_run :: "int \<Rightarrow> db \<Rightarrow> bool" where
  "closed_run i d \<longleftrightarrow> (\<forall>r\<in>set (job_runs d). r_id r = i \<longrightarrow> terminal (r_status r))"

lemma closed_evolves: "closed_run i d \<Longrightarrow> evolves d d' \<Longrightarrow> i \<le> runs_seq d \<Longrightarrow> closed_run i d'"
  unfolding closed_run_def evolves_def row_evolves_def by (metis linorder_not_less)

definition faultless :: "'w world_scheme \<Rightarrow> bool" where
  "faultless w \<longleftrightarrow> (\<forall>ev\<in>set (w_events w). ev_fault ev = Fine)"

text \<open>The circumstances under which a call does what it says: others are benign and nothing fails.\<close>

definition good :: "'w world_scheme \<Rightarrow> bool" where
  "good w \<longleftrightarrow> calm w \<and> faultless w \<and> runs_ok (w_db w)"

lemma good_evolves: "good w \<Longrightarrow> world_evolves w w' \<Longrightarrow> good w' \<and> evolves (w_db w) (w_db w')"
  by (auto simp: good_def world_evolves_def calm_def faultless_def)

lemma stmt_faultless:
  assumes "good w" and "run_state (stmt f) w = (r, w')"
  shows "\<exists>now d. evolves (w_db w) d \<and> runs_ok d \<and> r = fst (f now d) \<and> w_db w' = snd (f now d)"
proof (cases "w_events w")
  case Nil
  with assms evolves_refl [of "w_db w"] show ?thesis
    by (auto simp: stmt_def good_def split: prod.splits intro!: exI [of _ "w_now w"] exI [of _ "w_db w"])
next
  case (Cons ev evs)
  with assms have "ev_fault ev = Fine" "benign (ev_env ev)" by (auto simp: good_def calm_def faultless_def)
  with Cons assms show ?thesis
    by (auto simp: stmt_def Let_def good_def benign_def split: prod.splits
      intro!: exI [of _ "ev_now ev"] exI [of _ "ev_env ev (w_db w)"])
qed

lemma run_outcome_stored: "run_outcome st \<Longrightarrow> st \<in> set run_statuses"
  by (auto simp: run_outcome_def run_statuses_def)

lemma finish_run_closes:
  assumes "storable_result res" and "run_outcome (rr_status res)"
  shows "fst (finish_run i res now d) = Inr () \<and> closed_run i (snd (finish_run i res now d))"
proof -
  from run_outcome_stored [OF assms(2)] run_outcome_terminal [OF assms(2)]
  have st: "rr_status res \<in> set run_statuses" and t: "terminal (rr_status res)" .
  have "finish_run i res now d = (Inr (), d\<lparr>job_runs := update_where (\<lambda>r. r_id r = i) (finish_row now res) (job_runs d)\<rparr>)"
    using assms(1) st by (simp add: finish_run_def)
  moreover have "terminal (r_status r)" if "r \<in> set (update_where (\<lambda>r. r_id r = i) (finish_row now res) (job_runs d))" "r_id r = i" for r
  proof -
    from that(1) obtain q where "r = (if r_id q = i then finish_row now res q else q)"
      unfolding set_update_where by (rule imageE)
    with that(2) t show ?thesis by (cases "r_id q = i") simp_all
  qed
  ultimately show ?thesis by (simp add: closed_run_def)
qed

lemma finish_closes:
  fixes w w' :: "'w rworld_scheme"
  assumes "good w" and "rt_id row \<le> runs_seq (w_db w)" and "storable_result res" and "run_outcome (rr_status res)"
    and "run_state (finish exec_run ru row res) w = (u, w')"
  shows "closed_run (rt_id row) (w_db w')"
proof -
  have st: "rr_status res \<noteq> StatusPending" "rr_status res \<noteq> StatusRunning"
    using assms(4) run_outcome_terminal terminal_not by blast+
  define rest :: "('w rworld_scheme, unit) state" where "rest = (do {
       at \<leftarrow> app_now;
       r \<leftarrow> re_WriteJobSummary exec_run (rt_job_id row) (rr_status res) at (rr_duration_ms res);
       (case r of
          Inl e \<Rightarrow> appendNote exec_run (rt_id row) (''job summary could not be written: '' @ err_text e)
        | Inr _ \<Rightarrow> State_Monad.return ());
       (if ru_observer ru then do {
          at \<leftarrow> app_now;
          emit (Observed (rt_project_slug row) (rt_code row) (rr_status res) (rr_duration_ms res) (unix at)) }
        else State_Monad.return ());
       sendNotification exec_run ru row res;
       (if rr_status res = StatusSuccess then triggerChain exec_run ru row ''success''
        else if rr_status res = StatusFailed then triggerChain exec_run ru row ''failure''
        else State_Monad.return ()) })"
  have rest: "keeps world_evolves rest"
    unfolding rest_def
    by (intro we.keeps_rules rr.calls rr.local_steps rr.appendNote_keeps rr.sendNotification_keeps rr.triggerChain_keeps)
  obtain r w1 where f: "run_state (re_FinishRun exec_run (rt_id row) res) w = (r, w1)" by fastforce
  then have f': "run_state (stmt (finish_run (rt_id row) res)) w = (r, w1)" by (simp add: exec_run_def)
  from stmt_faultless [OF assms(1) f'] finish_run_closes [OF assms(3,4), of "rt_id row"]
  have r: "r = Inr ()" and c: "closed_run (rt_id row) (w_db w1)" by auto
  from good_evolves [OF assms(1) keepsD [OF rr.finishing [OF st] f]]
  have g: "good w1" and s: "rt_id row \<le> runs_seq (w_db w1)" using assms(2) by (auto simp: evolves_def)
  have "finish exec_run ru row res = State_Monad.bind (re_FinishRun exec_run (rt_id row) res)
      (\<lambda>r. case r of Inl e \<Rightarrow> State_Monad.return () | Inr _ \<Rightarrow> rest)"
    unfolding finish_def rest_def by (rule refl)
  with assms(5) f r have "run_state rest w1 = (u, w')" by simp
  from good_evolves [OF g keepsD [OF rest this]] closed_evolves [OF c _ s] show ?thesis by blast
qed

text \<open>What the deferred closer writes, from what execution came to.\<close>

definition closing :: "string + run_result \<Rightarrow> run_result" where
  "closing r = (case r of
      Inl v \<Rightarrow> run_result_zero\<lparr>rr_status := StatusFailed, rr_error := ''panic: '' @ v\<rparr>
    | Inr res \<Rightarrow> res)"

lemma execute_outcome:
  assumes "run_state (execute ru row) w = (r, w')" and "0 \<le> rt_retries row"
  shows "run_outcome (rr_status (closing r))"
proof (cases "ru_resolve ru (rt_base_url row) (rt_url row)")
  case (Inl e)
  with assms show ?thesis by (auto simp: execute_def closing_def run_outcome_def)
next
  case (Inr url)
  with assms have "run_state (attempts_loop (nat (rt_retries row + 1)) ru row url (rt_timeout row) 1 run_result_zero) w = (r, w')"
    by (simp add: execute_def)
  from attempts_loop_run [OF this] assms(2) obtain oc n where
    "r = map_sum (\<lambda>v. v) (\<lambda>x. x\<lparr>rr_attempt := n, rr_request_url := url\<rparr>) (classify ru row (rt_timeout row) oc)"
    by force
  with classify_status show ?thesis
    by (cases "classify ru row (rt_timeout row) oc") (auto simp: closing_def run_outcome_def)
qed

lemma run_claimed_closing:
  "run_state (execute ru row) w = (r, w1) \<Longrightarrow> run_state (run_claimed exec_run ru row) w = (res, w') \<Longrightarrow>
     run_state (finish exec_run ru row (closing r)) w1 = ((), w')"
  by (cases r) (auto simp: run_claimed_def closing_def split: prod.splits)

section \<open>Calls that add no run\<close>

definition same_ids :: "'w rworld_scheme \<Rightarrow> 'w rworld_scheme \<Rightarrow> bool" where
  "same_ids w w' \<longleftrightarrow> set (w_events w') \<subseteq> set (w_events w) \<and> w_timers w' = w_timers w
     \<and> ((\<forall>ev\<in>set (w_events w). \<forall>d. map r_id (job_runs (ev_env ev d)) = map r_id (job_runs d))
         \<longrightarrow> map r_id (job_runs (w_db w')) = map r_id (job_runs (w_db w)))"

interpretation si: frame same_ids
  by unfold_locales (auto simp: same_ids_def)

lemma same_ids_stmt:
  assumes "\<And>now d. map r_id (job_runs (snd (f now d))) = map r_id (job_runs d)"
  shows "keeps (same_ids :: 'w rworld_scheme \<Rightarrow> _) (stmt f)"
proof (rule keepsI)
  fix w a and w' :: "'w rworld_scheme" assume run: "run_state (stmt f) w = (a, w')"
  then have "w_timers w' = w_timers w"
    by (auto simp: stmt_def Let_def split: list.splits fault.splits prod.splits)
  with run assms show "same_ids w w'"
    by (cases "w_events w") (auto simp: same_ids_def stmt_def Let_def split: fault.splits prod.splits; metis snd_conv)+
qed

lemma same_ids_reads: "(\<And>now d. snd (f now d) = d) \<Longrightarrow> keeps same_ids (stmt f)"
  by (rule same_ids_stmt) simp

lemma map_id_update_where: "(\<And>r. r_id (f r) = r_id r) \<Longrightarrow> map r_id (update_where P f rs) = map r_id rs"
  by (simp add: update_where_map_key)

lemma same_ids_calls:
  "keeps same_ids (re_GetRun exec_run i)" "keeps same_ids (re_CountRunningForJob exec_run j i)"
  "keeps same_ids (re_ClaimRun exec_run i s t)" "keeps same_ids (re_FinishRun exec_run i res)"
  "keeps same_ids (re_WriteJobSummary exec_run j s t n)" "keeps same_ids (re_AppendRunNote exec_run i s)"
  "keeps same_ids (re_TargetForJob exec_run i)"
proof -
  have r: "keeps same_ids (stmt (get_run i))" "keeps same_ids (stmt (headers_for j))"
    "keeps same_ids (stmt (count_running_for_job j i))" "keeps same_ids (stmt (target_for_job i))" for i j
    by (auto intro!: same_ids_reads simp: get_run_def headers_for_def count_running_for_job_def target_for_job_def query_def)
  have w: "keeps same_ids (stmt (claim_run i s t))" "keeps same_ids (stmt (finish_run i res))"
    "keeps same_ids (stmt (write_job_summary j s t n))" "keeps same_ids (stmt (append_run_note i s))"
    by (auto intro!: same_ids_stmt simp: claim_run_def finish_run_def write_job_summary_def Let_def append_run_note_def exec_def map_id_update_where)
  from r w show "keeps same_ids (re_GetRun exec_run i)" "keeps same_ids (re_CountRunningForJob exec_run j i)"
    "keeps same_ids (re_ClaimRun exec_run i s t)" "keeps same_ids (re_FinishRun exec_run i res)"
    "keeps same_ids (re_WriteJobSummary exec_run j s t n)" "keeps same_ids (re_AppendRunNote exec_run i s)"
    "keeps same_ids (re_TargetForJob exec_run i)"
    by (auto simp: exec_run_def exec_get_run_def exec_claim_run_def intro!: si.keeps_rules)
qed

lemma same_ids_local: "keeps same_ids app_now" "keeps same_ids (emit e)" "keeps same_ids (enqueue a b c)"
  by (auto simp: keeps_def same_ids_def app_now_def emit_def enqueue_def split: list.splits)

lemma finish_timeout_ids: assumes "rr_status res = StatusTimeout" shows "keeps same_ids (finish exec_run ru row res)"
proof -
  have "rr_status res \<noteq> StatusSuccess" "rr_status res \<noteq> StatusFailed" using assms by (simp_all add: status_defs)
  then show ?thesis
    unfolding finish_def appendNote_def sendNotification_def notify_run_finished_def Let_def
    by (simp only: if_False) (intro si.keeps_rules same_ids_calls same_ids_local)
qed

section \<open>The chain, without interference\<close>

definition chain_targets :: "db \<Rightarrow> int \<Rightarrow> string \<Rightarrow> chain_target list" where
  "chain_targets d jobID outcome = concat (map (chain_target_of d) (filter (\<lambda>l. l_job_id l = jobID \<and> l_active l
       \<and> (l_condition l = outcome \<or> l_condition l = ''always'')) (job_links d)))"

definition chain_depth :: "db \<Rightarrow> int \<Rightarrow> int" where
  "chain_depth d i = (case find_run d i of None \<Rightarrow> 0 | Some r \<Rightarrow> up_steps 50 d (r_parent_run_id r))"

lemma up_steps_bounds: "0 \<le> up_steps n d p \<and> up_steps n d p \<le> int n"
  by (induction n d p rule: up_steps.induct) (auto split: option.splits)

lemma up_steps_None: "up_steps n d None = 0"
  by (cases n) simp_all

text \<open>The row a chain target gets: pending, to be run after its delay, or skipped.\<close>

definition chain_row :: "int \<Rightarrow> instant \<Rightarrow> int \<Rightarrow> chain_target \<Rightarrow> run \<Rightarrow> bool" where
  "chain_row parent now step t r \<longleftrightarrow> r_job_id r = ct_job_id t \<and> r_parent_run_id r = Some parent \<and> r_trigger r = TriggerChain
     \<and> r_planned_minute r = None
     \<and> (if ct_active t \<and> step < ChainMaxDepth
        then r_status r = StatusPending \<and> r_run_after r = Some (now + ct_delay t)
        else r_status r = StatusSkipped)"

text \<open>What one step of the loop adds: one row, and a timer only for it and only for a short delay.\<close>

definition chain_added :: "int \<Rightarrow> int \<Rightarrow> chain_target list \<Rightarrow> 'w rworld_scheme \<Rightarrow> run list \<Rightarrow> 'w rworld_scheme \<Rightarrow> bool" where
  "chain_added parent step ts w news w' \<longleftrightarrow> quiet w' \<and> w_now w' = w_now w \<and> runs_ok (w_db w')
     \<and> jobs (w_db w') = jobs (w_db w) \<and> job_runs (w_db w') = job_runs (w_db w) @ news
     \<and> list_all2 (chain_row parent (w_now w) step) ts news
     \<and> (\<exists>outs. w_out w' = w_out w @ outs \<and> (\<forall>e\<in>set outs. \<exists>i dl c. e = TimerSet i dl c
          \<and> dl \<le> ChainDirectMaxSec * second \<and> (\<exists>r\<in>set news. r_id r = i \<and> r_status r = StatusPending)))"

lemma reason_texts: "pg_text (go_truncate ''Linked job is inactive; the chain step did not run.'' ErrorMaxLen)"
  "pg_text (go_truncate (''Chain depth passed '' @ show_int ChainMaxDepth @ '' steps and was stopped.'') ErrorMaxLen)"
proof -
  have t: "go_truncate s ErrorMaxLen = s" if "list_all ascii s" "length s \<le> 2000" for s
    using that by (intro truncate_short) (simp_all add: ErrorMaxLen_def rune_count_def runes_ascii)
  have s5: "show_int ChainMaxDepth = ''5''" by code_simp
  show "pg_text (go_truncate ''Linked job is inactive; the chain step did not run.'' ErrorMaxLen)"
    by (subst t) (simp_all add: ascii_def, rule pg_text_ascii, simp add: ascii_def)
  show "pg_text (go_truncate (''Chain depth passed '' @ show_int ChainMaxDepth @ '' steps and was stopped.'') ErrorMaxLen)"
    unfolding s5 by (subst t) (simp_all add: ascii_def, rule pg_text_ascii, simp add: ascii_def)
qed

lemma find_run_iff: "find_run d i \<noteq> None \<longleftrightarrow> i \<in> r_id ` set (job_runs d)"
  by (auto simp: find_run_def find_None_iff image_iff)

lemma append_note_new:
  assumes "runs_ok (w_db w)" and "quiet w" and "job_runs (w_db w) = rs @ [r]"
    and "run_state (appendNote exec_run (r_id r) msg) w = (u, w')"
  shows "\<exists>e. w' = w\<lparr>w_db := (w_db w)\<lparr>job_runs := rs @ [r\<lparr>r_error := e\<rparr>]\<rparr>\<rparr>"
proof -
  have n: "\<And>x. x \<in> set rs \<Longrightarrow> r_id x \<noteq> r_id r"
    using assms(1,3) by (auto simp: runs_ok_def) (metis image_eqI)
  have w': "w' = w\<lparr>w_db := snd (append_run_note (r_id r) msg (w_now w) (w_db w))\<rparr>"
    using assms(2,4) by (simp add: appendNote_def exec_run_def stmt_quiet quiet_def)
  have up: "update_where (\<lambda>x. r_id x = r_id r) (\<lambda>x. x\<lparr>r_error := noted (r_error x) msg\<rparr>) (job_runs (w_db w))
      = rs @ [r\<lparr>r_error := noted (r_error r) msg\<rparr>]"
    using n by (simp add: assms(3) update_where_def map_idI)
  show ?thesis
  proof (cases "pg_text msg")
    case True
    with w' up show ?thesis by (intro exI [of _ "noted (r_error r) msg"]) (simp add: append_run_note_def)
  next
    case False
    then have "w' = w" using w' by (simp add: append_run_note_def)
    then show ?thesis by (intro exI [of _ "r_error r"]) (simp add: assms(3) [symmetric])
  qed
qed

lemma runs_ok_error:
  assumes "runs_ok d" "job_runs d = rs @ [r]" shows "runs_ok (d\<lparr>job_runs := rs @ [r\<lparr>r_error := e\<rparr>]\<rparr>)"
proof -
  have k: "run_key (r\<lparr>r_error := e\<rparr>) = run_key r" by (simp add: run_key_def)
  have "run_keys (d\<lparr>job_runs := rs @ [r\<lparr>r_error := e\<rparr>]\<rparr>) = run_keys d"
    by (simp add: run_keys_def assms(2) map_filter_def k)
  with assms show ?thesis by (auto simp: runs_ok_def)
qed

lemma create_chain_run_ok:
  assumes "find_job d (ct_job_id t) \<noteq> None" and "find_run d p \<noteq> None" and "runs_ok d"
  shows "\<exists>d' r. create_chain_run (ct_job_id t) (quot (ct_delay t) second) p now d = (Inr (r_id r), d')
    \<and> job_runs d' = job_runs d @ [r] \<and> jobs d' = jobs d \<and> runs_ok d' \<and> r_job_id r = ct_job_id t
    \<and> r_parent_run_id r = Some p \<and> r_trigger r = TriggerChain \<and> r_planned_minute r = None
    \<and> r_status r = StatusPending \<and> r_run_after r = Some (now + ct_delay t)"
proof -
  let ?r = "(new_run (runs_seq d + 1) (ct_job_id t) TriggerChain now)
       \<lparr>r_parent_run_id := Some p, r_run_after := Some (now + seconds (quot (ct_delay t) second))\<rparr>"
  have q: "seconds (quot (ct_delay t) second) = ct_delay t"
  proof -
    have "ct_delay t = clamp (ct_delay_sec t) 0 ChainMaxDelaySec * second"
      by (auto simp: ct_delay_def clamp_def Let_def ChainMaxDelaySec_def)
    moreover have "0 \<le> clamp (ct_delay_sec t) 0 ChainMaxDelaySec" by (simp add: clamp_def ChainMaxDelaySec_def)
    ultimately show ?thesis by (simp add: quot_def seconds_def second_def)
  qed
  have "create_chain_run (ct_job_id t) (quot (ct_delay t) second) p now d =
      (Inr (runs_seq d + 1), d\<lparr>runs_seq := runs_seq d + 1, job_runs := job_runs d @ [?r]\<rparr>)"
    using assms(1,2) by (simp add: create_chain_run_def insert_run_def Let_def new_run_def)
  moreover have "runs_ok (d\<lparr>runs_seq := runs_seq d + 1, job_runs := job_runs d @ [?r]\<rparr>)"
    using assms(3) by (intro runs_ok_insert) (simp_all add: new_run_def run_key_def)
  ultimately show ?thesis
    by (intro exI [of _ "d\<lparr>runs_seq := runs_seq d + 1, job_runs := job_runs d @ [?r]\<rparr>"] exI [of _ ?r])
      (simp add: new_run_def q)
qed

lemma create_chain_skipped_ok:
  assumes "find_job d (ct_job_id t) \<noteq> None" and "find_run d p \<noteq> None" and "runs_ok d"
    and "pg_text (go_truncate reason ErrorMaxLen)"
  shows "\<exists>d' r. create_chain_skipped (ct_job_id t) p reason now d = (Inr (), d')
    \<and> job_runs d' = job_runs d @ [r] \<and> jobs d' = jobs d \<and> runs_ok d' \<and> r_job_id r = ct_job_id t
    \<and> r_parent_run_id r = Some p \<and> r_trigger r = TriggerChain \<and> r_planned_minute r = None
    \<and> r_status r = StatusSkipped"
proof -
  let ?r = "(new_run (runs_seq d + 1) (ct_job_id t) TriggerChain now)\<lparr>r_parent_run_id := Some p,
      r_status := StatusSkipped, r_finished_at := Some now, r_error := go_truncate reason ErrorMaxLen\<rparr>"
  have "create_chain_skipped (ct_job_id t) p reason now d =
      (Inr (), d\<lparr>runs_seq := runs_seq d + 1, job_runs := job_runs d @ [?r]\<rparr>)"
    using assms(1,2,4) by (simp add: create_chain_skipped_def insert_run_def Let_def new_run_def)
  moreover have "runs_ok (d\<lparr>runs_seq := runs_seq d + 1, job_runs := job_runs d @ [?r]\<rparr>)"
    using assms(3) by (intro runs_ok_insert) (simp_all add: new_run_def run_key_def)
  ultimately show ?thesis
    by (intro exI [of _ "d\<lparr>runs_seq := runs_seq d + 1, job_runs := job_runs d @ [?r]\<rparr>"] exI [of _ ?r])
      (simp add: new_run_def)
qed

lemma dispatchBlocker_quiet:
  assumes "quiet w" shows "\<exists>b. run_state (dispatchBlocker exec_run t) w = (Inr b, w)"
  using assms by (auto simp: dispatchBlocker_def exec_run_def stmt_quiet quiet_def count_running_for_job_def query_def)

lemma chain_step:
  fixes w w' :: "'w rworld_scheme"
  assumes "quiet w" and "runs_ok (w_db w)" and "find_run (w_db w) (rt_id row) \<noteq> None"
    and "find_job (w_db w) (ct_job_id t) \<noteq> None"
    and run: "run_state (chain_target_step exec_run ru row step t ()) w = (u, w')"
  shows "\<exists>r. chain_added (rt_id row) step [t] w [r] w'"
proof (cases "ct_active t \<and> step < ChainMaxDepth")
  case False
  then obtain reason where reason: "pg_text (go_truncate reason ErrorMaxLen)"
    and run': "run_state (recordChainSkipped exec_run t (rt_id row) reason) w = (u, w')"
    using run reason_texts by (cases "ct_active t") (auto simp: chain_target_step_def)
  from create_chain_skipped_ok [OF assms(4,3,2) reason, of "w_now w"] obtain d' r where
    "create_chain_skipped (ct_job_id t) (rt_id row) reason (w_now w) (w_db w) = (Inr (), d')"
    and d': "job_runs d' = job_runs (w_db w) @ [r]" "jobs d' = jobs (w_db w)" "runs_ok d'" "r_job_id r = ct_job_id t"
    "r_parent_run_id r = Some (rt_id row)" "r_trigger r = TriggerChain" "r_planned_minute r = None" "r_status r = StatusSkipped"
    by auto
  with run' assms(1) have "w' = w\<lparr>w_db := d'\<rparr>"
    by (simp add: recordChainSkipped_def exec_run_def stmt_quiet quiet_def)
  with d' False assms(1) show ?thesis
    by (intro exI [of _ r]) (auto simp: chain_added_def chain_row_def quiet_def)
next
  case True
  from create_chain_run_ok [OF assms(4,3,2), of "w_now w"] obtain d' r where
    c: "create_chain_run (ct_job_id t) (quot (ct_delay t) second) (rt_id row) (w_now w) (w_db w) = (Inr (r_id r), d')"
    and d': "job_runs d' = job_runs (w_db w) @ [r]" "jobs d' = jobs (w_db w)" "runs_ok d'" "r_job_id r = ct_job_id t"
    "r_parent_run_id r = Some (rt_id row)" "r_trigger r = TriggerChain" "r_planned_minute r = None"
    "r_status r = StatusPending" "r_run_after r = Some (w_now w + ct_delay t)"
    by auto
  define w1 where "w1 = w\<lparr>w_db := d'\<rparr>"
  have c1: "run_state (re_CreateChainRun exec_run (ct_job_id t) (quot (ct_delay t) second) (rt_id row)) w = (Inr (r_id r), w1)"
    using c assms(1) by (simp add: exec_run_def stmt_quiet quiet_def w1_def)
  have q1: "quiet w1" "runs_ok (w_db w1)" "job_runs (w_db w1) = job_runs (w_db w) @ [r]"
    using assms(1) d' by (simp_all add: w1_def quiet_def)
  have noted: "\<exists>r'. chain_added (rt_id row) step [t] w [r'] v" if "run_state (appendNote exec_run (r_id r) msg) w1 = (x, v)" for msg x v
  proof -
    from append_note_new [OF q1(2,1,3) that] obtain e where
      v: "v = w1\<lparr>w_db := (w_db w1)\<lparr>job_runs := job_runs (w_db w) @ [r\<lparr>r_error := e\<rparr>]\<rparr>\<rparr>" by blast
    moreover have "runs_ok (w_db v)" using runs_ok_error [OF q1(2,3)] v by simp
    ultimately show ?thesis using d' True assms(1)
      by (intro exI [of _ "r\<lparr>r_error := e\<rparr>"]) (auto simp: chain_added_def chain_row_def quiet_def w1_def)
  qed
  have plain: "chain_added (rt_id row) step [t] w [r] (w1\<lparr>w_timers := ts, w_out := w_out w1 @ [TimerSet (r_id r) (ct_delay t) cd]\<rparr>)"
    if "\<not> ct_delay t > ChainDirectMaxSec * second" for ts cd
    using d' True assms(1) that by (auto simp: chain_added_def chain_row_def quiet_def w1_def)
  show ?thesis
  proof (cases "ct_delay t > ChainDirectMaxSec * second")
    case long: True
    obtain x v where n: "run_state (appendNote exec_run (r_id r) (''Delay is '' @ show_int (quot (ct_delay t) second) @ '' seconds, over the ''
              @ show_int ChainDirectMaxSec @ '' second direct hand-off cap. The dispatcher will take it.'')) w1 = (x, v)"
      by (metis surj_pair)
    with run c1 True long have "w' = v" by (simp add: chain_target_step_def Let_def)
    with noted [OF n] show ?thesis by simp
  next
    case short: False
    from dispatchBlocker_quiet [OF q1(1), of t] obtain b where b: "run_state (dispatchBlocker exec_run t) w1 = (Inr b, w1)" by blast
    show ?thesis
    proof (cases "b \<noteq> []")
      case block: True
      obtain x v where n: "run_state (appendNote exec_run (r_id r) (''Not handed over directly: '' @ b @ ''. The dispatcher will take it.'')) w1 = (x, v)"
        by (metis surj_pair)
      with run c1 b True short block have "w' = v" by (simp add: chain_target_step_def Let_def)
      with noted [OF n] show ?thesis by simp
    next
      case free: False
      show ?thesis
      proof (cases "w_closed w1 \<or> \<not> ru_dispatch ru")
        case closed: True
        obtain x v where n: "run_state (appendNote exec_run (r_id r) ''Timer closed. The dispatcher will take it.'') w1 = (x, v)"
          by (metis surj_pair)
        with run c1 b True short free closed have "w' = v"
          by (auto simp: chain_target_step_def Let_def timers_schedule_def)
        with noted [OF n] show ?thesis by simp
      next
        case False
        with run c1 b True short free have "\<exists>ts. w' = w1\<lparr>w_timers := ts, w_out := w_out w1 @ [TimerSet (r_id r) (ct_delay t) (ct_code t)]\<rparr>"
          by (auto simp: chain_target_step_def Let_def timers_schedule_def)
        with plain [OF short] show ?thesis by blast
      qed
    qed
  qed
qed

lemma chain_loop:
  fixes w w' :: "'w rworld_scheme"
  assumes "quiet w" and "runs_ok (w_db w)" and "find_run (w_db w) (rt_id row) \<noteq> None"
    and "\<forall>t\<in>set ts. find_job (w_db w) (ct_job_id t) \<noteq> None"
    and "run_state (for_each ts (chain_target_step exec_run ru row step) ()) w = (u, w')"
  shows "\<exists>news. chain_added (rt_id row) step ts w news w'"
  using assms
proof (induction ts arbitrary: w)
  case Nil
  then show ?case by (intro exI [of _ "[]"]) (auto simp: chain_added_def)
next
  case (Cons t ts)
  obtain x w1 where s: "run_state (chain_target_step exec_run ru row step t ()) w = (x, w1)" by (metis surj_pair)
  with Cons.prems(5) have rest: "run_state (for_each ts (chain_target_step exec_run ru row step) ()) w1 = (u, w')" by simp
  from chain_step [OF Cons.prems(1-3) _ s] Cons.prems(4) obtain r where r: "chain_added (rt_id row) step [t] w [r] w1" by auto
  have "find_run (w_db w1) (rt_id row) \<noteq> None" 
    using r Cons.prems(3) unfolding find_run_iff by (auto simp: chain_added_def)
  moreover have "find_job (w_db w1) = find_job (w_db w)" using r by (simp add: chain_added_def find_job_def fun_eq_iff)
  ultimately obtain news where n: "chain_added (rt_id row) step ts w1 news w'"
    using Cons.IH [OF _ _ _ _ rest] r Cons.prems(4) by (auto simp: chain_added_def)
  from r n obtain o1 o2 where o: "w_out w1 = w_out w @ o1" "w_out w' = w_out w1 @ o2"
    and t1: "\<forall>e\<in>set o1. \<exists>i dl c. e = TimerSet i dl c \<and> dl \<le> ChainDirectMaxSec * second \<and> (\<exists>q\<in>set [r]. r_id q = i \<and> r_status q = StatusPending)"
    and t2: "\<forall>e\<in>set o2. \<exists>i dl c. e = TimerSet i dl c \<and> dl \<le> ChainDirectMaxSec * second \<and> (\<exists>q\<in>set news. r_id q = i \<and> r_status q = StatusPending)"
    by (auto simp: chain_added_def)
  have "\<forall>e\<in>set (o1 @ o2). \<exists>i dl c. e = TimerSet i dl c \<and> dl \<le> ChainDirectMaxSec * second \<and> (\<exists>q\<in>set (r # news). r_id q = i \<and> r_status q = StatusPending)"
    using t1 t2 by (simp add: ball_Un) blast
  with r n o show ?case
    by (intro exI [of _ "r # news"]) (auto simp: chain_added_def intro!: exI [of _ "o1 @ o2"])
qed

lemma chain_targets_jobs: "\<forall>t\<in>set (chain_targets d j oc). find_job d (ct_job_id t) \<noteq> None"
  by (auto simp: chain_targets_def chain_target_of_def split: option.splits if_splits) (metis)+

section \<open>A small run\<close>

definition demo_runner :: runner where
  "demo_runner = NewRunner (\<lambda>base target. Inr target) ''cronsole'' 0 ''a'' False False [] True"

definition demo_row :: run_target where
  "demo_row = (run_target_of (new_run 1 1 TriggerAPI 0) (demo_job 1 ''nightly'' False) demo_project)\<lparr>rt_retries := 1\<rparr>"

text \<open>Run 1 of job 1 is running, and job 2 is linked to job 1.\<close>

definition demo_link :: job_link where
  "demo_link = \<lparr>l_id = 1, l_job_id = 1, l_target_job_id = 2, l_condition = ''always'', l_delay_sec = 5,
     l_active = True, l_created_at = 0\<rparr>"

definition run_db :: db where
  "run_db = demo_db\<lparr>job_runs := [(new_run 1 1 TriggerAPI 0)\<lparr>r_status := StatusRunning, r_started_at := Some 0\<rparr>],
     job_links := [demo_link]\<rparr>"

definition run_world :: "http_outcome list \<Rightarrow> rworld" where
  "run_world ocs = \<lparr>w_db = run_db, w_events = [], w_now = demo_now, w_app = [], w_out = [], w_http = ocs,
     w_cancelled = [], w_timers = [], w_closed = False, w_mail = []\<rparr>"

lemma run_world_quiet: "quiet (run_world ocs)" "good (run_world ocs)" "runs_ok (w_db (run_world ocs))"
  "find_run (w_db (run_world ocs)) (rt_id demo_row) \<noteq> None" "rt_id demo_row \<le> runs_seq (w_db (run_world ocs))"
  by (simp_all add: quiet_def good_def calm_def faultless_def run_world_def runs_ok_def run_keys_def run_db_def demo_db_def
    new_run_def map_filter_simps run_key_def demo_row_def run_target_of_def find_run_def)

lemmas run_eval = execute_def attempt_run classify_def pause_def Let_def demo_runner_def NewRunner_def demo_row_def
  run_target_of_def demo_job_def demo_project_def new_run_def run_world_def rt_successful_status_def failed_result_def
  run_result_zero_def status_defs

definition ok_result :: run_result where
  "ok_result = run_result_zero\<lparr>rr_status := StatusSuccess, rr_duration_ms := 7, rr_http_status := 200,
     rr_output := ''ok'', rr_attempt := 2, rr_request_url := ''https://shop.test/cron''\<rparr>"

lemma demo_retry: "fst (run_state (execute demo_runner demo_row) (run_world [FailedWith 5 ''EOF'', Answered 7 200 ''ok''])) = Inr ok_result"
  by (simp add: run_eval ok_result_def numeral_2_eq_2)

lemma demo_resolve: "ru_resolve demo_runner (rt_base_url demo_row) (rt_url demo_row) = Inr (rt_url demo_row)"
  by (simp add: demo_runner_def NewRunner_def)

lemma demo_deadline:
  "\<exists>res. fst (run_state (execute demo_runner demo_row) (run_world [Deadline 30000])) = Inr res \<and> rr_status res = StatusTimeout"
  by (simp add: run_eval numeral_2_eq_2)

section \<open>Properties\<close>

text \<open> How often a target is called: one execution draws at most \<open>retries + 1\<close> outcomes, sends a
  request for each one that could be built (all of them the same request), goes on to the next only
  after a failed one, so neither a success nor a timeout is ever followed by another request, and
  returns the result of the last with its number. No table is touched meanwhile. \<close>
theorem retries_only_after_failure:
  assumes "ru_resolve ru (rt_base_url row) (rt_url row) = Inr url" and "0 \<le> rt_retries row"
    and "run_state (execute ru row) w = (r, w')"
  shows "\<exists>os. os \<noteq> [] \<and> int (length os) \<le> rt_retries row + 1
    \<and> (\<forall>oc\<in>set (butlast os). \<exists>x. classify ru row (rt_timeout row) oc = Inr x \<and> rr_status x = StatusFailed)
    \<and> w_out w' = w_out w @ replicate (length (filter sent os)) (Requested (build_request ru row url))
    \<and> r = map_sum (\<lambda>v. v) (\<lambda>x. x\<lparr>rr_attempt := int (length os), rr_request_url := url\<rparr>)
        (classify ru row (rt_timeout row) (List.last os))
    \<and> w_db w' = w_db w"
proof -
  from assms have "run_state (attempts_loop (nat (rt_retries row + 1)) ru row url (rt_timeout row) 1 run_result_zero) w = (r, w')"
    by (simp add: execute_def)
  from attempts_loop_run [OF this] assms(2) obtain os where
    "os \<noteq> [] \<and> length os \<le> nat (rt_retries row + 1)"
    "\<forall>oc\<in>set (butlast os). \<exists>x. classify ru row (rt_timeout row) oc = Inr x \<and> rr_status x = StatusFailed"
    "r = map_sum (\<lambda>v. v) (\<lambda>x. x\<lparr>rr_attempt := 1 + int (length os) - 1, rr_request_url := url\<rparr>) (classify ru row (rt_timeout row) (List.last os))"
    "w_out w' = w_out w @ replicate (length (filter sent os)) (Requested (build_request ru row url))" "w_db w' = w_db w"
    by auto
  then show ?thesis using assms(2) by (intro exI [of _ os]) auto
qed

theorem retries_only_after_failure_witness:
  "fst (run_state (execute demo_runner demo_row) (run_world [FailedWith 5 ''EOF'', Answered 7 200 ''ok''])) = Inr ok_result
   \<and> (\<exists>os. int (length os) \<le> 2
       \<and> (\<forall>oc\<in>set (butlast os). \<exists>x. classify demo_runner demo_row (rt_timeout demo_row) oc = Inr x \<and> rr_status x = StatusFailed)
       \<and> w_out (snd (run_state (execute demo_runner demo_row) (run_world [FailedWith 5 ''EOF'', Answered 7 200 ''ok''])))
           = replicate (length (filter sent os)) (Requested (build_request demo_runner demo_row (rt_url demo_row))))"
proof -
  let ?w = "run_world [FailedWith 5 ''EOF'', Answered 7 200 ''ok'']"
  obtain r w' where run: "run_state (execute demo_runner demo_row) ?w = (r, w')" by fastforce
  have n: "rt_retries demo_row = 1" "w_out ?w = []" by (simp_all add: demo_row_def run_world_def)
  from retries_only_after_failure [OF demo_resolve _ run] n obtain os where
    "int (length os) \<le> 2" "\<forall>oc\<in>set (butlast os). \<exists>x. classify demo_runner demo_row (rt_timeout demo_row) oc = Inr x \<and> rr_status x = StatusFailed"
    "w_out w' = replicate (length (filter sent os)) (Requested (build_request demo_runner demo_row (rt_url demo_row)))"
    by auto
  with demo_retry run show ?thesis by auto
qed

lemma unstorable_run:
  fixes w w' :: "'w rworld_scheme"
  assumes "quiet w" and "run_state (execute ru row) w = (r, w1)" and "\<not> storable_result (closing r)"
    and "run_state (run_claimed exec_run ru row) w = (res, w')"
  shows "w_db w' = w_db w \<and> w_out w' = w_out w1 \<and> w_mail w' = w_mail w1"
proof -
  from rr.execute_local [OF assms(2)] assms(1) have l: "w_db w1 = w_db w" "quiet w1" by (simp_all add: quiet_def)
  have "run_state (re_FinishRun exec_run (rt_id row) (closing r)) w1
      = (Inl (if storable_text (closing r) then out_of_range else invalid_text), w1)"
    using l(2) assms(3) by (simp add: exec_run_def stmt_quiet quiet_def finish_run_def)
  with run_claimed_closing [OF assms(2,4)] have "w' = w1" by (simp add: finish_def)
  with l show ?thesis by simp
qed

text \<open> C7. What becomes of a claimed run, a panic of its execution included, while no statement fails and other
  processes are benign. If what execution came to can be stored (its text is valid UTF-8 after the cut, its
  numbers fit their columns), no row of the run is left pending or running once the deferred closer has finished,
  and it stays so through the summary, the notification and the chain that follow. If it cannot, and nobody else
  writes, the run is left as it was found, in running, and nobody is mailed or triggered. \<close>
theorem claimed_run_is_closed:
  fixes w w' :: "'w rworld_scheme"
  assumes "good w" and "rt_id row \<le> runs_seq (w_db w)" and "0 \<le> rt_retries row"
    and "run_state (execute ru row) w = (r, w1)"
    and "run_state (run_claimed exec_run ru row) w = (res, w')"
  shows "(storable_result (closing r) \<longrightarrow> closed_run (rt_id row) (w_db w'))
    \<and> (\<not> storable_result (closing r) \<longrightarrow> quiet w \<longrightarrow> w_db w' = w_db w \<and> w_out w' = w_out w1 \<and> w_mail w' = w_mail w1)"
proof (intro conjI impI)
  assume st: "storable_result (closing r)"
  from rr.execute_local [OF assms(4)] have l: "w_db w1 = w_db w" "w_events w1 = w_events w" by auto
  with assms(1,2) have "good w1" "rt_id row \<le> runs_seq (w_db w1)" by (simp_all add: good_def calm_def faultless_def)
  from finish_closes [OF this st execute_outcome [OF assms(4,3)] run_claimed_closing [OF assms(4,5)]]
  show "closed_run (rt_id row) (w_db w')" .
qed (use unstorable_run [OF _ assms(4) _ assms(5)] in blast)+

lemma ok_result_storable: "storable_result ok_result"
proof -
  have t: "go_truncate s n = s" if "list_all ascii s" "int (length s) \<le> n" "0 < n" for s n
    using that by (intro truncate_short) (simp_all add: rune_count_def runes_ascii)
  have "pg_text ''ok''" "pg_text ''https://shop.test/cron''" "pg_text []"
    by (rule pg_text_ascii, simp add: ascii_def)+
  moreover have "go_truncate ''ok'' OutputMaxLen = ''ok''" "go_truncate ''https://shop.test/cron'' 2000 = ''https://shop.test/cron''"
    "go_truncate [] ErrorMaxLen = []"
    by (rule t; simp add: ascii_def OutputMaxLen_def ErrorMaxLen_def)+
  ultimately show ?thesis by (simp add: storable_result_def storable_text_def ok_result_def run_result_zero_def int4_def)
qed

theorem claimed_run_is_closed_witness:
  "closed_run 1 (w_db (snd (run_state (run_claimed exec_run demo_runner demo_row) (run_world [FailedWith 5 ''EOF'', Answered 7 200 ''ok'']))))
   \<and> \<not> closed_run 1 run_db"
proof -
  let ?w = "run_world [FailedWith 5 ''EOF'', Answered 7 200 ''ok'']"
  obtain r w1 where run: "run_state (execute demo_runner demo_row) ?w = (r, w1)" by fastforce
  obtain res w' where all: "run_state (run_claimed exec_run demo_runner demo_row) ?w = (res, w')" by fastforce
  have "closing r = ok_result" using demo_retry run by (simp add: closing_def)
  moreover have "0 \<le> rt_retries demo_row" "rt_id demo_row = 1" by (simp_all add: demo_row_def run_target_of_def new_run_def)
  moreover have "\<not> closed_run 1 run_db" by (simp add: closed_run_def run_db_def new_run_def)
  ultimately show ?thesis
    using claimed_run_is_closed [OF run_world_quiet(2,5) _ run all] ok_result_storable all by simp
qed

text \<open> A timeout triggers nothing: a run that ends as a timeout adds no row to \<open>job_runs\<close> and arms
  no timer, even when statements fail, as long as the other processes add none either. \<close>
theorem timeout_triggers_nothing:
  fixes w w' :: "'w rworld_scheme"
  assumes "run_state (execute ru row) w = (Inr res, w1)" and "rr_status res = StatusTimeout"
    and "\<forall>ev\<in>set (w_events w). \<forall>d. map r_id (job_runs (ev_env ev d)) = map r_id (job_runs d)"
    and "run_state (run_claimed exec_run ru row) w = (rb, w')"
  shows "map r_id (job_runs (w_db w')) = map r_id (job_runs (w_db w)) \<and> w_timers w' = w_timers w"
proof -
  from rr.execute_local [OF assms(1)] have l: "w_db w1 = w_db w" "w_events w1 = w_events w" "w_timers w1 = w_timers w" by auto
  from run_claimed_closing [OF assms(1,4)] have "run_state (finish exec_run ru row res) w1 = ((), w')"
    by (simp add: closing_def)
  from keepsD [OF finish_timeout_ids [OF assms(2)] this] assms(3) l show ?thesis
    by (simp add: same_ids_def)
qed

theorem timeout_triggers_nothing_witness:
  "map r_id (job_runs (w_db (snd (run_state (run_claimed exec_run demo_runner demo_row) (run_world [Deadline 30000]))))) = [1]
   \<and> w_timers (snd (run_state (run_claimed exec_run demo_runner demo_row) (run_world [Deadline 30000]))) = []"
proof -
  obtain r w1 where run: "run_state (execute demo_runner demo_row) (run_world [Deadline 30000]) = (r, w1)" by fastforce
  with demo_deadline obtain res where r: "r = Inr res" "rr_status res = StatusTimeout" by auto
  obtain rb w' where all: "run_state (run_claimed exec_run demo_runner demo_row) (run_world [Deadline 30000]) = (rb, w')" by fastforce
  from timeout_triggers_nothing [OF run [unfolded r(1)] r(2) _ all] all show ?thesis
    by (simp add: run_world_def run_db_def new_run_def)
qed

text \<open> C8. The chain: when nobody interferes, triggering it opens exactly one row for every link of the
  job that matches the outcome and whose target exists, in order and each a child of this run: a
  pending one due after the link's clamped delay if the target is active and the run sits less
  than \<open>ChainMaxDepth\<close> steps deep, a skipped one otherwise. No link is dropped silently. A timer is
  armed only for a row that is already there and pending, and only for a delay of at most
  \<open>ChainDirectMaxSec\<close>. \<close>
theorem chain_one_row_per_link:
  fixes w w' :: "'w rworld_scheme"
  assumes "quiet w" and "runs_ok (w_db w)" and "find_run (w_db w) (rt_id row) \<noteq> None"
    and "run_state (triggerChain exec_run ru row oc) w = (u, w')"
  shows "\<exists>news outs. job_runs (w_db w') = job_runs (w_db w) @ news
    \<and> list_all2 (chain_row (rt_id row) (w_now w) (chain_depth (w_db w) (rt_id row))) (chain_targets (w_db w) (rt_job_id row) oc) news
    \<and> w_out w' = w_out w @ outs
    \<and> (\<forall>e\<in>set outs. \<exists>i dl c. e = TimerSet i dl c \<and> dl \<le> ChainDirectMaxSec * second
        \<and> (\<exists>r\<in>set news. r_id r = i \<and> r_status r = StatusPending))"
proof -
  have c1: "run_state (re_ChainStepCount exec_run (rt_id row)) w = (Inr (chain_depth (w_db w) (rt_id row)), w)"
    using assms(1) by (simp add: exec_run_def stmt_quiet quiet_def chain_step_count_def query_def chain_depth_def)
  have c2: "run_state (re_ListChainTargets exec_run (rt_job_id row) oc) w = (Inr (chain_targets (w_db w) (rt_job_id row) oc), w)"
    using assms(1) by (simp add: exec_run_def stmt_quiet quiet_def list_chain_targets_def query_def chain_targets_def)
  from assms(4) c1 c2 have "run_state (for_each (chain_targets (w_db w) (rt_job_id row) oc)
      (chain_target_step exec_run ru row (chain_depth (w_db w) (rt_id row))) ()) w = (u, w')"
    by (simp add: triggerChain_def)
  from chain_loop [OF assms(1-3) chain_targets_jobs this] show ?thesis
    by (auto simp: chain_added_def)
qed

theorem chain_one_row_per_link_witness:
  "\<exists>r. job_runs (w_db (snd (run_state (triggerChain exec_run demo_runner demo_row ''success'') (run_world [])))) = job_runs run_db @ [r]
     \<and> r_job_id r = 2 \<and> r_parent_run_id r = Some 1 \<and> r_status r = StatusPending \<and> r_run_after r = Some (demo_now + 5 * second)"
proof -
  obtain u w' where run: "run_state (triggerChain exec_run demo_runner demo_row ''success'') (run_world []) = (u, w')" by (metis surj_pair)
  let ?t = "\<lparr>ct_job_id = 2, ct_code = ''sync'', ct_active = True, ct_single_run = True, ct_delay_sec = 5, ct_condition = ''always''\<rparr>"
  have t: "chain_targets (w_db (run_world [])) (rt_job_id demo_row) ''success'' = [?t]"
    by (simp add: chain_targets_def chain_target_of_def run_world_def run_db_def demo_db_def demo_link_def demo_row_def
      run_target_of_def new_run_def find_job_def find_project_def demo_project_def demo_job_def)
  have c: "chain_depth (w_db (run_world [])) (rt_id demo_row) = 0" "rt_id demo_row = 1" "w_now (run_world []) = demo_now" "ct_delay ?t = 5 * second"
    by (simp_all add: chain_depth_def run_world_def run_db_def demo_row_def run_target_of_def new_run_def find_run_def
      ct_delay_def ChainMaxDelaySec_def up_steps_None Let_def)
  from chain_one_row_per_link [OF run_world_quiet(1,3,4) run, unfolded t c(1,3), unfolded c(2)] obtain news where
    n: "job_runs (w_db w') = job_runs (w_db (run_world [])) @ news" "list_all2 (chain_row 1 demo_now 0) [?t] news"
    by blast
  then obtain r where "news = [r]" "chain_row 1 demo_now 0 ?t r" by (auto simp: list_all2_Cons1)
  with n(1) run c(4) show ?thesis
    by (intro exI [of _ r]) (auto simp: chain_row_def run_world_def ChainMaxDepth_def)
qed

text \<open> A result whose text PostgreSQL refuses is lost: when the body a target answered with is not
  valid UTF-8 (or holds a zero byte), or the read limit cuts a character in two, and it is short
  enough not to be truncated, the closing update fails; nothing is written, no notification goes
  out and no chain is triggered, although the run succeeded. The row stays in running. \<close>
theorem unstorable_result_leaves_run_open:
  fixes w w' :: "'w rworld_scheme"
  assumes "quiet w" and "run_state (execute ru row) w = (r, w1)" and "\<not> storable_result (closing r)"
    and "run_state (run_claimed exec_run ru row) w = (res, w')"
  shows "w_db w' = w_db w \<and> w_out w' = w_out w1 \<and> w_mail w' = w_mail w1"
  by (rule unstorable_run [OF assms])

theorem unstorable_result_leaves_run_open_witness:
  "snd (fst (run_state (run_claimed exec_run demo_runner demo_row) (run_world [Answered 7 200 [CHR 0xFF]])))
   \<and> w_db (snd (run_state (run_claimed exec_run demo_runner demo_row) (run_world [Answered 7 200 [CHR 0xFF]]))) = run_db
   \<and> map r_status (job_runs run_db) = [StatusRunning]"
proof -
  let ?w = "run_world [Answered 7 200 [CHR 0xFF]]"
  obtain r w1 where run: "run_state (execute demo_runner demo_row) ?w = (r, w1)" by fastforce
  obtain res w' where all: "run_state (run_claimed exec_run demo_runner demo_row) ?w = (res, w')" by fastforce
  have "\<exists>res. fst (run_state (execute demo_runner demo_row) ?w) = Inr res \<and> rr_output res = [CHR 0xFF]"
    by (simp add: run_eval numeral_2_eq_2)
  with run obtain x where x: "r = Inr x" "rr_output x = [CHR 0xFF]" by auto
  have rs: "runes [CHR 0xFF] = [(65533, [CHR 0xFF])]"
    by (simp add: runes.simps decode_rune_def)
  have "\<not> pg_text (go_truncate [CHR 0xFF] OutputMaxLen)"
    by (simp add: go_truncate_def rs OutputMaxLen_def pg_text_def)
  then have "\<not> storable_result (closing r)" using x by (simp add: closing_def storable_result_def storable_text_def)
  from unstorable_result_leaves_run_open [OF run_world_quiet(1) run this all]
  have "w_db w' = run_db" by (simp add: run_world_def)
  moreover have "snd res" using all run x by (auto simp: run_claimed_def split: prod.splits)
  ultimately show ?thesis using all by (simp add: run_db_def new_run_def)
qed

text \<open> The closing update has no status guard: a run that the watchdog has already closed as a
  timeout is overwritten when its execution returns late, and its row then reads as a success. \<close>
theorem late_result_overwrites_timeout:
  "map r_status (job_runs (snd (close_stuck_runs (3600 * second) run_db))) = [StatusTimeout]
   \<and> map r_status (job_runs (snd (finish_run 1 ok_result (3601 * second) (snd (close_stuck_runs (3600 * second) run_db))))) = [StatusSuccess]"
proof -
  have j: "job_runs run_db = [(new_run 1 1 TriggerAPI 0)\<lparr>r_status := StatusRunning, r_started_at := Some 0\<rparr>]"
    by (simp add: run_db_def)
  have s: "stuck run_db (3600 * second) (hd (job_runs run_db))"
    by (simp add: stuck_def j new_run_def find_job_def run_db_def demo_db_def demo_job_def seconds_def second_def)
  have e: "int4 (elapsed_ms (3600 * second) (Some 0))"
    by code_simp
  have c: "job_runs (snd (close_stuck_runs (3600 * second) run_db)) = [close_stuck_row (3600 * second) (hd (job_runs run_db))]"
    using s e by (simp add: close_stuck_runs_def Let_def j new_run_def)
  moreover have "r_id (hd (job_runs run_db)) = 1" by (simp add: j new_run_def)
  moreover have "rr_status ok_result = StatusSuccess" "StatusSuccess \<in> set run_statuses"
    by (simp_all add: ok_result_def run_statuses_def)
  ultimately show ?thesis using ok_result_storable by (simp add: finish_run_def)
qed

text \<open> A note on a full error text is lost, although the limit on error texts is said to leave room
  for one: once the stored error has reached \<open>ErrorMaxLen\<close> characters, appending a note leaves its
  first \<open>ErrorMaxLen\<close> characters and nothing of the note. \<close>
theorem full_error_loses_note:
  assumes "list_all ascii e" and "2000 \<le> length e"
  shows "noted e msg = take 2000 e"
proof -
  have "take 2000 (runes (e @ '' | '' @ msg)) = take 2000 (map (\<lambda>c. (byte c, [c])) e)"
    using assms by (simp add: runes_ascii_append)
  moreover have "concat (map snd (take 2000 (map (\<lambda>c. (byte c, [c])) e))) = take 2000 e"
    by (simp add: take_map comp_def)
  moreover have "e \<noteq> []" using assms(2) by auto
  ultimately show ?thesis
    by (simp add: noted_def pg_left_def ErrorMaxLen_def)
qed

theorem full_error_loses_note_witness:
  "noted (replicate 2500 CHR ''x'') ''note'' = replicate 2000 CHR ''x''"
  using full_error_loses_note [of "replicate 2500 CHR ''x''" "''note''"]
  by (simp add: list_all_length ascii_def)

end
