(* ===== verification/Sha256.thy ===== *)
theory Sha256
  imports GoRunes "HOL-Library.Word"
begin

text \<open>
  \<open>sha256.Sum256\<close> and \<open>hex.EncodeToString\<close> of Go's standard library, which the watchdog's
  warning fingerprint is made with: the hash of FIPS 180-4 on words of 32 bits.
\<close>

type_synonym w32 = "32 word"

text \<open>
  The constants are the first 32 bits of the fractional parts of the cube roots of the first 64
  primes and of the square roots of the first eight; \<open>int_root b k n 0\<close> is the integer \<open>k\<close>-th root
  of \<open>n\<close> when it has at most \<open>b\<close> bits.
\<close>

definition first_primes :: "nat \<Rightarrow> nat list" where
  "first_primes m = take m (filter (\<lambda>n. list_all (\<lambda>d. n mod d \<noteq> 0) [2..<n]) [2..<312])"

fun int_root :: "nat \<Rightarrow> nat \<Rightarrow> int \<Rightarrow> int \<Rightarrow> int" where
  "int_root 0 k n r = r"
| "int_root (Suc b) k n r = int_root b k n (if (r + 2 ^ b) ^ k \<le> n then r + 2 ^ b else r)"

definition root_bits :: "nat \<Rightarrow> nat \<Rightarrow> w32" where
  "root_bits k p = of_int (int_root 40 k (int p * 2 ^ (32 * k)) 0)"

definition round_constants :: "w32 list" where
  "round_constants = map (root_bits 3) (first_primes 64)"

definition initial_hash :: "w32 list" where
  "initial_hash = map (root_bits 2) (first_primes 8)"

unbundle bit_operations_syntax

definition rotr :: "nat \<Rightarrow> w32 \<Rightarrow> w32" where
  "rotr n x = drop_bit n x OR push_bit (32 - n) x"

definition big_sigma0 :: "w32 \<Rightarrow> w32" where "big_sigma0 x = rotr 2 x XOR rotr 13 x XOR rotr 22 x"
definition big_sigma1 :: "w32 \<Rightarrow> w32" where "big_sigma1 x = rotr 6 x XOR rotr 11 x XOR rotr 25 x"
definition small_sigma0 :: "w32 \<Rightarrow> w32" where "small_sigma0 x = rotr 7 x XOR rotr 18 x XOR drop_bit 3 x"
definition small_sigma1 :: "w32 \<Rightarrow> w32" where "small_sigma1 x = rotr 17 x XOR rotr 19 x XOR drop_bit 10 x"
definition choose_bits :: "w32 \<Rightarrow> w32 \<Rightarrow> w32 \<Rightarrow> w32" where "choose_bits x y z = (x AND y) XOR (NOT x AND z)"
definition majority :: "w32 \<Rightarrow> w32 \<Rightarrow> w32 \<Rightarrow> w32" where "majority x y z = (x AND y) XOR (x AND z) XOR (y AND z)"

text \<open>The message schedule, newest word first.\<close>

fun extend_schedule :: "nat \<Rightarrow> w32 list \<Rightarrow> w32 list" where
  "extend_schedule 0 ws = ws"
| "extend_schedule (Suc n) ws =
     extend_schedule n ((small_sigma1 (ws ! 1) + ws ! 6 + small_sigma0 (ws ! 14) + ws ! 15) # ws)"

definition sha_round :: "w32 \<times> w32 \<Rightarrow> w32 list \<Rightarrow> w32 list" where
  "sha_round kw s = (case s of
      [a, b, c, d, e, f, g, h] \<Rightarrow>
        (let t1 = h + big_sigma1 e + choose_bits e f g + fst kw + snd kw;
             t2 = big_sigma0 a + majority a b c
         in [t1 + t2, a, b, c, d + t1, e, f, g])
    | _ \<Rightarrow> s)"

definition sha_block :: "w32 list \<Rightarrow> w32 list \<Rightarrow> w32 list" where
  "sha_block blk hash =
     (let ws = rev (extend_schedule 48 (rev blk))
      in map2 (+) hash (fold sha_round (zip round_constants ws) hash))"

definition be_bytes :: "nat \<Rightarrow> nat \<Rightarrow> nat list" where
  "be_bytes k n = map (\<lambda>i. n div 256 ^ (k - 1 - i) mod 256) [0..<k]"

definition sha_pad :: "nat list \<Rightarrow> nat list" where
  "sha_pad bs = bs @ [128] @ replicate ((119 - length bs mod 64) mod 64) 0 @ be_bytes 8 (8 * length bs)"

fun words_of :: "nat list \<Rightarrow> w32 list" where
  "words_of (a # b # c # d # r) = of_nat (a * 16777216 + b * 65536 + c * 256 + d) # words_of r"
| "words_of _ = []"

function sha_blocks :: "w32 list \<Rightarrow> w32 list \<Rightarrow> w32 list" where
  "sha_blocks ws hash = (if length ws < 16 then hash else sha_blocks (drop 16 ws) (sha_block (take 16 ws) hash))"
  by pat_completeness auto
termination by (relation "measure (\<lambda>(ws, _). length ws)") auto

declare sha_blocks.simps [simp del]

definition Sum256 :: "string \<Rightarrow> nat list" where
  "Sum256 s = concat (map (\<lambda>w. be_bytes 4 (unat w)) (sha_blocks (words_of (sha_pad (map of_char s))) initial_hash))"

definition hex_digit :: "nat \<Rightarrow> char" where
  "hex_digit n = ''0123456789abcdef'' ! n"

definition hex_encode :: "nat list \<Rightarrow> string" where
  "hex_encode bs = concat (map (\<lambda>b. [hex_digit (b div 16), hex_digit (b mod 16)]) bs)"

lemma Sum256_bytes: "list_all (\<lambda>b. b < 256) (Sum256 s)"
  by (auto simp: Sum256_def be_bytes_def list_all_iff)

lemma hex_encode_chars: "list_all (\<lambda>b. b < 256) bs \<Longrightarrow> set (hex_encode bs) \<subseteq> set ''0123456789abcdef''"
proof (induction bs)
  case (Cons b bs)
  have "hex_digit n \<in> set ''0123456789abcdef''" if "n < 16" for n
    using that unfolding hex_digit_def by (intro nth_mem) simp
  then have "hex_digit (b div 16) \<in> set ''0123456789abcdef''" "hex_digit (b mod 16) \<in> set ''0123456789abcdef''"
    using Cons.prems by (auto simp: less_mult_imp_div_less)
  moreover have "hex_encode (b # bs) = hex_digit (b div 16) # hex_digit (b mod 16) # hex_encode bs"
    by (simp add: hex_encode_def)
  ultimately show ?case using Cons by simp
qed (simp add: hex_encode_def)

lemma length_hex_encode: "length (hex_encode bs) = 2 * length bs"
  by (induction bs) (simp_all add: hex_encode_def)

end
