(* ===== verification/Watchdog.thy ===== *)
theory Watchdog
  imports Runner Sha256
begin

text \<open>
  The watchdog (\<open>internal/service/watchdog.go\<close>): one sweep closes stuck runs, reports what nothing
  else reports, prunes old rows and mails the warnings unless the same ones were mailed recently.
\<close>

section \<open>Interface and settings\<close>

record 'w WatchdogRepository =
  wr_DBTime :: "('w, instant) call"
  wr_CloseStuckRuns :: "('w, int) call"
  wr_CountStalePending :: "int \<Rightarrow> ('w, int) call"
  wr_ReadHeartbeat :: "('w, heartbeat option) call"
  wr_ListFailingJobs :: "int \<Rightarrow> int \<Rightarrow> ('w, error_summary list) call"
  wr_PurgeRuns :: "int \<Rightarrow> int \<Rightarrow> ('w, int) call"
  wr_PurgeAppLogs :: "int \<Rightarrow> ('w, int) call"
  wr_SetWarningMarker :: "string \<Rightarrow> ('w, unit) call"

definition exec_watchdog :: "'w world_scheme WatchdogRepository" where
  "exec_watchdog = \<lparr>wr_DBTime = stmt db_time, wr_CloseStuckRuns = stmt close_stuck_runs,
     wr_CountStalePending = (\<lambda>th. stmt (count_stale_pending th)), wr_ReadHeartbeat = stmt read_heartbeat,
     wr_ListFailingJobs = (\<lambda>wd th. stmt (list_failing_jobs wd th)), wr_PurgeRuns = (\<lambda>n l. stmt (purge_runs n l)),
     wr_PurgeAppLogs = (\<lambda>n. stmt (purge_app_logs n)), wr_SetWarningMarker = (\<lambda>m. stmt (set_warning_marker m))\<rparr>"

record watchdog =
  wd_HeartbeatLimitMin :: int
  wd_DriftLimitSec :: int
  wd_RunRetentionDays :: int
  wd_LogRetentionDays :: int
  wd_FailureThreshold :: int
  wd_AlertTo :: "string list"
  wd_AlertRepeat :: int
  wd_notifier :: bool
  wd_baseURL :: string

definition stalePendingAfter :: int where "stalePendingAfter = 15 * minute_ns"
definition failureWindow :: int where "failureWindow = 60 * minute_ns"
definition purgeBatch :: int where "purgeBatch = 5000"

definition NewWatchdog :: "watchdog \<Rightarrow> watchdog" where
  "NewWatchdog cfg =
     cfg\<lparr>wd_HeartbeatLimitMin := (if wd_HeartbeatLimitMin cfg \<le> 0 then 5 else wd_HeartbeatLimitMin cfg),
         wd_DriftLimitSec := (if wd_DriftLimitSec cfg \<le> 0 then 30 else wd_DriftLimitSec cfg),
         wd_FailureThreshold := (if wd_FailureThreshold cfg \<le> 0 then 5 else wd_FailureThreshold cfg),
         wd_AlertRepeat := (if wd_AlertRepeat cfg \<le> 0 then 60 * minute_ns else wd_AlertRepeat cfg)\<rparr>"

record sweep_result =
  sw_StuckClosed :: int
  sw_StalePending :: int
  sw_HeartbeatAgeMin :: int
  sw_DriftSec :: int
  sw_PurgedRuns :: int
  sw_PurgedLogs :: int
  sw_PurgedResets :: int
  sw_FailingJobs :: int
  sw_Warnings :: "string list"
  sw_MailSent :: bool
  sw_MailSkipReason :: string

definition no_sweep :: sweep_result where
  "no_sweep = \<lparr>sw_StuckClosed = 0, sw_StalePending = 0, sw_HeartbeatAgeMin = 0, sw_DriftSec = 0, sw_PurgedRuns = 0,
     sw_PurgedLogs = 0, sw_PurgedResets = 0, sw_FailingJobs = 0, sw_Warnings = [], sw_MailSent = False, sw_MailSkipReason = []\<rparr>"

definition warn :: "string \<Rightarrow> sweep_result \<Rightarrow> sweep_result" where
  "warn line res = res\<lparr>sw_Warnings := sw_Warnings res @ [line]\<rparr>"

section \<open>The marker\<close>

definition warningFingerprint :: "string list \<Rightarrow> string" where
  "warningFingerprint warnings = hex_encode (take 8 (Sum256 (join [CHR 0x0A] warnings)))"

definition pad4 :: "int \<Rightarrow> string" where
  "pad4 n = [char_of (48 + nat (n div 1000 mod 10)), char_of (48 + nat (n div 100 mod 10)),
             char_of (48 + nat (n div 10 mod 10)), char_of (48 + nat (n mod 10))]"

definition dd :: "int \<Rightarrow> string" where
  "dd n = [char_of (48 + nat (n div 10 mod 10)), char_of (48 + nat (n mod 10))]"

text \<open>\<open>t.UTC().Format(time.RFC3339)\<close>, for the years 0 to 9999.\<close>

definition format_rfc3339 :: "instant \<Rightarrow> string" where
  "format_rfc3339 t =
     pad4 (t_year utc t) @ ''-'' @ dd (t_month utc t) @ ''-'' @ dd (t_day utc t) @ ''T''
     @ dd (t_hour utc t) @ '':'' @ dd (t_minute utc t) @ '':'' @ dd (t_second utc t) @ ''Z''"

definition num_of :: "string \<Rightarrow> int" where
  "num_of = foldl (\<lambda>a c. a * 10 + digit_val c) 0"

definition month_length :: "int \<Rightarrow> int \<Rightarrow> int" where
  "month_length y m = month_start (leap_day y) (m + 1) - month_start (leap_day y) m + (if m = 12 then 31 else 0)"

text \<open>
  \<open>time.Parse(time.RFC3339, s)\<close> on the form \<open>format_rfc3339\<close> writes: UTC and no fraction of a
  second. The marker is only ever written by \<open>formatMarker\<close>; other forms are refused here.
\<close>

definition parse_rfc3339 :: "string \<Rightarrow> instant option" where
  "parse_rfc3339 s =
     (if length s = 20 \<and> s ! 4 = CHR ''-'' \<and> s ! 7 = CHR ''-'' \<and> s ! 10 = CHR ''T'' \<and> s ! 13 = CHR '':''
         \<and> s ! 16 = CHR '':'' \<and> s ! 19 = CHR ''Z''
         \<and> list_all is_digit (take 4 s @ take 2 (drop 5 s) @ take 2 (drop 8 s) @ take 2 (drop 11 s) @ take 2 (drop 14 s) @ take 2 (drop 17 s))
      then let y = num_of (take 4 s); mo = num_of (take 2 (drop 5 s)); d = num_of (take 2 (drop 8 s));
               h = num_of (take 2 (drop 11 s)); mi = num_of (take 2 (drop 14 s)); sec = num_of (take 2 (drop 17 s))
        in if 1 \<le> mo \<and> mo \<le> 12 \<and> 1 \<le> d \<and> d \<le> month_length y mo \<and> h < 24 \<and> mi < 60 \<and> sec < 60
           then Some (time_date utc y mo d h mi sec 0) else None
      else None)"

definition formatMarker :: "string \<Rightarrow> instant \<Rightarrow> string" where
  "formatMarker fingerprint at = fingerprint @ ''@'' @ format_rfc3339 at"

definition parseMarker :: "string \<Rightarrow> string \<times> instant \<times> bool" where
  "parseMarker note = (case split2 (CHR ''@'') note of
      (_, None) \<Rightarrow> ([], - 62135596800 * second, False)
    | (mark, Some rest) \<Rightarrow> (case parse_rfc3339 rest of
          None \<Rightarrow> ([], - 62135596800 * second, False)
        | Some at \<Rightarrow> (mark, at, True)))"

section \<open>The alert\<close>

text \<open>\<open>Duration.String\<close> of a whole number of minutes.\<close>

definition minutes_string :: "int \<Rightarrow> string" where
  "minutes_string d =
     (let m = \<bar>d\<bar> div minute_ns in
      (if d < 0 then ''-'' else [])
      @ (if m \<ge> 60 then show_int (m div 60) @ ''h'' @ show_int (m mod 60) @ ''m0s''
         else if m > 0 then show_int m @ ''m0s'' else ''0s''))"

definition notify_alert :: "watchdog \<Rightarrow> string \<Rightarrow> string \<Rightarrow> ('w rworld_scheme, unit) state" where
  "notify_alert wd subject body =
     enqueue (wd_AlertTo wd) subject (if wd_baseURL wd \<noteq> [] then body @ nl @ wd_baseURL wd @ nl else body)"

definition alert_body :: "string list \<Rightarrow> string" where
  "alert_body warnings = ''The watchdog raised the following:'' @ nl @ nl @ concat (map (\<lambda>l. ''  - '' @ l @ nl) warnings)"

definition alert_mail ::
  "'w rworld_scheme WatchdogRepository \<Rightarrow> watchdog \<Rightarrow> string \<Rightarrow> sweep_result \<Rightarrow> ('w rworld_scheme, sweep_result) state" where
  "alert_mail repo wd fingerprint result = do {
     notify_alert wd (''[cron] '' @ show_int (int (length (sw_Warnings result))) @ '' warning(s) from the scheduler'')
       (alert_body (sw_Warnings result));
     at \<leftarrow> app_now;
     r \<leftarrow> wr_SetWarningMarker repo (formatMarker fingerprint at);
     State_Monad.return (result\<lparr>sw_MailSent := True\<rparr>) }"

definition alert ::
  "'w rworld_scheme WatchdogRepository \<Rightarrow> watchdog \<Rightarrow> heartbeat option \<Rightarrow> sweep_result \<Rightarrow> ('w rworld_scheme, sweep_result) state" where
  "alert repo wd heartbeat result =
     (if length (sw_Warnings result) = 0 then
        (case heartbeat of None \<Rightarrow> State_Monad.return result | Some h \<Rightarrow>
           if hb_note h \<noteq> [] then do { r \<leftarrow> wr_SetWarningMarker repo []; State_Monad.return result }
           else State_Monad.return result)
      else if \<not> wd_notifier wd \<or> length (wd_AlertTo wd) = 0 then
        State_Monad.return (result\<lparr>sw_MailSkipReason := ''no alert recipient is configured''\<rparr>)
      else let fingerprint = warningFingerprint (sw_Warnings result) in
        (case heartbeat of None \<Rightarrow> alert_mail repo wd fingerprint result | Some h \<Rightarrow>
           (case parseMarker (hb_note h) of (mark, at, ok) \<Rightarrow>
              if hb_note h \<noteq> [] \<and> ok \<and> mark = fingerprint then do {
                now \<leftarrow> app_now;
                if time_sub now at < wd_AlertRepeat wd then do {
                  now2 \<leftarrow> app_now;
                  State_Monad.return (result\<lparr>sw_MailSkipReason :=
                    ''the same warnings were mailed '' @ minutes_string (dur_round (time_sub now2 at) minute_ns) @ '' ago''\<rparr>) }
                else alert_mail repo wd fingerprint result }
              else alert_mail repo wd fingerprint result)))"

section \<open>The steps of a sweep\<close>

definition sweep_stuck :: "'w WatchdogRepository \<Rightarrow> sweep_result \<Rightarrow> ('w, sweep_result) state" where
  "sweep_stuck repo result = do {
     r \<leftarrow> wr_CloseStuckRuns repo;
     case r of
       Inl e \<Rightarrow> State_Monad.return (warn (''stuck runs could not be closed: '' @ err_text e) result)
     | Inr closed \<Rightarrow>
         let result = result\<lparr>sw_StuckClosed := closed\<rparr> in
         if closed > 0 then State_Monad.return
           (warn (show_int closed @ '' run(s) exceeded their maximum duration and were closed as timeout'') result)
         else State_Monad.return result }"

definition sweep_stale :: "'w WatchdogRepository \<Rightarrow> sweep_result \<Rightarrow> ('w, sweep_result) state" where
  "sweep_stale repo result = do {
     r \<leftarrow> wr_CountStalePending repo stalePendingAfter;
     case r of
       Inl e \<Rightarrow> State_Monad.return (warn (''pending runs could not be counted: '' @ err_text e) result)
     | Inr stale \<Rightarrow>
         let result = result\<lparr>sw_StalePending := stale\<rparr> in
         if stale > 0 then State_Monad.return
           (warn (show_int stale @ '' run(s) have been queued for over '' @ minutes_string stalePendingAfter @ '' without being started'') result)
         else State_Monad.return result }"

text \<open>\<open>int(d.Minutes())\<close> truncates towards zero.\<close>

definition heartbeat_warnings :: "watchdog \<Rightarrow> instant \<Rightarrow> heartbeat \<Rightarrow> sweep_result \<Rightarrow> sweep_result" where
  "heartbeat_warnings wd dbTime h result =
     (let age = quot (time_sub dbTime (hb_last_run h)) minute_ns;
          result = result\<lparr>sw_HeartbeatAgeMin := age, sw_DriftSec := hb_drift_sec h\<rparr>;
          result = (if age \<ge> wd_HeartbeatLimitMin wd
            then warn (''the dispatcher has not run for '' @ show_int age @ '' minutes; scheduled jobs are not being queued'') result
            else result)
      in if \<bar>hb_drift_sec h\<bar> \<ge> wd_DriftLimitSec wd
         then warn (''application and database clocks differ by '' @ show_int (hb_drift_sec h) @ '' seconds'') result
         else result)"

definition sweep_pulse ::
  "'w world_scheme WatchdogRepository \<Rightarrow> watchdog \<Rightarrow> sweep_result \<Rightarrow> ('w world_scheme, sweep_result \<times> heartbeat option) state" where
  "sweep_pulse repo wd result = do {
     r \<leftarrow> wr_DBTime repo;
     s \<leftarrow> (case r of
         Inl e \<Rightarrow> do { now \<leftarrow> app_now; State_Monad.return (now, warn (''database time could not be read: '' @ err_text e) result) }
       | Inr t \<Rightarrow> State_Monad.return (t, result));
     r \<leftarrow> wr_ReadHeartbeat repo;
     State_Monad.return (case s of (dbTime, result) \<Rightarrow>
       (case r of
          Inl e \<Rightarrow> (warn (''heartbeat could not be read: '' @ err_text e) result, None)
        | Inr None \<Rightarrow> (warn ''the dispatcher has never run'' result, None)
        | Inr (Some h) \<Rightarrow> (heartbeat_warnings wd dbTime h result, Some h))) }"

definition failing_line :: "error_summary \<Rightarrow> string" where
  "failing_line f = es_code f @ '' failed '' @ show_int (es_count f) @ '' times in the last hour''
     @ (if es_last_error f \<noteq> [] then '': '' @ first_runes (es_last_error f) 200 else [])"

definition sweep_failing :: "'w WatchdogRepository \<Rightarrow> watchdog \<Rightarrow> sweep_result \<Rightarrow> ('w, sweep_result) state" where
  "sweep_failing repo wd result = do {
     r \<leftarrow> wr_ListFailingJobs repo failureWindow (wd_FailureThreshold wd);
     case r of
       Inl e \<Rightarrow> State_Monad.return (warn (''failing jobs could not be listed: '' @ err_text e) result)
     | Inr failing \<Rightarrow> State_Monad.return
         (fold (\<lambda>f. warn (failing_line f)) failing (result\<lparr>sw_FailingJobs := int (length failing)\<rparr>)) }"

definition sweep_purge_runs :: "'w WatchdogRepository \<Rightarrow> watchdog \<Rightarrow> sweep_result \<Rightarrow> ('w, sweep_result) state" where
  "sweep_purge_runs repo wd result =
     (if wd_RunRetentionDays wd > 0 then do {
        r \<leftarrow> wr_PurgeRuns repo (wd_RunRetentionDays wd) purgeBatch;
        case r of
          Inl e \<Rightarrow> State_Monad.return (warn (''run history could not be pruned: '' @ err_text e) result)
        | Inr n \<Rightarrow> State_Monad.return (result\<lparr>sw_PurgedRuns := n\<rparr>) }
      else State_Monad.return result)"

definition sweep_purge_logs :: "'w WatchdogRepository \<Rightarrow> watchdog \<Rightarrow> sweep_result \<Rightarrow> ('w, sweep_result) state" where
  "sweep_purge_logs repo wd result =
     (if wd_LogRetentionDays wd > 0 then do {
        r \<leftarrow> wr_PurgeAppLogs repo (wd_LogRetentionDays wd);
        case r of
          Inl e \<Rightarrow> State_Monad.return (warn (''application logs could not be pruned: '' @ err_text e) result)
        | Inr n \<Rightarrow> State_Monad.return (result\<lparr>sw_PurgedLogs := n\<rparr>) }
      else State_Monad.return result)"

text \<open>The table of reset links is pruned only when it was attached; its repository is an argument.\<close>

definition sweep_purge_resets ::
  "(instant \<Rightarrow> ('w world_scheme, int) call) option \<Rightarrow> sweep_result \<Rightarrow> ('w world_scheme, sweep_result) state" where
  "sweep_purge_resets resets result = (case resets of None \<Rightarrow> State_Monad.return result | Some DeleteExpired \<Rightarrow> do {
     now \<leftarrow> app_now;
     r \<leftarrow> DeleteExpired now;
     case r of
       Inl e \<Rightarrow> State_Monad.return (warn (''reset links could not be pruned: '' @ err_text e) result)
     | Inr n \<Rightarrow> State_Monad.return (result\<lparr>sw_PurgedResets := n\<rparr>) })"

definition Sweep ::
  "'w rworld_scheme WatchdogRepository \<Rightarrow> (instant \<Rightarrow> ('w rworld_scheme, int) call) option \<Rightarrow> watchdog
     \<Rightarrow> ('w rworld_scheme, sweep_result) state" where
  "Sweep repo resets wd = do {
     result \<leftarrow> sweep_stuck repo no_sweep;
     result \<leftarrow> sweep_stale repo result;
     s \<leftarrow> sweep_pulse repo wd result;
     result \<leftarrow> sweep_failing repo wd (fst s);
     result \<leftarrow> sweep_purge_runs repo wd result;
     result \<leftarrow> sweep_purge_logs repo wd result;
     result \<leftarrow> sweep_purge_resets resets result;
     alert repo wd (snd s) result }"

end
