(* ===== verification/WatchdogFacts.thy ===== *)
theory WatchdogFacts
  imports Watchdog
begin

text \<open>
  A sweep never stops half way and never fails silently: over any repository, and whatever its calls
  answer, a sweep issues the calls of \<open>ask\<close>, one after the other, its warnings are the lines \<open>told\<close>
  reads off the answers, and only then does it come to the alert.
\<close>

section \<open>The calls of a sweep and what their answers say\<close>

text \<open>The application clock is read only where the database's cannot be; a call a setting turns off has no answer.\<close>

record answers =
  an_stuck :: "go_error + int"
  an_stale :: "go_error + int"
  an_time :: "go_error + instant"
  an_now :: instant
  an_pulse :: "go_error + heartbeat option"
  an_failing :: "go_error + error_summary list"
  an_runs :: "(go_error + int) option"
  an_logs :: "(go_error + int) option"
  an_resets :: "(go_error + int) option"

definition when_on :: "bool \<Rightarrow> ('w, 'a) state \<Rightarrow> ('w, 'a option) state" where
  "when_on b m = (if b then do { x \<leftarrow> m; State_Monad.return (Some x) } else State_Monad.return None)"

definition ask ::
  "'w rworld_scheme WatchdogRepository \<Rightarrow> (instant \<Rightarrow> ('w rworld_scheme, int) call) option \<Rightarrow> watchdog
     \<Rightarrow> ('w rworld_scheme, answers) state" where
  "ask repo resets wd = do {
     stuck \<leftarrow> wr_CloseStuckRuns repo;
     stale \<leftarrow> wr_CountStalePending repo stalePendingAfter;
     time \<leftarrow> wr_DBTime repo;
     now \<leftarrow> (case time of Inl _ \<Rightarrow> app_now | Inr t \<Rightarrow> State_Monad.return t);
     pulse \<leftarrow> wr_ReadHeartbeat repo;
     failing \<leftarrow> wr_ListFailingJobs repo failureWindow (wd_FailureThreshold wd);
     runs \<leftarrow> when_on (wd_RunRetentionDays wd > 0) (wr_PurgeRuns repo (wd_RunRetentionDays wd) purgeBatch);
     logs \<leftarrow> when_on (wd_LogRetentionDays wd > 0) (wr_PurgeAppLogs repo (wd_LogRetentionDays wd));
     gone \<leftarrow> (case resets of None \<Rightarrow> State_Monad.return None
       | Some DeleteExpired \<Rightarrow> do { t \<leftarrow> app_now; x \<leftarrow> DeleteExpired t; State_Monad.return (Some x) });
     State_Monad.return \<lparr>an_stuck = stuck, an_stale = stale, an_time = time, an_now = now, an_pulse = pulse,
       an_failing = failing, an_runs = runs, an_logs = logs, an_resets = gone\<rparr> }"

definition stuck_lines :: "go_error + int \<Rightarrow> string list" where
  "stuck_lines a = (case a of
      Inl e \<Rightarrow> [''stuck runs could not be closed: '' @ err_text e]
    | Inr n \<Rightarrow> if n > 0 then [show_int n @ '' run(s) exceeded their maximum duration and were closed as timeout''] else [])"

definition stale_lines :: "go_error + int \<Rightarrow> string list" where
  "stale_lines a = (case a of
      Inl e \<Rightarrow> [''pending runs could not be counted: '' @ err_text e]
    | Inr n \<Rightarrow> if n > 0 then [show_int n @ '' run(s) have been queued for over '' @ minutes_string stalePendingAfter
        @ '' without being started''] else [])"

definition time_lines :: "go_error + instant \<Rightarrow> string list" where
  "time_lines a = (case a of Inl e \<Rightarrow> [''database time could not be read: '' @ err_text e] | Inr _ \<Rightarrow> [])"

definition pulse_lines :: "watchdog \<Rightarrow> instant \<Rightarrow> go_error + heartbeat option \<Rightarrow> string list" where
  "pulse_lines wd now a = (case a of
      Inl e \<Rightarrow> [''heartbeat could not be read: '' @ err_text e]
    | Inr None \<Rightarrow> [''the dispatcher has never run'']
    | Inr (Some h) \<Rightarrow> (let age = quot (time_sub now (hb_last_run h)) minute_ns in
        (if age \<ge> wd_HeartbeatLimitMin wd
         then [''the dispatcher has not run for '' @ show_int age @ '' minutes; scheduled jobs are not being queued''] else [])
        @ (if \<bar>hb_drift_sec h\<bar> \<ge> wd_DriftLimitSec wd
           then [''application and database clocks differ by '' @ show_int (hb_drift_sec h) @ '' seconds''] else [])))"

definition failing_lines :: "go_error + error_summary list \<Rightarrow> string list" where
  "failing_lines a = (case a of Inl e \<Rightarrow> [''failing jobs could not be listed: '' @ err_text e] | Inr fs \<Rightarrow> map failing_line fs)"

definition purge_lines :: "string \<Rightarrow> (go_error + int) option \<Rightarrow> string list" where
  "purge_lines what a = (case a of Some (Inl e) \<Rightarrow> [what @ '' could not be pruned: '' @ err_text e] | _ \<Rightarrow> [])"

definition told :: "watchdog \<Rightarrow> answers \<Rightarrow> string list" where
  "told wd a = stuck_lines (an_stuck a) @ stale_lines (an_stale a) @ time_lines (an_time a)
     @ pulse_lines wd (an_now a) (an_pulse a) @ failing_lines (an_failing a) @ purge_lines ''run history'' (an_runs a)
     @ purge_lines ''application logs'' (an_logs a) @ purge_lines ''reset links'' (an_resets a)"

section \<open>The steps\<close>

lemma warn_fields [simp]: "sw_Warnings (warn l res) = sw_Warnings res @ [l]" "sw_MailSent (warn l res) = sw_MailSent res"
  by (simp_all add: warn_def)

lemma fold_warn: "sw_Warnings (fold (\<lambda>f. warn (line f)) fs res) = sw_Warnings res @ map line fs
    \<and> sw_MailSent (fold (\<lambda>f. warn (line f)) fs res) = sw_MailSent res"
  by (induction fs arbitrary: res) simp_all

text \<open>A step adds the lines of its answer.\<close>

definition adds :: "string list \<Rightarrow> sweep_result \<Rightarrow> sweep_result \<Rightarrow> bool" where
  "adds ls res res' \<longleftrightarrow> sw_Warnings res' = sw_Warnings res @ ls \<and> sw_MailSent res' = sw_MailSent res"

lemma heartbeat_adds: "adds (pulse_lines wd t (Inr (Some h))) res (heartbeat_warnings wd t h res)"
  by (simp add: adds_def heartbeat_warnings_def pulse_lines_def Let_def)

lemma sweep_stuck_adds:
  assumes "run_state (wr_CloseStuckRuns repo) w = (a, v)"
  shows "\<exists>res'. run_state (sweep_stuck repo res) w = (res', v) \<and> adds (stuck_lines a) res res'"
  by (cases a) (simp_all add: sweep_stuck_def assms adds_def stuck_lines_def Let_def)

lemma sweep_stale_adds:
  assumes "run_state (wr_CountStalePending repo stalePendingAfter) w = (a, v)"
  shows "\<exists>res'. run_state (sweep_stale repo res) w = (res', v) \<and> adds (stale_lines a) res res'"
  by (cases a) (simp_all add: sweep_stale_def assms adds_def stale_lines_def Let_def)

lemma sweep_pulse_adds:
  assumes "run_state (wr_DBTime repo) w = (a, v)"
    and "run_state (case a of Inl _ \<Rightarrow> app_now | Inr t \<Rightarrow> State_Monad.return t) v = (now, u)"
    and "run_state (wr_ReadHeartbeat repo) u = (b, w')"
  shows "\<exists>res'. run_state (sweep_pulse repo wd res) w = ((res', case b of Inl _ \<Rightarrow> None | Inr h \<Rightarrow> h), w')
    \<and> adds (time_lines a @ pulse_lines wd now b) res res'"
proof -
  define res1 where "res1 = (case a of Inl e \<Rightarrow> warn (''database time could not be read: '' @ err_text e) res | Inr _ \<Rightarrow> res)"
  have 1: "adds (time_lines a) res res1" by (cases a) (simp_all add: res1_def adds_def time_lines_def)
  define res2 where "res2 = (case b of
          Inl e \<Rightarrow> warn (''heartbeat could not be read: '' @ err_text e) res1
        | Inr None \<Rightarrow> warn ''the dispatcher has never run'' res1
        | Inr (Some h) \<Rightarrow> heartbeat_warnings wd now h res1)"
  have 2: "adds (pulse_lines wd now b) res1 res2"
  proof (cases b)
    case (Inl e)
    then show ?thesis by (simp add: res2_def adds_def pulse_lines_def)
  next
    case (Inr h)
    then show ?thesis using heartbeat_adds by (cases h) (simp_all add: res2_def adds_def pulse_lines_def)
  qed
  have "run_state (sweep_pulse repo wd res) w = ((res2, case b of Inl _ \<Rightarrow> None | Inr h \<Rightarrow> h), w')"
    using assms by (cases a) (auto simp: sweep_pulse_def res2_def res1_def split: sum.split option.split)
  with 1 2 show ?thesis by (auto simp: adds_def)
qed

lemma sweep_failing_adds:
  assumes "run_state (wr_ListFailingJobs repo failureWindow (wd_FailureThreshold wd)) w = (a, v)"
  shows "\<exists>res'. run_state (sweep_failing repo wd res) w = (res', v) \<and> adds (failing_lines a) res res'"
  by (cases a) (simp_all add: sweep_failing_def assms adds_def failing_lines_def fold_warn)

lemma sweep_purge_runs_adds:
  assumes "run_state (when_on (wd_RunRetentionDays wd > 0) (wr_PurgeRuns repo (wd_RunRetentionDays wd) purgeBatch)) w = (a, v)"
  shows "\<exists>res'. run_state (sweep_purge_runs repo wd res) w = (res', v) \<and> adds (purge_lines ''run history'' a) res res'"
  using assms
  by (cases "run_state (wr_PurgeRuns repo (wd_RunRetentionDays wd) purgeBatch) w")
    (auto simp: sweep_purge_runs_def when_on_def adds_def purge_lines_def split: if_splits sum.split)

lemma sweep_purge_logs_adds:
  assumes "run_state (when_on (wd_LogRetentionDays wd > 0) (wr_PurgeAppLogs repo (wd_LogRetentionDays wd))) w = (a, v)"
  shows "\<exists>res'. run_state (sweep_purge_logs repo wd res) w = (res', v) \<and> adds (purge_lines ''application logs'' a) res res'"
  using assms
  by (cases "run_state (wr_PurgeAppLogs repo (wd_LogRetentionDays wd)) w")
    (auto simp: sweep_purge_logs_def when_on_def adds_def purge_lines_def split: if_splits sum.split)

lemma sweep_purge_resets_adds:
  assumes "run_state (case resets of None \<Rightarrow> State_Monad.return None
       | Some DeleteExpired \<Rightarrow> do { t \<leftarrow> app_now; x \<leftarrow> DeleteExpired t; State_Monad.return (Some x) }) w = (a, v)"
  shows "\<exists>res'. run_state (sweep_purge_resets resets res) w = (res', v) \<and> adds (purge_lines ''reset links'' a) res res'"
  using assms
  by (auto simp: sweep_purge_resets_def adds_def purge_lines_def split: option.splits prod.splits sum.split)

text \<open>The whole sweep.\<close>

lemma Sweep_asks:
  assumes "run_state (Sweep repo resets wd) w = (res, w')"
  obtains a v res0 where "run_state (ask repo resets wd) w = (a, v)" and "sw_Warnings res0 = told wd a"
    and "\<not> sw_MailSent res0" and "run_state (alert repo wd (case an_pulse a of Inl _ \<Rightarrow> None | Inr h \<Rightarrow> h) res0) v = (res, w')"
proof -
  obtain a1 w1 where 1: "run_state (wr_CloseStuckRuns repo) w = (a1, w1)" by fastforce
  obtain a2 w2 where 2: "run_state (wr_CountStalePending repo stalePendingAfter) w1 = (a2, w2)" by fastforce
  obtain a3 w3 where 3: "run_state (wr_DBTime repo) w2 = (a3, w3)" by fastforce
  obtain now w4 where 4: "run_state (case a3 of Inl _ \<Rightarrow> app_now | Inr t \<Rightarrow> State_Monad.return t) w3 = (now, w4)" by fastforce
  obtain a5 w5 where 5: "run_state (wr_ReadHeartbeat repo) w4 = (a5, w5)" by fastforce
  obtain a6 w6 where 6: "run_state (wr_ListFailingJobs repo failureWindow (wd_FailureThreshold wd)) w5 = (a6, w6)" by fastforce
  obtain a7 w7 where 7: "run_state (when_on (wd_RunRetentionDays wd > 0)
      (wr_PurgeRuns repo (wd_RunRetentionDays wd) purgeBatch)) w6 = (a7, w7)" by fastforce
  obtain a8 w8 where 8: "run_state (when_on (wd_LogRetentionDays wd > 0) (wr_PurgeAppLogs repo (wd_LogRetentionDays wd))) w7 = (a8, w8)"
    by fastforce
  obtain a9 w9 where 9: "run_state (case resets of None \<Rightarrow> State_Monad.return None
       | Some DeleteExpired \<Rightarrow> do { t \<leftarrow> app_now; x \<leftarrow> DeleteExpired t; State_Monad.return (Some x) }) w8 = (a9, w9)" by fastforce
  let ?a = "\<lparr>an_stuck = a1, an_stale = a2, an_time = a3, an_now = now, an_pulse = a5, an_failing = a6, an_runs = a7,
    an_logs = a8, an_resets = a9\<rparr>"
  from sweep_stuck_adds [OF 1] obtain r1 where r1: "run_state (sweep_stuck repo no_sweep) w = (r1, w1)" "adds (stuck_lines a1) no_sweep r1" by blast
  from sweep_stale_adds [OF 2] obtain r2 where r2: "run_state (sweep_stale repo r1) w1 = (r2, w2)" "adds (stale_lines a2) r1 r2" by blast
  from sweep_pulse_adds [OF 3 4 5] obtain r3 where r3:
    "run_state (sweep_pulse repo wd r2) w2 = ((r3, case a5 of Inl _ \<Rightarrow> None | Inr h \<Rightarrow> h), w5)"
    "adds (time_lines a3 @ pulse_lines wd now a5) r2 r3" by blast
  from sweep_failing_adds [OF 6] obtain r4 where r4: "run_state (sweep_failing repo wd r3) w5 = (r4, w6)" "adds (failing_lines a6) r3 r4" by blast
  from sweep_purge_runs_adds [OF 7] obtain r5 where r5: "run_state (sweep_purge_runs repo wd r4) w6 = (r5, w7)"
    "adds (purge_lines ''run history'' a7) r4 r5" by blast
  from sweep_purge_logs_adds [OF 8] obtain r6 where r6: "run_state (sweep_purge_logs repo wd r5) w7 = (r6, w8)"
    "adds (purge_lines ''application logs'' a8) r5 r6" by blast
  from sweep_purge_resets_adds [OF 9] obtain r7 where r7: "run_state (sweep_purge_resets resets r6) w8 = (r7, w9)"
    "adds (purge_lines ''reset links'' a9) r6 r7" by blast
  have "run_state (ask repo resets wd) w = (?a, w9)"
    unfolding ask_def by (simp add: 1 2 3 4 5 6 7 8 9)
  moreover have "sw_Warnings r7 = told wd ?a" "\<not> sw_MailSent r7"
    using r1(2) r2(2) r3(2) r4(2) r5(2) r6(2) r7(2) by (simp_all add: adds_def told_def no_sweep_def)
  moreover have "run_state (alert repo wd (case an_pulse ?a of Inl _ \<Rightarrow> None | Inr h \<Rightarrow> h) r7) w9 = (res, w')"
    using assms by (simp add: Sweep_def r1 r2 r3 r4 r5 r6 r7)
  ultimately show thesis by (rule that)
qed

lemma alert_keeps_warnings:
  "run_state (alert repo wd hb res) w = (res', w') \<Longrightarrow> sw_Warnings res' = sw_Warnings res"
  unfolding alert_def alert_mail_def
  by (auto simp: Let_def split: if_splits option.splits prod.splits)

end
