(* ===== verification/WatchdogMarker.thy ===== *)
theory WatchdogMarker
  imports Watchdog CronNext
begin

text \<open>
  The marker the watchdog stores between two sweeps: written and read back it gives the same
  fingerprint and the same second. On the way: the calendar of \<open>GoTime\<close> yields days that exist,
  and the two-digit and four-digit fields of a timestamp are read back as the numbers written.
\<close>

section \<open>Days that exist\<close>

lemma year_parts:
  fixes a b c e :: int
  assumes "0 \<le> b" "b \<le> 3" "0 \<le> c" "c \<le> 24" "0 \<le> e" "e \<le> 3"
  shows "year_start (400 * a + 100 * b + 4 * c + e + 1) = 146097 * a + 36524 * b + 1461 * c + 365 * e - 719162"
proof -
  have "(400 * a + 100 * b + 4 * c + e) div 4 = 100 * a + 25 * b + c" using assms by simp
  moreover have "(400 * a + 100 * b + 4 * c + e) div 100 = 4 * a + b" using assms by simp
  moreover have "(400 * a + 100 * b + 4 * c + e) div 400 = a" using assms by simp
  ultimately show ?thesis by (simp add: year_start_def)
qed

lemma year_of_day_bounds:
  "0 \<le> n - year_start (year_of_day n) \<and> n - year_start (year_of_day n) < 365 + leap_day (year_of_day n)"
proof -
  define d where "d = n + 719162"
  define a where "a = d div 146097"
  define d1 where "d1 = d mod 146097"
  define b where "b = min 3 (d1 div 36524)"
  define d2 where "d2 = d1 - 36524 * b"
  define c where "c = d2 div 1461"
  define d3 where "d3 = d2 mod 1461"
  define e where "e = min 3 (d3 div 365)"
  define r where "r = d3 - 365 * e"
  have y: "year_of_day n = 400 * a + 100 * b + 4 * c + e + 1"
    by (simp add: year_of_day_def Let_def a_def b_def c_def e_def d_def d1_def d2_def d3_def)
  have d1: "d = 146097 * a + d1" "0 \<le> d1" "d1 < 146097" by (simp_all add: a_def d1_def)
  have b: "0 \<le> b" "b \<le> 3" using d1 by (simp_all add: b_def)
  have d2: "0 \<le> d2" "d2 \<le> 36524" "d2 = 36524 \<Longrightarrow> b = 3"
  proof -
    define q where "q = d1 div 36524"
    have q: "36524 * q \<le> d1" "d1 < 36524 * q + 36524" "0 \<le> q" "q \<le> 4"
    proof -
      have "36524 * q + d1 mod 36524 = d1" by (simp add: q_def)
      moreover have "0 \<le> d1 mod 36524" "d1 mod 36524 < 36524" by simp_all
      ultimately show "36524 * q \<le> d1" "d1 < 36524 * q + 36524" "0 \<le> q" "q \<le> 4"
        using d1(2,3) by linarith+
    qed
    have "d2 = d1 - 36524 * min 3 q" by (simp add: d2_def b_def q_def)
    then show "0 \<le> d2" "d2 \<le> 36524" "d2 = 36524 \<Longrightarrow> b = 3"
      using q d1(3) by (auto simp: min_def b_def q_def [symmetric] split: if_splits)
  qed
  have "d2 = 1461 * c + d3" "0 \<le> d3" "d3 < 1461" by (simp_all add: c_def d3_def)
  with d2(1,2) have c: "0 \<le> c" "c \<le> 24" "d2 = 1461 * c + d3" "0 \<le> d3" "d3 < 1461" by linarith+
  have e: "0 \<le> e" "e \<le> 3" using c by (simp_all add: e_def)
  have r: "0 \<le> r" "r \<le> 365" "r = 365 \<Longrightarrow> e = 3 \<and> d3 = 1460"
  proof -
    have "365 * (d3 div 365) + d3 mod 365 = d3" "0 \<le> d3 mod 365" "d3 mod 365 < 365" by simp_all
    then show "0 \<le> r" "r \<le> 365" "r = 365 \<Longrightarrow> e = 3 \<and> d3 = 1460"
      using c(4,5) unfolding r_def e_def min_def by (smt (verit))+
  qed
  have ys: "n - year_start (year_of_day n) = r"
    using d1(1) c(3) year_parts [OF b c(1,2) e, of a] by (simp add: y r_def d2_def d_def)
  have "leap (year_of_day n)" if "r = 365"
  proof -
    have e3: "e = 3" and "d3 = 1460" using r(3) that by auto
    have b3: "c = 24 \<Longrightarrow> b = 3" using d2(3) c(3) \<open>d3 = 1460\<close> by simp
    have yy: "year_of_day n = 400 * a + 100 * b + 4 * (c + 1)" by (simp add: y e3)
    show ?thesis
    proof (cases "c = 24")
      case True
      then have "year_of_day n = 400 * (a + 1)" using b3 by (simp add: yy)
      then show ?thesis by (simp add: leap_def)
    next
      case False
      with c have "0 < 4 * (c + 1)" "4 * (c + 1) < 100" by auto
      then have "(400 * a + 100 * b + 4 * (c + 1)) mod 100 = 4 * (c + 1)"
        by (simp add: mod_add_left_eq [symmetric, of "400 * a + 100 * b"] mod_mult_self1_is_0)
      with \<open>0 < 4 * (c + 1)\<close> show ?thesis by (simp add: leap_def yy)
    qed
  qed
  with r ys show ?thesis by (cases "r = 365") (auto simp: leap_day_def)
qed

lemma mday_range:
  "1 \<le> mday_of_day n \<and> mday_of_day n \<le> month_length (year_of_day n) (month_of_day n)"
proof -
  define y where "y = year_of_day n"
  define r where "r = n - year_start y"
  have r: "0 \<le> r \<and> r < 365 + leap_day y"
    using year_of_day_bounds by (simp add: r_def y_def)
  show ?thesis
    using r by (simp add: mday_of_day_def month_of_day_def Let_def month_length_def month_of_yday_def month_start_def
        leap_day_def split: if_splits flip: y_def r_def)
qed

section \<open>Timestamps\<close>

lemma split10: "(n::int) = n div 10 * 10 + n mod 10" by simp

lemma digits_dd: "0 \<le> n \<Longrightarrow> n < 100 \<Longrightarrow> num_of (dd n) = n \<and> list_all is_digit (dd n) \<and> length (dd n) = 2"
proof -
  assume n: "0 \<le> n" "n < 100"
  then have "nat (n div 10 mod 10) < 10" "nat (n mod 10) < 10" "n div 10 mod 10 = n div 10" "0 \<le> n div 10" by simp_all
  with n show ?thesis by (simp add: dd_def num_of_def)
qed

lemma digits_pad4: "0 \<le> n \<Longrightarrow> n < 10000 \<Longrightarrow> num_of (pad4 n) = n \<and> list_all is_digit (pad4 n) \<and> length (pad4 n) = 4"
proof -
  assume n: "0 \<le> n" "n < 10000"
  define p where "p = n div 10"
  define q where "q = p div 10"
  define r where "r = q div 10"
  define c0 c1 c2 where "c0 = n mod 10" and "c1 = p mod 10" and "c2 = q mod 10"
  have d: "n div 100 = q" "n div 1000 = r" by (simp_all add: p_def q_def r_def zdiv_zmult2_eq [symmetric])
  have m: "n = p * 10 + c0" "p = q * 10 + c1" "q = r * 10 + c2"
    by (simp_all add: p_def q_def r_def c0_def c1_def c2_def)
  have rg: "0 \<le> c0" "c0 < 10" "0 \<le> c1" "c1 < 10" "0 \<le> c2" "c2 < 10"
    by (simp_all add: c0_def c1_def c2_def)
  with m n have r: "0 \<le> r" "r < 10" by linarith+
  then have "r mod 10 = r" by simp
  with rg r have f: "num_of (pad4 n) = ((r * 10 + c2) * 10 + c1) * 10 + c0" "list_all is_digit (pad4 n)"
    by (simp_all add: pad4_def num_of_def d p_def [symmetric] c0_def [symmetric] c1_def [symmetric] c2_def [symmetric])
  have "((r * 10 + c2) * 10 + c1) * 10 + c0 = n" unfolding m(1) m(2) m(3) by simp
  with f show ?thesis by (simp add: pad4_def)
qed

lemma parse_written:
  assumes "length y = 4" "length mo = 2" "length d = 2" "length h = 2" "length mi = 2" "length se = 2"
    and "list_all is_digit (y @ mo @ d @ h @ mi @ se)"
    and "1 \<le> num_of mo" "num_of mo \<le> 12" "1 \<le> num_of d" "num_of d \<le> month_length (num_of y) (num_of mo)"
      "num_of h < 24" "num_of mi < 60" "num_of se < 60"
  shows "parse_rfc3339 (y @ ''-'' @ mo @ ''-'' @ d @ ''T'' @ h @ '':'' @ mi @ '':'' @ se @ ''Z'') =
    Some (time_date utc (num_of y) (num_of mo) (num_of d) (num_of h) (num_of mi) (num_of se) 0)"
proof -
  let ?s = "y @ ''-'' @ mo @ ''-'' @ d @ ''T'' @ h @ '':'' @ mi @ '':'' @ se @ ''Z''"
  have l: "length ?s = 20" using assms(1-6) by simp
  have n: "?s ! 4 = CHR ''-''" "?s ! 7 = CHR ''-''" "?s ! 10 = CHR ''T''" "?s ! 13 = CHR '':''" "?s ! 16 = CHR '':''" "?s ! 19 = CHR ''Z''"
    using assms(1-6) by (simp_all add: nth_append)
  have t: "take 4 ?s = y" "take 2 (drop 5 ?s) = mo" "take 2 (drop 8 ?s) = d" "take 2 (drop 11 ?s) = h"
    "take 2 (drop 14 ?s) = mi" "take 2 (drop 17 ?s) = se"
    using assms(1-6) by simp_all
  show ?thesis
    unfolding parse_rfc3339_def l n t Let_def using assms(7-14) by simp
qed

lemma clock_parts:
  "time_date utc (t_year utc t) (t_month utc t) (t_day utc t) (t_hour utc t) (t_minute utc t) (t_second utc t) 0
     = t div second * second"
proof -
  have "days_of_civil (t_year utc t) (t_month utc t) (t_day utc t) = day_no utc t"
    by (rule days_of_civil_fields)
  moreover have "day_no utc t * 86400 + t_hour utc t * 3600 + t_minute utc t * 60 + t_second utc t = unix t"
    using split_seconds [of "unix t"] by (simp add: day_no_def t_hour_def t_minute_def t_second_def local_sec_def utc_def)
  ultimately show ?thesis by (simp add: time_date_def Let_def utc_def unix_def)
qed

lemma parse_format:
  assumes "0 \<le> t_year utc t" and "t_year utc t < 10000"
  shows "parse_rfc3339 (format_rfc3339 t) = Some (t div second * second)"
proof -
  have m: "1 \<le> t_month utc t" "t_month utc t \<le> 12" using month_of_day_range by (simp_all add: t_month_def)
  have d: "1 \<le> t_day utc t" "t_day utc t \<le> month_length (t_year utc t) (t_month utc t)"
    using mday_range by (simp_all add: t_day_def t_year_def t_month_def)
  have "month_length (t_year utc t) (t_month utc t) \<le> 31"
    using m by (simp add: month_length_def month_start_def leap_day_def)
  with d have d': "t_day utc t < 100" by simp
  have c: "0 \<le> t_hour utc t" "t_hour utc t < 24" "0 \<le> t_minute utc t" "t_minute utc t < 60" by (rule clock_ranges)+
  have s: "0 \<le> t_second utc t" "t_second utc t < 60" by (simp_all add: t_second_def)
  note dg = digits_pad4 [OF assms] digits_dd [of "t_month utc t"] digits_dd [of "t_day utc t"] digits_dd [of "t_hour utc t"]
    digits_dd [of "t_minute utc t"] digits_dd [of "t_second utc t"]
  show ?thesis
    unfolding format_rfc3339_def
    by (subst parse_written) (use dg m d d' c s in \<open>simp_all add: clock_parts\<close>)
qed
section \<open>The marker\<close>

lemma fingerprint_no_at: "CHR ''@'' \<notin> set (warningFingerprint warnings)"
proof -
  have "list_all (\<lambda>b. b < 256) (take 8 (Sum256 s))" for s
    using Sum256_bytes [of s] by (auto simp: list_all_iff dest: in_set_takeD)
  from hex_encode_chars [OF this] show ?thesis unfolding warningFingerprint_def by (auto dest!: subsetD)
qed

text \<open> What the watchdog stores after an alert is what the next sweep reads: the fingerprint of the
  warnings, and the time of the alert down to the second, in every year a timestamp of four digits
  can name. \<close>
theorem marker_roundtrip:
  assumes "0 \<le> t_year utc at" and "t_year utc at < 10000"
  shows "parseMarker (formatMarker (warningFingerprint warnings) at) =
    (warningFingerprint warnings, at div second * second, True)"
  using fingerprint_no_at by (simp add: parseMarker_def formatMarker_def split2_at parse_format [OF assms])

theorem marker_roundtrip_witness:
  "parseMarker (formatMarker (warningFingerprint [''the dispatcher has never run'']) (1785672000 * second + 7)) =
    (warningFingerprint [''the dispatcher has never run''], 1785672000 * second, True)"
proof -
  have y: "t_year utc (1785672000 * second + 7) = 2026" by code_simp
  have d: "(1785672000 * second + 7) div second * second = 1785672000 * second" by (simp add: second_def)
  show ?thesis using marker_roundtrip [of "1785672000 * second + 7"] unfolding y d by simp
qed

end
