(* ===== verification/JobStore.thy ===== *)
theory JobStore
  imports Store Scope
begin

text \<open>
  The statements of \<open>internal/repository/job_repo.go\<close>: job definitions, their headers, schedules and
  chain links, with what the schema refuses. A transaction is one statement: it takes effect as a
  whole or not at all, except that a sequence it has drawn from stays advanced.
\<close>

section \<open>Text as the database compares it\<close>

text \<open>\<open>lower\<close> and \<open>ILIKE\<close> fold ASCII letters (the C locale).\<close>

definition pg_lower :: "string \<Rightarrow> string" where
  "pg_lower s = map (\<lambda>c. if 65 \<le> (of_char c :: nat) \<and> (of_char c :: nat) \<le> 90 then char_of ((of_char c :: nat) + 32) else c) s"

text \<open>What Go has put in lower case stays as it is.\<close>

lemma pg_lower_lower:
  assumes "to_lower h = h"
  shows "pg_lower h = h"
proof -
  have "\<not> (65 \<le> byte c \<and> byte c \<le> 90)" if "c \<in> set h" for c
  proof
    assume c: "65 \<le> byte c \<and> byte c \<le> 90"
    with mem_runes_ascii [OF that] have "(byte c, [c]) \<in> set (runes (to_lower h))" by (simp add: ascii_def assms)
    from to_lower_rune [OF this] c show False by (simp add: lower_rune_def split: if_splits)
  qed
  then show ?thesis unfolding pg_lower_def by (intro map_idI) auto
qed

fun like_match :: "string list \<Rightarrow> string list \<Rightarrow> bool" where
  "like_match [] ts = (ts = [])"
| "like_match (p # ps) ts =
     (if p = ''%'' then like_match ps ts \<or> (case ts of [] \<Rightarrow> False | _ # ts' \<Rightarrow> like_match (p # ps) ts')
      else (case ts of [] \<Rightarrow> False | t # ts' \<Rightarrow>
        if p = ''_'' then like_match ps ts'
        else if p = [CHR 0x5C] then (case ps of [] \<Rightarrow> False | q # qs \<Rightarrow> q = t \<and> like_match qs ts')
        else p = t \<and> like_match ps ts'))"

definition ilike :: "string \<Rightarrow> string \<Rightarrow> bool" where
  "ilike s pat = like_match (map snd (runes (pg_lower pat))) (map snd (runes (pg_lower s)))"

definition in_scope :: "ProjectScope \<Rightarrow> int \<Rightarrow> bool" where
  "in_scope scope p \<longleftrightarrow> All scope \<or> p \<in> set (IDs scope)"

section \<open>Reading jobs\<close>

definition get_job :: "int \<Rightarrow> job statement" where
  "get_job i now d =
     ((case find (\<lambda>j. j_id j = i \<and> jt_deleted_at j = None) (jobs d) of
         None \<Rightarrow> Inl ErrNotFound | Some j \<Rightarrow> Inr (job.truncate j)), d)"

definition get_job_by_code :: "int \<Rightarrow> string \<Rightarrow> job statement" where
  "get_job_by_code projectID code now d =
     ((if \<not> pg_text code then Inl invalid_text
       else case find (\<lambda>j. j_project_id j = projectID \<and> pg_lower (j_code j) = pg_lower code \<and> jt_deleted_at j = None) (jobs d) of
         None \<Rightarrow> Inl ErrNotFound | Some j \<Rightarrow> Inr (job.truncate j)), d)"

record job_filter =
  jf_Scope :: ProjectScope
  jf_ProjectID :: "int option"
  jf_Tag :: "string option"
  jf_Active :: "bool option"
  jf_Search :: "string option"

text \<open>The clauses of \<open>jobFilterClauses\<close>; an absent or empty text adds none.\<close>

definition job_matches :: "job_filter \<Rightarrow> job_t \<Rightarrow> bool" where
  "job_matches f j \<longleftrightarrow> in_scope (jf_Scope f) (j_project_id j)
     \<and> (case jf_ProjectID f of None \<Rightarrow> True | Some p \<Rightarrow> j_project_id j = p)
     \<and> (case jf_Tag f of None \<Rightarrow> True | Some t \<Rightarrow> t = [] \<or> j_tag j = t)
     \<and> (case jf_Active f of None \<Rightarrow> True | Some b \<Rightarrow> j_active j = b)
     \<and> (case jf_Search f of None \<Rightarrow> True | Some q \<Rightarrow> q = []
         \<or> (let pat = ''%'' @ q @ ''%''
            in ilike (j_code j) pat \<or> ilike (j_name j) pat \<or> ilike (j_url j) pat \<or> ilike (j_description j) pat))"

definition job_filter_text :: "job_filter \<Rightarrow> bool" where
  "job_filter_text f \<longleftrightarrow> (case jf_Tag f of None \<Rightarrow> True | Some t \<Rightarrow> pg_text t)
     \<and> (case jf_Search f of None \<Rightarrow> True | Some q \<Rightarrow> pg_text q)"

definition listed_jobs :: "job_filter \<Rightarrow> db \<Rightarrow> job_t list" where
  "listed_jobs f d = filter (\<lambda>j. jt_deleted_at j = None \<and> job_matches f j) (jobs d)"

definition count_jobs :: "job_filter \<Rightarrow> int statement" where
  "count_jobs f now d = ((if \<not> job_filter_text f then Inl invalid_text else Inr (int (length (listed_jobs f d)))), d)"

text \<open>The aggregates of the list screen are lateral subqueries over the other tables.\<close>

definition runs_since :: "db \<Rightarrow> instant \<Rightarrow> int \<Rightarrow> string list \<Rightarrow> int" where
  "runs_since d since jobID statuses =
     int (length (filter (\<lambda>r. r_job_id r = jobID \<and> r_created_at r > since \<and> r_status r \<in> set statuses) (job_runs d)))"

definition job_row_of :: "db \<Rightarrow> instant \<Rightarrow> job_t \<Rightarrow> job_row" where
  "job_row_of d now j =
     (let p = find_project d (j_project_id j); day = now - 86400 * second in
      \<lparr>jr_job = job.truncate j,
       jr_project_name = (case p of None \<Rightarrow> [] | Some p \<Rightarrow> p_name p),
       jr_project_slug = (case p of None \<Rightarrow> [] | Some p \<Rightarrow> p_slug p),
       jr_schedules = sort (map sc_expression (filter (\<lambda>s. sc_job_id s = j_id j \<and> sc_active s) (job_schedules d))),
       jr_next_run = None,
       jr_day_success = runs_since d day (j_id j) [StatusSuccess],
       jr_day_failed = runs_since d day (j_id j) [StatusFailed, StatusTimeout],
       jr_day_timeout = runs_since d day (j_id j) [StatusTimeout],
       jr_link_count = int (length (filter (\<lambda>l. l_active l \<and> l_job_id l = j_id j) (job_links d))),
       jr_trigger_count = int (length (filter (\<lambda>l. l_active l \<and> l_target_job_id l = j_id j) (job_links d)))\<rparr>)"

definition negative_offset :: go_error where
  "negative_offset = ErrText ''pq: OFFSET must not be negative''"

definition list_job_rows :: "job_filter \<Rightarrow> int \<Rightarrow> int \<Rightarrow> job_row list statement" where
  "list_job_rows f offset limit now d =
     ((if \<not> job_filter_text f then Inl invalid_text
       else if offset < 0 then Inl negative_offset
       else Inr (map (job_row_of d now) (take (nat (clamp limit 1 500)) (drop (nat offset)
         (sort_key (\<lambda>j. ((case find_project d (j_project_id j) of None \<Rightarrow> [] | Some p \<Rightarrow> p_name p), j_priority j, j_code j))
           (filter (\<lambda>j. find_project d (j_project_id j) \<noteq> None) (listed_jobs f d))))))), d)"

definition list_options :: "ProjectScope \<Rightarrow> int \<Rightarrow> job_option list statement" where
  "list_options scope excludeID = query (\<lambda>d.
     sort_key (\<lambda>jo. (jo_project_slug jo, jo_code jo)) (concat (map (\<lambda>j. case find_project d (j_project_id j) of
         None \<Rightarrow> []
       | Some p \<Rightarrow> [\<lparr>jo_id = j_id j, jo_code = j_code j, jo_name = j_name j, jo_project_slug = p_slug p, jo_active = j_active j\<rparr>])
       (filter (\<lambda>j. jt_deleted_at j = None \<and> j_id j \<noteq> excludeID \<and> in_scope scope (j_project_id j)) (jobs d)))))"

definition list_tags :: "ProjectScope \<Rightarrow> string list statement" where
  "list_tags scope = query (\<lambda>d. sort (remdups (map j_tag
     (filter (\<lambda>j. jt_deleted_at j = None \<and> j_tag j \<noteq> [] \<and> in_scope scope (j_project_id j)) (jobs d)))))"

section \<open>Writing jobs\<close>

definition job_texts :: "job \<Rightarrow> bool" where
  "job_texts j \<longleftrightarrow> pg_text (j_code j) \<and> pg_text (j_name j) \<and> pg_text (j_description j) \<and> pg_text (j_tag j)
     \<and> pg_text (j_method j) \<and> pg_text (j_url j) \<and> pg_text (j_body j)"

definition job_ints :: "job \<Rightarrow> bool" where
  "job_ints j \<longleftrightarrow> int4 (j_timeout_sec j) \<and> int4 (j_max_duration_sec j) \<and> - 32768 \<le> j_retries j \<and> j_retries j \<le> 32767
     \<and> int4 (j_max_delay_min j) \<and> int4 (j_priority j) \<and> int4 (j_success_min j) \<and> int4 (j_success_max j)"

text \<open>The CHECK constraints, in the order of their names, which is the order they are tested in.\<close>

definition job_checks :: "job \<Rightarrow> (string \<times> bool) list" where
  "job_checks j =
     [(''jobs_check'', j_success_max j \<ge> j_success_min j),
      (''jobs_check1'', j_max_duration_sec j \<ge> j_timeout_sec j),
      (''jobs_max_delay_min_check'', 0 \<le> j_max_delay_min j \<and> j_max_delay_min j \<le> 1440),
      (''jobs_max_duration_sec_check'', 1 \<le> j_max_duration_sec j \<and> j_max_duration_sec j \<le> 86400),
      (''jobs_method_check'', j_method j \<in> {''GET'', ''POST'', ''PUT'', ''PATCH'', ''DELETE'', ''HEAD''}),
      (''jobs_retries_check'', 0 \<le> j_retries j \<and> j_retries j \<le> 5),
      (''jobs_success_max_check'', 100 \<le> j_success_max j \<and> j_success_max j \<le> 599),
      (''jobs_success_min_check'', 100 \<le> j_success_min j \<and> j_success_min j \<le> 599),
      (''jobs_timeout_sec_check'', 1 \<le> j_timeout_sec j \<and> j_timeout_sec j \<le> 600)]"

definition job_violation :: "job \<Rightarrow> string option" where
  "job_violation j = map_option fst (find (\<lambda>c. \<not> snd c) (job_checks j))"

text \<open>The partial unique index on \<open>(project_id, lower(code))\<close>: another live job under the same code.\<close>

definition code_taken :: "db \<Rightarrow> int \<Rightarrow> int \<Rightarrow> string \<Rightarrow> bool" where
  "code_taken d i projectID code \<longleftrightarrow>
     list_ex (\<lambda>j. j_id j \<noteq> i \<and> j_project_id j = projectID \<and> pg_lower (j_code j) = pg_lower code \<and> jt_deleted_at j = None) (jobs d)"

definition job_write_error :: "db \<Rightarrow> int \<Rightarrow> job \<Rightarrow> string \<Rightarrow> go_error option" where
  "job_write_error d i j code =
     (case job_violation j of
        Some c \<Rightarrow> Some (check_violation ''jobs'' c)
      | None \<Rightarrow>
          if code_taken d i (j_project_id j) code then Some ErrDuplicate
          else if find_project d (j_project_id j) = None then Some (fk_violation ''jobs'' ''jobs_project_id_fkey'')
          else if (case j_notification_id j of None \<Rightarrow> False
                   | Some n \<Rightarrow> \<not> list_ex (\<lambda>m. n_id m = n) (notifications d))
            then Some (fk_violation ''jobs'' ''jobs_notification_id_fkey'')
          else None)"

definition create_job :: "job \<Rightarrow> int statement" where
  "create_job j now d =
     (if \<not> job_texts j then (Inl invalid_text, d)
      else if \<not> job_ints j then (Inl out_of_range, d)
      else let i = jobs_seq d + 1; d1 = d\<lparr>jobs_seq := i\<rparr> in
        (case job_write_error d i j (j_code j) of
           Some e \<Rightarrow> (Inl e, d1)
         | None \<Rightarrow> (Inr i, d1\<lparr>jobs := jobs d @ [job.extend
             (j\<lparr>j_id := i, j_last_run_at := None, j_last_status := [], j_last_duration_ms := None,
                j_created_at := now, j_updated_at := None\<rparr>) (job_t.fields None)]\<rparr>)))"

text \<open>\<open>Update\<close> writes everything but the code.\<close>

definition edited :: "instant \<Rightarrow> job \<Rightarrow> job_t \<Rightarrow> job_t" where
  "edited now j r = r\<lparr>j_name := j_name j, j_description := j_description j, j_tag := j_tag j, j_method := j_method j,
     j_url := j_url j, j_body := j_body j, j_timeout_sec := j_timeout_sec j, j_max_duration_sec := j_max_duration_sec j,
     j_retries := j_retries j, j_single_run := j_single_run j, j_run_missed := j_run_missed j,
     j_max_delay_min := j_max_delay_min j, j_priority := j_priority j, j_success_min := j_success_min j,
     j_success_max := j_success_max j, j_notification_id := j_notification_id j, j_active := j_active j,
     j_project_id := j_project_id j, j_updated_at := Some now\<rparr>"

definition update_job :: "job \<Rightarrow> unit statement" where
  "update_job j now d =
     (if \<not> job_texts j then (Inl invalid_text, d)
      else if \<not> job_ints j then (Inl out_of_range, d)
      else case find (\<lambda>r. j_id r = j_id j \<and> jt_deleted_at r = None) (jobs d) of
          None \<Rightarrow> (Inr (), d)
        | Some r \<Rightarrow> (case job_write_error d (j_id j) j (j_code r) of
            Some e \<Rightarrow> (Inl e, d)
          | None \<Rightarrow> (Inr (), d\<lparr>jobs := update_where (\<lambda>r. j_id r = j_id j \<and> jt_deleted_at r = None) (edited now j) (jobs d)\<rparr>)))"

definition set_active :: "int \<Rightarrow> bool \<Rightarrow> unit statement" where
  "set_active i active now d =
     (Inr (), d\<lparr>jobs := update_where (\<lambda>j. j_id j = i \<and> jt_deleted_at j = None)
       (\<lambda>j. j\<lparr>j_active := active, j_updated_at := Some now\<rparr>) (jobs d)\<rparr>)"

definition soft_delete_job :: "int \<Rightarrow> instant \<Rightarrow> unit statement" where
  "soft_delete_job i at = exec (\<lambda>d. d\<lparr>jobs := update_where (\<lambda>j. j_id j = i)
     (\<lambda>j. j\<lparr>j_active := False, jt_deleted_at := Some at, j_updated_at := Some at\<rparr>) (jobs d)\<rparr>)"

section \<open>Headers\<close>

definition list_headers :: "int \<Rightarrow> job_header list statement" where
  "list_headers jobID = query (\<lambda>d. sort_key h_key (filter (\<lambda>h. h_job_id h = jobID) (job_headers d)))"

text \<open>One insert of \<open>ReplaceHeaders\<close>, with its \<open>ON CONFLICT (job_id, lower(key)) DO UPDATE\<close>.\<close>

definition upsert_header :: "int \<Rightarrow> job_header \<Rightarrow> db \<Rightarrow> db" where
  "upsert_header jobID h d =
     (let key = trim_space (h_key h); i = headers_seq d + 1;
          same = (\<lambda>x. h_job_id x = jobID \<and> pg_lower (h_key x) = pg_lower key)
      in if list_ex same (job_headers d)
         then d\<lparr>headers_seq := i, job_headers := update_where same (\<lambda>x. x\<lparr>h_value := h_value h, h_is_secret := h_is_secret h\<rparr>) (job_headers d)\<rparr>
         else d\<lparr>headers_seq := i, job_headers := job_headers d @ [\<lparr>h_id = i, h_job_id = jobID, h_key = key, h_value = h_value h, h_is_secret = h_is_secret h\<rparr>]\<rparr>)"

fun insert_headers :: "int \<Rightarrow> job_header list \<Rightarrow> db \<Rightarrow> go_error option \<times> db" where
  "insert_headers jobID [] d = (None, d)"
| "insert_headers jobID (h # hs) d =
     (if trim_space (h_key h) = [] then insert_headers jobID hs d
      else if \<not> pg_text (trim_space (h_key h)) \<or> \<not> pg_text (h_value h) then (Some invalid_text, d)
      else if find_job d jobID = None
        then (Some (fk_violation ''job_headers'' ''job_headers_job_id_fkey''), d\<lparr>headers_seq := headers_seq d + 1\<rparr>)
      else insert_headers jobID hs (upsert_header jobID h d))"

definition replace_headers :: "int \<Rightarrow> job_header list \<Rightarrow> unit statement" where
  "replace_headers jobID headers now d =
     (case insert_headers jobID headers (d\<lparr>job_headers := filter (\<lambda>h. h_job_id h \<noteq> jobID) (job_headers d)\<rparr>) of
        (Some e, d') \<Rightarrow> (Inl e, d\<lparr>headers_seq := headers_seq d'\<rparr>)
      | (None, d') \<Rightarrow> (Inr (), d'))"

section \<open>Schedules\<close>

definition list_schedules :: "int \<Rightarrow> job_schedule list statement" where
  "list_schedules jobID = query (\<lambda>d. sort_key sc_id (filter (\<lambda>s. sc_job_id s = jobID) (job_schedules d)))"

definition create_schedule :: "job_schedule \<Rightarrow> int statement" where
  "create_schedule s now d =
     (if \<not> pg_text (sc_expression s) then (Inl invalid_text, d)
      else let i = schedules_seq d + 1; d1 = d\<lparr>schedules_seq := i\<rparr> in
        if list_ex (\<lambda>x. sc_job_id x = sc_job_id s \<and> sc_expression x = sc_expression s) (job_schedules d) then (Inl ErrDuplicate, d1)
        else if find_job d (sc_job_id s) = None then (Inl (fk_violation ''job_schedules'' ''job_schedules_job_id_fkey''), d1)
        else (Inr i, d1\<lparr>job_schedules := job_schedules d @ [s\<lparr>sc_id := i, sc_created_at := now\<rparr>]\<rparr>))"

definition delete_schedule :: "int \<Rightarrow> int \<Rightarrow> unit statement" where
  "delete_schedule i jobID now d =
     (if list_ex (\<lambda>s. sc_id s = i \<and> sc_job_id s = jobID) (job_schedules d)
      then (Inr (), d\<lparr>job_schedules := filter (\<lambda>s. \<not> (sc_id s = i \<and> sc_job_id s = jobID)) (job_schedules d)\<rparr>)
      else (Inl ErrNotFound, d))"

definition count_schedules :: "int \<Rightarrow> int statement" where
  "count_schedules jobID = query (\<lambda>d. int (length (filter (\<lambda>s. sc_job_id s = jobID \<and> sc_active s) (job_schedules d))))"

definition upsert_schedule :: "int \<Rightarrow> instant \<Rightarrow> string \<Rightarrow> db \<Rightarrow> db" where
  "upsert_schedule jobID now e d =
     (let i = schedules_seq d + 1; same = (\<lambda>s. sc_job_id s = jobID \<and> sc_expression s = e)
      in if list_ex same (job_schedules d)
         then d\<lparr>schedules_seq := i, job_schedules := update_where same (\<lambda>s. s\<lparr>sc_active := True\<rparr>) (job_schedules d)\<rparr>
         else d\<lparr>schedules_seq := i, job_schedules := job_schedules d @
           [\<lparr>sc_id = i, sc_job_id = jobID, sc_expression = e, sc_active = True, sc_created_at = now\<rparr>]\<rparr>)"

fun insert_schedules :: "int \<Rightarrow> instant \<Rightarrow> string list \<Rightarrow> db \<Rightarrow> go_error option \<times> db" where
  "insert_schedules jobID now [] d = (None, d)"
| "insert_schedules jobID now (e0 # es) d =
     (let e = normalize_space e0 in
      if e = [] then insert_schedules jobID now es d
      else if \<not> pg_text e then (Some invalid_text, d)
      else if find_job d jobID = None
        then (Some (fk_violation ''job_schedules'' ''job_schedules_job_id_fkey''), d\<lparr>schedules_seq := schedules_seq d + 1\<rparr>)
      else insert_schedules jobID now es (upsert_schedule jobID now e d))"

definition replace_schedules :: "int \<Rightarrow> string list \<Rightarrow> unit statement" where
  "replace_schedules jobID expressions now d =
     (case insert_schedules jobID now expressions (d\<lparr>job_schedules := filter (\<lambda>s. sc_job_id s \<noteq> jobID) (job_schedules d)\<rparr>) of
        (Some e, d') \<Rightarrow> (Inl e, d\<lparr>schedules_seq := schedules_seq d'\<rparr>)
      | (None, d') \<Rightarrow> (Inr (), d'))"

section \<open>Chain links\<close>

definition link_row :: "db \<Rightarrow> job_link \<Rightarrow> (job_t \<times> job_t \<times> job_link_row) list" where
  "link_row d l = (case (find_job d (l_job_id l), find_job d (l_target_job_id l)) of
      (Some s, Some t) \<Rightarrow> [(s, t, job_link.extend l (job_link_row.fields (j_code t) (j_name t) (j_active t) (j_code s) (j_name s)))]
    | _ \<Rightarrow> [])"

definition list_links :: "int \<Rightarrow> job_link_row list statement" where
  "list_links jobID = query (\<lambda>d. sort_key (\<lambda>r. (l_delay_sec r, l_target_code r))
     (map (\<lambda>(s, t, r). r) (filter (\<lambda>(s, t, r). jt_deleted_at t = None)
       (concat (map (link_row d) (filter (\<lambda>l. l_job_id l = jobID) (job_links d)))))))"

definition list_triggers :: "int \<Rightarrow> job_link_row list statement" where
  "list_triggers jobID = query (\<lambda>d. sort_key l_source_code
     (map (\<lambda>(s, t, r). r) (filter (\<lambda>(s, t, r). jt_deleted_at s = None)
       (concat (map (link_row d) (filter (\<lambda>l. l_target_job_id l = jobID) (job_links d)))))))"

definition create_link :: "job_link \<Rightarrow> int statement" where
  "create_link l now d =
     (if \<not> pg_text (l_condition l) then (Inl invalid_text, d)
      else if \<not> int4 (l_delay_sec l) then (Inl out_of_range, d)
      else let i = links_seq d + 1; d1 = d\<lparr>links_seq := i\<rparr> in
        if l_job_id l = l_target_job_id l then (Inl (check_violation ''job_links'' ''job_links_check''), d1)
        else if l_condition l \<notin> {''success'', ''failure'', ''always''} then (Inl (check_violation ''job_links'' ''job_links_condition_check''), d1)
        else if l_delay_sec l < 0 \<or> l_delay_sec l > 3600 then (Inl (check_violation ''job_links'' ''job_links_delay_sec_check''), d1)
        else if list_ex (\<lambda>x. l_job_id x = l_job_id l \<and> l_target_job_id x = l_target_job_id l \<and> l_condition x = l_condition l) (job_links d)
          then (Inl ErrDuplicate, d1)
        else if find_job d (l_job_id l) = None then (Inl (fk_violation ''job_links'' ''job_links_job_id_fkey''), d1)
        else if find_job d (l_target_job_id l) = None then (Inl (fk_violation ''job_links'' ''job_links_target_job_id_fkey''), d1)
        else (Inr i, d1\<lparr>job_links := job_links d @ [l\<lparr>l_id := i, l_created_at := now\<rparr>]\<rparr>))"

definition delete_link :: "int \<Rightarrow> int \<Rightarrow> unit statement" where
  "delete_link i jobID now d =
     (if list_ex (\<lambda>l. l_id l = i \<and> l_job_id l = jobID) (job_links d)
      then (Inr (), d\<lparr>job_links := filter (\<lambda>l. \<not> (l_id l = i \<and> l_job_id l = jobID)) (job_links d)\<rparr>)
      else (Inl ErrNotFound, d))"

text \<open>The recursive query: is the target among the jobs reached over active links in at most \<open>n\<close> steps?\<close>

fun reaches :: "nat \<Rightarrow> db \<Rightarrow> int \<Rightarrow> int \<Rightarrow> bool" where
  "reaches 0 d i target \<longleftrightarrow> i = target"
| "reaches (Suc n) d i target \<longleftrightarrow> i = target
     \<or> list_ex (\<lambda>l. l_job_id l = i \<and> l_active l \<and> reaches n d (l_target_job_id l) target) (job_links d)"

definition reaches_job :: "int \<Rightarrow> int \<Rightarrow> int \<Rightarrow> bool statement" where
  "reaches_job fromID targetID maxDepth = query (\<lambda>d. reaches (nat maxDepth) d fromID targetID)"

end
