(* ===== verification/AccountStore.thy ===== *)
theory AccountStore
  imports JobStore
begin

text \<open>
  The statements of \<open>internal/repository/user_repo.go\<close> and \<open>password_reset_repo.go\<close>, with what the schema
  refuses: one live account per address in any casing, one row per token hash, a link belongs to an account.
\<close>

section \<open>Accounts\<close>

definition live_user :: "user_t \<Rightarrow> bool" where
  "live_user u \<longleftrightarrow> ut_deleted_at u = None"

definition get_user :: "int \<Rightarrow> user statement" where
  "get_user i now d =
     ((case find (\<lambda>u. u_id u = i \<and> live_user u) (users d) of
         None \<Rightarrow> Inl ErrNotFound | Some u \<Rightarrow> Inr (user.truncate u)), d)"

definition get_user_by_email :: "string \<Rightarrow> user statement" where
  "get_user_by_email email now d =
     ((if \<not> pg_text email then Inl invalid_text
       else case find (\<lambda>u. pg_lower (u_email u) = pg_lower email \<and> live_user u) (users d) of
         None \<Rightarrow> Inl ErrNotFound | Some u \<Rightarrow> Inr (user.truncate u)), d)"

definition user_matches :: "string \<Rightarrow> user_t \<Rightarrow> bool" where
  "user_matches search u \<longleftrightarrow> live_user u
     \<and> (search = [] \<or> (let pat = ''%'' @ search @ ''%'' in
          ilike (u_fullname u) pat \<or> ilike (u_email u) pat \<or> ilike (u_phone u) pat))"

definition count_matching_users :: "string \<Rightarrow> int statement" where
  "count_matching_users search now d =
     ((if \<not> pg_text search then Inl invalid_text
       else Inr (int (length (filter (user_matches search) (users d))))), d)"

definition list_users :: "string \<Rightarrow> int \<Rightarrow> int \<Rightarrow> user list statement" where
  "list_users search offset limit now d =
     ((if \<not> pg_text search then Inl invalid_text
       else if offset < 0 then Inl negative_offset
       else Inr (map user.truncate (take (nat (clamp limit 1 200)) (drop (nat offset)
         (sort_key (\<lambda>u. - u_id u) (filter (user_matches search) (users d))))))), d)"

definition count_users :: "int statement" where
  "count_users = query (\<lambda>d. int (length (filter live_user (users d))))"

definition user_texts :: "user \<Rightarrow> bool" where
  "user_texts u \<longleftrightarrow> pg_text (u_fullname u) \<and> pg_text (u_email u) \<and> pg_text (u_password u) \<and> pg_text (u_phone u)"

text \<open>The unique index on the address in lower case, over the accounts that are not deleted.\<close>

definition email_taken :: "db \<Rightarrow> int \<Rightarrow> string \<Rightarrow> bool" where
  "email_taken d i email \<longleftrightarrow>
     list_ex (\<lambda>u. u_id u \<noteq> i \<and> pg_lower (u_email u) = pg_lower email \<and> live_user u) (users d)"

definition new_user :: "int \<Rightarrow> instant \<Rightarrow> user \<Rightarrow> user_t" where
  "new_user i now u = user.extend
     (u\<lparr>u_id := i, u_last_login := None, u_tokens_valid_after := None, u_created_at := now, u_updated_at := None\<rparr>)
     (user_t.fields None)"

definition create_user :: "user \<Rightarrow> int statement" where
  "create_user u now d =
     (if \<not> user_texts u then (Inl invalid_text, d)
      else let i = users_seq d + 1; d1 = d\<lparr>users_seq := i\<rparr> in
        if email_taken d i (u_email u) then (Inl ErrDuplicate, d1)
        else (Inr i, d1\<lparr>users := users d @ [new_user i now u]\<rparr>))"

text \<open>One statement: the row is inserted only while no live account exists.\<close>

definition create_first_admin :: "user \<Rightarrow> int statement" where
  "create_first_admin u now d =
     (if \<not> user_texts u then (Inl invalid_text, d)
      else if list_ex live_user (users d) then (Inl ErrForbidden, d)
      else let i = users_seq d + 1 in
        (Inr i, d\<lparr>users_seq := i, users := users d @ [new_user i now (u\<lparr>u_is_admin := True, u_active := True\<rparr>)]\<rparr>))"

definition update_profile :: "user \<Rightarrow> unit statement" where
  "update_profile u now d =
     (if \<not> (pg_text (u_fullname u) \<and> pg_text (u_email u) \<and> pg_text (u_phone u)) then (Inl invalid_text, d)
      else if list_ex (\<lambda>x. u_id x = u_id u \<and> live_user x) (users d) \<and> email_taken d (u_id u) (u_email u)
        then (Inl ErrDuplicate, d)
      else (Inr (), d\<lparr>users := update_where (\<lambda>x. u_id x = u_id u \<and> live_user x)
        (\<lambda>x. x\<lparr>u_fullname := u_fullname u, u_email := u_email u, u_phone := u_phone u, u_is_admin := u_is_admin u,
               u_active := u_active u, u_updated_at := Some now\<rparr>) (users d)\<rparr>))"

definition on_user :: "int \<Rightarrow> (user_t \<Rightarrow> user_t) \<Rightarrow> unit statement" where
  "on_user i f = exec (\<lambda>d. d\<lparr>users := update_where (\<lambda>x. u_id x = i) f (users d)\<rparr>)"

definition update_password :: "int \<Rightarrow> string \<Rightarrow> instant \<Rightarrow> unit statement" where
  "update_password i hash at = on_user i
     (\<lambda>x. x\<lparr>u_password := hash, u_updated_at := Some at, u_tokens_valid_after := Some at\<rparr>)"

definition invalidate_tokens :: "int \<Rightarrow> instant \<Rightarrow> unit statement" where
  "invalidate_tokens i at = on_user i (\<lambda>x. x\<lparr>u_tokens_valid_after := Some at\<rparr>)"

definition touch_login :: "int \<Rightarrow> instant \<Rightarrow> unit statement" where
  "touch_login i at = on_user i (\<lambda>x. x\<lparr>u_last_login := Some at\<rparr>)"

definition soft_delete_user :: "int \<Rightarrow> instant \<Rightarrow> unit statement" where
  "soft_delete_user i at = on_user i
     (\<lambda>x. x\<lparr>u_active := False, ut_deleted_at := Some at, u_updated_at := Some at, u_tokens_valid_after := Some at\<rparr>)"

section \<open>Reset links\<close>

definition create_reset :: "password_reset \<Rightarrow> int statement" where
  "create_reset r now d =
     (if \<not> pg_text (ps_token_hash r) then (Inl invalid_text, d)
      else let i = resets_seq d + 1; d1 = d\<lparr>resets_seq := i\<rparr> in
        if list_ex (\<lambda>x. ps_token_hash x = ps_token_hash r) (password_resets d) then (Inl ErrDuplicate, d1)
        else if \<not> list_ex (\<lambda>x. u_id x = ps_user_id r) (users d)
          then (Inl (fk_violation ''password_resets'' ''password_resets_user_id_fkey''), d1)
        else (Inr i, d1\<lparr>password_resets := password_resets d
            @ [r\<lparr>ps_id := i, ps_used_at := None, ps_created_at := now\<rparr>]\<rparr>))"

definition find_reset :: "string \<Rightarrow> password_reset statement" where
  "find_reset hash now d =
     ((if \<not> pg_text hash then Inl invalid_text
       else case find (\<lambda>r. ps_token_hash r = hash) (password_resets d) of
         None \<Rightarrow> Inl ErrNotFound | Some r \<Rightarrow> Inr r), d)"

text \<open>The account of the link, read by the statement itself.\<close>

definition reset_owner :: "db \<Rightarrow> int \<Rightarrow> int option" where
  "reset_owner d i = map_option ps_user_id (find (\<lambda>r. ps_id r = i) (password_resets d))"

definition mark_used :: "int \<Rightarrow> instant \<Rightarrow> unit statement" where
  "mark_used i at = exec (\<lambda>d. d\<lparr>password_resets :=
     update_where (\<lambda>r. ps_used_at r = None \<and> reset_owner d i = Some (ps_user_id r))
       (\<lambda>r. r\<lparr>ps_used_at := Some at\<rparr>) (password_resets d)\<rparr>)"

definition expired_reset :: "instant \<Rightarrow> password_reset \<Rightarrow> bool" where
  "expired_reset before r \<longleftrightarrow> ps_expires_at r < before \<or> ps_used_at r \<noteq> None"

definition delete_expired :: "instant \<Rightarrow> int statement" where
  "delete_expired before now d =
     (Inr (int (length (filter (expired_reset before) (password_resets d)))),
      d\<lparr>password_resets := filter (\<lambda>r. \<not> expired_reset before r) (password_resets d)\<rparr>)"

end
