(* ===== verification/WatchdogProps.thy ===== *)
theory WatchdogProps
  imports WatchdogFacts WatchdogMarker RunnerProps AccountStore
begin

text \<open>
  The properties of the watchdog: which runs a sweep closes and which rows it leaves, that no failure
  of a step goes unreported, when an alert is repeated, and the run that can no longer be closed.
\<close>

section \<open>Steps that leave the runs alone\<close>

definition same_runs :: "'w world_scheme \<Rightarrow> 'w world_scheme \<Rightarrow> bool" where
  "same_runs w w' \<longleftrightarrow> (quiet w \<longrightarrow> quiet w' \<and> w_now w' = w_now w \<and> job_runs (w_db w') = job_runs (w_db w) \<and> jobs (w_db w') = jobs (w_db w))"

interpretation sr: frame same_runs
  by unfold_locales (auto simp: same_runs_def)

lemma same_runs_stmt:
  assumes "\<And>now d. job_runs (snd (f now d)) = job_runs d \<and> jobs (snd (f now d)) = jobs d"
  shows "keeps same_runs (stmt f)"
  using assms by (auto simp: keeps_def same_runs_def stmt_quiet quiet_def)

lemma same_runs_calls:
  "keeps same_runs (wr_DBTime exec_watchdog)" "keeps same_runs (wr_CountStalePending exec_watchdog th)"
  "keeps same_runs (wr_ReadHeartbeat exec_watchdog)" "keeps same_runs (wr_ListFailingJobs exec_watchdog a b)"
  "keeps same_runs (wr_PurgeAppLogs exec_watchdog a)" "keeps same_runs (wr_SetWarningMarker exec_watchdog m)"
  "keeps same_runs app_now"
  by (auto simp: exec_watchdog_def db_time_def count_stale_pending_def read_heartbeat_def list_failing_jobs_def
      purge_app_logs_def set_warning_marker_def query_at_def query_def exec_def intro!: same_runs_stmt)
    (auto simp: keeps_def app_now_def same_runs_def quiet_def split: list.splits)

lemma same_runs_enqueue: "keeps same_runs (enqueue to subject body)"
  by (simp add: keeps_def enqueue_def same_runs_def quiet_def)

lemma same_runs_alert: "keeps same_runs (alert exec_watchdog wd hb res)"
proof -
  have m: "keeps same_runs (alert_mail exec_watchdog wd fp res)" for fp
    unfolding alert_mail_def notify_alert_def
    by (intro sr.keeps_rules same_runs_calls same_runs_enqueue)
  show ?thesis
    unfolding alert_def Let_def
    by (cases hb; simp only: option.case)
      (intro sr.keeps_if sr.keeps_prod sr.keeps_bind sr.keeps_return same_runs_calls m)+
qed

lemma same_runs_steps:
  "keeps same_runs (sweep_stale exec_watchdog res)" "keeps same_runs (sweep_pulse exec_watchdog wd res)"
  "keeps same_runs (sweep_failing exec_watchdog wd res)" "keeps same_runs (sweep_purge_logs exec_watchdog wd res)"
  unfolding sweep_stale_def sweep_pulse_def sweep_failing_def sweep_purge_logs_def Let_def
  by (intro sr.keeps_rules same_runs_calls | simp add: sr.keeps_return)+

section \<open>What a sweep does to the runs\<close>

definition fits :: "db \<Rightarrow> instant \<Rightarrow> bool" where
  "fits d now \<longleftrightarrow> (\<forall>r\<in>set (job_runs d). stuck d now r \<longrightarrow> r_duration_ms r = None \<longrightarrow> int4 (elapsed_ms now (r_started_at r)))"

definition after_closing :: "db \<Rightarrow> instant \<Rightarrow> run \<Rightarrow> run" where
  "after_closing d now r = (if fits d now \<and> stuck d now r then close_stuck_row now r else r)"

text \<open>The statement that prunes the reset links, attached or not.\<close>

definition reset_pruning :: "(instant \<Rightarrow> ('w world_scheme, int) call) option \<Rightarrow> bool" where
  "reset_pruning resets \<longleftrightarrow> resets = None \<or> resets = Some (\<lambda>t. stmt (delete_expired t))"

lemma delete_none: "delete_runs [] d = d"
proof -
  have "map (\<lambda>r. case r_parent_run_id r of None \<Rightarrow> r | Some p \<Rightarrow> if p \<in> set [] then r\<lparr>r_parent_run_id := None\<rparr> else r) rs = rs" for rs :: "run list"
    by (rule map_idI) (auto split: option.split)
  then show ?thesis by (simp add: delete_runs_def)
qed

lemma job_runs_delete: "job_runs d = rs \<Longrightarrow> job_runs (delete_runs ids d) = job_runs (delete_runs ids (e\<lparr>job_runs := rs\<rparr>))"
  by (simp add: delete_runs_def)

lemma same_runs_resets:
  assumes "reset_pruning resets"
  shows "keeps same_runs (sweep_purge_resets resets res)"
proof -
  have "keeps same_runs (stmt (delete_expired t))" for t
    by (rule same_runs_stmt) (simp add: delete_expired_def)
  with assms show ?thesis
    unfolding sweep_purge_resets_def reset_pruning_def
    by (elim disjE; simp) (intro sr.keeps_rules same_runs_calls | simp add: sr.keeps_return)+
qed

lemma sweep_runs:
  fixes w w' :: "'w rworld_scheme"
  assumes "quiet w" and "reset_pruning resets" and "run_state (Sweep exec_watchdog resets wd) w = (res, w')"
  shows "\<exists>ids. job_runs (w_db w') = job_runs (delete_runs ids ((w_db w)\<lparr>job_runs := map (after_closing (w_db w) (w_now w)) (job_runs (w_db w))\<rparr>))
    \<and> (\<forall>i\<in>set ids. wd_RunRetentionDays wd > 0
        \<and> (\<exists>r\<in>set (job_runs (w_db w)). r_id r = i \<and> r_created_at r < w_now w - days (wd_RunRetentionDays wd)))"
proof -
  let ?d = "w_db w" and ?now = "w_now w"
  let ?closed = "map (after_closing ?d ?now) (job_runs ?d)"
  obtain r1 w1 where 1: "run_state (sweep_stuck exec_watchdog no_sweep) w = (r1, w1)" by fastforce
  have "snd (close_stuck_runs ?now ?d) = ?d\<lparr>job_runs := ?closed\<rparr>"
  proof (cases "fits ?d ?now")
    case True
    then have "\<not> list_ex (\<lambda>r. r_duration_ms r = None \<and> \<not> int4 (elapsed_ms ?now (r_started_at r))) (filter (stuck ?d ?now) (job_runs ?d))"
      by (auto simp: fits_def list_ex_iff)
    with True show ?thesis by (auto simp: close_stuck_runs_def update_where_def after_closing_def)
  next
    case False
    then have "list_ex (\<lambda>r. r_duration_ms r = None \<and> \<not> int4 (elapsed_ms ?now (r_started_at r))) (filter (stuck ?d ?now) (job_runs ?d))"
      by (auto simp: fits_def list_ex_iff)
    moreover have "after_closing ?d ?now = id" using False by (simp add: after_closing_def fun_eq_iff)
    ultimately show ?thesis by (simp add: close_stuck_runs_def)
  qed
  with 1 assms(1) have w1: "w1 = w\<lparr>w_db := ?d\<lparr>job_runs := ?closed\<rparr>\<rparr>"
    by (cases "close_stuck_runs ?now ?d")
      (auto simp: sweep_stuck_def exec_watchdog_def stmt_quiet quiet_def Let_def split: if_splits sum.splits)
  obtain r2 w2 where 2: "run_state (sweep_stale exec_watchdog r1) w1 = (r2, w2)" by fastforce
  obtain s w3 where 3: "run_state (sweep_pulse exec_watchdog wd r2) w2 = (s, w3)" by fastforce
  obtain r4 w4 where 4: "run_state (sweep_failing exec_watchdog wd (fst s)) w3 = (r4, w4)" by fastforce
  obtain r5 w5 where 5: "run_state (sweep_purge_runs exec_watchdog wd r4) w4 = (r5, w5)" by fastforce
  obtain r6 w6 where 6: "run_state (sweep_purge_logs exec_watchdog wd r5) w5 = (r6, w6)" by fastforce
  obtain r7 w7 where 7: "run_state (sweep_purge_resets resets r6) w6 = (r7, w7)" by fastforce
  from assms(3) 1 2 3 4 5 6 7 have 8: "run_state (alert exec_watchdog wd (snd s) r7) w7 = (res, w')"
    by (auto simp: Sweep_def)
  have q1: "quiet w1" using assms(1) by (simp add: w1 quiet_def)
  from keepsD [OF same_runs_steps(1) 2] keepsD [OF same_runs_steps(2) 3] keepsD [OF same_runs_steps(3) 4] q1
  have q4: "quiet w4" "w_now w4 = ?now" "job_runs (w_db w4) = ?closed"
    by (simp_all add: same_runs_def w1)
  define ids where "ids = (if wd_RunRetentionDays wd > 0 then purgeable ?now (wd_RunRetentionDays wd) purgeBatch (w_db w4) else [])"
  from 5 q4 have w5: "w_db w5 = (if wd_RunRetentionDays wd > 0 then delete_runs ids (w_db w4) else w_db w4)" "quiet w5"
    by (auto simp: sweep_purge_runs_def exec_watchdog_def stmt_quiet quiet_def purge_runs_def ids_def Let_def split: if_splits)
  from keepsD [OF same_runs_steps(4) 6] keepsD [OF same_runs_resets [OF assms(2)] 7] keepsD [OF same_runs_alert 8] w5(2)
  have "job_runs (w_db w') = job_runs (w_db w5)" by (simp add: same_runs_def)
  moreover have "job_runs (w_db w5) = job_runs (delete_runs ids (?d\<lparr>job_runs := ?closed\<rparr>))"
    using w5(1) q4(3) by (auto simp: ids_def job_runs_delete delete_none)
  moreover have "r_id (after_closing ?d ?now r) = r_id r \<and> r_created_at (after_closing ?d ?now r) = r_created_at r" for r
    by (simp add: after_closing_def close_stuck_row_def)
  then have "\<forall>i\<in>set ids. wd_RunRetentionDays wd > 0
        \<and> (\<exists>r\<in>set (job_runs ?d). r_id r = i \<and> r_created_at r < ?now - days (wd_RunRetentionDays wd))"
    using q4(3) by (auto simp: ids_def purgeable_def dest!: in_set_takeD) (metis (no_types, lifting))
  ultimately show ?thesis by (intro exI [of _ ids]) simp
qed

lemma delete_runs_rows:
  "r \<in> set (job_runs (delete_runs ids d)) \<Longrightarrow>
     \<exists>r0\<in>set (job_runs d). r_id r0 \<notin> set ids \<and> r_id r = r_id r0 \<and> r_status r = r_status r0
       \<and> r_started_at r = r_started_at r0 \<and> r_job_id r = r_job_id r0"
  by (auto simp: delete_runs_def split: option.splits if_splits)

lemma delete_runs_keeps:
  "r0 \<in> set (job_runs d) \<Longrightarrow> r_id r0 \<notin> set ids \<Longrightarrow>
     \<exists>r\<in>set (job_runs (delete_runs ids d)). r_id r = r_id r0 \<and> r_status r = r_status r0"
  by (force simp: delete_runs_def split: option.splits)

lemma after_closing_fields [simp]:
  "r_id (after_closing d now r) = r_id r" "r_job_id (after_closing d now r) = r_job_id r"
  "r_started_at (after_closing d now r) = r_started_at r"
  "r_status (after_closing d now r) = (if fits d now \<and> stuck d now r then StatusTimeout else r_status r)"
  by (simp_all add: after_closing_def close_stuck_row_def)

text \<open> C14. What a sweep that nobody interferes with does to the runs. Where the duration of every stuck run fits its
  column, exactly the stuck runs are closed, as timeouts, and afterwards no run is stuck; otherwise the closing
  update fails as a whole and every run keeps its status. Either way each row left is one that was there, and no
  row is removed unless a retention is set and the row is older. \<close>
theorem sweep_closes_exactly_the_stuck:
  fixes w w' :: "'w rworld_scheme"
  assumes "quiet w" and "reset_pruning resets" and "distinct (map r_id (job_runs (w_db w)))"
    and "run_state (Sweep exec_watchdog resets wd) w = (res, w')"
  shows "(\<forall>r\<in>set (job_runs (w_db w')). \<exists>r0\<in>set (job_runs (w_db w)). r_id r = r_id r0
          \<and> r_status r = (if fits (w_db w) (w_now w) \<and> stuck (w_db w) (w_now w) r0 then StatusTimeout else r_status r0))
    \<and> (\<forall>r0\<in>set (job_runs (w_db w)). wd_RunRetentionDays wd \<le> 0 \<or> w_now w - days (wd_RunRetentionDays wd) \<le> r_created_at r0
          \<longrightarrow> (\<exists>r\<in>set (job_runs (w_db w')). r_id r = r_id r0
            \<and> r_status r = (if fits (w_db w) (w_now w) \<and> stuck (w_db w) (w_now w) r0 then StatusTimeout else r_status r0)))
    \<and> (fits (w_db w) (w_now w) \<longrightarrow> (\<forall>r\<in>set (job_runs (w_db w')). \<not> stuck (w_db w) (w_now w) r))"
proof -
  let ?d = "w_db w" and ?now = "w_now w"
  let ?e = "?d\<lparr>job_runs := map (after_closing ?d ?now) (job_runs ?d)\<rparr>"
  from sweep_runs [OF assms(1,2,4)] obtain ids where
    j: "job_runs (w_db w') = job_runs (delete_runs ids ?e)" and
    old: "\<forall>i\<in>set ids. wd_RunRetentionDays wd > 0
        \<and> (\<exists>r\<in>set (job_runs ?d). r_id r = i \<and> r_created_at r < ?now - days (wd_RunRetentionDays wd))" by blast
  have rows: "\<exists>r0\<in>set (job_runs ?d). r_id r = r_id r0 \<and> r_job_id r = r_job_id r0 \<and> r_started_at r = r_started_at r0
      \<and> r_status r = (if fits ?d ?now \<and> stuck ?d ?now r0 then StatusTimeout else r_status r0)"
    if "r \<in> set (job_runs (w_db w'))" for r
    using delete_runs_rows [OF that [unfolded j]] by force
  have kept: "\<exists>r\<in>set (job_runs (w_db w')). r_id r = r_id r0 \<and> r_status r = (if fits ?d ?now \<and> stuck ?d ?now r0 then StatusTimeout else r_status r0)"
    if r0: "r0 \<in> set (job_runs ?d)" and "wd_RunRetentionDays wd \<le> 0 \<or> ?now - days (wd_RunRetentionDays wd) \<le> r_created_at r0" for r0
  proof -
    have "r_id r0 \<notin> set ids"
    proof
      assume "r_id r0 \<in> set ids"
      with old obtain r where r: "r \<in> set (job_runs ?d)" "r_id r = r_id r0" "0 < wd_RunRetentionDays wd"
        "r_created_at r < ?now - days (wd_RunRetentionDays wd)" by blast
      with assms(3) r0 have "r = r0" by (auto simp: distinct_map inj_on_def)
      with r that(2) show False by simp
    qed
    with r0 delete_runs_keeps [of "after_closing ?d ?now r0" ?e ids] show ?thesis by (simp add: j)
  qed
  have "\<not> stuck ?d ?now r" if "r \<in> set (job_runs (w_db w'))" and ok: "fits ?d ?now" for r
  proof
    assume st: "stuck ?d ?now r"
    from rows [OF that(1)] obtain r0 where r0: "r_job_id r = r_job_id r0" "r_started_at r = r_started_at r0"
      "r_status r = (if fits ?d ?now \<and> stuck ?d ?now r0 then StatusTimeout else r_status r0)" by blast
    from st have run: "r_status r = StatusRunning" by (simp add: stuck_def)
    with r0(3) ok have "\<not> stuck ?d ?now r0" "r_status r = r_status r0" by (auto split: if_splits)
    with st r0(1,2) show False by (simp add: stuck_def)
  qed
  with rows kept show ?thesis by blast
qed

definition demo_watchdog :: watchdog where
  "demo_watchdog = NewWatchdog \<lparr>wd_HeartbeatLimitMin = 0, wd_DriftLimitSec = 0, wd_RunRetentionDays = 0, wd_LogRetentionDays = 0,
     wd_FailureThreshold = 0, wd_AlertTo = [''ops@shop.test''], wd_AlertRepeat = 0, wd_notifier = True, wd_baseURL = []\<rparr>"

text \<open>An hour after 1970-01-01, with a run of a job that may take 300 seconds running since then.\<close>

definition sweep_world :: rworld where
  "sweep_world = (run_world [])\<lparr>w_now := 3600 * second,
     w_db := run_db\<lparr>heartbeat_row := Some \<lparr>hb_last_run = 0, hb_app_time = None, hb_drift_sec = 0, hb_instance_id = [], hb_note = []\<rparr>\<rparr>\<rparr>"

lemma sweep_world_fits: "quiet sweep_world" "fits (w_db sweep_world) (w_now sweep_world)"
  "distinct (map r_id (job_runs (w_db sweep_world)))" "r \<in> set (job_runs (w_db sweep_world)) \<Longrightarrow> stuck (w_db sweep_world) (w_now sweep_world) r"
proof -
  have "int4 (elapsed_ms (3600 * second) (Some 0))" by code_simp
  then show "fits (w_db sweep_world) (w_now sweep_world)" by (simp add: fits_def sweep_world_def run_db_def new_run_def)
  show "r \<in> set (job_runs (w_db sweep_world)) \<Longrightarrow> stuck (w_db sweep_world) (w_now sweep_world) r"
    by (simp add: sweep_world_def run_db_def new_run_def stuck_def find_job_def demo_db_def demo_job_def seconds_def second_def)
qed (simp_all add: quiet_def sweep_world_def run_world_def run_db_def new_run_def)

theorem sweep_closes_exactly_the_stuck_witness:
  "\<exists>r\<in>set (job_runs (w_db (snd (run_state (Sweep exec_watchdog (Some (\<lambda>t. stmt (delete_expired t))) demo_watchdog) sweep_world)))). r_id r = 1 \<and> r_status r = StatusTimeout"
proof -
  have "hd (job_runs run_db) \<in> set (job_runs (w_db sweep_world))" "r_id (hd (job_runs run_db)) = 1"
    by (simp_all add: sweep_world_def run_db_def new_run_def)
  moreover have "reset_pruning (Some (\<lambda>t. stmt (delete_expired t)))" by (simp add: reset_pruning_def)
  ultimately show ?thesis
    using sweep_closes_exactly_the_stuck [OF sweep_world_fits(1) _ sweep_world_fits(3) surjective_pairing,
        of "Some (\<lambda>t. stmt (delete_expired t))" demo_watchdog] sweep_world_fits(2,4)
    by (force simp: demo_watchdog_def NewWatchdog_def)
qed

text \<open> C32. No failure of a sweep is silent and none stops it. Over any repository, whatever its calls answer and for
  whatever reason they fail, a sweep issues all of them, one after the other, and its warnings are exactly the lines their
  answers give; each of the eight calls before the alert that fails leaves a line of its own with the
  error. The one failure that leaves none is that of writing the alert's marker, after them. \<close>
theorem sweep_reports_every_failure:
  fixes repo :: "'w rworld_scheme WatchdogRepository"
  assumes "run_state (Sweep repo resets wd) w = (res, w')"
  shows "\<exists>a v. run_state (ask repo resets wd) w = (a, v) \<and> sw_Warnings res = told wd a
    \<and> (\<forall>e. (an_stuck a = Inl e \<longrightarrow> ''stuck runs could not be closed: '' @ err_text e \<in> set (sw_Warnings res))
      \<and> (an_stale a = Inl e \<longrightarrow> ''pending runs could not be counted: '' @ err_text e \<in> set (sw_Warnings res))
      \<and> (an_time a = Inl e \<longrightarrow> ''database time could not be read: '' @ err_text e \<in> set (sw_Warnings res))
      \<and> (an_pulse a = Inl e \<longrightarrow> ''heartbeat could not be read: '' @ err_text e \<in> set (sw_Warnings res))
      \<and> (an_failing a = Inl e \<longrightarrow> ''failing jobs could not be listed: '' @ err_text e \<in> set (sw_Warnings res))
      \<and> (an_runs a = Some (Inl e) \<longrightarrow> ''run history could not be pruned: '' @ err_text e \<in> set (sw_Warnings res))
      \<and> (an_logs a = Some (Inl e) \<longrightarrow> ''application logs could not be pruned: '' @ err_text e \<in> set (sw_Warnings res))
      \<and> (an_resets a = Some (Inl e) \<longrightarrow> ''reset links could not be pruned: '' @ err_text e \<in> set (sw_Warnings res)))"
proof -
  from assms obtain a v res0 where a: "run_state (ask repo resets wd) w = (a, v)" "sw_Warnings res0 = told wd a"
    and "run_state (alert repo wd (case an_pulse a of Inl _ \<Rightarrow> None | Inr h \<Rightarrow> h) res0) v = (res, w')"
    by (rule Sweep_asks)
  from alert_keeps_warnings [OF this(3)] a(2) have "sw_Warnings res = told wd a" by simp
  with a(1) show ?thesis
    by (auto simp: told_def stuck_lines_def stale_lines_def time_lines_def pulse_lines_def failing_lines_def purge_lines_def)
qed

definition broken_world :: rworld where
  "broken_world = sweep_world\<lparr>w_events := [\<lparr>ev_env = (\<lambda>d. d), ev_now = 0, ev_fault = FailBefore ''down''\<rparr>]\<rparr>"

theorem sweep_reports_every_failure_witness:
  "''stuck runs could not be closed: down'' \<in> set (sw_Warnings (fst (run_state (Sweep exec_watchdog None demo_watchdog) broken_world)))"
proof -
  obtain res w' where r: "run_state (Sweep exec_watchdog None demo_watchdog) broken_world = (res, w')" by fastforce
  from sweep_reports_every_failure [OF r] obtain a v where a: "run_state (ask exec_watchdog None demo_watchdog) broken_world = (a, v)"
    "an_stuck a = Inl (ErrText ''down'') \<longrightarrow> ''stuck runs could not be closed: '' @ err_text (ErrText ''down'') \<in> set (sw_Warnings res)"
    by blast
  have "fst (run_state (wr_CloseStuckRuns exec_watchdog) broken_world) = Inl (ErrText ''down'')"
    by (simp add: exec_watchdog_def stmt_def broken_world_def)
  with a(1) have "an_stuck a = Inl (ErrText ''down'')"
    by (auto simp: ask_def split: prod.splits)
  with a(2) r show ?thesis by simp
qed

section \<open>The alert\<close>



















text \<open> One run keeps every other one open: a running row that was started more than 2147483648
  milliseconds (24.8 days) ago has a duration that no longer fits its column, so the closing update
  fails as a whole, and neither it nor any other stuck run is closed, in this sweep or a later one. \<close>
theorem old_stuck_run_blocks_closing:
  assumes "r \<in> set (job_runs d)" and "stuck d now r" and "r_duration_ms r = None" and "r_started_at r = Some t"
    and "2147483648000000 \<le> now - t"
  shows "close_stuck_runs now d = (Inl out_of_range, d)"
proof -
  have "2 * 2147483648000000 + 1000000 \<le> 2 * (now - t) + sgn (now - t) * 1000000" using assms(5) by simp
  then have "2147483648 \<le> elapsed_ms now (r_started_at r)"
    using assms(5) by (simp add: elapsed_ms_def assms(4) quot_def)
  then have "\<not> int4 (elapsed_ms now (r_started_at r))" by (simp add: int4_def)
  with assms(1-3) show ?thesis by (auto simp: close_stuck_runs_def Let_def list_ex_iff)
qed

theorem old_stuck_run_blocks_closing_witness:
  "close_stuck_runs demo_now run_db = (Inl out_of_range, run_db)"
proof (rule old_stuck_run_blocks_closing [of "hd (job_runs run_db)" _ _ 0])
  show "hd (job_runs run_db) \<in> set (job_runs run_db)" by (simp add: run_db_def)
  show "stuck run_db demo_now (hd (job_runs run_db))"
    by (simp add: run_db_def new_run_def stuck_def find_job_def demo_db_def demo_job_def seconds_def second_def demo_now_def)
qed (simp_all add: run_db_def new_run_def demo_now_def)

end
