(* ===== verification/RunStore.thy ===== *)
theory RunStore
  imports JobStore
begin

text \<open>
  The statements of \<open>internal/repository/run_repo.go\<close>: reading the history, and opening a pending row
  outside the dispatcher. The project statements the job service uses are here too.
\<close>

section \<open>Projects\<close>

definition get_project :: "int \<Rightarrow> project statement" where
  "get_project i now d =
     ((case find (\<lambda>p. p_id p = i \<and> pt_deleted_at p = None) (projects d) of
         None \<Rightarrow> Inl ErrNotFound | Some p \<Rightarrow> Inr (project.truncate p)), d)"

section \<open>History\<close>

record run_row = run +
  rw_job_code :: string
  rw_job_name :: string
  rw_project_slug :: string
  rw_project_name :: string

text \<open>The join of a run with its job and its project.\<close>

definition run_row_of :: "db \<Rightarrow> run \<Rightarrow> (job_t \<times> run_row) list" where
  "run_row_of d r = (case find_job d (r_job_id r) of None \<Rightarrow> [] | Some j \<Rightarrow>
      (case find_project d (j_project_id j) of None \<Rightarrow> [] | Some p \<Rightarrow>
        [(j, run.extend r (run_row.fields (j_code j) (j_name j) (p_slug p) (p_name p)))]))"

definition get_run_row :: "int \<Rightarrow> run_row statement" where
  "get_run_row i now d =
     ((case concat (map (run_row_of d) (filter (\<lambda>r. r_id r = i) (job_runs d))) of
         [] \<Rightarrow> Inl ErrNotFound | (_, row) # _ \<Rightarrow> Inr row), d)"

record run_filter =
  rf_Scope :: ProjectScope
  rf_JobID :: "int option"
  rf_ProjectID :: "int option"
  rf_Status :: "string option"
  rf_Trigger :: "string option"
  rf_Start :: "instant option"
  rf_End :: "instant option"
  rf_Search :: "string option"

definition run_matches :: "run_filter \<Rightarrow> job_t \<times> run_row \<Rightarrow> bool" where
  "run_matches f jr = (case jr of (j, r) \<Rightarrow> in_scope (rf_Scope f) (j_project_id j)
     \<and> (case rf_JobID f of None \<Rightarrow> True | Some i \<Rightarrow> r_job_id r = i)
     \<and> (case rf_ProjectID f of None \<Rightarrow> True | Some p \<Rightarrow> j_project_id j = p)
     \<and> (case rf_Status f of None \<Rightarrow> True | Some s \<Rightarrow> s = [] \<or> r_status r = s)
     \<and> (case rf_Trigger f of None \<Rightarrow> True | Some t \<Rightarrow> t = [] \<or> r_trigger r = t)
     \<and> (case rf_Start f of None \<Rightarrow> True | Some t \<Rightarrow> r_created_at r \<ge> t)
     \<and> (case rf_End f of None \<Rightarrow> True | Some t \<Rightarrow> r_created_at r \<le> t)
     \<and> (case rf_Search f of None \<Rightarrow> True | Some q \<Rightarrow> q = []
         \<or> (let pat = ''%'' @ q @ ''%'' in ilike (j_code j) pat \<or> ilike (j_name j) pat \<or> ilike (r_error r) pat)))"

definition run_filter_text :: "run_filter \<Rightarrow> bool" where
  "run_filter_text f \<longleftrightarrow> (\<forall>t\<in>set [rf_Status f, rf_Trigger f, rf_Search f]. case t of None \<Rightarrow> True | Some s \<Rightarrow> pg_text s)"

definition listed_runs :: "run_filter \<Rightarrow> db \<Rightarrow> run_row list" where
  "listed_runs f d = map snd (filter (run_matches f) (concat (map (run_row_of d) (job_runs d))))"

definition count_runs :: "run_filter \<Rightarrow> int statement" where
  "count_runs f now d = ((if \<not> run_filter_text f then Inl invalid_text else Inr (int (length (listed_runs f d)))), d)"

definition list_run_rows :: "run_filter \<Rightarrow> int \<Rightarrow> int \<Rightarrow> run_row list statement" where
  "list_run_rows f offset limit now d =
     ((if \<not> run_filter_text f then Inl invalid_text
       else if offset < 0 then Inl negative_offset
       else Inr (take (nat (clamp limit 1 500)) (drop (nat offset) (sort_key (\<lambda>r. - r_id r) (listed_runs f d))))), d)"

text \<open>\<open>Recent\<close> reads six columns; the others keep their zero value.\<close>

definition recent_run :: "run \<Rightarrow> run" where
  "recent_run r = \<lparr>r_id = r_id r, r_job_id = r_job_id r, r_planned_minute = None, r_run_after = None, r_trigger = [],
     r_user_id = None, r_parent_run_id = None, r_status = r_status r, r_attempt = 0, r_instance_id = [],
     r_started_at = r_started_at r, r_finished_at = None, r_duration_ms = r_duration_ms r, r_http_status = r_http_status r,
     r_request_url = [], r_output = [], r_error = [], r_created_at = r_created_at r\<rparr>"

definition recent_runs :: "int \<Rightarrow> int \<Rightarrow> run list statement" where
  "recent_runs jobID n = query (\<lambda>d. map recent_run (take (nat (clamp n 1 100))
     (sort_key (\<lambda>r. - r_id r) (filter (\<lambda>r. r_job_id r = jobID) (job_runs d)))))"

definition children_of :: "int \<Rightarrow> run_row list statement" where
  "children_of runID = query (\<lambda>d. sort_key r_id (map snd (concat (map (run_row_of d)
     (filter (\<lambda>r. r_parent_run_id r = Some runID) (job_runs d))))))"

section \<open>Opening a row\<close>

definition enqueue_run :: "int \<Rightarrow> string \<Rightarrow> int option \<Rightarrow> int statement" where
  "enqueue_run jobID trigger userID now d =
     (if \<not> pg_text trigger then (Inl invalid_text, d)
      else let i = runs_seq d + 1; d1 = d\<lparr>runs_seq := i\<rparr> in
        if trigger \<notin> {TriggerSchedule, TriggerManual, TriggerChain, TriggerAPI}
          then (Inl (check_violation ''job_runs'' ''job_runs_trigger_check''), d1)
        else if find_job d jobID = None then (Inl (fk_violation ''job_runs'' ''job_runs_job_id_fkey''), d1)
        else if (case userID of None \<Rightarrow> False | Some u \<Rightarrow> \<not> list_ex (\<lambda>x. u_id x = u) (users d))
          then (Inl (fk_violation ''job_runs'' ''job_runs_user_id_fkey''), d1)
        else (Inr i, d1\<lparr>job_runs := job_runs d @ [(new_run i jobID trigger now)\<lparr>r_user_id := userID\<rparr>]\<rparr>))"

end
