(* ===== verification/Scheduler.thy ===== *)
theory Scheduler
  imports StoreFacts RunStore Demo
begin

text \<open>
  The queue as a system of processes: any number of dispatchers, runners, watchdogs and people work on
  the same tables, one statement at a time, in any order. A step is one statement of
  \<open>exec_repo.go\<close>, \<open>run_repo.go\<close> or of the definition side; a trace is a sequence of steps.
\<close>

section \<open>Steps\<close>

text \<open>What a step means to the life of runs: a claim that was won, or anything else.\<close>

datatype action = Claimed int string | Other

inductive step :: "action \<Rightarrow> db \<Rightarrow> db \<Rightarrow> bool" where
  queue: "step Other d (snd (queue_run jobID m now d))"
| enqueue: "step Other d (snd (enqueue_run jobID trigger userID now d))"
| claim_won: "claim_run runID inst at now d = (Inr 1, d') \<Longrightarrow> step (Claimed runID inst) d d'"
| claim_lost: "claim_run runID inst at now d = (Inr n, d') \<Longrightarrow> n \<noteq> 1 \<Longrightarrow> step Other d d'"
| skip: "step Other d (snd (skip_run runID reason now d))"
| finish: "terminal (rr_status res) \<Longrightarrow> step Other d (snd (finish_run runID res now d))"
| add_note: "step Other d (snd (append_run_note runID text now d))"
| chain_run: "step Other d (snd (create_chain_run jobID delay parent now d))"
| chain_skipped: "step Other d (snd (create_chain_skipped jobID parent reason now d))"
| close_stuck: "step Other d (snd (close_stuck_runs now d))"
| purge: "step Other d (snd (purge_runs n limit now d))"
| elsewhere: "job_runs d' = job_runs d \<Longrightarrow> runs_seq d' = runs_seq d \<Longrightarrow> step Other d d'"

inductive_cases step_claimedE: "step (Claimed i inst) d d'"

inductive trace :: "db \<Rightarrow> action list \<Rightarrow> db \<Rightarrow> bool" where
  start: "trace d [] d"
| more: "trace d acts d' \<Longrightarrow> step a d' d'' \<Longrightarrow> trace d (acts @ [a]) d''"

inductive_simps trace_Nil: "trace d [] d'"
inductive_simps trace_snoc: "trace d (acts @ [a]) d'"

fun claimed_id :: "action \<Rightarrow> int option" where
  "claimed_id (Claimed i inst) = Some i"
| "claimed_id Other = None"

definition claims :: "action list \<Rightarrow> int list" where
  "claims acts = List.map_filter claimed_id acts"

section \<open>Every step is safe\<close>

lemma safe_enqueue_run [safe_intro]: "safe (enqueue_run jobID trigger userID)"
proof -
  have "evolves d (snd (enqueue_run jobID trigger userID now d)) \<and> (runs_ok d \<longrightarrow> runs_ok (snd (enqueue_run jobID trigger userID now d)))" for now d
  proof -
    let ?r = "(new_run (runs_seq d + 1) jobID trigger now)\<lparr>r_user_id := userID\<rparr>"
    have i: "r_id ?r = runs_seq d + 1" and k: "run_key ?r = None" by (simp_all add: new_run_def run_key_def)
    have "runs_ok d \<Longrightarrow> runs_ok (d\<lparr>runs_seq := runs_seq d + 1, job_runs := job_runs d @ [?r]\<rparr>)"
      using runs_ok_insert [OF _ i] k by simp
    moreover have "snd (enqueue_run jobID trigger userID now d)
        \<in> {d, d\<lparr>runs_seq := runs_seq d + 1\<rparr>, d\<lparr>runs_seq := runs_seq d + 1, job_runs := job_runs d @ [?r]\<rparr>}"
      by (auto simp: enqueue_run_def Let_def)
    ultimately show ?thesis using evolves_insert [OF i] by (auto simp: evolves_refl evolves_seq runs_ok_seq)
  qed
  then show ?thesis by (simp add: safe_def)
qed

lemma safeD: "safe f \<Longrightarrow> evolves d (snd (f now d)) \<and> (runs_ok d \<longrightarrow> runs_ok (snd (f now d)))"
  by (simp add: safe_def)

lemma step_safe: "step a d d' \<Longrightarrow> evolves d d' \<and> (runs_ok d \<longrightarrow> runs_ok d')"
proof (induction rule: step.induct)
  case (claim_won runID inst at now d d')
  then show ?case using safeD [OF safe_claim_run, of d runID inst at now] by simp
next
  case (claim_lost runID inst at now d n d')
  then show ?case using safeD [OF safe_claim_run, of d runID inst at now] by simp
next
  case (finish res d runID now)
  then show ?case by (intro safeD safe_finish_run) (auto simp: terminal_not)
next
  case (elsewhere d' d)
  then show ?case by (auto simp: evolves_def runs_ok_def run_keys_def intro: row_evolves_refl)
qed (intro safeD safe_intro)+

lemma trace_safe: "trace d acts d' \<Longrightarrow> evolves d d' \<and> (runs_ok d \<longrightarrow> runs_ok d')"
  by (induction rule: trace.induct) (auto simp: evolves_refl dest!: step_safe intro: evolves_trans)

section \<open>A run is claimed once\<close>

text \<open>Identifiers that are used up: drawn from the sequence, and no longer those of a pending row.\<close>

definition used_up :: "db \<Rightarrow> int set" where
  "used_up d = {i. i \<le> runs_seq d \<and> (\<forall>r\<in>set (job_runs d). r_id r = i \<longrightarrow> r_status r \<noteq> StatusPending)}"

lemma used_up_evolves: "evolves d d' \<Longrightarrow> used_up d \<subseteq> used_up d'"
  unfolding used_up_def evolves_def row_evolves_def by fastforce

lemma won_claim:
  assumes "claim_run i inst at now d = (Inr 1, d')" and "runs_ok d"
  shows "i \<notin> used_up d \<and> i \<in> used_up d'"
proof -
  from assms(1) have one: "length (filter (\<lambda>r. r_id r = i \<and> r_status r = StatusPending) (job_runs d)) = 1"
    and d': "d' = d\<lparr>job_runs := update_where (\<lambda>r. r_id r = i \<and> r_status r = StatusPending)
        (\<lambda>r. r\<lparr>r_status := StatusRunning, r_started_at := Some at, r_instance_id := inst\<rparr>) (job_runs d)\<rparr>"
    by (simp_all add: claim_run_def)
  from one obtain r where "r \<in> set (job_runs d)" "r_id r = i" "r_status r = StatusPending"
  proof -
    have "filter (\<lambda>r. r_id r = i \<and> r_status r = StatusPending) (job_runs d) \<noteq> []" using one by auto
    then have "hd (filter (\<lambda>r. r_id r = i \<and> r_status r = StatusPending) (job_runs d))
        \<in> set (filter (\<lambda>r. r_id r = i \<and> r_status r = StatusPending) (job_runs d))" by (rule list.set_sel(1))
    then show ?thesis using that by auto
  qed
  then have "i \<notin> used_up d" "i \<le> runs_seq d" using assms(2) by (auto simp: used_up_def runs_ok_def)
  then show ?thesis by (auto simp: used_up_def d' set_update_where split: if_splits)
qed

lemma claims_used_up:
  assumes "trace d acts d'" and "runs_ok d"
  shows "distinct (claims acts) \<and> set (claims acts) \<subseteq> used_up d'"
  using assms
proof (induction rule: trace.induct)
  case (start d)
  then show ?case by (simp add: claims_def map_filter_simps)
next
  case (more d acts d' a d'')
  then have IH: "distinct (claims acts)" "set (claims acts) \<subseteq> used_up d'" and ok: "runs_ok d'"
    using trace_safe by auto
  have sub: "set (claims acts) \<subseteq> used_up d''"
    using IH(2) used_up_evolves step_safe [OF more.hyps(2)] by blast
  show ?case
  proof (cases a)
    case (Claimed i inst)
    from more.hyps(2) [unfolded Claimed] have "i \<notin> used_up d' \<and> i \<in> used_up d''"
      by (rule step_claimedE) (rule won_claim [OF _ ok])
    with IH sub Claimed show ?thesis by (auto simp: claims_def map_filter_def)
  next
    case Other
    with IH sub show ?thesis by (simp add: claims_def map_filter_def)
  qed
qed

text \<open> C2. The queue runs everything at most once. However many processes interleave their statements,
  and whatever they are, the tables stay well formed: identifiers are unique and no job has two runs
  for the same minute; and in the whole history no run is ever won by two claims, not even after it
  has been closed or pruned. \<close>
theorem run_claimed_once:
  assumes "trace d acts d'" and "runs_ok d"
  shows "runs_ok d' \<and> distinct (claims acts)
    \<and> (\<forall>j m. length (filter (\<lambda>r. r_job_id r = j \<and> r_planned_minute r = Some m) (job_runs d')) \<le> 1)"
proof -
  have ok: "runs_ok d'" using trace_safe [OF assms(1)] assms(2) by blast
  have "length (filter (\<lambda>r. r_job_id r = j \<and> r_planned_minute r = Some m) (job_runs d')) \<le> 1" for j m
  proof -
    have "distinct (List.map_filter run_key xs) \<Longrightarrow> length (filter (\<lambda>r. r_job_id r = j \<and> r_planned_minute r = Some m) xs) \<le> 1" for xs
    proof (induction xs)
      case (Cons r xs)
      show ?case
      proof (cases "r_job_id r = j \<and> r_planned_minute r = Some m")
        case True
        then have "run_key r = Some (j, m)" by (simp add: run_key_def)
        with Cons.prems have "(j, m) \<notin> set (List.map_filter run_key xs)" by (simp add: map_filter_simps)
        then have "filter (\<lambda>r. r_job_id r = j \<and> r_planned_minute r = Some m) xs = []"
          by (force simp: filter_empty_conv map_filter_def run_key_def image_iff)
        then show ?thesis by simp
      next
        case False
        then have "filter (\<lambda>r. r_job_id r = j \<and> r_planned_minute r = Some m) (r # xs)
            = filter (\<lambda>r. r_job_id r = j \<and> r_planned_minute r = Some m) xs" by auto
        with Cons show ?thesis by (simp add: map_filter_simps split: option.splits)
      qed
    qed simp
    with ok show ?thesis by (simp add: runs_ok_def run_keys_def)
  qed
  with ok claims_used_up [OF assms] show ?thesis by blast
qed

section \<open>The life of a run\<close>

text \<open>The abstract view: a run is not there yet, waits, is going, is closed, is gone.\<close>

datatype phase = Unborn | Waiting | Going | Closed | Gone

fun phase_rank :: "phase \<Rightarrow> nat" where
  "phase_rank Unborn = 0"
| "phase_rank Waiting = 1"
| "phase_rank Going = 2"
| "phase_rank Closed = 3"
| "phase_rank Gone = 4"

instantiation phase :: linorder
begin

definition less_eq_phase :: "phase \<Rightarrow> phase \<Rightarrow> bool" where
  "less_eq_phase p q \<longleftrightarrow> phase_rank p \<le> phase_rank q"

definition less_phase :: "phase \<Rightarrow> phase \<Rightarrow> bool" where
  "less_phase p q \<longleftrightarrow> phase_rank p < phase_rank q"

instance
proof
  fix x y z :: phase
  show "x < y \<longleftrightarrow> x \<le> y \<and> \<not> y \<le> x" by (auto simp: less_eq_phase_def less_phase_def)
  show "x \<le> x" by (simp add: less_eq_phase_def)
  show "x \<le> y \<Longrightarrow> y \<le> z \<Longrightarrow> x \<le> z" by (simp add: less_eq_phase_def)
  show "x \<le> y \<Longrightarrow> y \<le> x \<Longrightarrow> x = y" by (cases x; cases y) (simp_all add: less_eq_phase_def)
  show "x \<le> y \<or> y \<le> x" by (auto simp: less_eq_phase_def)
qed

end

definition row_phase :: "run \<Rightarrow> phase" where
  "row_phase r = (if r_status r = StatusPending then Waiting else if terminal (r_status r) then Closed else Going)"

definition phase_of :: "db \<Rightarrow> int \<Rightarrow> phase" where
  "phase_of d i = (case find_run d i of None \<Rightarrow> if i \<le> runs_seq d then Gone else Unborn | Some r \<Rightarrow> row_phase r)"

lemma row_phase_evolves: "row_evolves r r' \<Longrightarrow> row_phase r \<le> row_phase r'"
  by (auto simp: row_evolves_def row_phase_def less_eq_phase_def)

lemma find_run_Some: "runs_ok d \<Longrightarrow> find_run d i = Some r \<longleftrightarrow> r \<in> set (job_runs d) \<and> r_id r = i"
proof -
  have "distinct (map r_id xs) \<Longrightarrow> find (\<lambda>r. r_id r = i) xs = Some r \<longleftrightarrow> r \<in> set xs \<and> r_id r = i" for xs
    by (induction xs) auto
  then show "runs_ok d \<Longrightarrow> ?thesis" by (simp add: find_run_def runs_ok_def)
qed

lemma find_run_None: "find_run d i = None \<longleftrightarrow> (\<forall>r\<in>set (job_runs d). r_id r \<noteq> i)"
  by (auto simp: find_run_def find_None_iff)

lemma phase_evolves:
  assumes "evolves d d'" and "runs_ok d" and "runs_ok d'"
  shows "phase_of d i \<le> phase_of d' i"
proof (cases "find_run d' i")
  case None
  show ?thesis
  proof (cases "find_run d i")
    case None': None
    with None assms(1) show ?thesis by (auto simp: phase_of_def less_eq_phase_def evolves_def)
  next
    case (Some r)
    then have "i \<le> runs_seq d" using assms(2) find_run_Some [OF assms(2)] by (auto simp: runs_ok_def)
    with None assms(1) have "phase_of d' i = Gone" by (auto simp: phase_of_def evolves_def)
    then show ?thesis by (cases "phase_of d i") (simp_all add: less_eq_phase_def)
  qed
next
  case (Some r')
  then have r': "r' \<in> set (job_runs d')" "r_id r' = i" using find_run_Some [OF assms(3)] by blast+
  from assms(1) r' consider (new) "runs_seq d < i" | (old) r where "r \<in> set (job_runs d)" "row_evolves r r'"
    by (auto simp: evolves_def)
  then show ?thesis
  proof cases
    case new
    then have "find_run d i = None" using assms(2) by (auto simp: find_run_None runs_ok_def)
    with new have "phase_of d i = Unborn" by (simp add: phase_of_def)
    then show ?thesis by (simp add: less_eq_phase_def)
  next
    case old
    then have "find_run d i = Some r" using find_run_Some [OF assms(2)] r'(2) by (simp add: row_evolves_def)
    with Some old(2) show ?thesis by (simp add: phase_of_def row_phase_evolves)
  qed
qed

text \<open> C17. The life of a run only goes forward. Seen as one of the phases unborn, waiting, going, closed
  and gone, in this order, no run is ever in an earlier phase after a step than before it, in any
  interleaving: nothing that was closed waits or goes again, nothing that is going waits again, and an
  identifier that is gone never comes back. \<close>
theorem run_life_goes_forward:
  assumes "trace d acts d'" and "runs_ok d"
  shows "phase_of d i \<le> phase_of d' i"
  using trace_safe [OF assms(1)] assms(2) phase_evolves by blast

section \<open>A history\<close>

text \<open>The waiting run of the sample database is claimed, claimed again in vain, and closed.\<close>

definition demo_claimed :: db where
  "demo_claimed = snd (claim_run 2 ''a'' 0 0 demo_db)"

definition demo_closed :: db where
  "demo_closed = snd (finish_run 2 (run_result_zero\<lparr>rr_status := StatusSuccess\<rparr>) 5 demo_claimed)"

lemma demo_history: "trace demo_db [Claimed 2 ''a'', Other, Other] demo_closed"
proof -
  have "claim_run 2 ''a'' 0 0 demo_db = (Inr 1, demo_claimed)"
    by (simp add: demo_claimed_def claim_run_def demo_db_def new_run_def)
  from trace.more [OF trace.start claim_won [OF this]]
  have 1: "trace demo_db [Claimed 2 ''a''] demo_claimed" by simp
  have "claim_run 2 ''b'' 1 1 demo_claimed = (Inr 0, demo_claimed)"
    by (simp add: demo_claimed_def claim_run_def demo_db_def new_run_def update_where_def)
  from trace.more [OF 1 claim_lost [OF this]] have 2: "trace demo_db [Claimed 2 ''a'', Other] demo_claimed" by simp
  from trace.more [OF 2 finish [of "run_result_zero\<lparr>rr_status := StatusSuccess\<rparr>" demo_claimed 2 5]]
  show ?thesis by (simp add: demo_closed_def)
qed

lemma demo_runs_ok: "runs_ok demo_db"
  by (simp add: runs_ok_def demo_db_def new_run_def run_keys_def map_filter_simps run_key_def)

theorem run_claimed_once_witness: "runs_ok demo_closed \<and> distinct (claims [Claimed 2 ''a'', Other, Other])"
  using run_claimed_once [OF demo_history demo_runs_ok] by blast

theorem run_life_goes_forward_witness: "phase_of demo_db 2 = Waiting \<and> phase_of demo_db 2 \<le> phase_of demo_closed 2"
  using run_life_goes_forward [OF demo_history demo_runs_ok, of 2]
  by (simp add: phase_of_def find_run_def demo_db_def new_run_def row_phase_def)

end
