(* ===== verification/GoUrl.thy ===== *)
theory GoUrl
  imports GoRunes
begin

text \<open>
  \<open>net/url.Parse\<close> and \<open>URL.String\<close> of Go's standard library, as far as they decide which address a
  target resolves to: scheme, authority, path, query and fragment, percent-decoding of each part and
  the rule by which a part is written back. Every parse error is one value; the program only shows
  its text.
\<close>

section \<open>Percent encoding\<close>

datatype enc_mode = encodePath | encodeHost | encodeZone | encodeUserPassword | encodeFragment

definition is_alnum :: "char \<Rightarrow> bool" where
  "is_alnum c \<longleftrightarrow> (let b = of_char c :: nat in (97 \<le> b \<and> b \<le> 122) \<or> (65 \<le> b \<and> b \<le> 90) \<or> (48 \<le> b \<and> b \<le> 57))"

definition should_escape :: "enc_mode \<Rightarrow> char \<Rightarrow> bool" where
  "should_escape m c \<longleftrightarrow>
     (if is_alnum c then False
      else if (m = encodeHost \<or> m = encodeZone) \<and> c \<in> set (''!$&()*+,;=:[]<>'' @ [CHR 0x27, CHR 0x22]) then False
      else if c \<in> set ''-_.~'' then False
      else if c \<in> set ''$&+,/:;=?@'' then
        (case m of
           encodePath \<Rightarrow> c = CHR ''?''
         | encodeUserPassword \<Rightarrow> c \<in> set ''@/?:''
         | encodeFragment \<Rightarrow> False
         | _ \<Rightarrow> True)
      else if m = encodeFragment \<and> c \<in> set ''!()*'' then False
      else True)"

definition hex_val :: "char \<Rightarrow> nat option" where
  "hex_val c =
     (let b = of_char c :: nat in
      if 48 \<le> b \<and> b \<le> 57 then Some (b - 48) else if 97 \<le> b \<and> b \<le> 102 then Some (b - 87)
      else if 65 \<le> b \<and> b \<le> 70 then Some (b - 55) else None)"

definition hex_upper :: "nat \<Rightarrow> char" where
  "hex_upper n = ''0123456789ABCDEF'' ! n"

text \<open>
  Decoding. In a host only bytes that are not ASCII may be written in percent form, except \<open>%25\<close>; in
  a zone an encoded byte has to be one that needs no escape, a space or that same \<open>%25\<close>.
\<close>

fun unescape :: "enc_mode \<Rightarrow> string \<Rightarrow> string option" where
  "unescape m [] = Some []"
| "unescape m (c # cs) =
     (if c = CHR ''%'' then
        (case cs of
           a # b # rest \<Rightarrow> (case (hex_val a, hex_val b) of
               (Some x, Some y) \<Rightarrow>
                 if m = encodeHost \<and> x < 8 \<and> \<not> (a = CHR ''2'' \<and> b = CHR ''5'') then None
                 else if m = encodeZone \<and> \<not> (a = CHR ''2'' \<and> b = CHR ''5'') \<and> 16 * x + y \<noteq> 32
                   \<and> should_escape encodeHost (char_of (16 * x + y)) then None
                 else map_option (Cons (char_of (16 * x + y))) (unescape m rest)
             | _ \<Rightarrow> None)
         | _ \<Rightarrow> None)
      else if (m = encodeHost \<or> m = encodeZone) \<and> of_char c < (128 :: nat) \<and> should_escape m c then None
      else map_option (Cons c) (unescape m cs))"

definition escape :: "enc_mode \<Rightarrow> string \<Rightarrow> string" where
  "escape m s = concat (map (\<lambda>c. if should_escape m c
     then [CHR ''%'', hex_upper (of_char c div 16), hex_upper (of_char c mod 16)] else [c]) s)"

definition valid_encoded :: "enc_mode \<Rightarrow> string \<Rightarrow> bool" where
  "valid_encoded m s \<longleftrightarrow> list_all (\<lambda>c. c \<in> set (''!$&()*+,;=:@[]%'' @ [CHR 0x27]) \<or> \<not> should_escape m c) s"

section \<open>Parsing\<close>

record url =
  ur_Scheme :: string
  ur_Opaque :: string
  ur_User :: bool
  ur_Host :: string
  ur_Path :: string
  ur_RawPath :: string
  ur_OmitHost :: bool
  ur_ForceQuery :: bool
  ur_RawQuery :: string
  ur_Fragment :: string
  ur_RawFragment :: string

definition is_letter :: "char \<Rightarrow> bool" where
  "is_letter c \<longleftrightarrow> (let b = of_char c :: nat in (97 \<le> b \<and> b \<le> 122) \<or> (65 \<le> b \<and> b \<le> 90))"

text \<open>\<open>getScheme\<close>: the scheme and the rest; no scheme is the empty one.\<close>

fun scheme_go :: "string \<Rightarrow> string \<Rightarrow> string \<Rightarrow> (string \<times> string) option" where
  "scheme_go raw acc [] = Some ([], raw)"
| "scheme_go raw acc (c # cs) =
     (if is_letter c then scheme_go raw (acc @ [c]) cs
      else if is_digit c \<or> c \<in> set ''+-.'' then (if acc = [] then Some ([], raw) else scheme_go raw (acc @ [c]) cs)
      else if c = CHR '':'' then (if acc = [] then None else Some (acc, cs))
      else Some ([], raw))"

definition get_scheme :: "string \<Rightarrow> (string \<times> string) option" where
  "get_scheme raw = scheme_go raw [] raw"

definition cut_at :: "char \<Rightarrow> string \<Rightarrow> string \<times> string" where
  "cut_at c s = (takeWhile (\<lambda>x. x \<noteq> c) s, drop 1 (dropWhile (\<lambda>x. x \<noteq> c) s))"

text \<open>\<open>strings.LastIndex\<close> of a byte, as the text before it and the text from it on.\<close>

definition split_last :: "char \<Rightarrow> string \<Rightarrow> (string \<times> string) option" where
  "split_last c s =
     (if c \<in> set s then
        (let after = rev (takeWhile (\<lambda>x. x \<noteq> c) (rev s))
         in Some (take (length s - length after - 1) s, c # after))
      else None)"

definition valid_port :: "string \<Rightarrow> bool" where
  "valid_port p \<longleftrightarrow> p = [] \<or> (hd p = CHR '':'' \<and> list_all is_digit (tl p))"

text \<open>The first occurrence of \<open>%25\<close>, as the text before it and the text from it on.\<close>

fun split_zone :: "string \<Rightarrow> (string \<times> string) option" where
  "split_zone [] = None"
| "split_zone (c # cs) =
     (if take 3 (c # cs) = ''%25'' then Some ([], c # cs)
      else map_option (\<lambda>(a, b). (c # a, b)) (split_zone cs))"

definition parse_host :: "string \<Rightarrow> string option" where
  "parse_host host =
     (if has_prefix host ''['' then
        (case split_last (CHR '']'') host of
           None \<Rightarrow> None
         | Some (inner, closing) \<Rightarrow>
             if \<not> valid_port (tl closing) then None
             else (case split_zone inner of
                 Some (h1, h2) \<Rightarrow> (case (unescape encodeHost h1, unescape encodeZone h2, unescape encodeHost closing) of
                     (Some a, Some b, Some c) \<Rightarrow> Some (a @ b @ c) | _ \<Rightarrow> None)
               | None \<Rightarrow> unescape encodeHost host))
      else (case split_last (CHR '':'') host of
          Some (_, colonPort) \<Rightarrow> if valid_port colonPort then unescape encodeHost host else None
        | None \<Rightarrow> unescape encodeHost host))"

definition user_char :: "char \<Rightarrow> bool" where
  "user_char c \<longleftrightarrow> is_alnum c \<or> c \<in> set (''-._:~!$&()*+,;=%@'' @ [CHR 0x27])"

text \<open>\<open>parseAuthority\<close>: whether there is a user part, and the host.\<close>

definition parse_authority :: "string \<Rightarrow> (bool \<times> string) option" where
  "parse_authority authority =
     (case split_last (CHR ''@'') authority of
        None \<Rightarrow> map_option (\<lambda>h. (False, h)) (parse_host authority)
      | Some (userinfo, at_host) \<Rightarrow> (case parse_host (tl at_host) of
          None \<Rightarrow> None
        | Some h \<Rightarrow>
            if \<not> list_all user_char userinfo then None
            else (case cut_at (CHR '':'') userinfo of (u, p) \<Rightarrow>
              if unescape encodeUserPassword u = None \<or> unescape encodeUserPassword p = None then None
              else Some (True, h))))"

definition no_url :: url where
  "no_url = \<lparr>ur_Scheme = [], ur_Opaque = [], ur_User = False, ur_Host = [], ur_Path = [], ur_RawPath = [],
     ur_OmitHost = False, ur_ForceQuery = False, ur_RawQuery = [], ur_Fragment = [], ur_RawFragment = []\<rparr>"

definition set_path :: "string \<Rightarrow> url \<Rightarrow> url option" where
  "set_path p u = (case unescape encodePath p of
      None \<Rightarrow> None
    | Some path \<Rightarrow> Some (u\<lparr>ur_Path := path, ur_RawPath := (if p = escape encodePath path then [] else p)\<rparr>))"

definition set_fragment :: "string \<Rightarrow> url \<Rightarrow> url option" where
  "set_fragment f u = (case unescape encodeFragment f of
      None \<Rightarrow> None
    | Some frag \<Rightarrow> Some (u\<lparr>ur_Fragment := frag, ur_RawFragment := (if f = escape encodeFragment frag then [] else f)\<rparr>))"

text \<open>The query: a single question mark at the very end is remembered as \<open>ForceQuery\<close>.\<close>

definition split_query :: "string \<Rightarrow> string \<times> bool \<times> string" where
  "split_query rest =
     (if has_suffix rest ''?'' \<and> length (filter (\<lambda>c. c = CHR ''?'') rest) = 1 then (butlast rest, True, [])
      else case cut_at (CHR ''?'') rest of (r, q) \<Rightarrow> (r, False, q))"

definition has_control :: "string \<Rightarrow> bool" where
  "has_control s \<longleftrightarrow> list_ex (\<lambda>c. of_char c < (32 :: nat) \<or> of_char c = (127 :: nat)) s"

definition parse_rest :: "url \<Rightarrow> string \<Rightarrow> url option" where
  "parse_rest u rest =
     (if \<not> has_prefix rest ''/'' \<and> ur_Scheme u \<noteq> [] then Some (u\<lparr>ur_Opaque := rest\<rparr>)
      else if \<not> has_prefix rest ''/'' \<and> CHR '':'' \<in> set (fst (cut_at (CHR ''/'') rest)) then None
      else if (ur_Scheme u \<noteq> [] \<or> \<not> has_prefix rest ''///'') \<and> has_prefix rest ''//'' then
        (let authority = takeWhile (\<lambda>c. c \<noteq> CHR ''/'') (drop 2 rest); path = drop (length authority) (drop 2 rest)
         in case parse_authority authority of
              None \<Rightarrow> None
            | Some (usr, host) \<Rightarrow> set_path path (u\<lparr>ur_User := usr, ur_Host := host\<rparr>))
      else if ur_Scheme u \<noteq> [] \<and> has_prefix rest ''/'' then set_path rest (u\<lparr>ur_OmitHost := True\<rparr>)
      else set_path rest u)"

definition parse_no_fragment :: "string \<Rightarrow> url option" where
  "parse_no_fragment raw =
     (if has_control raw then None
      else if raw = ''*'' then Some (no_url\<lparr>ur_Path := ''*''\<rparr>)
      else (case get_scheme raw of
          None \<Rightarrow> None
        | Some (scheme, rest) \<Rightarrow> (case split_query rest of (r, force, q) \<Rightarrow>
            parse_rest (no_url\<lparr>ur_Scheme := to_lower scheme, ur_ForceQuery := force, ur_RawQuery := q\<rparr>) r)))"

definition url_parse :: "string \<Rightarrow> url option" where
  "url_parse raw = (case cut_at (CHR ''#'') raw of (u, frag) \<Rightarrow>
     (case parse_no_fragment u of
        None \<Rightarrow> None
      | Some x \<Rightarrow> if frag = [] then Some x else set_fragment frag x))"

section \<open>Writing back\<close>

definition escaped_path :: "url \<Rightarrow> string" where
  "escaped_path u =
     (if ur_RawPath u \<noteq> [] \<and> valid_encoded encodePath (ur_RawPath u) \<and> unescape encodePath (ur_RawPath u) = Some (ur_Path u)
      then ur_RawPath u
      else if ur_Path u = ''*'' then ''*''
      else escape encodePath (ur_Path u))"

definition escaped_fragment :: "url \<Rightarrow> string" where
  "escaped_fragment u =
     (if ur_RawFragment u \<noteq> [] \<and> valid_encoded encodeFragment (ur_RawFragment u)
         \<and> unescape encodeFragment (ur_RawFragment u) = Some (ur_Fragment u)
      then ur_RawFragment u else escape encodeFragment (ur_Fragment u))"

text \<open>\<open>URL.String\<close> of an address that has a scheme and a host and no user part.\<close>

definition url_tail :: "url \<Rightarrow> string" where
  "url_tail u =
     (let path = escaped_path u
      in (if path \<noteq> [] \<and> hd path \<noteq> CHR ''/'' then ''/'' else []) @ path
       @ (if ur_ForceQuery u \<or> ur_RawQuery u \<noteq> [] then ''?'' @ ur_RawQuery u else [])
       @ (if ur_Fragment u \<noteq> [] then ''#'' @ escaped_fragment u else []))"

definition url_string :: "url \<Rightarrow> string" where
  "url_string u = ur_Scheme u @ ''://'' @ escape encodeHost (ur_Host u) @ url_tail u"

text \<open>\<open>URL.Hostname\<close>: the host without its port and without the brackets of an IPv6 literal.\<close>

definition hostname :: "url \<Rightarrow> string" where
  "hostname u =
     (let hp = ur_Host u;
          host = (case split_last (CHR '':'') hp of
                    Some (before, colonPort) \<Rightarrow> if valid_port colonPort then before else hp
                  | None \<Rightarrow> hp)
      in if has_prefix host ''['' \<and> has_suffix host '']'' then butlast (drop 1 host) else host)"

end
