(* ===== verification/Target.thy ===== *)
theory Target
  imports Headers GoUrl
begin

text \<open>
  What address a job may call (\<open>internal/service/target.go\<close>): slugs, the resolution of a target
  against its project's base address, and the refusal of private ranges. An address literal is read
  by \<open>net.ParseIP\<close>: four bytes for IPv4 (also when it is written as an IPv6 address), else sixteen.
\<close>

section \<open>Slugs\<close>

definition slug_char :: "char \<Rightarrow> bool" where
  "slug_char c \<longleftrightarrow> is_lower_ascii c \<or> is_digit c"

definition ValidSlug :: "string \<Rightarrow> bool" where
  "ValidSlug s = (case s of [] \<Rightarrow> False
     | c # cs \<Rightarrow> slug_char c \<and> 1 \<le> length cs \<and> length cs \<le> 63
         \<and> list_all (\<lambda>x. slug_char x \<or> x = CHR ''_'' \<or> x = CHR ''-'') cs)"

text \<open>The loop over the characters: what is written so far and whether it ends in a dash.\<close>

fun slugify_go :: "(nat \<times> string) list \<Rightarrow> string \<Rightarrow> bool \<Rightarrow> string" where
  "slugify_go [] b prevDash = b"
| "slugify_go ((r, _) # rs) b prevDash =
     (if (97 \<le> r \<and> r \<le> 122) \<or> (48 \<le> r \<and> r \<le> 57) then slugify_go rs (b @ [char_of r]) False
      else if r = 95 then slugify_go rs (b @ ''_'') False
      else if \<not> prevDash \<and> b \<noteq> [] then slugify_go rs (b @ ''-'') True
      else slugify_go rs b prevDash)"

definition Slugify :: "string \<Rightarrow> string" where
  "Slugify s =
     (let out = trim_cut ''-_'' (slugify_go (runes (to_lower (trim_space s))) [] False)
      in if length out > 64 then trim_cut ''-_'' (take 64 out) else out)"

section \<open>Address literals\<close>

text \<open>\<open>netip\<close>'s IPv4 form: four decimal fields without leading zeros.\<close>

definition v4_field :: "string \<Rightarrow> nat option" where
  "v4_field f =
     (if f = [] \<or> \<not> list_all is_digit f \<or> length f > 3 \<or> (length f > 1 \<and> hd f = CHR ''0'') then None
      else let n = nat (digits_val 0 f) in if n > 255 then None else Some n)"

definition parse_v4 :: "string \<Rightarrow> nat list option" where
  "parse_v4 s = (case map v4_field (split_on (CHR ''.'') s) of
      [Some a, Some b, Some c, Some e] \<Rightarrow> Some [a, b, c, e]
    | _ \<Rightarrow> None)"

fun hex_number :: "nat \<Rightarrow> string \<Rightarrow> nat" where
  "hex_number acc [] = acc"
| "hex_number acc (c # cs) = hex_number (16 * acc + (case hex_val c of Some v \<Rightarrow> v | None \<Rightarrow> 0)) cs"

text \<open>
  The loop over the fields of an IPv6 address: bytes so far, where the \<open>::\<close> stood, and what is left
  at the end. The first argument bounds the fields: there are at most eight.
\<close>

fun v6_fields :: "nat \<Rightarrow> string \<Rightarrow> nat list \<Rightarrow> nat option \<Rightarrow> (nat list \<times> nat option \<times> string) option" where
  "v6_fields 0 s bs ell = Some (bs, ell, s)"
| "v6_fields (Suc k) s bs ell =
     (if length bs \<ge> 16 then Some (bs, ell, s) else
      let digits = takeWhile (\<lambda>c. hex_val c \<noteq> None) s; rest = drop (length digits) s in
      if digits = [] \<or> length digits > 4 then None
      else if rest \<noteq> [] \<and> hd rest = CHR ''.'' then
        (if (ell = None \<and> length bs \<noteq> 12) \<or> length bs + 4 > 16 then None
         else map_option (\<lambda>v4. (bs @ v4, ell, [])) (parse_v4 s))
      else
        (let n = hex_number 0 digits; bs' = bs @ [n div 256, n mod 256] in
         if rest = [] then Some (bs', ell, [])
         else if hd rest \<noteq> CHR '':'' \<or> length rest = 1 then None
         else if rest ! 1 = CHR '':'' then
           (if ell \<noteq> None then None
            else if length rest = 2 then Some (bs', Some (length bs'), [])
            else v6_fields k (drop 2 rest) bs' (Some (length bs')))
         else v6_fields k (drop 1 rest) bs' ell))"

definition parse_v6 :: "string \<Rightarrow> nat list option" where
  "parse_v6 s =
     (if s = ''::'' then Some (replicate 16 0)
      else let (s', ell) = (if take 2 s = ''::'' then (drop 2 s, Some 0) else (s, None)) in
        (case v6_fields 8 s' [] ell of
           None \<Rightarrow> None
         | Some (bs, ell', rest) \<Rightarrow>
             if rest \<noteq> [] then None
             else if length bs < 16 then
               (case ell' of None \<Rightarrow> None
                | Some e \<Rightarrow> Some (take e bs @ replicate (16 - length bs) 0 @ drop e bs))
             else if ell' \<noteq> None then None else Some bs))"

definition unmapped :: "nat list \<Rightarrow> nat list" where
  "unmapped bs = (if length bs = 16 \<and> take 12 bs = replicate 10 0 @ [255, 255] then drop 12 bs else bs)"

definition ParseIP :: "string \<Rightarrow> nat list option" where
  "ParseIP s =
     (case dropWhile (\<lambda>c. c \<noteq> CHR ''.'' \<and> c \<noteq> CHR '':'' \<and> c \<noteq> CHR ''%'') s of
        [] \<Rightarrow> None
      | c # _ \<Rightarrow> if c = CHR ''.'' then parse_v4 s
                else if c = CHR '':'' then map_option unmapped (parse_v6 s) else None)"

definition IsLoopback :: "nat list \<Rightarrow> bool" where
  "IsLoopback ip \<longleftrightarrow> (if length ip = 4 then ip ! 0 = 127 else ip = replicate 15 0 @ [1])"

definition IsPrivate :: "nat list \<Rightarrow> bool" where
  "IsPrivate ip \<longleftrightarrow> (if length ip = 4
     then ip ! 0 = 10 \<or> (ip ! 0 = 172 \<and> ip ! 1 div 16 = 1) \<or> (ip ! 0 = 192 \<and> ip ! 1 = 168)
     else ip ! 0 div 2 = 126)"

definition IsLinkLocalUnicast :: "nat list \<Rightarrow> bool" where
  "IsLinkLocalUnicast ip \<longleftrightarrow> (if length ip = 4 then ip ! 0 = 169 \<and> ip ! 1 = 254 else ip ! 0 = 254 \<and> ip ! 1 div 64 = 2)"

definition IsLinkLocalMulticast :: "nat list \<Rightarrow> bool" where
  "IsLinkLocalMulticast ip \<longleftrightarrow> (if length ip = 4 then ip ! 0 = 224 \<and> ip ! 1 = 0 \<and> ip ! 2 = 0 else ip ! 0 = 255 \<and> ip ! 1 mod 16 = 2)"

definition IsUnspecified :: "nat list \<Rightarrow> bool" where
  "IsUnspecified ip \<longleftrightarrow> list_all (\<lambda>b. b = 0) ip"

section \<open>Resolution\<close>

definition rejectPrivate :: "string \<Rightarrow> string option" where
  "rejectPrivate host =
     (if host = [] then Some ''target address has no host''
      else let lower = to_lower host in
        if lower = ''localhost'' \<or> has_suffix lower ''.localhost'' \<or> has_suffix lower ''.internal''
        then Some (''target address '' @ go_quote host @ '' is not reachable from this deployment'')
        else (case ParseIP host of
            None \<Rightarrow> None
          | Some ip \<Rightarrow>
              if IsLoopback ip \<or> IsPrivate ip \<or> IsLinkLocalUnicast ip \<or> IsLinkLocalMulticast ip \<or> IsUnspecified ip
              then Some (''target address '' @ go_quote host @ '' is on a private range'')
              else if ip = [169, 254, 169, 254]
              then Some (''target address '' @ go_quote host @ '' is the instance metadata endpoint'')
              else None))"

record TargetPolicy =
  AllowPrivate :: bool

definition hasScheme :: "string \<Rightarrow> bool" where
  "hasScheme s \<longleftrightarrow> has_prefix (to_lower s) ''http://'' \<or> has_prefix (to_lower s) ''https://''"

text \<open>The text of the library's parse error follows the fixed part of the first message.\<close>

definition check :: "TargetPolicy \<Rightarrow> string \<Rightarrow> string + string" where
  "check p raw = (case url_parse raw of
      None \<Rightarrow> Inl ''target address cannot be parsed''
    | Some u \<Rightarrow>
        if ur_Scheme u \<noteq> ''http'' \<and> ur_Scheme u \<noteq> ''https''
        then Inl (''only http and https targets are allowed, got '' @ go_quote (ur_Scheme u))
        else if ur_Host u = [] then Inl ''target address has no host''
        else if ur_User u then Inl ''target address may not carry credentials''
        else if \<not> AllowPrivate p then
          (case rejectPrivate (hostname u) of Some e \<Rightarrow> Inl e | None \<Rightarrow> Inr (url_string u))
        else Inr (url_string u))"

definition illegal_char :: "char \<Rightarrow> bool" where
  "illegal_char c \<longleftrightarrow> c \<in> {CHR 0x5C, CHR '' '', CHR 0x09, CHR 0x0D, CHR 0x0A}"

definition Resolve :: "TargetPolicy \<Rightarrow> string \<Rightarrow> string \<Rightarrow> string + string" where
  "Resolve p baseURL0 target0 =
     (let target = trim_space target0; baseURL = trim_right ''/'' (trim_space baseURL0) in
      if target = [] then Inl ''target address is empty''
      else if list_ex illegal_char target then Inl ''target address contains an illegal character''
      else if baseURL \<noteq> [] then
        (if hasScheme target
         then Inl ''this project has a base address, so the target must be a path such as /cron/report''
         else let target = (if \<not> has_prefix target ''/'' then ''/'' @ target else target) in
           if has_prefix target ''//'' then Inl ''target path may not start with //''
           else check p (baseURL @ target))
      else if \<not> hasScheme target
        then Inl ''target must be a full address starting with http:// or https://, or the project must declare a base address''
      else check p target)"

end
