(* ===== verification/TargetFacts.thy ===== *)
theory TargetFacts
  imports Target "HOL-Library.Code_Target_Numeral"
begin

text \<open>
  Containment: below a project's base address no target chooses the scheme or the host. The parse of
  \<open>base ++ target\<close> takes both from the base, and the address written back starts with them.
\<close>

section \<open>Slugs\<close>

definition slug_tail_char :: "char \<Rightarrow> bool" where
  "slug_tail_char c \<longleftrightarrow> slug_char c \<or> c = CHR ''_'' \<or> c = CHR ''-''"

lemma slugify_go_chars: "list_all slug_tail_char b \<Longrightarrow> list_all slug_tail_char (slugify_go rs b prev)"
  by (induction rs b prev rule: slugify_go.induct)
    (auto simp: slug_tail_char_def slug_char_def is_lower_ascii_def is_digit_def)

lemma trim_cut_chars: "list_all P s \<Longrightarrow> list_all P (trim_cut cs s)"
  by (auto simp: list_all_iff trim_cut_def trim_right_def dest!: set_dropWhileD)

lemma trim_cut_head:
  assumes "trim_cut cs s \<noteq> []"
  shows "hd (trim_cut cs s) \<notin> set cs"
proof -
  define d where "d = dropWhile (\<lambda>c. c \<in> set cs) s"
  have e: "trim_cut cs s = rev (dropWhile (\<lambda>c. c \<in> set cs) (rev d))" by (simp add: trim_cut_def trim_right_def d_def)
  obtain us where "rev d = us @ dropWhile (\<lambda>c. c \<in> set cs) (rev d)" by (metis takeWhile_dropWhile_id)
  then have d: "d = trim_cut cs s @ rev us" using e by (metis rev_append rev_rev_ident)
  with assms have "hd (trim_cut cs s) = hd d" "d \<noteq> []" by (metis hd_append2, simp)
  with hd_dropWhile [of "\<lambda>c. c \<in> set cs" s] show ?thesis by (simp add: d_def)
qed

lemma trim_cut_length: "length (trim_cut cs s) \<le> length s"
  by (simp add: trim_cut_def trim_right_def) (metis length_dropWhile_le length_rev order_trans)

text \<open> A slug made from any name is one the service accepts, unless fewer than two usable characters
  are left of it: it is at most 64 characters long, starts with a letter or a digit, and has no other
  characters than those of a slug. \<close>
theorem slugify_valid: "ValidSlug (Slugify s) \<longleftrightarrow> length (Slugify s) \<ge> 2"
proof -
  define b where "b = slugify_go (runes (to_lower (trim_space s))) [] False"
  have b: "list_all slug_tail_char b" by (simp add: b_def slugify_go_chars)
  define out where "out = Slugify s"
  have ou: "out = trim_cut ''-_'' b \<or> out = trim_cut ''-_'' (take 64 (trim_cut ''-_'' b))"
    by (simp add: out_def Slugify_def b_def [symmetric] Let_def)
  have chars: "list_all slug_tail_char out"
    using ou b trim_cut_chars [of slug_tail_char] by (metis list_all_append append_take_drop_id)
  have len: "length out \<le> 64"
    using trim_cut_length [of "''-_''" "take 64 (trim_cut ''-_'' b)"]
    by (simp add: out_def Slugify_def b_def [symmetric] Let_def)
  have head: "out \<noteq> [] \<Longrightarrow> hd out \<notin> set ''-_''" using ou trim_cut_head by metis
  show ?thesis
  proof (cases out)
    case Nil
    then show ?thesis by (simp add: out_def [symmetric] ValidSlug_def)
  next
    case (Cons c cs)
    with chars head have "slug_char c" by (auto simp: slug_tail_char_def)
    moreover have "list_all (\<lambda>x. slug_char x \<or> x = CHR ''_'' \<or> x = CHR ''-'') cs"
      using chars Cons by (auto simp: slug_tail_char_def list_all_iff)
    ultimately show ?thesis using len Cons by (auto simp: out_def [symmetric] ValidSlug_def)
  qed
qed

section \<open>Cutting\<close>

lemma takeWhile_until: "\<not> P y \<Longrightarrow> takeWhile P (xs @ y # ys) = takeWhile P xs"
  by (induction xs) auto

lemma has_prefix_Cons: "has_prefix s (c # cs) \<longleftrightarrow> (\<exists>t. s = c # t \<and> has_prefix t cs)"
  by (cases s) (auto simp: has_prefix_def)

lemma has_prefix_Nil [simp]: "has_prefix s []"
  by (simp add: has_prefix_def)

lemma takeWhile_butlast_only:
  assumes "length (filter (\<lambda>c. c = q) s) = 1" and "s \<noteq> []" and "List.last s = q"
  shows "butlast s = takeWhile (\<lambda>c. c \<noteq> q) s"
proof -
  obtain u where s: "s = u @ [q]" using assms(2,3) by (metis append_butlast_last_id)
  with assms(1) have "filter (\<lambda>c. c = q) u = []" by simp
  then have "\<forall>c\<in>set u. c \<noteq> q" by (auto simp: filter_empty_conv)
  then have "takeWhile (\<lambda>c. c \<noteq> q) (u @ [q]) = u" by (simp add: takeWhile_append2)
  with s show ?thesis by simp
qed

lemma split_query_fst: "fst (split_query rest) = takeWhile (\<lambda>c. c \<noteq> CHR ''?'') rest"
proof (cases "has_suffix rest ''?'' \<and> length (filter (\<lambda>c. c = CHR ''?'') rest) = 1")
  case True
  then have "drop (length rest - 1) rest = ''?''" "rest \<noteq> []" by (auto simp: has_suffix_def)
  then have "List.last rest = CHR ''?''" by (metis One_nat_def last_ConsL last_drop diff_less length_greater_0_conv lessI list.distinct(1))
  with True \<open>rest \<noteq> []\<close> takeWhile_butlast_only [of "CHR ''?''" rest] show ?thesis
    by (simp add: split_query_def)
qed (auto simp: split_query_def cut_at_def)

lemma slash_no_letter: "\<not> is_letter (CHR ''/'')" "\<not> is_digit (CHR ''/'')"
  by code_simp+

lemma scheme_go_colon: "scheme_go w acc (CHR '':'' # zs) = (if acc = [] then None else Some (acc, zs))"
proof -
  have "\<not> is_letter (CHR '':'')" "\<not> is_digit (CHR '':'')" by code_simp+
  then show ?thesis by simp
qed

lemma scheme_go_within:
  assumes "scheme_go raw acc (xs @ CHR ''/'' # ys) = Some (s, rest)" and "s \<noteq> []"
  shows "\<exists>cs us. rest = cs @ CHR ''/'' # ys \<and> xs = us @ CHR '':'' # cs \<and> (\<forall>raw'. scheme_go raw' acc xs = Some (s, cs))"
  using assms(1)
proof (induction xs arbitrary: acc)
  case Nil
  with \<open>s \<noteq> []\<close> show ?case by (simp add: slash_no_letter)
next
  case (Cons x xs)
  consider (step) "scheme_go raw (acc @ [x]) (xs @ CHR ''/'' # ys) = Some (s, rest)"
      "\<forall>raw'. scheme_go raw' acc (x # xs) = scheme_go raw' (acc @ [x]) xs"
    | (colon) "x = CHR '':''" "acc \<noteq> []" "s = acc" "rest = xs @ CHR ''/'' # ys" "\<forall>raw'. scheme_go raw' acc (x # xs) = Some (acc, xs)"
  proof (cases "is_letter x")
    case True
    show ?thesis using Cons.prems by (intro step) (simp_all add: True)
  next
    case F: False
    show ?thesis
    proof (cases "is_digit x \<or> x \<in> set ''+-.''")
      case True
      show ?thesis
      proof (cases acc)
        case Nil
        then show ?thesis using Cons.prems \<open>s \<noteq> []\<close> F True by simp
      next
        case (Cons a as)
        then show ?thesis using Cons.prems F True by (intro step) simp_all
      qed
    next
      case False
      show ?thesis
      proof (cases "x = CHR '':''")
        case True
        show ?thesis using Cons.prems \<open>s \<noteq> []\<close> F False True
          by (intro colon) (simp_all only: True append_Cons scheme_go_colon option.inject prod.inject split: if_splits,
            simp_all)
      next
        case F3: False
        show ?thesis using Cons.prems \<open>s \<noteq> []\<close> F False F3 by (simp only: scheme_go.simps append_Cons if_False option.inject prod.inject)
      qed
    qed
  qed
  then show ?case
  proof cases
    case step
    from Cons.IH [OF step(1)] step(2) show ?thesis by (metis append_Cons)
  next
    case colon
    then show ?thesis by auto
  qed
qed

section \<open>The parse of an address below a base\<close>

text \<open>The scheme and the authority a base address gives.\<close>

definition base_parts :: "string \<Rightarrow> string \<times> string" where
  "base_parts b = (case get_scheme (takeWhile (\<lambda>c. c \<noteq> CHR ''#'') b) of
      None \<Rightarrow> ([], [])
    | Some (s, rest) \<Rightarrow> (to_lower s, takeWhile (\<lambda>c. c \<noteq> CHR ''/'') (drop 2 (takeWhile (\<lambda>c. c \<noteq> CHR ''?'') rest))))"

lemma set_path_keeps: "set_path p u = Some v \<Longrightarrow> ur_Scheme v = ur_Scheme u \<and> ur_Host v = ur_Host u \<and> ur_User v = ur_User u"
  by (auto simp: set_path_def split: option.splits)

lemma parse_rest_host:
  assumes "parse_rest u r = Some v" and "ur_Host u = []" and "ur_Host v \<noteq> []"
  shows "has_prefix r ''//'' \<and> ur_Scheme v = ur_Scheme u
     \<and> (\<exists>usr. parse_authority (takeWhile (\<lambda>c. c \<noteq> CHR ''/'') (drop 2 r)) = Some (usr, ur_Host v))"
proof -
  have "(has_prefix r ''//'' \<and> (\<exists>usr host path. parse_authority (takeWhile (\<lambda>c. c \<noteq> CHR ''/'') (drop 2 r)) = Some (usr, host)
         \<and> set_path path (u\<lparr>ur_User := usr, ur_Host := host\<rparr>) = Some v))
      \<or> v = u\<lparr>ur_Opaque := r\<rparr> \<or> (\<exists>path. set_path path (u\<lparr>ur_OmitHost := True\<rparr>) = Some v) \<or> set_path r u = Some v"
    using assms(1) unfolding parse_rest_def Let_def
    by (simp split: if_split_asm option.split_asm prod.split_asm) blast+
  then show ?thesis using assms(2,3) by (elim disjE exE conjE) (fastforce dest: set_path_keeps)+
qed

lemma url_parse_host:
  assumes "url_parse raw = Some u" and "ur_Host u \<noteq> []"
  shows "\<exists>s rest. get_scheme (takeWhile (\<lambda>c. c \<noteq> CHR ''#'') raw) = Some (s, rest) \<and> ur_Scheme u = to_lower s
     \<and> has_prefix (takeWhile (\<lambda>c. c \<noteq> CHR ''?'') rest) ''//''
     \<and> (\<exists>usr. parse_authority (takeWhile (\<lambda>c. c \<noteq> CHR ''/'') (drop 2 (takeWhile (\<lambda>c. c \<noteq> CHR ''?'') rest))) = Some (usr, ur_Host u))"
proof -
  from assms(1) obtain x where x: "parse_no_fragment (takeWhile (\<lambda>c. c \<noteq> CHR ''#'') raw) = Some x"
    and xu: "ur_Host u = ur_Host x" "ur_Scheme u = ur_Scheme x"
    by (auto simp: url_parse_def cut_at_def set_fragment_def split: option.splits if_splits)
  from x xu assms(2) obtain s rest r force q where g: "get_scheme (takeWhile (\<lambda>c. c \<noteq> CHR ''#'') raw) = Some (s, rest)"
    and sq: "split_query rest = (r, force, q)"
    and pr: "parse_rest (no_url\<lparr>ur_Scheme := to_lower s, ur_ForceQuery := force, ur_RawQuery := q\<rparr>) r = Some x"
    by (auto simp: parse_no_fragment_def no_url_def split: if_splits option.splits prod.splits)
  have r: "r = takeWhile (\<lambda>c. c \<noteq> CHR ''?'') rest" using split_query_fst [of rest] sq by simp
  from parse_rest_host [OF pr] xu assms(2) g r show ?thesis by (auto simp: no_url_def)
qed

lemma base_fixes_authority:
  assumes "url_parse (b @ CHR ''/'' # t) = Some u" and "ur_Host u \<noteq> []" and "ur_Scheme u \<noteq> []"
    and "b \<noteq> []" and "List.last b \<noteq> CHR ''/''" and "\<not> has_prefix t ''/''"
  shows "ur_Scheme u = fst (base_parts b) \<and> (\<exists>usr. parse_authority (snd (base_parts b)) = Some (usr, ur_Host u))"
proof -
  from url_parse_host [OF assms(1,2)] obtain s rest
    where g: "get_scheme (takeWhile (\<lambda>c. c \<noteq> CHR ''#'') (b @ CHR ''/'' # t)) = Some (s, rest)" and su: "ur_Scheme u = to_lower s"
      and pre: "has_prefix (takeWhile (\<lambda>c. c \<noteq> CHR ''?'') rest) ''//''"
      and pa: "\<exists>usr. parse_authority (takeWhile (\<lambda>c. c \<noteq> CHR ''/'') (drop 2 (takeWhile (\<lambda>c. c \<noteq> CHR ''?'') rest))) = Some (usr, ur_Host u)"
    by blast
  show ?thesis
  proof (cases "CHR ''#'' \<in> set b")
    case True
    then have "takeWhile (\<lambda>c. c \<noteq> CHR ''#'') (b @ CHR ''/'' # t) = takeWhile (\<lambda>c. c \<noteq> CHR ''#'') b"
      by (intro takeWhile_append1) auto
    with g su pa show ?thesis by (simp add: base_parts_def)
  next
    case False
    then have bb: "takeWhile (\<lambda>c. c \<noteq> CHR ''#'') b = b" by (auto simp: takeWhile_eq_all_conv)
    define t' where "t' = takeWhile (\<lambda>c. c \<noteq> CHR ''#'') t"
    have "takeWhile (\<lambda>c. c \<noteq> CHR ''#'') (b @ CHR ''/'' # t) = b @ CHR ''/'' # t'"
      using False by (simp add: takeWhile_append t'_def)
    with g have g': "scheme_go (b @ CHR ''/'' # t') [] (b @ CHR ''/'' # t') = Some (s, rest)" by (simp add: get_scheme_def)
    have "s \<noteq> []" using su assms(3) by (auto simp: to_lower_def)
    from scheme_go_within [OF g' this] obtain cs us where rest: "rest = cs @ CHR ''/'' # t'" and bus: "b = us @ CHR '':'' # cs"
      and gb: "get_scheme b = Some (s, cs)"
      by (auto simp: get_scheme_def)
    have parts: "base_parts b = (to_lower s, takeWhile (\<lambda>c. c \<noteq> CHR ''/'') (drop 2 (takeWhile (\<lambda>c. c \<noteq> CHR ''?'') cs)))"
      by (simp add: base_parts_def bb gb)
    show ?thesis
    proof (cases "CHR ''?'' \<in> set cs")
      case True
      then have "takeWhile (\<lambda>c. c \<noteq> CHR ''?'') rest = takeWhile (\<lambda>c. c \<noteq> CHR ''?'') cs"
        unfolding rest by (intro takeWhile_append1) auto
      with pa su parts show ?thesis by simp
    next
      case F: False
      then have cc: "takeWhile (\<lambda>c. c \<noteq> CHR ''?'') cs = cs" by (auto simp: takeWhile_eq_all_conv)
      define t'' where "t'' = takeWhile (\<lambda>c. c \<noteq> CHR ''?'') t'"
      have r: "takeWhile (\<lambda>c. c \<noteq> CHR ''?'') rest = cs @ CHR ''/'' # t''"
        using F by (simp add: rest takeWhile_append t''_def)
      have nt: "\<not> has_prefix t'' ''/''"
        using assms(6) by (cases t) (auto simp: t'_def t''_def has_prefix_Cons)
      have "2 \<le> length cs"
      proof (rule ccontr)
        assume "\<not> 2 \<le> length cs"
        then consider "cs = []" | c where "cs = [c]" by (cases cs) (auto simp: Suc_le_eq)
        then show False
        proof cases
          case 1
          with pre r nt show False by (simp add: has_prefix_Cons)
        next
          case 2
          with bus assms(5) have "c \<noteq> CHR ''/''" by simp
          with pre r 2 show False by (simp add: has_prefix_Cons)
        qed
      qed
      then have "drop 2 (cs @ CHR ''/'' # t'') = drop 2 cs @ CHR ''/'' # t''" by simp
      then have "takeWhile (\<lambda>c. c \<noteq> CHR ''/'') (drop 2 (cs @ CHR ''/'' # t'')) = takeWhile (\<lambda>c. c \<noteq> CHR ''/'') (drop 2 cs)"
        by (simp add: takeWhile_until)
      with pa su parts r cc show ?thesis by simp
    qed
  qed
qed

section \<open>The address written back\<close>

lemma check_Inr:
  assumes "check p w = Inr a"
  shows "\<exists>u. url_parse w = Some u \<and> a = url_string u \<and> ur_Host u \<noteq> [] \<and> ur_Scheme u \<noteq> []"
  using assms by (auto simp: check_def split: option.splits if_splits)

lemma url_tail_start: "url_tail u = [] \<or> hd (url_tail u) \<in> {CHR ''/'', CHR ''?'', CHR ''#''}"
  by (cases "escaped_path u") (auto simp: url_tail_def Let_def)

lemma hex_upper_plain: "n < 16 \<Longrightarrow> hex_upper n \<notin> {CHR ''/'', CHR ''?'', CHR ''#'', CHR ''@''}"
proof -
  have "\<forall>n\<in>set [0..<16]. hex_upper n \<notin> {CHR ''/'', CHR ''?'', CHR ''#'', CHR ''@''}" by code_simp
  then show "n < 16 \<Longrightarrow> ?thesis" by simp
qed

lemma host_delims_escaped: "\<forall>c\<in>{CHR ''/'', CHR ''?'', CHR ''#'', CHR ''@''}. should_escape encodeHost c"
  by code_simp

lemma escaped_host_plain: "set (escape encodeHost h) \<inter> {CHR ''/'', CHR ''?'', CHR ''#'', CHR ''@''} = {}"
proof -
  define D where "D = {CHR ''/'', CHR ''?'', CHR ''#'', CHR ''@''}"
  have percent: "CHR ''%'' \<notin> D" by (simp add: D_def)
  have hex: "hex_upper (of_char c div 16) \<notin> D \<and> hex_upper (of_char c mod 16) \<notin> D" for c
  proof -
    have "of_char c < (256 :: nat)" by simp
    then have "of_char c div 16 < (16 :: nat)" "of_char c mod 16 < (16 :: nat)"
      by (simp_all only: div_less_iff_less_mult mod_less_divisor zero_less_numeral)
    with hex_upper_plain show ?thesis unfolding D_def by blast
  qed
  have keep: "c \<notin> D" if "\<not> should_escape encodeHost c" for c
    using host_delims_escaped that unfolding D_def by blast
  have "set (if should_escape encodeHost c then [CHR ''%'', hex_upper (of_char c div 16), hex_upper (of_char c mod 16)] else [c]) \<inter> D = {}" for c
    using percent hex [of c] keep [of c] by (cases "should_escape encodeHost c") simp_all
  then show ?thesis unfolding escape_def D_def [symmetric] by (induction h) (simp_all add: Int_Un_distrib2)
qed

section \<open>Containment\<close>

lemma Resolve_below_base:
  assumes "Resolve p base target = Inr a" and "trim_right ''/'' (trim_space base) \<noteq> []"
  shows "\<exists>t. \<not> has_prefix t ''/'' \<and> check p (trim_right ''/'' (trim_space base) @ CHR ''/'' # t) = Inr a"
proof -
  define tg where "tg = trim_space target"
  define t1 where "t1 = (if \<not> has_prefix tg ''/'' then ''/'' @ tg else tg)"
  from assms have c: "\<not> has_prefix t1 ''//''" "check p (trim_right ''/'' (trim_space base) @ t1) = Inr a"
    by (auto simp: Resolve_def tg_def [symmetric] t1_def Let_def split: if_splits)
  obtain t where t: "t1 = CHR ''/'' # t"
    by (cases "has_prefix tg ''/''") (auto simp: t1_def has_prefix_Cons)
  with c show ?thesis by (auto simp: has_prefix_Cons)
qed

lemma trim_right_last: "trim_right [c] s \<noteq> [] \<Longrightarrow> List.last (trim_right [c] s) \<noteq> c"
  using hd_dropWhile [of "\<lambda>x. x \<in> set [c]" "rev s"] by (simp add: trim_right_def last_rev del: dropWhile_eq_Nil_conv)

text \<open> C6. Containment: below a project's base address a target chooses neither the scheme nor the
  host. There is one scheme and one host, which the base address determines, such that every address
  any target resolves to is that scheme, the separator, that host, and then nothing or a path, a query
  or a fragment; the host itself contains none of the characters that could end it. \<close>
theorem target_host_fixed:
  assumes "trim_right ''/'' (trim_space base) \<noteq> []"
  shows "\<exists>scheme host. set host \<inter> {CHR ''/'', CHR ''?'', CHR ''#'', CHR ''@''} = {}
     \<and> (\<forall>target a. Resolve p base target = Inr a \<longrightarrow>
           (\<exists>rest. a = scheme @ ''://'' @ host @ rest \<and> (rest = [] \<or> hd rest \<in> {CHR ''/'', CHR ''?'', CHR ''#''})))"
proof -
  define b where "b = trim_right ''/'' (trim_space base)"
  define host where "host = (case parse_authority (snd (base_parts b)) of None \<Rightarrow> [] | Some (usr, h) \<Rightarrow> escape encodeHost h)"
  have b: "b \<noteq> []" "List.last b \<noteq> CHR ''/''" using assms trim_right_last by (auto simp: b_def)
  have "\<exists>rest. a = fst (base_parts b) @ ''://'' @ host @ rest \<and> (rest = [] \<or> hd rest \<in> {CHR ''/'', CHR ''?'', CHR ''#''})"
    if r: "Resolve p base target = Inr a" for target a
  proof -
    from Resolve_below_base [OF r assms] obtain t where t: "\<not> has_prefix t ''/''" "check p (b @ CHR ''/'' # t) = Inr a"
      by (auto simp: b_def)
    from check_Inr [OF t(2)] obtain u where u: "url_parse (b @ CHR ''/'' # t) = Some u" "a = url_string u" "ur_Host u \<noteq> []" "ur_Scheme u \<noteq> []"
      by blast
    from base_fixes_authority [OF u(1,3,4) b t(1)] have "ur_Scheme u = fst (base_parts b)" "host = escape encodeHost (ur_Host u)"
      by (auto simp: host_def)
    with u(2) url_tail_start [of u] show ?thesis by (auto simp: url_string_def)
  qed
  moreover have "set host \<inter> {CHR ''/'', CHR ''?'', CHR ''#'', CHR ''@''} = {}"
    using escaped_host_plain by (auto simp: host_def split: option.splits prod.splits)
  ultimately show ?thesis by blast
qed

theorem target_host_fixed_witness:
  "\<exists>scheme host. set host \<inter> {CHR ''/'', CHR ''?'', CHR ''#'', CHR ''@''} = {}
     \<and> (\<exists>rest. ''http://h:8080/v1/@x/../run?a=b'' = scheme @ ''://'' @ host @ rest \<and> (rest = [] \<or> hd rest \<in> {CHR ''/'', CHR ''?'', CHR ''#''}))
     \<and> (\<forall>target a. Resolve \<lparr>AllowPrivate = True\<rparr> '' http://h:8080/v1/ '' target = Inr a \<longrightarrow>
           (\<exists>rest. a = scheme @ ''://'' @ host @ rest))"
proof -
  have tb: "trim_right ''/'' (trim_space '' http://h:8080/v1/ '') = ''http://h:8080/v1''" by (simp add: string_eval)
  then have b: "trim_right ''/'' (trim_space '' http://h:8080/v1/ '') \<noteq> []" by simp
  have "trim_space ''@x/../run?a=b'' = ''@x/../run?a=b''" "\<not> hasScheme ''@x/../run?a=b''"
    by (simp_all add: string_eval hasScheme_def)
  moreover have "check \<lparr>AllowPrivate = True\<rparr> ''http://h:8080/v1/@x/../run?a=b'' = Inr ''http://h:8080/v1/@x/../run?a=b''"
    by code_simp
  ultimately have r: "Resolve \<lparr>AllowPrivate = True\<rparr> '' http://h:8080/v1/ '' ''@x/../run?a=b'' = Inr ''http://h:8080/v1/@x/../run?a=b''"
    by (simp add: Resolve_def tb illegal_char_def has_prefix_def)
  obtain scheme host where h: "set host \<inter> {CHR ''/'', CHR ''?'', CHR ''#'', CHR ''@''} = {}"
    and all: "\<forall>target a. Resolve \<lparr>AllowPrivate = True\<rparr> '' http://h:8080/v1/ '' target = Inr a \<longrightarrow>
      (\<exists>rest. a = scheme @ ''://'' @ host @ rest \<and> (rest = [] \<or> hd rest \<in> {CHR ''/'', CHR ''?'', CHR ''#''}))"
    using target_host_fixed [OF b, of "\<lparr>AllowPrivate = True\<rparr>"] by (elim exE conjE)
  show ?thesis
  proof (rule exI [of _ scheme], rule exI [of _ host], intro conjI)
    show "\<exists>rest. ''http://h:8080/v1/@x/../run?a=b'' = scheme @ ''://'' @ host @ rest \<and> (rest = [] \<or> hd rest \<in> {CHR ''/'', CHR ''?'', CHR ''#''})"
      by (rule all [rule_format, OF r])
    show "\<forall>target a. Resolve \<lparr>AllowPrivate = True\<rparr> '' http://h:8080/v1/ '' target = Inr a \<longrightarrow> (\<exists>rest. a = scheme @ ''://'' @ host @ rest)"
      using all by meson
  qed (rule h)
qed

section \<open>Zones\<close>

text \<open>
  A link local literal is refused, but \<open>net.ParseIP\<close> answers nothing for the same literal with a zone,
  which the guard takes for a name.
\<close>

lemma zoned_literal_passes:
  "rejectPrivate ''fe80::1'' \<noteq> None"
  "check \<lparr>AllowPrivate = False\<rparr> ''http://[fe80::1%25eth0]/x'' = Inr ''http://[fe80::1%25eth0]/x''"
  by code_simp+

end
