(* ===== verification/ServiceErrors.thy ===== *)
theory ServiceErrors
  imports Effects CronNext
begin

text \<open>
  The errors of the service layer (\<open>internal/service/errors.go\<close>): the sentinels, the validation error
  that carries every failure at once, and the texts an expression is refused with.
\<close>

section \<open>Validation errors\<close>

text \<open>A field and its message.\<close>

type_synonym field_error = "string \<times> string"

datatype svc_error =
    SvcNotFound
  | SvcForbidden
  | SvcConflict
  | SvcInvalidLogin
  | SvcInactiveUser
  | SvcChainLoop
  | SvcSelfLink
  | SvcProjectLocked
  | SvcValidation "field_error list"
  | SvcOther go_error

type_synonym ('w, 'a) svc = "('w, svc_error + 'a) state"

fun itoa_digits :: "nat \<Rightarrow> int \<Rightarrow> string \<Rightarrow> string" where
  "itoa_digits 0 n digits = digits"
| "itoa_digits (Suc k) n digits =
     (if n > 0 then itoa_digits k (n div 10) (char_of (48 + nat (n mod 10)) # digits) else digits)"

text \<open>The package's own \<open>itoa\<close>; an int has at most nineteen digits.\<close>

definition svc_itoa :: "int \<Rightarrow> string" where
  "svc_itoa n = (if n = 0 then ''0'' else itoa_digits 19 n [])"

definition validation_text :: "field_error list \<Rightarrow> string" where
  "validation_text es = (case es of
      [] \<Rightarrow> ''validation failed''
    | (f, m) # rest \<Rightarrow> f @ '': '' @ m @ (if rest = [] then [] else '' (and '' @ svc_itoa (int (length rest)) @ '' more)''))"

fun svc_text :: "svc_error \<Rightarrow> string" where
  "svc_text SvcNotFound = ''not found''"
| "svc_text SvcForbidden = ''forbidden''"
| "svc_text SvcConflict = ''already exists''"
| "svc_text SvcInvalidLogin = ''invalid email or password''"
| "svc_text SvcInactiveUser = ''account is not active''"
| "svc_text SvcChainLoop = ''this link would create a loop''"
| "svc_text SvcSelfLink = ''a job cannot trigger itself''"
| "svc_text SvcProjectLocked = ''project still has jobs''"
| "svc_text (SvcValidation es) = validation_text es"
| "svc_text (SvcOther e) = err_text e"

definition ErrOrNil :: "field_error list \<Rightarrow> 'a \<Rightarrow> svc_error + 'a" where
  "ErrOrNil es x = (if es = [] then Inr x else Inl (SvcValidation es))"

text \<open>A repository error passed on as it is.\<close>

definition pass_on :: "go_error + 'a \<Rightarrow> svc_error + 'a" where
  "pass_on r = map_sum SvcOther (\<lambda>x. x) r"

text \<open>
  The two ways a service calls what it depends on: any error is returned as it is, or the
  repository's \<open>ErrNotFound\<close> becomes the service's. \<open>attempt\<close> is \<open>if err != nil { return err }\<close>.
\<close>

definition attempt :: "('w, 'e + 'a) state \<Rightarrow> ('a \<Rightarrow> ('w, 'e + 'b) state) \<Rightarrow> ('w, 'e + 'b) state" where
  "attempt m f = do {
     r \<leftarrow> m;
     case r of Inl e \<Rightarrow> State_Monad.return (Inl e) | Inr x \<Rightarrow> f x }"

definition raw :: "('w, 'a) call \<Rightarrow> ('w, 'a) svc" where
  "raw m = do { r \<leftarrow> m; State_Monad.return (pass_on r) }"

definition or_not_found :: "('w, 'a) call \<Rightarrow> ('w, 'a) svc" where
  "or_not_found m = do {
     r \<leftarrow> m;
     State_Monad.return (case r of Inl ErrNotFound \<Rightarrow> Inl SvcNotFound | _ \<Rightarrow> pass_on r) }"

definition ok :: "'a \<Rightarrow> ('w, 'e + 'a) state" where
  "ok x = State_Monad.return (Inr x)"

definition fail :: "'e \<Rightarrow> ('w, 'e + 'a) state" where
  "fail e = State_Monad.return (Inl e)"

lemma run_ok [simp]: "run_state (ok x) w = (Inr x, w)"
  by (simp add: ok_def)

lemma run_fail [simp]: "run_state (fail e) w = (Inl e, w)"
  by (simp add: fail_def)

lemma run_attempt:
  "run_state (attempt m f) w =
     (case run_state m w of (Inl e, w') \<Rightarrow> (Inl e, w') | (Inr x, w') \<Rightarrow> run_state (f x) w')"
  by (simp add: attempt_def split: prod.splits sum.splits)

lemma run_raw: "run_state (raw m) w = (case run_state m w of (r, w') \<Rightarrow> (pass_on r, w'))"
  by (simp add: raw_def split: prod.splits)

lemma run_or_not_found:
  "run_state (or_not_found m) w =
     (case run_state m w of (r, w') \<Rightarrow> (case r of Inl ErrNotFound \<Rightarrow> Inl SvcNotFound | _ \<Rightarrow> pass_on r, w'))"
  by (simp add: or_not_found_def split: prod.splits)

lemma pass_on_simps [simp]: "pass_on (Inl e) = Inl (SvcOther e)" "pass_on (Inr x) = Inr x"
  by (simp_all add: pass_on_def)

lemma run_attempt_after: "run_state m w = (Inr x, w') \<Longrightarrow> run_state (attempt m f) w = run_state (f x) w'"
  by (simp add: run_attempt)

lemma attempt_Inr:
  "run_state (attempt m f) w = (Inr y, w'') \<longleftrightarrow>
     (\<exists>x w'. run_state m w = (Inr x, w') \<and> run_state (f x) w' = (Inr y, w''))"
  by (auto simp: run_attempt split: prod.splits sum.splits)

lemma attemptE:
  assumes "run_state (attempt m f) w = (Inr y, w'')"
  obtains x w' where "run_state m w = (Inr x, w')" and "run_state (f x) w' = (Inr y, w'')"
  using assms unfolding attempt_Inr by blast

lemma raw_Inr: "run_state (raw m) w = (Inr x, w') \<longleftrightarrow> run_state m w = (Inr x, w')"
  by (auto simp: run_raw pass_on_def split: prod.splits) (metis map_sum.simps old.sum.exhaust sum.inject(2) Inl_Inr_False)

lemmas svc_run = run_attempt run_raw run_or_not_found

context frame
begin

lemma keeps_attempt_after:
  assumes "keeps R m" and "\<And>w x w'. run_state m w = (Inr x, w') \<Longrightarrow> keeps R (f x)"
  shows "keeps R (attempt m f)"
proof (rule keepsI)
  fix w a w'' assume run: "run_state (attempt m f) w = (a, w'')"
  obtain r w' where m: "run_state m w = (r, w')" by fastforce
  then have "R w w'" using assms(1) keepsD by metis
  show "R w w''"
  proof (cases r)
    case (Inl e)
    with run m \<open>R w w'\<close> show ?thesis by (simp add: run_attempt)
  next
    case (Inr x)
    with run m have "run_state (f x) w' = (a, w'')" by (simp add: run_attempt)
    with assms(2) [of w x w'] m Inr have "R w' w''" by (metis keepsD)
    with \<open>R w w'\<close> show ?thesis by (rule R_trans)
  qed
qed

lemma keeps_attempt: "keeps R m \<Longrightarrow> (\<And>x. keeps R (f x)) \<Longrightarrow> keeps R (attempt m f)"
  by (rule keeps_attempt_after)

lemma keeps_raw: "keeps R m \<Longrightarrow> keeps R (raw m)"
  by (simp add: raw_def keeps_bind keeps_return)

lemma keeps_or_not_found: "keeps R m \<Longrightarrow> keeps R (or_not_found m)"
  by (simp add: or_not_found_def keeps_bind keeps_return)

lemma keeps_ok: "keeps R (ok x)"
  by (simp add: ok_def keeps_return)

lemma keeps_fail: "keeps R (fail e)"
  by (simp add: fail_def keeps_return)

lemma keeps_cond: "(b \<Longrightarrow> keeps R m) \<Longrightarrow> (\<not> b \<Longrightarrow> keeps R n) \<Longrightarrow> keeps R (if b then m else n)"
  by simp

lemmas svc_keeps = keeps_attempt keeps_raw keeps_or_not_found keeps_ok keeps_fail

end

section \<open>The texts of expression errors\<close>

fun cron_error_text :: "cron_error \<Rightarrow> string" where
  "cron_error_text ExpressionEmpty = ''expression is empty''"
| "cron_error_text (FieldCount n) = ''expression must have 5 fields, found '' @ show_int (int n)"
| "cron_error_text (FieldEmpty n) = n @ '' field is empty''"
| "cron_error_text (NoValue n f) = n @ '' field '' @ go_quote f @ '' matches no value''"
| "cron_error_text (EmptyElement n) = n @ '' field has an empty element''"
| "cron_error_text (InvalidStep n s) = n @ '' field has an invalid step: '' @ go_quote s"
| "cron_error_text (InvalidRange n p) = n @ '' field has an invalid range: '' @ go_quote p"
| "cron_error_text (ReversedRange n p) = n @ '' field has a reversed range: '' @ go_quote p"
| "cron_error_text (InvalidValue n p) = n @ '' field has an invalid value: '' @ go_quote p"
| "cron_error_text (OutOfBounds n lo hi p) =
     n @ '' field must be within '' @ show_int lo @ ''-'' @ show_int hi @ '': '' @ go_quote p"

text \<open>\<open>itoa\<close> writes every positive number as the standard conversion does.\<close>

lemma itoa_digits_show:
  assumes "0 < n" and "n < 10 ^ k"
  shows "itoa_digits k n ds = show_nat (nat n) @ ds"
  using assms
proof (induction k arbitrary: n ds)
  case 0
  then show ?case by simp
next
  case (Suc k)
  show ?case
  proof (cases "n < 10")
    case True
    then have "n div 10 = 0" "n mod 10 = n" using Suc.prems by simp_all
    moreover have "itoa_digits k 0 xs = xs" for xs by (cases k) simp_all
    ultimately show ?thesis using Suc.prems True by (subst show_nat.simps) simp
  next
    case False
    have p: "0 < n div 10" using False by simp
    have "n div 10 < 10 ^ k" using Suc.prems by (simp add: div_less_iff_less_mult)
    from Suc.IH [OF p this] Suc.prems show ?thesis
      by (subst show_nat.simps) (use False in \<open>simp add: nat_div_distrib nat_mod_distrib\<close>)
  qed
qed

lemma svc_itoa_show: "0 \<le> n \<Longrightarrow> n < 10 ^ 19 \<Longrightarrow> svc_itoa n = show_nat (nat n)"
proof (cases "n = 0")
  case True
  moreover have "svc_itoa 0 = show_nat 0" by code_simp
  ultimately show ?thesis by simp
qed (simp add: svc_itoa_def itoa_digits_show)

end
