(* ===== verification/JobService.thy ===== *)
theory JobService
  imports ServiceErrors Target RunStore
begin

text \<open>
  Defining a job (\<open>internal/service/job_service.go\<close>): the defaults, every validation rule, the
  scope checks of each operation, and the next firings the screens show. A nil slice of the source
  is \<open>None\<close> where the code tells it from an empty one.
\<close>

section \<open>What the service depends on\<close>

record 'w JobStore =
  js_Get :: "int \<Rightarrow> ('w, job) call"
  js_GetByCode :: "int \<Rightarrow> string \<Rightarrow> ('w, job) call"
  js_List :: "job_filter \<Rightarrow> int \<Rightarrow> int \<Rightarrow> ('w, job_row list \<times> int) call"
  js_ListOptions :: "ProjectScope \<Rightarrow> int \<Rightarrow> ('w, job_option list) call"
  js_ListTags :: "ProjectScope \<Rightarrow> ('w, string list) call"
  js_Create :: "job \<Rightarrow> ('w, int) call"
  js_Update :: "job \<Rightarrow> ('w, unit) call"
  js_SetActive :: "int \<Rightarrow> bool \<Rightarrow> ('w, unit) call"
  js_SoftDelete :: "int \<Rightarrow> instant \<Rightarrow> ('w, unit) call"
  js_ListHeaders :: "int \<Rightarrow> ('w, job_header list) call"
  js_ReplaceHeaders :: "int \<Rightarrow> job_header list \<Rightarrow> ('w, unit) call"
  js_ListSchedules :: "int \<Rightarrow> ('w, job_schedule list) call"
  js_CreateSchedule :: "job_schedule \<Rightarrow> ('w, int) call"
  js_DeleteSchedule :: "int \<Rightarrow> int \<Rightarrow> ('w, unit) call"
  js_CountSchedules :: "int \<Rightarrow> ('w, int) call"
  js_ReplaceSchedules :: "int \<Rightarrow> string list \<Rightarrow> ('w, unit) call"
  js_ListLinks :: "int \<Rightarrow> ('w, job_link_row list) call"
  js_ListTriggers :: "int \<Rightarrow> ('w, job_link_row list) call"
  js_CreateLink :: "job_link \<Rightarrow> ('w, int) call"
  js_DeleteLink :: "int \<Rightarrow> int \<Rightarrow> ('w, unit) call"
  js_ReachesJob :: "int \<Rightarrow> int \<Rightarrow> int \<Rightarrow> ('w, bool) call"

text \<open>Counting and reading a page are two statements.\<close>

definition paged :: "('w, int) call \<Rightarrow> ('w, 'a list) call \<Rightarrow> ('w, 'a list \<times> int) call" where
  "paged count page = do {
     r \<leftarrow> count;
     case r of Inl e \<Rightarrow> State_Monad.return (Inl e) | Inr n \<Rightarrow> do {
       r \<leftarrow> page;
       case r of Inl e \<Rightarrow> State_Monad.return (Inl e) | Inr rows \<Rightarrow> State_Monad.return (Inr (rows, n)) } }"

definition job_repo :: "'w world_scheme JobStore" where
  "job_repo = \<lparr>js_Get = (\<lambda>i. stmt (get_job i)), js_GetByCode = (\<lambda>p c. stmt (get_job_by_code p c)),
     js_List = (\<lambda>f offset limit. paged (stmt (count_jobs f)) (stmt (list_job_rows f offset limit))),
     js_ListOptions = (\<lambda>s i. stmt (list_options s i)), js_ListTags = (\<lambda>s. stmt (list_tags s)),
     js_Create = (\<lambda>j. stmt (create_job j)), js_Update = (\<lambda>j. stmt (update_job j)),
     js_SetActive = (\<lambda>i b. stmt (set_active i b)), js_SoftDelete = (\<lambda>i t. stmt (soft_delete_job i t)),
     js_ListHeaders = (\<lambda>i. stmt (list_headers i)), js_ReplaceHeaders = (\<lambda>i hs. stmt (replace_headers i hs)),
     js_ListSchedules = (\<lambda>i. stmt (list_schedules i)), js_CreateSchedule = (\<lambda>s. stmt (create_schedule s)),
     js_DeleteSchedule = (\<lambda>i j. stmt (delete_schedule i j)), js_CountSchedules = (\<lambda>i. stmt (count_schedules i)),
     js_ReplaceSchedules = (\<lambda>i es. stmt (replace_schedules i es)), js_ListLinks = (\<lambda>i. stmt (list_links i)),
     js_ListTriggers = (\<lambda>i. stmt (list_triggers i)), js_CreateLink = (\<lambda>l. stmt (create_link l)),
     js_DeleteLink = (\<lambda>i j. stmt (delete_link i j)), js_ReachesJob = (\<lambda>f t n. stmt (reaches_job f t n))\<rparr>"

record 'w job_service =
  sv_jobs :: "'w JobStore"
  sv_project :: "int \<Rightarrow> ('w, project) call"
  sv_recent :: "int \<Rightarrow> int \<Rightarrow> ('w, run list) call"
  sv_policy :: TargetPolicy
  sv_location :: location
  sv_now :: "('w, instant) state"

definition NewJobService :: "TargetPolicy \<Rightarrow> location \<Rightarrow> 'w world_scheme job_service" where
  "NewJobService policy loc = \<lparr>sv_jobs = job_repo, sv_project = (\<lambda>i. stmt (get_project i)),
     sv_recent = (\<lambda>i n. stmt (recent_runs i n)), sv_policy = policy, sv_location = loc, sv_now = app_now\<rparr>"

section \<open>Input\<close>

record header_in =
  hi_Key :: string
  hi_Value :: string
  hi_IsSecret :: bool

record chain_in =
  ci_TargetCode :: string
  ci_Condition :: string
  ci_DelaySec :: int

record job_input =
  in_ProjectID :: int
  in_Code :: string
  in_Name :: string
  in_Description :: string
  in_Tag :: string
  in_Method :: string
  in_URL :: string
  in_Body :: string
  in_TimeoutSec :: int
  in_MaxDurationSec :: int
  in_Retries :: int
  in_SingleRun :: bool
  in_RunMissed :: bool
  in_MaxDelayMin :: int
  in_Priority :: int
  in_SuccessMin :: int
  in_SuccessMax :: int
  in_NotificationID :: "int option"
  in_Active :: bool
  in_Schedules :: "string list option"
  in_Headers :: "header_in list option"
  in_Links :: "chain_in list"

definition items :: "'a list option \<Rightarrow> 'a list" where
  "items xs = (case xs of None \<Rightarrow> [] | Some ys \<Rightarrow> ys)"

definition default_duration :: "int \<Rightarrow> int" where
  "default_duration timeout =
     (let d = wrap64 (timeout * 10); d = (if d < 300 then 300 else d) in if d > 86400 then 86400 else d)"

definition or_default :: "int \<Rightarrow> int \<Rightarrow> int" where
  "or_default v d = (if v = 0 then d else v)"

definition clean_schedules :: "string list \<Rightarrow> string list" where
  "clean_schedules es = filter (\<lambda>e. e \<noteq> []) (map normalize_space es)"

definition applyDefaults :: "job_input \<Rightarrow> job_input" where
  "applyDefaults i =
     (let code = to_lower (trim_space (in_Code i)); name = trim_space (in_Name i);
          method = to_upper (trim_space (in_Method i)); timeout = or_default (in_TimeoutSec i) DefaultTimeoutSec
      in i\<lparr>in_Code := code, in_Name := (if name = [] then code else name), in_Tag := trim_space (in_Tag i),
           in_Method := (if method = [] then ''GET'' else method), in_URL := trim_space (in_URL i),
           in_TimeoutSec := timeout,
           in_MaxDurationSec := (if in_MaxDurationSec i = 0 then default_duration timeout else in_MaxDurationSec i),
           in_MaxDelayMin := or_default (in_MaxDelayMin i) 10, in_Priority := or_default (in_Priority i) 100,
           in_SuccessMin := or_default (in_SuccessMin i) 200, in_SuccessMax := or_default (in_SuccessMax i) 399,
           in_Schedules := Some (clean_schedules (items (in_Schedules i)))\<rparr>)"

section \<open>Validation\<close>

definition allowedMethods :: "string list" where
  "allowedMethods = [''GET'', ''POST'', ''PUT'', ''PATCH'', ''DELETE'', ''HEAD'']"

definition add_if :: "bool \<Rightarrow> string \<Rightarrow> string \<Rightarrow> field_error list" where
  "add_if b field message = (if b then [(field, message)] else [])"

definition name_errors :: "job_input \<Rightarrow> job option \<Rightarrow> field_error list" where
  "name_errors i existing =
     add_if (existing = None \<and> \<not> ValidSlug (in_Code i)) ''code''
       ''use lower case letters, digits, dash and underscore, 2 to 64 characters''
     @ add_if (in_Name i = []) ''name'' ''required''
     @ add_if (length (in_Name i) > 200) ''name'' ''at most 200 characters''
     @ add_if (in_Method i \<notin> set allowedMethods) ''method'' ''must be one of GET, POST, PUT, PATCH, DELETE, HEAD''"

definition number_errors :: "job_input \<Rightarrow> field_error list" where
  "number_errors i =
     add_if (in_TimeoutSec i < MinTimeoutSec \<or> in_TimeoutSec i > MaxTimeoutSec) ''timeout_sec''
       (''must be between '' @ show_int MinTimeoutSec @ '' and '' @ show_int MaxTimeoutSec @ '' seconds'')
     @ add_if (in_MaxDurationSec i < in_TimeoutSec i) ''max_duration_sec''
       ''must be at least the timeout, otherwise the watchdog closes a run that is still healthy''
     @ add_if (in_Retries i < 0 \<or> in_Retries i > 5) ''retries'' ''must be between 0 and 5''
     @ add_if (in_MaxDelayMin i < 0 \<or> in_MaxDelayMin i > 1440) ''max_delay_min'' ''must be between 0 and 1440 minutes''
     @ add_if (in_SuccessMin i < 100 \<or> in_SuccessMin i > 599 \<or> in_SuccessMax i < 100 \<or> in_SuccessMax i > 599)
         ''success_min'' ''status range must be between 100 and 599''
     @ add_if (in_SuccessMax i < in_SuccessMin i) ''success_max'' ''must not be below the lower bound''"

fun schedule_errors :: "int \<Rightarrow> string list \<Rightarrow> field_error list" where
  "schedule_errors n [] = []"
| "schedule_errors n (e # es) =
     (case cron_validate e of None \<Rightarrow> [] | Some err \<Rightarrow> [(''schedules.'' @ show_int n, cron_error_text err)])
     @ schedule_errors (n + 1) es"

fun header_errors :: "int \<Rightarrow> header_in list \<Rightarrow> field_error list" where
  "header_errors n [] = []"
| "header_errors n (h # hs) =
     (let key = trim_space (hi_Key h) in
      if key = [] \<and> trim_space (hi_Value h) = [] then []
      else add_if (\<not> ValidHeaderName key) (''headers.'' @ show_int n @ ''.key'') ''not a valid header name''
        @ add_if (\<not> ValidHeaderValue (hi_Value h)) (''headers.'' @ show_int n @ ''.value'')
            ''value is too long or contains a line break'')
     @ header_errors (n + 1) hs"

text \<open>The project's answer: a missing project is one more validation error, another error ends it.\<close>

definition target_errors :: "TargetPolicy \<Rightarrow> job_input \<Rightarrow> go_error + project \<Rightarrow> svc_error + field_error list" where
  "target_errors policy i r = (case r of
      Inl ErrNotFound \<Rightarrow> Inr [(''project_id'', ''unknown project'')]
    | Inl e \<Rightarrow> Inl (SvcOther e)
    | Inr p \<Rightarrow> Inr (case Resolve policy (p_base_url p) (in_URL i) of Inl m \<Rightarrow> [(''url'', m)] | Inr _ \<Rightarrow> []))"

text \<open>The input is changed in place: what is returned is the input after its defaults.\<close>

definition Validate :: "'w job_service \<Rightarrow> job_input \<Rightarrow> job option \<Rightarrow> ('w, job_input) svc" where
  "Validate s inp existing = (let i = applyDefaults inp in do {
     r \<leftarrow> sv_project s (in_ProjectID i);
     State_Monad.return (case target_errors (sv_policy s) i r of
         Inl e \<Rightarrow> Inl e
       | Inr es \<Rightarrow> ErrOrNil (name_errors i existing @ es @ number_errors i
           @ schedule_errors 0 (items (in_Schedules i)) @ header_errors 0 (items (in_Headers i))) i) })"

definition toDomain :: "job_input \<Rightarrow> job option \<Rightarrow> job" where
  "toDomain i existing =
     \<lparr>j_id = (case existing of None \<Rightarrow> 0 | Some e \<Rightarrow> j_id e), j_project_id = in_ProjectID i,
      j_code = (case existing of None \<Rightarrow> in_Code i | Some e \<Rightarrow> j_code e), j_name = in_Name i,
      j_description = in_Description i, j_tag = in_Tag i, j_method = in_Method i, j_url = in_URL i,
      j_body = in_Body i, j_timeout_sec = in_TimeoutSec i, j_max_duration_sec = in_MaxDurationSec i,
      j_retries = in_Retries i, j_single_run = in_SingleRun i, j_run_missed = in_RunMissed i,
      j_max_delay_min = in_MaxDelayMin i, j_priority = in_Priority i, j_success_min = in_SuccessMin i,
      j_success_max = in_SuccessMax i, j_notification_id = in_NotificationID i, j_active = in_Active i,
      j_last_run_at = None, j_last_status = [], j_last_duration_ms = None,
      j_created_at = - 62135596800 * second, j_updated_at = None\<rparr>"

definition headersToDomain :: "int \<Rightarrow> header_in list \<Rightarrow> job_header list" where
  "headersToDomain jobID hs = map (\<lambda>h. \<lparr>h_id = 0, h_job_id = jobID, h_key = trim_space (hi_Key h),
       h_value = hi_Value h, h_is_secret = hi_IsSecret h\<rparr>) (filter (\<lambda>h. trim_space (hi_Key h) \<noteq> []) hs)"

section \<open>Writing a definition\<close>

definition invalid :: "string \<Rightarrow> string \<Rightarrow> svc_error" where
  "invalid field message = SvcValidation [(field, message)]"

text \<open>\<open>Create\<close> also answers the id when the schedules or headers of the new job could not be written.\<close>

definition Create :: "'w job_service \<Rightarrow> ProjectScope \<Rightarrow> job_input \<Rightarrow> ('w, int) svc" where
  "Create s scope inp =
     attempt (Validate s inp None) (\<lambda>i.
       if \<not> Allows scope (in_ProjectID i) then fail SvcForbidden
       else do {
         r \<leftarrow> js_Create (sv_jobs s) (toDomain i None);
         case r of
           Inl ErrDuplicate \<Rightarrow> fail (invalid ''code'' ''a job with this code already exists in the project'')
         | Inl e \<Rightarrow> fail (SvcOther e)
         | Inr jobID \<Rightarrow>
             attempt (raw (js_ReplaceSchedules (sv_jobs s) jobID (items (in_Schedules i)))) (\<lambda>_.
             attempt (raw (js_ReplaceHeaders (sv_jobs s) jobID (headersToDomain jobID (items (in_Headers i))))) (\<lambda>_.
             ok jobID)) })"

definition owned :: "'w job_service \<Rightarrow> ProjectScope \<Rightarrow> int \<Rightarrow> ('w, job) svc" where
  "owned s scope i =
     attempt (or_not_found (js_Get (sv_jobs s) i)) (\<lambda>job.
       if Allows scope (j_project_id job) then ok job else fail SvcNotFound)"

definition Update :: "'w job_service \<Rightarrow> ProjectScope \<Rightarrow> int \<Rightarrow> job_input \<Rightarrow> ('w, unit) svc" where
  "Update s scope jobID inp =
     attempt (owned s scope jobID) (\<lambda>existing.
       if \<not> Allows scope (in_ProjectID inp) then fail SvcForbidden
       else attempt (Validate s inp (Some existing)) (\<lambda>i.
         attempt (raw (js_Update (sv_jobs s) (toDomain i (Some existing)))) (\<lambda>_.
         attempt (case in_Schedules i of None \<Rightarrow> ok () | Some es \<Rightarrow> raw (js_ReplaceSchedules (sv_jobs s) jobID es)) (\<lambda>_.
         case in_Headers i of None \<Rightarrow> ok ()
         | Some hs \<Rightarrow> raw (js_ReplaceHeaders (sv_jobs s) jobID (headersToDomain jobID hs))))))"

definition SetActive :: "'w job_service \<Rightarrow> ProjectScope \<Rightarrow> int \<Rightarrow> bool \<Rightarrow> ('w, unit) svc" where
  "SetActive s scope i active = attempt (owned s scope i) (\<lambda>_. raw (js_SetActive (sv_jobs s) i active))"

definition Delete :: "'w job_service \<Rightarrow> ProjectScope \<Rightarrow> int \<Rightarrow> ('w, unit) svc" where
  "Delete s scope i = attempt (owned s scope i) (\<lambda>_. do {
     now \<leftarrow> sv_now s;
     raw (js_SoftDelete (sv_jobs s) i now) })"

section \<open>The next firings\<close>

record schedule_view = job_schedule +
  sv_Description :: string
  sv_NextRun :: "instant option"

definition annotate_one :: "location \<Rightarrow> instant \<Rightarrow> job_schedule \<Rightarrow> schedule_view" where
  "annotate_one loc now sc =
     (case cron_parse (sc_expression sc) of
        Inl e \<Rightarrow> job_schedule.extend sc (schedule_view.fields (''invalid: '' @ cron_error_text e) None)
      | Inr x \<Rightarrow> job_schedule.extend sc
          (schedule_view.fields (Describe (sc_expression sc)) (NextRun loc x now DefaultScanDays)))"

definition annotate :: "'w job_service \<Rightarrow> job_schedule list \<Rightarrow> ('w, schedule_view list) state" where
  "annotate s schedules = do {
     now \<leftarrow> sv_now s;
     State_Monad.return (map (annotate_one (sv_location s) now) schedules) }"

text \<open>
  The insertion sort: \<open>sift\<close> is the inner loop, which moves the element at \<open>j\<close> down while it is
  before its neighbour; \<open>sort_from\<close> is the outer one, with the number of elements left.
\<close>

fun sift :: "nat \<Rightarrow> instant list \<Rightarrow> instant list" where
  "sift 0 ts = ts"
| "sift (Suc j) ts =
     (if ts ! Suc j < ts ! j then sift j (ts[Suc j := ts ! j, j := ts ! Suc j]) else ts)"

fun sort_from :: "nat \<Rightarrow> nat \<Rightarrow> instant list \<Rightarrow> instant list" where
  "sort_from 0 i ts = ts"
| "sort_from (Suc k) i ts = sort_from k (Suc i) (sift i ts)"

definition sortTimes :: "instant list \<Rightarrow> instant list" where
  "sortTimes ts = sort_from (length ts - 1) 1 ts"

fun dedupe_go :: "instant list \<Rightarrow> int \<Rightarrow> instant list \<Rightarrow> instant list" where
  "dedupe_go [] n out = out"
| "dedupe_go (t # ts) n out =
     (if out \<noteq> [] \<and> List.last out = t then dedupe_go ts n out
      else let out' = out @ [t] in if int (length out') = n then out' else dedupe_go ts n out')"

definition dedupeTimes :: "instant list \<Rightarrow> int \<Rightarrow> instant list" where
  "dedupeTimes ts n = dedupe_go ts n []"

definition upcoming :: "location \<Rightarrow> instant \<Rightarrow> int \<Rightarrow> job_schedule \<Rightarrow> instant list" where
  "upcoming loc now n sc =
     (if \<not> sc_active sc then []
      else case cron_parse (sc_expression sc) of Inl _ \<Rightarrow> [] | Inr x \<Rightarrow> NextRuns loc x now n)"

definition nextRuns :: "'w job_service \<Rightarrow> job_schedule list \<Rightarrow> int \<Rightarrow> ('w, instant list) state" where
  "nextRuns s schedules n = do {
     now \<leftarrow> sv_now s;
     State_Monad.return (dedupeTimes (sortTimes (concat (map (upcoming (sv_location s) now n) schedules))) n) }"

text \<open>The body of the loop over the expressions of a row: the earliest firing so far.\<close>

fun earliest :: "location \<Rightarrow> instant \<Rightarrow> string list \<Rightarrow> instant option \<Rightarrow> instant option" where
  "earliest loc now [] best = best"
| "earliest loc now (e # es) best =
     (case cron_parse e of
        Inl _ \<Rightarrow> earliest loc now es best
      | Inr x \<Rightarrow> (case NextRun loc x now DefaultScanDays of
            None \<Rightarrow> earliest loc now es best
          | Some t \<Rightarrow> earliest loc now es
              (case best of None \<Rightarrow> Some t | Some b \<Rightarrow> if t < b then Some t else best)))"

definition NextRunFor :: "'w job_service \<Rightarrow> string list \<Rightarrow> ('w, instant option) state" where
  "NextRunFor s expressions = do {
     now \<leftarrow> sv_now s;
     State_Monad.return (earliest (sv_location s) now expressions None) }"

definition fill_row :: "'w job_service \<Rightarrow> job_row \<Rightarrow> job_row list \<Rightarrow> ('w, job_row list) state" where
  "fill_row s row acc = do {
     next \<leftarrow> NextRunFor s (jr_schedules row);
     State_Monad.return (acc @ [row\<lparr>jr_next_run := next\<rparr>]) }"

definition List :: "'w job_service \<Rightarrow> job_filter \<Rightarrow> int \<Rightarrow> int \<Rightarrow> ('w, job_row list \<times> int) svc" where
  "List s f offset limit =
     attempt (raw (js_List (sv_jobs s) f offset limit)) (\<lambda>(rows, n). do {
       rows \<leftarrow> for_each rows (fill_row s) [];
       ok (rows, n) })"

record schedule_preview =
  pv_Expression :: string
  pv_Valid :: bool
  pv_Error :: string
  pv_Description :: string
  pv_NextRuns :: "instant list"

definition PreviewSchedule :: "'w job_service \<Rightarrow> string \<Rightarrow> ('w, schedule_preview) state" where
  "PreviewSchedule s expression =
     (let e = normalize_space expression in
      case cron_parse e of
        Inl err \<Rightarrow> State_Monad.return \<lparr>pv_Expression = e, pv_Valid = False, pv_Error = cron_error_text err,
          pv_Description = [], pv_NextRuns = []\<rparr>
      | Inr x \<Rightarrow> do {
          now \<leftarrow> sv_now s;
          State_Monad.return \<lparr>pv_Expression = e, pv_Valid = True, pv_Error = [], pv_Description = Describe e,
            pv_NextRuns = NextRuns (sv_location s) x now 5\<rparr> })"

section \<open>The detail view\<close>

record job_detail =
  dt_Job :: job
  dt_Project :: "project option"
  dt_Schedules :: "schedule_view list"
  dt_Headers :: "job_header list"
  dt_Links :: "job_link_row list"
  dt_Triggers :: "job_link_row list"
  dt_Recent :: "run list"
  dt_NextRuns :: "instant list"
  dt_ResolvedURL :: string

definition resolved_url :: "TargetPolicy \<Rightarrow> project option \<Rightarrow> job \<Rightarrow> string" where
  "resolved_url policy project job = (case project of None \<Rightarrow> []
     | Some p \<Rightarrow> (case Resolve policy (p_base_url p) (j_url job) of Inl _ \<Rightarrow> [] | Inr u \<Rightarrow> u))"

text \<open>A deleted project leaves the view without one.\<close>

definition maybe :: "('w, 'a) call \<Rightarrow> ('w, 'a option) svc" where
  "maybe m = do {
     r \<leftarrow> m;
     State_Monad.return (case r of Inl ErrNotFound \<Rightarrow> Inr None | Inl e \<Rightarrow> Inl (SvcOther e) | Inr x \<Rightarrow> Inr (Some x)) }"

definition Get :: "'w job_service \<Rightarrow> ProjectScope \<Rightarrow> int \<Rightarrow> ('w, job_detail) svc" where
  "Get s scope i =
     attempt (owned s scope i) (\<lambda>job.
     attempt (maybe (sv_project s (j_project_id job))) (\<lambda>project.
     attempt (raw (js_ListSchedules (sv_jobs s) i)) (\<lambda>schedules.
     attempt (raw (js_ListHeaders (sv_jobs s) i)) (\<lambda>headers.
     attempt (raw (js_ListLinks (sv_jobs s) i)) (\<lambda>links.
     attempt (raw (js_ListTriggers (sv_jobs s) i)) (\<lambda>triggers.
     attempt (raw (sv_recent s i 20)) (\<lambda>recent. do {
       annotated \<leftarrow> annotate s schedules;
       next \<leftarrow> nextRuns s schedules 5;
       ok \<lparr>dt_Job = job, dt_Project = project, dt_Schedules = annotated, dt_Headers = headers, dt_Links = links,
           dt_Triggers = triggers, dt_Recent = recent, dt_NextRuns = next,
           dt_ResolvedURL = resolved_url (sv_policy s) project job\<rparr> })))))))"

section \<open>Schedules\<close>

definition AddSchedule :: "'w job_service \<Rightarrow> ProjectScope \<Rightarrow> int \<Rightarrow> string \<Rightarrow> ('w, schedule_view) svc" where
  "AddSchedule s scope jobID expression =
     attempt (owned s scope jobID) (\<lambda>_. let e = normalize_space expression in
       (case cron_validate e of
          Some err \<Rightarrow> fail (invalid ''expression'' (cron_error_text err))
        | None \<Rightarrow>
            let sc = \<lparr>sc_id = 0, sc_job_id = jobID, sc_expression = e, sc_active = True, sc_created_at = - 62135596800 * second\<rparr>
            in do {
              r \<leftarrow> js_CreateSchedule (sv_jobs s) sc;
              case r of
                Inl ErrDuplicate \<Rightarrow> fail (invalid ''expression'' ''this job already has that schedule'')
              | Inl err \<Rightarrow> fail (SvcOther err)
              | Inr i \<Rightarrow> do {
                  vs \<leftarrow> annotate s [sc\<lparr>sc_id := i\<rparr>];
                  ok (hd vs) } }))"

definition RemoveSchedule :: "'w job_service \<Rightarrow> ProjectScope \<Rightarrow> int \<Rightarrow> int \<Rightarrow> ('w, unit) svc" where
  "RemoveSchedule s scope jobID scheduleID =
     attempt (owned s scope jobID) (\<lambda>_.
     attempt (or_not_found (js_DeleteSchedule (sv_jobs s) scheduleID jobID)) (\<lambda>_.
     attempt (raw (js_CountSchedules (sv_jobs s) jobID)) (\<lambda>count.
       if count > 0 then ok ()
       else attempt (raw (js_ListTriggers (sv_jobs s) jobID)) (\<lambda>triggers.
         if length triggers > 0 then ok () else raw (js_SetActive (sv_jobs s) jobID False)))))"

section \<open>Chain links\<close>

definition AddLink :: "'w job_service \<Rightarrow> ProjectScope \<Rightarrow> int \<Rightarrow> int \<Rightarrow> string \<Rightarrow> int \<Rightarrow> ('w, unit) svc" where
  "AddLink s scope jobID targetID condition delaySec =
     (if jobID = targetID then fail SvcSelfLink
      else attempt (owned s scope jobID) (\<lambda>_.
      attempt (owned s scope targetID) (\<lambda>_.
        if condition \<notin> {''success'', ''failure'', ''always''}
          then fail (invalid ''condition'' ''must be success, failure or always'')
        else if delaySec < 0 \<or> delaySec > ChainMaxDelaySec
          then fail (invalid ''delay_sec'' (''must be between 0 and '' @ show_int ChainMaxDelaySec @ '' seconds''))
        else attempt (raw (js_ReachesJob (sv_jobs s) targetID jobID ChainMaxDepth)) (\<lambda>loops.
          if loops then fail SvcChainLoop
          else do {
            r \<leftarrow> js_CreateLink (sv_jobs s) \<lparr>l_id = 0, l_job_id = jobID, l_target_job_id = targetID,
              l_condition = condition, l_delay_sec = delaySec, l_active = True, l_created_at = - 62135596800 * second\<rparr>;
            case r of
              Inl ErrDuplicate \<Rightarrow> fail (invalid ''target'' ''this link already exists'')
            | Inl e \<Rightarrow> fail (SvcOther e)
            | Inr _ \<Rightarrow> ok () }))))"

definition RemoveLink :: "'w job_service \<Rightarrow> ProjectScope \<Rightarrow> int \<Rightarrow> int \<Rightarrow> ('w, unit) svc" where
  "RemoveLink s scope jobID linkID =
     attempt (owned s scope jobID) (\<lambda>_. or_not_found (js_DeleteLink (sv_jobs s) linkID jobID))"

section \<open>Lookups and copies\<close>

definition GetByCode :: "'w job_service \<Rightarrow> int \<Rightarrow> string \<Rightarrow> ('w, job) svc" where
  "GetByCode s projectID code = or_not_found (js_GetByCode (sv_jobs s) projectID code)"

definition ListOptions :: "'w job_service \<Rightarrow> ProjectScope \<Rightarrow> int \<Rightarrow> ('w, job_option list) svc" where
  "ListOptions s scope excludeID = raw (js_ListOptions (sv_jobs s) scope excludeID)"

definition ListTags :: "'w job_service \<Rightarrow> ProjectScope \<Rightarrow> ('w, string list) svc" where
  "ListTags s scope = raw (js_ListTags (sv_jobs s) scope)"

definition clone_input :: "job_detail \<Rightarrow> string \<Rightarrow> job_input" where
  "clone_input dt newCode = (let j = dt_Job dt in
     \<lparr>in_ProjectID = j_project_id j, in_Code = newCode, in_Name = j_name j @ '' (copy)'', in_Description = j_description j,
      in_Tag = j_tag j, in_Method = j_method j, in_URL = j_url j, in_Body = j_body j, in_TimeoutSec = j_timeout_sec j,
      in_MaxDurationSec = j_max_duration_sec j, in_Retries = j_retries j, in_SingleRun = j_single_run j,
      in_RunMissed = j_run_missed j, in_MaxDelayMin = j_max_delay_min j, in_Priority = j_priority j,
      in_SuccessMin = j_success_min j, in_SuccessMax = j_success_max j, in_NotificationID = j_notification_id j,
      in_Active = False, in_Schedules = Some (map sc_expression (dt_Schedules dt)),
      in_Headers = Some (map (\<lambda>h. \<lparr>hi_Key = h_key h, hi_Value = h_value h, hi_IsSecret = h_is_secret h\<rparr>) (dt_Headers dt)),
      in_Links = []\<rparr>)"

text \<open>An empty list and a nil slice are the same to \<open>Create\<close>.\<close>

definition Clone :: "'w job_service \<Rightarrow> ProjectScope \<Rightarrow> int \<Rightarrow> string \<Rightarrow> ('w, int) svc" where
  "Clone s scope i newCode = attempt (Get s scope i) (\<lambda>dt. Create s scope (clone_input dt newCode))"

end
