(* ===== verification/JobTimes.thy ===== *)
theory JobTimes
  imports JobService "HOL-Library.Multiset"
begin

text \<open>
  The list of upcoming firings: the insertion sort of \<open>job_service.go\<close> is the library's sort, and
  sorting followed by \<open>dedupeTimes\<close> lists the earliest distinct firings.
\<close>

section \<open>The insertion sort\<close>

text \<open>Sifting down the element that follows a sorted prefix inserts it there.\<close>

lemma sift_insert:
  assumes "sorted xs"
  shows "sift (length xs) (xs @ x # ys) = insort x xs @ ys"
  using assms
proof (induction xs arbitrary: ys rule: rev_induct)
  case Nil
  then show ?case by simp
next
  case (snoc z xs)
  then have s: "sorted xs" "\<forall>y\<in>set xs. y \<le> z" by (simp_all add: sorted_append)
  show ?case
  proof (cases "x < z")
    case True
    have "sift (length (xs @ [z])) ((xs @ [z]) @ x # ys) = sift (length xs) (xs @ x # z # ys)"
      using True by (simp add: nth_append list_update_append)
    also have "\<dots> = insort x xs @ z # ys" by (rule snoc.IH [OF s(1)])
    also have "\<dots> = insort x (xs @ [z]) @ ys"
      using True by (induction xs) auto
    finally show ?thesis .
  next
    case False
    have "\<forall>y\<in>set (xs @ [z]). y \<le> x" using s False by auto
    with snoc.prems have "insort x (xs @ [z]) = (xs @ [z]) @ [x]" by (intro sorted_insort_is_snoc) auto
    then show ?thesis using False by (simp add: nth_append)
  qed
qed

lemma sort_from_insort:
  "sorted xs \<Longrightarrow> sort_from (length ys) (length xs) (xs @ ys) = foldl (\<lambda>zs y. insort y zs) xs ys"
proof (induction ys arbitrary: xs)
  case Nil
  then show ?case by simp
next
  case (Cons y ys)
  have "sort_from (length (y # ys)) (length xs) (xs @ y # ys) = sort_from (length ys) (length (insort y xs)) (insort y xs @ ys)"
    by (simp add: sift_insert [OF Cons.prems])
  also have "\<dots> = foldl (\<lambda>zs y. insort y zs) (insort y xs) ys"
    by (rule Cons.IH) (use Cons.prems in \<open>simp add: sorted_insort\<close>)
  finally show ?case by simp
qed

lemma foldl_insort: "sorted xs \<Longrightarrow> sorted (foldl (\<lambda>zs y. insort y zs) xs ys)
    \<and> mset (foldl (\<lambda>zs y. insort y zs) xs ys) = mset xs + mset ys"
  by (induction ys arbitrary: xs) (simp_all add: sorted_insort add_ac)

lemma sortTimes_sort: "sortTimes ts = sort ts"
proof (cases ts)
  case Nil
  then show ?thesis by (simp add: sortTimes_def)
next
  case (Cons t us)
  have "sortTimes ts = foldl (\<lambda>zs y. insort y zs) [t] us"
    using sort_from_insort [of "[t]" us] by (simp add: sortTimes_def Cons)
  with foldl_insort [of "[t]" us] show ?thesis
    by (intro properties_for_sort [symmetric]) (simp_all add: Cons)
qed

section \<open>Dropping repetitions\<close>

lemma slos_append:
  assumes "sorted_wrt (<) xs" and "finite A" and "\<forall>x\<in>set xs. \<forall>y\<in>A. x < y"
  shows "sorted_list_of_set (set xs \<union> A) = xs @ sorted_list_of_set A"
  by (rule sorted_distinct_set_unique) (use assms in \<open>auto simp: strict_sorted_iff sorted_append intro: less_imp_le\<close>)

lemma strict_last_less: "sorted_wrt (<) xs \<Longrightarrow> (x::instant) \<in> set xs \<Longrightarrow> x \<le> List.last xs"
  by (induction xs) (auto intro: less_imp_le)

lemma dedupe_go_take:
  assumes "sorted (out @ ts)" and "sorted_wrt (<) out" and "int (length out) < n"
  shows "dedupe_go ts n out = take (nat n) (sorted_list_of_set (set (out @ ts)))"
  using assms
proof (induction ts arbitrary: out)
  case Nil
  then have "sorted_list_of_set (set out) = out"
    by (intro sorted_list_of_set.idem_if_sorted_distinct) (auto simp: strict_sorted_iff)
  with Nil show ?case by simp
next
  case (Cons t ts)
  show ?case
  proof (cases "out \<noteq> [] \<and> List.last out = t")
    case True
    then have "t \<in> set out" by auto
    then have e: "set (out @ t # ts) = set (out @ ts)" by auto
    have "sorted (out @ ts)" using Cons.prems(1) by (auto simp: sorted_append)
    from Cons.IH [OF this Cons.prems(2,3)] True show ?thesis unfolding e by simp
  next
    case False
    have le: "\<forall>y\<in>set out. y \<le> t" using Cons.prems(1) by (simp add: sorted_append)
    have lt: "y < t" if "y \<in> set out" for y
    proof -
      have "out \<noteq> []" using that by auto
      then have "List.last out < t" using False le by (metis last_in_set less_le)
      with strict_last_less [OF Cons.prems(2) that] show ?thesis by simp
    qed
    have w: "sorted_wrt (<) (out @ [t])"
      using Cons.prems(2) lt by (auto simp: sorted_wrt_append)
    have srt: "sorted ((out @ [t]) @ ts)" using Cons.prems(1) by simp
    have e: "set (out @ t # ts) = set ((out @ [t]) @ ts)" by simp
    show ?thesis
    proof (cases "int (length (out @ [t])) = n")
      case True
      have "\<forall>x\<in>set (out @ [t]). \<forall>y\<in>set ts - set (out @ [t]). x < y"
        using srt by (fastforce simp: sorted_append less_le)
      from slos_append [OF w _ this] have "sorted_list_of_set (set (out @ t # ts))
          = (out @ [t]) @ sorted_list_of_set (set ts - set (out @ [t]))"
        by (simp add: insert_commute)
      moreover have "nat n = length (out @ [t])" using True by simp
      ultimately show ?thesis using True False by (auto simp: Let_def)
    next
      case F: False
      then have "int (length (out @ [t])) < n" using Cons.prems(3) by simp
      from Cons.IH [OF srt w this] F False show ?thesis unfolding e by (auto simp: Let_def)
    qed
  qed
qed

text \<open> C33. The upcoming firings of a job: sorting the firings of all its schedules by insertion and
  dropping repetitions lists the earliest distinct instants among them, in ascending order, at most
  as many as were asked for. \<close>
theorem upcoming_firings_merged:
  assumes "0 < n"
  shows "sortTimes ts = sort ts \<and> dedupeTimes (sortTimes ts) n = take (nat n) (sorted_list_of_set (set ts))"
  using dedupe_go_take [of "[]" "sort ts" n] assms by (simp add: sortTimes_sort dedupeTimes_def)

theorem upcoming_firings_merged_witness:
  "dedupeTimes (sortTimes [7, 3, 7, 5, 3]) 2 = [3, 5]"
proof -
  have "take (nat 2) (sorted_list_of_set (set [7, 3, 7, 5, 3])) = [3, 5 :: int]"
    by (simp only: sorted_list_of_set_sort_remdups) simp
  with upcoming_firings_merged [of 2 "[7, 3, 7, 5, 3]"] show ?thesis
    by (metis zero_less_numeral)
qed

end
