(* ===== verification/TenantStore.thy ===== *)
theory TenantStore
  imports JobService
begin

text \<open>
  Scopes as a contract. The store of the job service promises that an operation on a job touches the
  rows of that job only; from this the service promises that no operation of a caller touches
  anything outside the caller's scope.
\<close>

section \<open>The contract of the store\<close>

text \<open>
  \<open>allowed p\<close>: the caller reaches project \<open>p\<close>. \<open>mine i w\<close>: no job out of the caller's reach has the
  identifier \<open>i\<close>. \<open>same w w'\<close>: everything out of the caller's reach is as it was.
\<close>

locale tenant_store =
  fixes s :: "'w job_service" and scope :: ProjectScope
    and sound :: "'w \<Rightarrow> bool" and mine :: "int \<Rightarrow> 'w \<Rightarrow> bool" and same :: "'w \<Rightarrow> 'w \<Rightarrow> bool"
  assumes same_refl: "same w w"
    and same_trans: "same u v \<Longrightarrow> same v w \<Longrightarrow> same u w"
    and mine_same: "same w w' \<Longrightarrow> mine i w \<Longrightarrow> mine i w'"
    and reads: "keeps (within sound same) (js_Get (sv_jobs s) i)" "keeps (within sound same) (js_ListHeaders (sv_jobs s) i)"
      "keeps (within sound same) (js_ListSchedules (sv_jobs s) i)" "keeps (within sound same) (js_ListLinks (sv_jobs s) i)"
      "keeps (within sound same) (js_ListTriggers (sv_jobs s) i)" "keeps (within sound same) (js_CountSchedules (sv_jobs s) i)"
      "keeps (within sound same) (js_ReachesJob (sv_jobs s) i k n)" "keeps (within sound same) (sv_project s p)"
      "keeps (within sound same) (sv_recent s i n)" "keeps (within sound same) (sv_now s)"
    and get_mine: "sound w \<Longrightarrow> run_state (js_Get (sv_jobs s) i) w = (Inr j, w') \<Longrightarrow> Allows scope (j_project_id j) \<Longrightarrow> mine i w'"
    and get_id: "run_state (js_Get (sv_jobs s) i) w = (Inr j, w') \<Longrightarrow> j_id j = i"
    and create: "Allows scope (j_project_id j) \<Longrightarrow> sound w \<Longrightarrow> run_state (js_Create (sv_jobs s) j) w = (r, w')
      \<Longrightarrow> sound w' \<and> same w w' \<and> (\<forall>i. r = Inr i \<longrightarrow> mine i w')"
    and update: "Allows scope (j_project_id j) \<Longrightarrow> keeps (within (\<lambda>w. sound w \<and> mine (j_id j) w) same) (js_Update (sv_jobs s) j)"
    and writes: "keeps (within (\<lambda>w. sound w \<and> mine i w) same) (js_SetActive (sv_jobs s) i b)"
      "keeps (within (\<lambda>w. sound w \<and> mine i w) same) (js_SoftDelete (sv_jobs s) i t)"
      "keeps (within (\<lambda>w. sound w \<and> mine i w) same) (js_ReplaceHeaders (sv_jobs s) i hs)"
      "keeps (within (\<lambda>w. sound w \<and> mine i w) same) (js_ReplaceSchedules (sv_jobs s) i es)"
      "keeps (within (\<lambda>w. sound w \<and> mine i w) same) (js_DeleteSchedule (sv_jobs s) k i)"
      "keeps (within (\<lambda>w. sound w \<and> mine i w) same) (js_DeleteLink (sv_jobs s) k i)"
      "keeps (within (\<lambda>w. sound w \<and> mine (sc_job_id sc) w) same) (js_CreateSchedule (sv_jobs s) sc)"
      "keeps (within (\<lambda>w. sound w \<and> mine (l_job_id l) w) same) (js_CreateLink (sv_jobs s) l)"

sublocale tenant_store \<subseteq> any: frame "within sound same"
  by unfold_locales (auto simp: within_def same_refl intro: same_trans)

sublocale tenant_store \<subseteq> own: frame "within (\<lambda>w. sound w \<and> mine i w) same" for i
  by unfold_locales (auto simp: within_def same_refl intro: same_trans)

section \<open>What the service promises\<close>

text \<open>The operations of the service that write, and a sequence of calls whose answers are not looked at.\<close>

datatype job_call =
    DoCreate job_input
  | DoUpdate int job_input
  | DoSetActive int bool
  | DoDelete int
  | DoAddSchedule int string
  | DoRemoveSchedule int int
  | DoAddLink int int string int
  | DoRemoveLink int int
  | DoClone int string

definition answered :: "('w, 'a) svc \<Rightarrow> ('w, svc_error option) state" where
  "answered m = do {
     r \<leftarrow> m;
     State_Monad.return (case r of Inl e \<Rightarrow> Some e | Inr _ \<Rightarrow> None) }"

fun perform :: "'w job_service \<Rightarrow> ProjectScope \<Rightarrow> job_call \<Rightarrow> ('w, svc_error option) state" where
  "perform s scope (DoCreate i) = answered (Create s scope i)"
| "perform s scope (DoUpdate j i) = answered (Update s scope j i)"
| "perform s scope (DoSetActive j b) = answered (SetActive s scope j b)"
| "perform s scope (DoDelete j) = answered (Delete s scope j)"
| "perform s scope (DoAddSchedule j e) = answered (AddSchedule s scope j e)"
| "perform s scope (DoRemoveSchedule j k) = answered (RemoveSchedule s scope j k)"
| "perform s scope (DoAddLink j t c n) = answered (AddLink s scope j t c n)"
| "perform s scope (DoRemoveLink j k) = answered (RemoveLink s scope j k)"
| "perform s scope (DoClone j c) = answered (Clone s scope j c)"

definition performs :: "'w job_service \<Rightarrow> ProjectScope \<Rightarrow> job_call list \<Rightarrow> ('w, svc_error option list) state" where
  "performs s scope calls = for_each calls (\<lambda>c answers. do {
     a \<leftarrow> perform s scope c;
     State_Monad.return (answers @ [a]) }) []"

lemma Validate_project: "run_state (Validate s inp e) w = (Inr i, w') \<Longrightarrow> in_ProjectID i = in_ProjectID inp"
  by (auto simp: Validate_def Let_def ErrOrNil_def applyDefaults_def split: prod.splits sum.splits if_splits)

context tenant_store
begin

lemma own_any: "keeps (within sound same) m \<Longrightarrow> keeps (within (\<lambda>w. sound w \<and> mine i w) same) m"
  unfolding keeps_def within_def using mine_same by blast

lemmas own_reads = reads [THEN own_any]

lemma any_after_mine:
  assumes "keeps (within sound same) m" and "\<And>w x w'. sound w \<Longrightarrow> run_state m w = (Inr x, w') \<Longrightarrow> mine i w'"
    and "\<And>w x w'. run_state m w = (Inr x, w') \<Longrightarrow> keeps (within (\<lambda>w. sound w \<and> mine i w) same) (f x)"
  shows "keeps (within sound same) (attempt m f)"
proof (rule keepsI)
  fix w a w'' assume run: "run_state (attempt m f) w = (a, w'')"
  obtain r w' where m: "run_state m w = (r, w')" by fastforce
  have k: "within sound same w w'" using assms(1) m keepsD by metis
  show "within sound same w w''"
  proof (cases r)
    case (Inl e)
    with run m k show ?thesis by (simp add: run_attempt)
  next
    case (Inr x)
    with run m have f: "run_state (f x) w' = (a, w'')" by (simp add: run_attempt)
    have "within (\<lambda>w. sound w \<and> mine i w) same w' w''" using assms(3) m Inr f keepsD by metis
    with k assms(2) [of w x w'] m Inr show ?thesis unfolding within_def using same_trans by blast
  qed
qed

lemma keeps_owned: "keeps (within sound same) (owned s scope i)"
  unfolding owned_def by (intro any.svc_keeps any.keeps_if reads)

lemma owned_get:
  assumes "run_state (owned s scope i) w = (Inr j, w')"
  shows "run_state (js_Get (sv_jobs s) i) w = (Inr j, w') \<and> Allows scope (j_project_id j)"
proof -
  obtain r u where g: "run_state (js_Get (sv_jobs s) i) w = (r, u)" by fastforce
  show ?thesis
  proof (cases r)
    case (Inl e)
    with g have "fst (run_state (owned s scope i) w) \<in> range Inl"
      unfolding owned_def run_attempt run_or_not_found by (cases e) simp_all
    with assms show ?thesis by auto
  next
    case (Inr x)
    with g have "run_state (owned s scope i) w = (if Allows scope (j_project_id x) then (Inr x, u) else (Inl SvcNotFound, u))"
      unfolding owned_def run_attempt run_or_not_found by simp
    with assms g Inr show ?thesis by (cases "Allows scope (j_project_id x)") auto
  qed
qed

lemma owned_result: "run_state (owned s scope i) w = (Inr j, w') \<Longrightarrow> j_id j = i \<and> (sound w \<longrightarrow> mine i w')"
  using get_mine [of w i j w'] get_id [of i w j w'] owned_get [of i w j w'] by simp

lemma after_owned:
  "(\<And>j. j_id j = i \<Longrightarrow> keeps (within (\<lambda>w. sound w \<and> mine i w) same) (f j)) \<Longrightarrow> keeps (within sound same) (attempt (owned s scope i) f)"
  by (rule any_after_mine [OF keeps_owned, where i = i]) (simp_all add: owned_result)

lemma keeps_Validate: "keeps (within sound same) (Validate s inp e)"
  unfolding Validate_def Let_def by (intro any.keeps_bind any.keeps_return reads)

lemma keeps_annotate: "keeps (within sound same) (annotate s scs)"
  unfolding annotate_def by (intro any.keeps_bind any.keeps_return reads)

lemma keeps_nextRuns: "keeps (within sound same) (nextRuns s scs n)"
  unfolding nextRuns_def by (intro any.keeps_bind any.keeps_return reads)

lemma keeps_Create: "keeps (within sound same) (Create s scope inp)"
proof -
  have "keeps (within sound same) (do {
      r \<leftarrow> js_Create (sv_jobs s) (toDomain i None);
      case r of
        Inl ErrDuplicate \<Rightarrow> fail (invalid ''code'' ''a job with this code already exists in the project'')
      | Inl e \<Rightarrow> fail (SvcOther e)
      | Inr jobID \<Rightarrow>
          attempt (raw (js_ReplaceSchedules (sv_jobs s) jobID (items (in_Schedules i)))) (\<lambda>_.
          attempt (raw (js_ReplaceHeaders (sv_jobs s) jobID (headersToDomain jobID (items (in_Headers i))))) (\<lambda>_.
          ok jobID)) })" (is "keeps _ ?m")
    if allowed: "Allows scope (in_ProjectID i)" for i
  proof (rule keepsI)
    fix w a w''
    assume run: "run_state ?m w = (a, w'')"
    obtain r w' where c: "run_state (js_Create (sv_jobs s) (toDomain i None)) w = (r, w')" by fastforce
    have cr: "sound w \<Longrightarrow> sound w' \<and> same w w' \<and> (\<forall>k. r = Inr k \<longrightarrow> mine k w')"
      using create [OF _ _ c] allowed by (simp add: toDomain_def)
    show "within sound same w w''"
    proof (cases r)
      case (Inl e)
      with run c cr show ?thesis by (cases e) (auto simp: within_def)
    next
      case (Inr k)
      have "keeps (within (\<lambda>w. sound w \<and> mine k w) same)
          (attempt (raw (js_ReplaceSchedules (sv_jobs s) k (items (in_Schedules i)))) (\<lambda>_.
           attempt (raw (js_ReplaceHeaders (sv_jobs s) k (headersToDomain k (items (in_Headers i))))) (\<lambda>_. ok k)))"
        by (intro own.svc_keeps writes)
      with run c Inr have "within (\<lambda>w. sound w \<and> mine k w) same w' w''" by (auto dest: keepsD)
      with cr Inr show ?thesis unfolding within_def using same_trans by blast
    qed
  qed
  then show ?thesis
    unfolding Create_def
    by (intro any.keeps_attempt [OF keeps_Validate] any.keeps_cond any.keeps_fail) simp
qed

lemma keeps_Update: "keeps (within sound same) (Update s scope jobID inp)"
  unfolding Update_def
proof (rule after_owned)
  fix existing :: job
  assume e: "j_id existing = jobID"
  let ?T = "within (\<lambda>w. sound w \<and> mine jobID w) same"
  have upd: "keeps ?T (js_Update (sv_jobs s) (toDomain i (Some existing)))" if "Allows scope (in_ProjectID i)" for i
    using update [of "toDomain i (Some existing)"] that e by (simp add: toDomain_def)
  show "keeps ?T (if \<not> Allows scope (in_ProjectID inp) then fail SvcForbidden
       else attempt (Validate s inp (Some existing)) (\<lambda>i.
         attempt (raw (js_Update (sv_jobs s) (toDomain i (Some existing)))) (\<lambda>_.
         attempt (case in_Schedules i of None \<Rightarrow> ok () | Some es \<Rightarrow> raw (js_ReplaceSchedules (sv_jobs s) jobID es)) (\<lambda>_.
         case in_Headers i of None \<Rightarrow> ok ()
         | Some hs \<Rightarrow> raw (js_ReplaceHeaders (sv_jobs s) jobID (headersToDomain jobID hs))))))"
    by (rule own.keeps_cond, rule own.keeps_fail, rule own.keeps_attempt_after [OF own_any [OF keeps_Validate]],
        drule Validate_project) (intro own.svc_keeps own.keeps_option writes upd, simp)
qed

lemma keeps_SetActive: "keeps (within sound same) (SetActive s scope i b)"
  unfolding SetActive_def by (rule after_owned) (intro own.svc_keeps writes)

lemma keeps_Delete: "keeps (within sound same) (Delete s scope i)"
  unfolding Delete_def by (rule after_owned) (intro own.keeps_bind own.svc_keeps writes own_reads)

lemma keeps_AddSchedule: "keeps (within sound same) (AddSchedule s scope i e)"
proof -
  have cs: "keeps (within (\<lambda>w. sound w \<and> mine i w) same) (js_CreateSchedule (sv_jobs s)
      \<lparr>sc_id = 0, sc_job_id = i, sc_expression = x, sc_active = True, sc_created_at = t\<rparr>)" for x t
    using writes(7) [of "\<lparr>sc_id = 0, sc_job_id = i, sc_expression = x, sc_active = True, sc_created_at = t\<rparr>"] by simp
  show ?thesis
    unfolding AddSchedule_def Let_def
    by (rule after_owned, intro own.keeps_option own.svc_keeps own.keeps_bind cs, split sum.split, intro allI impI conjI,
        split go_error.split, intro allI impI conjI own.svc_keeps own.keeps_bind)
      (intro own.keeps_bind own_any [OF keeps_annotate] own.svc_keeps)+
qed

lemma keeps_RemoveSchedule: "keeps (within sound same) (RemoveSchedule s scope i k)"
  unfolding RemoveSchedule_def by (rule after_owned) (intro own.svc_keeps own.keeps_if writes own_reads)

lemma keeps_RemoveLink: "keeps (within sound same) (RemoveLink s scope i k)"
  unfolding RemoveLink_def by (rule after_owned) (intro own.svc_keeps writes)

lemma keeps_AddLink: "keeps (within sound same) (AddLink s scope i t c n)"
proof -
  have cl: "keeps (within (\<lambda>w. sound w \<and> mine i w) same) (js_CreateLink (sv_jobs s)
      \<lparr>l_id = 0, l_job_id = i, l_target_job_id = t, l_condition = x, l_delay_sec = m, l_active = True, l_created_at = u\<rparr>)" for x m u
    using writes(8) [of "\<lparr>l_id = 0, l_job_id = i, l_target_job_id = t, l_condition = x, l_delay_sec = m, l_active = True, l_created_at = u\<rparr>"]
    by simp
  show ?thesis
    unfolding AddLink_def
    by (rule any.keeps_if [OF any.keeps_fail after_owned],
        intro own.keeps_attempt own.keeps_bind own.keeps_if own.svc_keeps cl own_reads own_any [OF keeps_owned],
        split sum.split, intro allI impI conjI, split go_error.split, intro allI impI conjI own.svc_keeps, rule own.keeps_ok)
qed

lemma keeps_maybe: "keeps (within sound same) m \<Longrightarrow> keeps (within sound same) (maybe m)"
  by (simp add: maybe_def any.keeps_bind any.keeps_return)

lemma keeps_Get: "keeps (within sound same) (Get s scope i)"
  unfolding Get_def
  by (intro any.keeps_attempt any.keeps_bind any.keeps_raw any.keeps_ok keeps_owned keeps_maybe reads keeps_annotate keeps_nextRuns)

lemma keeps_Clone: "keeps (within sound same) (Clone s scope i c)"
  unfolding Clone_def by (intro any.keeps_attempt keeps_Get keeps_Create)

lemma keeps_perform: "keeps (within sound same) (perform s scope c)"
  by (cases c) (simp_all add: answered_def any.keeps_bind any.keeps_return keeps_Create keeps_Update keeps_SetActive keeps_Delete
    keeps_AddSchedule keeps_RemoveSchedule keeps_AddLink keeps_RemoveLink keeps_Clone)

lemma keeps_performs: "keeps (within sound same) (performs s scope calls)"
  unfolding performs_def by (intro any.keeps_for_each any.keeps_bind any.keeps_return keeps_perform)

end

end
