(* ===== verification/TenantProps.thy ===== *)
theory TenantProps
  imports TenantStore Demo
begin

text \<open>
  The contract of \<open>TenantStore\<close> holds of the database: a statement about one job touches the rows of
  that job only. So no sequence of calls a caller makes changes anything outside the caller's scope.
\<close>

section \<open>What is outside a scope\<close>

text \<open>The primary key, and the sequence it is drawn from.\<close>

definition jobs_ok :: "db \<Rightarrow> bool" where
  "jobs_ok d \<longleftrightarrow> distinct (map j_id (jobs d)) \<and> (\<forall>j\<in>set (jobs d). j_id j \<le> jobs_seq d)"

definition outside :: "ProjectScope \<Rightarrow> db \<Rightarrow> job_t list" where
  "outside scope d = filter (\<lambda>j. \<not> Allows scope (j_project_id j)) (jobs d)"

definition outside_ids :: "ProjectScope \<Rightarrow> db \<Rightarrow> int set" where
  "outside_ids scope d = set (map j_id (outside scope d))"

text \<open>Jobs out of reach with their schedules, headers and outgoing links, and the database without the four tables of jobs.\<close>

definition rows_of :: "int set \<Rightarrow> db \<Rightarrow> job_schedule list \<times> job_header list \<times> job_link list" where
  "rows_of I d = (filter (\<lambda>x. sc_job_id x \<in> I) (job_schedules d), filter (\<lambda>x. h_job_id x \<in> I) (job_headers d),
     filter (\<lambda>x. l_job_id x \<in> I) (job_links d))"

definition other_tables :: "db \<Rightarrow> db" where
  "other_tables d = d\<lparr>jobs := [], jobs_seq := 0, job_schedules := [], schedules_seq := 0, job_headers := [], headers_seq := 0,
     job_links := [], links_seq := 0\<rparr>"

definition foreign :: "ProjectScope \<Rightarrow> db \<Rightarrow> job_t list \<times> (job_schedule list \<times> job_header list \<times> job_link list) \<times> db" where
  "foreign scope d = (outside scope d, rows_of (outside_ids scope d) d, other_tables d)"

section \<open>Statements on one job\<close>

text \<open>Only rows of job \<open>i\<close> differ, and no job.\<close>

definition only :: "int \<Rightarrow> db \<Rightarrow> db \<Rightarrow> bool" where
  "only i d d' \<longleftrightarrow> jobs d' = jobs d \<and> jobs_seq d' = jobs_seq d \<and> other_tables d' = other_tables d
     \<and> rows_of (- {i}) d' = rows_of (- {i}) d"

lemma only_refl: "only i d d"
  by (simp add: only_def)

lemma only_trans: "only i a b \<Longrightarrow> only i b c \<Longrightarrow> only i a c"
  by (simp add: only_def)

lemma filter_sub: "filter P xs = filter P ys \<Longrightarrow> (\<And>x. Q x \<Longrightarrow> P x) \<Longrightarrow> filter Q xs = filter Q ys"
  by (metis (mono_tags, lifting) filter_cong filter_filter)

lemma rows_of_sub: "rows_of J d' = rows_of J d \<Longrightarrow> I \<subseteq> J \<Longrightarrow> rows_of I d' = rows_of I d"
  by (auto simp: rows_of_def elim!: filter_sub)

lemma only_foreign:
  assumes "only i d d'" and "jobs_ok d" and "i \<notin> outside_ids scope d"
  shows "jobs_ok d' \<and> foreign scope d' = foreign scope d"
proof -
  have j: "jobs d' = jobs d" "jobs_seq d' = jobs_seq d" and r: "rows_of (- {i}) d' = rows_of (- {i}) d"
    using assms(1) by (simp_all add: only_def)
  have "outside scope d' = outside scope d" "outside_ids scope d' = outside_ids scope d"
    using j by (simp_all add: outside_def outside_ids_def)
  moreover have "rows_of (outside_ids scope d) d' = rows_of (outside_ids scope d) d"
    by (rule rows_of_sub [OF r]) (use assms(3) in auto)
  ultimately show ?thesis using assms j by (simp add: foreign_def only_def jobs_ok_def)
qed

lemma only_update:
  assumes "\<And>x. k (f x) = k x" and "\<And>x. P x \<Longrightarrow> k x = i"
  shows "filter (\<lambda>x. k x \<noteq> i) (update_where P f xs) = filter (\<lambda>x. k x \<noteq> i) xs"
  by (induction xs) (auto simp: assms dest: assms(2))

lemmas only_defs = only_def rows_of_def other_tables_def

lemma only_if: "only i d (snd x) \<Longrightarrow> only i d (snd y) \<Longrightarrow> only i d (snd (if b then x else y))"
  by simp

lemma only_upsert_header: "only i d (upsert_header i h d)"
  by (auto simp: upsert_header_def Let_def only_defs intro!: only_update)

lemma only_insert_headers: "only i d (snd (insert_headers i hs d))"
proof (induction i hs d rule: insert_headers.induct)
  case (2 i h hs d)
  then show ?case
    using only_trans [OF only_upsert_header [of i d h]]
    by (auto simp: only_refl) (simp add: only_defs)
qed (simp add: only_refl)

lemma only_replace_headers: "only i d (snd (replace_headers i hs now d))"
proof -
  let ?d = "d\<lparr>job_headers := filter (\<lambda>h. h_job_id h \<noteq> i) (job_headers d)\<rparr>"
  have "only i d ?d" by (simp add: only_defs)
  moreover obtain e d' where r: "insert_headers i hs ?d = (e, d')" by fastforce
  moreover have "only i ?d d'" using only_insert_headers [of i ?d hs] r by simp
  ultimately have "only i d d'" by (blast intro: only_trans)
  with r show ?thesis
    by (cases e) (simp_all add: replace_headers_def only_defs)
qed

lemma only_upsert_schedule: "only i d (upsert_schedule i now e d)"
  by (auto simp: upsert_schedule_def Let_def only_defs intro!: only_update)

lemma only_insert_schedules: "only i d (snd (insert_schedules i now es d))"
proof (induction i now es d rule: insert_schedules.induct)
  case (2 i now e es d)
  then show ?case
    using only_trans [OF only_upsert_schedule [of i d now "normalize_space e"]]
    by (auto simp: only_refl Let_def) (simp add: only_defs)
qed (simp add: only_refl)

lemma only_replace_schedules: "only i d (snd (replace_schedules i es now d))"
proof -
  let ?d = "d\<lparr>job_schedules := filter (\<lambda>s. sc_job_id s \<noteq> i) (job_schedules d)\<rparr>"
  have "only i d ?d" by (simp add: only_defs)
  moreover obtain e d' where r: "insert_schedules i now es ?d = (e, d')" by fastforce
  moreover have "only i ?d d'" using only_insert_schedules [of i ?d now es] r by simp
  ultimately have "only i d d'" by (blast intro: only_trans)
  with r show ?thesis
    by (cases e) (simp_all add: replace_schedules_def only_defs)
qed

lemma only_delete_schedule: "only i d (snd (delete_schedule k i now d))"
  by (auto simp: delete_schedule_def only_defs intro!: filter_cong)

lemma only_delete_link: "only i d (snd (delete_link k i now d))"
  by (auto simp: delete_link_def only_defs intro!: filter_cong)

lemma only_create_schedule: "only (sc_job_id sc) d (snd (create_schedule sc now d))"
  unfolding create_schedule_def Let_def by (intro only_if) (simp_all add: only_defs)

lemma only_create_link: "only (l_job_id l) d (snd (create_link l now d))"
  unfolding create_link_def Let_def by (intro only_if) (simp_all add: only_defs)

section \<open>Statements on the jobs table\<close>

lemma outside_update:
  assumes "jobs_ok d" and "i \<notin> outside_ids scope d" and "\<And>j. P j \<Longrightarrow> j_id j = i"
    and "\<And>j. j_id (f j) = j_id j" and "\<And>j. Allows scope (j_project_id j) \<Longrightarrow> Allows scope (j_project_id (f j))"
  shows "jobs_ok (d\<lparr>jobs := update_where P f (jobs d)\<rparr>) \<and> foreign scope (d\<lparr>jobs := update_where P f (jobs d)\<rparr>) = foreign scope d"
proof -
  have mine: "Allows scope (j_project_id j)" if "j \<in> set (jobs d)" "P j" for j
    using assms(2,3) that by (auto simp: outside_ids_def outside_def)
  then have "filter (\<lambda>j. \<not> Allows scope (j_project_id j)) (update_where P f xs) = filter (\<lambda>j. \<not> Allows scope (j_project_id j)) xs"
    if "set xs \<subseteq> set (jobs d)" for xs
    using that by (induction xs) (auto simp: assms(5))
  then have o: "outside scope (d\<lparr>jobs := update_where P f (jobs d)\<rparr>) = outside scope d" by (simp add: outside_def)
  moreover have "jobs_ok (d\<lparr>jobs := update_where P f (jobs d)\<rparr>)"
    using assms(1) by (auto simp: jobs_ok_def set_update_where update_where_map_key [of j_id f] assms(4))
  ultimately show ?thesis by (simp add: foreign_def outside_ids_def rows_of_def other_tables_def)
qed

lemma update_job_foreign:
  assumes "jobs_ok d" and "j_id j \<notin> outside_ids scope d" and "Allows scope (j_project_id j)"
  shows "jobs_ok (snd (update_job j now d)) \<and> foreign scope (snd (update_job j now d)) = foreign scope d"
proof -
  have "jobs_ok (d\<lparr>jobs := update_where (\<lambda>r. j_id r = j_id j \<and> jt_deleted_at r = None) (edited now j) (jobs d)\<rparr>)
      \<and> foreign scope (d\<lparr>jobs := update_where (\<lambda>r. j_id r = j_id j \<and> jt_deleted_at r = None) (edited now j) (jobs d)\<rparr>) = foreign scope d"
    by (rule outside_update [OF assms(1,2)]) (use assms(3) in \<open>simp_all add: edited_def\<close>)
  then show ?thesis using assms(1) by (simp add: update_job_def split: option.split)
qed

lemma same_jobs_foreign:
  assumes "outside scope d' = outside scope d" and "job_schedules d' = job_schedules d" "job_headers d' = job_headers d"
    "job_links d' = job_links d" "other_tables d' = other_tables d"
  shows "foreign scope d' = foreign scope d"
  using assms by (simp add: foreign_def outside_ids_def rows_of_def)

lemma append_job_foreign:
  fixes r :: job_t
  assumes "jobs_ok d" and "j_id r = jobs_seq d + 1" and "Allows scope (j_project_id r)"
  shows "jobs_ok (d\<lparr>jobs_seq := jobs_seq d + 1, jobs := jobs d @ [r]\<rparr>)
    \<and> foreign scope (d\<lparr>jobs_seq := jobs_seq d + 1, jobs := jobs d @ [r]\<rparr>) = foreign scope d
    \<and> jobs_seq d + 1 \<notin> outside_ids scope (d\<lparr>jobs_seq := jobs_seq d + 1, jobs := jobs d @ [r]\<rparr>)"
proof -
  let ?d = "d\<lparr>jobs_seq := jobs_seq d + 1, jobs := jobs d @ [r]\<rparr>"
  have fresh: "\<forall>j\<in>set (jobs d). j_id j < jobs_seq d + 1" using assms(1) by (auto simp: jobs_ok_def)
  have o: "outside scope ?d = outside scope d" using assms(3) by (simp add: outside_def)
  have "jobs_ok ?d" using assms(1,2) fresh by (auto simp: jobs_ok_def)
  moreover have "foreign scope ?d = foreign scope d" by (rule same_jobs_foreign [OF o]) (simp_all add: other_tables_def)
  moreover have "jobs_seq d + 1 \<notin> outside_ids scope ?d" using fresh by (auto simp: outside_ids_def o) (auto simp: outside_def)
  ultimately show ?thesis by blast
qed

lemma create_job_foreign:
  assumes "jobs_ok d" and "Allows scope (j_project_id j)"
  shows "jobs_ok (snd (create_job j now d)) \<and> foreign scope (snd (create_job j now d)) = foreign scope d
    \<and> (\<forall>i. fst (create_job j now d) = Inr i \<longrightarrow> i \<notin> outside_ids scope (snd (create_job j now d)))"
proof -
  have seq: "jobs_ok (d\<lparr>jobs_seq := jobs_seq d + 1\<rparr>) \<and> foreign scope (d\<lparr>jobs_seq := jobs_seq d + 1\<rparr>) = foreign scope d"
    using assms(1) by (auto simp: jobs_ok_def outside_def other_tables_def intro!: same_jobs_foreign)
  define r where "r = job.extend (j\<lparr>j_id := jobs_seq d + 1, j_last_run_at := None, j_last_status := [], j_last_duration_ms := None,
      j_created_at := now, j_updated_at := None\<rparr>) (job_t.fields None)"
  have r: "j_id r = jobs_seq d + 1" "j_project_id r = j_project_id j" by (simp_all add: r_def job.defs job_t.defs)
  from append_job_foreign [OF assms(1) r(1)] r(2) assms(2) seq assms(1) show ?thesis
    unfolding create_job_def Let_def r_def [symmetric] by (auto split: option.split)
qed

section \<open>The database fulfils the contract\<close>

definition alone :: "'w world_scheme \<Rightarrow> bool" where
  "alone w \<longleftrightarrow> w_events w = [] \<and> jobs_ok (w_db w)"

definition unseen :: "ProjectScope \<Rightarrow> int \<Rightarrow> 'w world_scheme \<Rightarrow> bool" where
  "unseen scope i w \<longleftrightarrow> i \<notin> outside_ids scope (w_db w)"

definition same_foreign :: "ProjectScope \<Rightarrow> 'w world_scheme \<Rightarrow> 'w world_scheme \<Rightarrow> bool" where
  "same_foreign scope w w' \<longleftrightarrow> foreign scope (w_db w') = foreign scope (w_db w)"

lemmas tenant_defs = alone_def unseen_def same_foreign_def

lemma foreign_ids: "foreign scope d' = foreign scope d \<Longrightarrow> outside_ids scope d' = outside_ids scope d"
  by (simp add: foreign_def outside_ids_def)

lemma within_stmt:
  fixes f :: "'a statement"
  assumes "\<And>now d. jobs_ok d \<Longrightarrow> i \<notin> outside_ids scope d \<Longrightarrow> jobs_ok (snd (f now d)) \<and> foreign scope (snd (f now d)) = foreign scope d"
  shows "keeps (within (\<lambda>w. alone w \<and> unseen scope i w) (same_foreign scope)) (stmt f)"
  using assms by (auto simp: keeps_def within_def tenant_defs run_stmt_alone dest!: foreign_ids)

lemma within_query: "keeps (within alone (same_foreign scope)) (stmt (query f))"
  by (auto simp: keeps_def within_def tenant_defs run_stmt_alone query_def)

lemma within_only:
  fixes f :: "'a statement"
  assumes "\<And>now d. only i d (snd (f now d))"
  shows "keeps (within (\<lambda>w. alone w \<and> unseen scope i w) (same_foreign scope)) (stmt f)"
  using within_stmt [of i scope f] only_foreign assms by blast

lemma within_set_active: "keeps (within (\<lambda>w. alone w \<and> unseen scope i w) (same_foreign scope)) (stmt (set_active i b))"
  by (rule within_stmt) (simp add: set_active_def outside_update)

lemma within_soft_delete: "keeps (within (\<lambda>w. alone w \<and> unseen scope i w) (same_foreign scope)) (stmt (soft_delete_job i t))"
  by (rule within_stmt) (simp add: soft_delete_job_def exec_def outside_update)

lemma get_job_result:
  assumes "fst (get_job i now d) = Inr j"
  shows "snd (get_job i now d) = d \<and> j_id j = i \<and> (\<exists>r\<in>set (jobs d). j_id r = i \<and> j_project_id r = j_project_id j)"
  using assms
  by (auto simp: get_job_def job.defs find_Some_iff split: option.splits)

lemma within_get: "keeps (within alone (same_foreign scope)) (stmt (get_job i))"
  by (auto simp: keeps_def within_def tenant_defs run_stmt_alone get_job_def)

lemma get_unseen:
  assumes "alone w" and "run_state (stmt (get_job i)) w = (Inr j, w')" and "Allows scope (j_project_id j)"
  shows "unseen scope i w'"
proof -
  let ?d = "w_db w"
  from assms(1,2) have g: "fst (get_job i (w_now w) ?d) = Inr j" and w': "w_db w' = snd (get_job i (w_now w) ?d)"
    by (auto simp: alone_def run_stmt_alone)
  from get_job_result [OF g] w' have d: "w_db w' = ?d" by simp
  from get_job_result [OF g] obtain r where r: "r \<in> set (jobs ?d)" "j_id r = i" "j_project_id r = j_project_id j" by blast
  have "q = r" if "q \<in> set (jobs ?d)" "j_id q = i" for q
    using assms(1) that r(1,2) by (auto simp: alone_def jobs_ok_def dest: inj_onD [OF distinct_map [THEN iffD1, THEN conjunct2]])
  with r(3) assms(3) show ?thesis unfolding unseen_def d outside_ids_def outside_def by auto
qed

lemma within_project: "keeps (within alone (same_foreign scope)) (stmt (get_project i))"
  by (auto simp: keeps_def within_def tenant_defs run_stmt_alone get_project_def)

lemma within_now: "keeps (within alone (same_foreign scope)) app_now"
  by (auto simp: keeps_def within_def tenant_defs app_now_def split: list.splits)

lemma stmt_Inr:
  fixes f :: "'a statement"
  assumes "run_state (stmt f) w = (Inr x, w')"
  shows "\<exists>now d. fst (f now d) = Inr x"
proof (cases "w_events w")
  case Nil
  with assms have "fst (f (w_now w) (w_db w)) = Inr x" by (simp add: stmt_def split: prod.splits)
  then show ?thesis by blast
next
  case (Cons ev evs)
  with assms have "fst (f (ev_now ev) (ev_env ev (w_db w))) = Inr x"
    by (cases "ev_fault ev") (simp_all add: stmt_def Let_def split: prod.splits)
  then show ?thesis by blast
qed

lemma get_stmt_id: "run_state (stmt (get_job i)) w = (Inr j, w') \<Longrightarrow> j_id j = i"
  using get_job_result stmt_Inr by metis

lemma create_stmt:
  assumes "Allows scope (j_project_id j)" and "alone w" and "run_state (stmt (create_job j)) w = (r, w')"
  shows "alone w' \<and> same_foreign scope w w' \<and> (\<forall>i. r = Inr i \<longrightarrow> unseen scope i w')"
  using create_job_foreign [of "w_db w" scope j "w_now w"] assms by (auto simp: tenant_defs run_stmt_alone)

interpretation tn: tenant_store "NewJobService policy loc" scope alone "unseen scope" "same_foreign scope" for policy loc scope
proof (unfold_locales, simp_all only: NewJobService_def job_repo_def job_service.simps JobStore.simps, goal_cases)
  case 1 show ?case by (simp add: same_foreign_def)
next
  case 2 then show ?case by (simp add: same_foreign_def)
next
  case 3 then show ?case by (auto simp: same_foreign_def unseen_def dest: foreign_ids)
next
  case 4 show ?case by (rule within_get)
next
  case 5 show ?case unfolding list_headers_def by (rule within_query)
next
  case 6 show ?case unfolding list_schedules_def by (rule within_query)
next
  case 7 show ?case unfolding list_links_def by (rule within_query)
next
  case 8 show ?case unfolding list_triggers_def by (rule within_query)
next
  case 9 show ?case unfolding count_schedules_def by (rule within_query)
next
  case 10 show ?case unfolding reaches_job_def by (rule within_query)
next
  case 11 show ?case by (rule within_project)
next
  case 12 show ?case unfolding recent_runs_def by (rule within_query)
next
  case 13 show ?case by (rule within_now)
next
  case 14 then show ?case by (rule get_unseen)
next
  case 15 then show ?case by (rule get_stmt_id)
next
  case 16 then show ?case by (rule create_stmt)
next
  case (17 j) then show ?case by (intro within_stmt update_job_foreign)
next
  case 18 show ?case by (rule within_set_active)
next
  case 19 show ?case by (rule within_soft_delete)
next
  case 20 show ?case by (rule within_only) (rule only_replace_headers)
next
  case 21 show ?case by (rule within_only) (rule only_replace_schedules)
next
  case 22 show ?case by (rule within_only) (rule only_delete_schedule)
next
  case 23 show ?case by (rule within_only) (rule only_delete_link)
next
  case 24 show ?case by (rule within_only) (rule only_create_schedule)
next
  case 25 show ?case by (rule within_only) (rule only_create_link)
qed

text \<open> C3. Tenant isolation: whatever sequence of creations, updates, switches, deletions, schedule and
  link changes and copies a caller asks for, with any identifiers in them, the jobs outside the
  caller's scope are afterwards the rows they were, with the same schedules, headers and outgoing
  links, and no other table has changed. \<close>
theorem writes_stay_in_scope:
  fixes w :: "'w world_scheme"
  assumes "jobs_ok (w_db w)" and "w_events w = []"
  shows "foreign scope (w_db (snd (run_state (performs (NewJobService policy loc) scope calls) w))) = foreign scope (w_db w)"
proof -
  have "keeps (within alone (same_foreign scope)) (performs (NewJobService policy loc :: 'w world_scheme job_service) scope calls)"
    by (rule tn.keeps_performs)
  with assms show ?thesis by (simp add: keeps_def within_def alone_def same_foreign_def)
qed

theorem writes_stay_in_scope_witness:
  "foreign (ScopeOf [7]) (w_db (snd (run_state (performs (NewJobService \<lparr>AllowPrivate = True\<rparr> utc) (ScopeOf [7])
      [DoDelete 1, DoSetActive 2 False, DoRemoveSchedule 1 1, DoClone 1 ''copy'']) demo_world)))
   = (jobs demo_db, (job_schedules demo_db, [], []), other_tables demo_db)"
proof -
  have "jobs_ok (w_db demo_world)" "w_events demo_world = []"
    by (simp_all add: jobs_ok_def demo_world_def demo_db_def demo_job_def)
  moreover have "foreign (ScopeOf [7]) (w_db demo_world) = (jobs demo_db, (job_schedules demo_db, [], []), other_tables demo_db)"
    by (simp add: foreign_def outside_def outside_ids_def rows_of_def other_tables_def demo_world_def demo_db_def demo_job_def
      demo_schedule_def ScopeOf_def Allows_def)
  ultimately show ?thesis by (simp add: writes_stay_in_scope)
qed

end
