(* ===== verification/JobProps.thy ===== *)
theory JobProps
  imports TenantProps "HOL-Library.Code_Target_Numeral"
begin

text \<open>
  What the job service guarantees of a definition it has accepted: the schema can store it, an update
  leaves exactly the schedules it lists, a chain link closes no short cycle.
\<close>

section \<open>What validation guarantees\<close>

lemma add_if_Nil [simp]: "add_if b f m = [] \<longleftrightarrow> \<not> b"
  by (simp add: add_if_def)

lemma schedule_errors_Nil: "schedule_errors n es = [] \<longleftrightarrow> list_all (\<lambda>e. cron_validate e = None) es"
  by (induction n es rule: schedule_errors.induct) (auto split: option.splits)

lemma header_errors_Nil:
  "header_errors n hs = [] \<longleftrightarrow> list_all (\<lambda>h. trim_space (hi_Key h) = [] \<and> trim_space (hi_Value h) = []
     \<or> ValidHeaderName (trim_space (hi_Key h)) \<and> ValidHeaderValue (hi_Value h)) hs"
  by (induction n hs rule: header_errors.induct) (auto simp: Let_def)

lemma Validate_Inr:
  assumes "run_state (Validate s inp existing) w = (Inr i, w')"
  shows "i = applyDefaults inp \<and> name_errors i existing = [] \<and> number_errors i = []
    \<and> list_all (\<lambda>e. cron_validate e = None) (items (in_Schedules i)) \<and> header_errors 0 (items (in_Headers i)) = []
    \<and> (\<exists>p a. run_state (sv_project s (in_ProjectID i)) w = (Inr p, w') \<and> Resolve (sv_policy s) (p_base_url p) (in_URL i) = Inr a)"
proof -
  obtain r u where g: "run_state (sv_project s (in_ProjectID (applyDefaults inp))) w = (r, u)" by fastforce
  with assms obtain es where t: "target_errors (sv_policy s) (applyDefaults inp) r = Inr es" and u: "u = w'"
    and ok: "ErrOrNil (name_errors (applyDefaults inp) existing @ es @ number_errors (applyDefaults inp)
        @ schedule_errors 0 (items (in_Schedules (applyDefaults inp))) @ header_errors 0 (items (in_Headers (applyDefaults inp)))) (applyDefaults inp) = Inr i"
    by (auto simp: Validate_def Let_def split: sum.splits)
  from ok have e: "es = []" and i: "i = applyDefaults inp" by (auto simp: ErrOrNil_def split: if_splits)
  from t e obtain p a where "r = Inr p" "Resolve (sv_policy s) (p_base_url p) (in_URL i) = Inr a"
    by (auto simp: target_errors_def i split: sum.splits go_error.splits)
  with g u ok i show ?thesis by (auto simp: ErrOrNil_def schedule_errors_Nil split: if_splits)
qed

text \<open> C29. Every rule the schema states for a job is one validation enforces first, with a single
  exception: an accepted input breaks no CHECK constraint unless its maximal duration is above a day,
  its numbers fit their columns unless the priority or that duration do not, a new job has a valid
  code, every schedule parses and every header can be sent. \<close>
theorem validated_job_storable:
  assumes "run_state (Validate s inp existing) w = (Inr i, w')"
  shows "job_violation (toDomain i existing) = (if in_MaxDurationSec i > 86400 then Some ''jobs_max_duration_sec_check'' else None)
    \<and> (job_ints (toDomain i existing) \<longleftrightarrow> int4 (in_Priority i) \<and> int4 (in_MaxDurationSec i))
    \<and> (existing = None \<longrightarrow> ValidSlug (in_Code i))
    \<and> list_all (\<lambda>e. \<exists>x. cron_parse e = Inr x) (items (in_Schedules i))
    \<and> list_all (\<lambda>h. ValidHeaderName (h_key h) \<and> ValidHeaderValue (h_value h)) (headersToDomain 0 (items (in_Headers i)))"
proof -
  from Validate_Inr [OF assms] have n: "name_errors i existing = []" "number_errors i = []"
    and s: "list_all (\<lambda>e. cron_validate e = None) (items (in_Schedules i))"
    and h: "header_errors 0 (items (in_Headers i)) = []" by blast+
  note r = n [unfolded name_errors_def number_errors_def append_is_Nil_conv add_if_Nil MinTimeoutSec_def MaxTimeoutSec_def]
  have m: "in_Method i \<in> {''GET'', ''POST'', ''PUT'', ''PATCH'', ''DELETE'', ''HEAD''}"
    using r(1) by (simp add: allowedMethods_def)
  have "job_violation (toDomain i existing) = (if in_MaxDurationSec i > 86400 then Some ''jobs_max_duration_sec_check'' else None)"
    using r m by (simp add: job_violation_def job_checks_def toDomain_def)
  moreover have "job_ints (toDomain i existing) \<longleftrightarrow> int4 (in_Priority i) \<and> int4 (in_MaxDurationSec i)"
    using r by (simp add: job_ints_def toDomain_def int4_def) auto
  moreover have "existing = None \<longrightarrow> ValidSlug (in_Code i)" using r(1) by blast
  moreover have "list_all (\<lambda>e. \<exists>x. cron_parse e = Inr x) (items (in_Schedules i))"
    using s by (auto simp: list_all_iff cron_validate_def split: sum.splits) (metis sum.exhaust)
  moreover have "list_all (\<lambda>h. ValidHeaderName (h_key h) \<and> ValidHeaderValue (h_value h)) (headersToDomain 0 (items (in_Headers i)))"
    using h by (auto simp: header_errors_Nil headersToDomain_def list_all_iff)
  ultimately show ?thesis by blast
qed

text \<open>An input that leaves out all it may but the maximal duration.\<close>

definition demo_input :: "int \<Rightarrow> job_input" where
  "demo_input n = \<lparr>in_ProjectID = 1, in_Code = ''Report'', in_Name = [], in_Description = [], in_Tag = [], in_Method = [],
     in_URL = ''http://h/x'', in_Body = [], in_TimeoutSec = 0, in_MaxDurationSec = n, in_Retries = 0, in_SingleRun = True,
     in_RunMissed = False, in_MaxDelayMin = 0, in_Priority = 0, in_SuccessMin = 0, in_SuccessMax = 0, in_NotificationID = None,
     in_Active = True, in_Schedules = None, in_Headers = None, in_Links = []\<rparr>"

definition demo_service :: "world job_service" where
  "demo_service = NewJobService \<lparr>AllowPrivate = True\<rparr> utc"

lemma demo_validated:
  assumes "30 \<le> n"
  shows "run_state (Validate demo_service (demo_input n) existing) demo_world = (Inr (applyDefaults (demo_input n)), demo_world)"
  "in_Code (applyDefaults (demo_input n)) = ''report''" "in_MaxDurationSec (applyDefaults (demo_input n)) = n"
  "in_Priority (applyDefaults (demo_input n)) = 100" "in_ProjectID (applyDefaults (demo_input n)) = 1"
proof -
  have use_n: "n \<noteq> 0" "\<not> n < 30" using assms by simp_all
  show d: "in_Code (applyDefaults (demo_input n)) = ''report''" "in_MaxDurationSec (applyDefaults (demo_input n)) = n"
    "in_Priority (applyDefaults (demo_input n)) = 100" "in_ProjectID (applyDefaults (demo_input n)) = 1"
    by (simp_all add: applyDefaults_def demo_input_def Let_def or_default_def string_eval use_n)
  have n: "name_errors (applyDefaults (demo_input n)) existing = []"
    by (simp add: name_errors_def applyDefaults_def demo_input_def Let_def string_eval allowedMethods_def ValidSlug_def
        slug_char_def is_lower_ascii_def upper_rune_def)
  have m: "number_errors (applyDefaults (demo_input n)) = []" "items (in_Schedules (applyDefaults (demo_input n))) = []"
    "items (in_Headers (applyDefaults (demo_input n))) = []" "in_URL (applyDefaults (demo_input n)) = ''http://h/x''"
    by (simp_all add: number_errors_def applyDefaults_def demo_input_def Let_def or_default_def string_eval items_def
        clean_schedules_def DefaultTimeoutSec_def MinTimeoutSec_def MaxTimeoutSec_def use_n)
  have "check \<lparr>AllowPrivate = True\<rparr> ''http://h/x'' = Inr ''http://h/x''" by code_simp
  then have r: "Resolve \<lparr>AllowPrivate = True\<rparr> [] ''http://h/x'' = Inr ''http://h/x''"
    by (simp add: Resolve_def Let_def string_eval illegal_char_def hasScheme_def)
  have "run_state (sv_project demo_service 1) demo_world = (Inr (project.truncate demo_project), demo_world)"
    by (simp add: demo_service_def NewJobService_def stmt_def get_project_def demo_world_def demo_db_def demo_project_def)
  then show "run_state (Validate demo_service (demo_input n) existing) demo_world = (Inr (applyDefaults (demo_input n)), demo_world)"
    using r by (simp add: Validate_def Let_def n m d target_errors_def ErrOrNil_def demo_service_def NewJobService_def
        demo_project_def project.defs)
qed

theorem validated_job_storable_witness:
  "job_violation (toDomain (applyDefaults (demo_input 100000)) None) = Some ''jobs_max_duration_sec_check''"
  using validated_job_storable [OF demo_validated(1) [of 100000 None]] demo_validated(3) [of 100000] by simp

section \<open>Replacing schedules\<close>

definition schedules_of :: "int \<Rightarrow> db \<Rightarrow> job_schedule list" where
  "schedules_of i d = filter (\<lambda>x. sc_job_id x = i) (job_schedules d)"

definition lists_exactly :: "job_schedule list \<Rightarrow> string list \<Rightarrow> bool" where
  "lists_exactly ss es \<longleftrightarrow> set (map sc_expression ss) = set es \<and> distinct (map sc_expression ss) \<and> list_all sc_active ss"

lemma upsert_schedule_lists:
  assumes "lists_exactly (schedules_of i d) es"
  shows "lists_exactly (schedules_of i (upsert_schedule i now e d)) (es @ [e])"
proof (cases "list_ex (\<lambda>s. sc_job_id s = i \<and> sc_expression s = e) (job_schedules d)")
  case True
  have "schedules_of i (upsert_schedule i now e d)
      = update_where (\<lambda>s. sc_expression s = e) (\<lambda>s. s\<lparr>sc_active := True\<rparr>) (schedules_of i d)"
  proof -
    have "filter (\<lambda>x. sc_job_id x = i) (update_where (\<lambda>s. sc_job_id s = i \<and> sc_expression s = e) (\<lambda>s. s\<lparr>sc_active := True\<rparr>) xs)
        = update_where (\<lambda>s. sc_expression s = e) (\<lambda>s. s\<lparr>sc_active := True\<rparr>) (filter (\<lambda>x. sc_job_id x = i) xs)"
      for xs :: "job_schedule list"
      by (induction xs) auto
    then show ?thesis using True by (simp add: upsert_schedule_def schedules_of_def Let_def)
  qed
  moreover have "e \<in> set (map sc_expression (schedules_of i d))"
    using True by (auto simp: list_ex_iff schedules_of_def)
  ultimately show ?thesis
    using assms by (auto simp: lists_exactly_def update_where_map_key set_update_where list_all_iff image_image)
next
  case False
  then have "e \<notin> set (map sc_expression (schedules_of i d))" by (auto simp: list_ex_iff schedules_of_def)
  with False assms show ?thesis
    by (auto simp: upsert_schedule_def schedules_of_def Let_def lists_exactly_def)
qed

lemma insert_schedules_lists:
  assumes "insert_schedules i now es d = (None, d')" and "lists_exactly (schedules_of i d) done"
  shows "lists_exactly (schedules_of i d') (done @ clean_schedules es)"
  using assms
proof (induction i now es d arbitrary: "done" rule: insert_schedules.induct)
  case (2 i now e0 es d)
  show ?case
  proof (cases "normalize_space e0 = []")
    case True
    with 2 show ?thesis by (simp add: clean_schedules_def)
  next
    case False
    with "2.prems"(1) have r: "pg_text (normalize_space e0)" "find_job d i \<noteq> None"
      "insert_schedules i now es (upsert_schedule i now (normalize_space e0) d) = (None, d')"
      by (auto simp: Let_def split: if_splits)
    from "2.IH"(2) [OF refl False _ r(2,3) upsert_schedule_lists [OF "2.prems"(2)]] r(1) False show ?thesis
      by (simp add: clean_schedules_def)
  qed
qed (simp add: clean_schedules_def)

lemma replace_schedules_lists:
  assumes "fst (replace_schedules i es now d) = Inr ()"
  shows "lists_exactly (schedules_of i (snd (replace_schedules i es now d))) (clean_schedules es)"
proof -
  let ?d = "d\<lparr>job_schedules := filter (\<lambda>s. sc_job_id s \<noteq> i) (job_schedules d)\<rparr>"
  have e: "lists_exactly (schedules_of i ?d) []"
    by (simp add: lists_exactly_def schedules_of_def)
  obtain r d' where r: "insert_schedules i now es ?d = (r, d')" by fastforce
  with assms have "r = None" by (cases r) (simp_all add: replace_schedules_def)
  with r insert_schedules_lists [OF _ e] show ?thesis by (simp add: replace_schedules_def)
qed

lemma headers_keep_schedules: "job_schedules (snd (replace_headers i hs now d)) = job_schedules d"
proof -
  have k: "job_schedules (snd (insert_headers i hs d)) = job_schedules d" for hs d
    by (induction i hs d rule: insert_headers.induct) (auto simp: upsert_header_def Let_def)
  obtain r d' where r: "insert_headers i hs (d\<lparr>job_headers := filter (\<lambda>h. h_job_id h \<noteq> i) (job_headers d)\<rparr>) = (r, d')" by fastforce
  with k [of hs "d\<lparr>job_headers := filter (\<lambda>h. h_job_id h \<noteq> i) (job_headers d)\<rparr>"] show ?thesis
    by (cases r) (simp_all add: replace_headers_def)
qed

lemma schedules_keep_headers: "job_headers (snd (replace_schedules i es now d)) = job_headers d"
proof -
  have k: "job_headers (snd (insert_schedules i now es d)) = job_headers d" for es d
    by (induction i now es d rule: insert_schedules.induct) (auto simp: upsert_schedule_def Let_def)
  obtain r d' where r: "insert_schedules i now es (d\<lparr>job_schedules := filter (\<lambda>s. sc_job_id s \<noteq> i) (job_schedules d)\<rparr>) = (r, d')" by fastforce
  with k [of es "d\<lparr>job_schedules := filter (\<lambda>s. sc_job_id s \<noteq> i) (job_schedules d)\<rparr>"] show ?thesis
    by (cases r) (simp_all add: replace_schedules_def)
qed

lemma update_job_keeps_headers: "job_headers (snd (update_job j now d)) = job_headers d"
  by (simp add: update_job_def split: option.split)

lemma NewJobService_simps [simp]:
  "sv_jobs (NewJobService policy loc) = job_repo" "sv_project (NewJobService policy loc) = (\<lambda>i. stmt (get_project i))"
  "sv_policy (NewJobService policy loc) = policy" "sv_location (NewJobService policy loc) = loc" "sv_now (NewJobService policy loc) = app_now"
  by (simp_all add: NewJobService_def)

lemma job_repo_simps [simp]:
  "js_Get job_repo = (\<lambda>i. stmt (get_job i))" "js_Update job_repo = (\<lambda>j. stmt (update_job j))"
  "js_ReplaceSchedules job_repo = (\<lambda>i es. stmt (replace_schedules i es))"
  "js_ReplaceHeaders job_repo = (\<lambda>i hs. stmt (replace_headers i hs))"
  "js_ReachesJob job_repo = (\<lambda>f t n. stmt (reaches_job f t n))" "js_CreateLink job_repo = (\<lambda>l. stmt (create_link l))"
  by (simp_all add: job_repo_def)

lemma owned_alone:
  fixes w :: "'w world_scheme"
  assumes "w_events w = []" and "run_state (owned (NewJobService policy loc) scope i) w = (Inr j, w')"
  shows "w' = w \<and> fst (get_job i (w_now w) (w_db w)) = Inr j \<and> Allows scope (j_project_id j)"
proof -
  from tn.owned_get [OF assms(2)] assms(1) have g: "fst (get_job i (w_now w) (w_db w)) = Inr j"
    "w' = w\<lparr>w_db := snd (get_job i (w_now w) (w_db w))\<rparr>" "Allows scope (j_project_id j)"
    by (simp_all add: stmt_alone_Inr)
  with get_job_result [OF g(1)] show ?thesis by simp
qed

text \<open> An update leaves exactly the schedules its input lists, all of them active and none twice; it
  does so also when the input does not mention schedules at all, and then the job has none left. Headers
  that are not mentioned are kept. \<close>
theorem update_replaces_schedules:
  fixes w w' :: "'w world_scheme"
  assumes "w_events w = []" and "run_state (Update (NewJobService policy loc) scope i inp) w = (Inr (), w')"
  shows "lists_exactly (schedules_of i (w_db w')) (clean_schedules (clean_schedules (items (in_Schedules inp))))
    \<and> (in_Headers inp = None \<longrightarrow> job_headers (w_db w') = job_headers (w_db w))"
proof -
  let ?s = "NewJobService policy loc :: 'w world_scheme job_service"
  obtain e u where o: "run_state (owned ?s scope i) w = (Inr e, u)"
    and rest: "run_state (if \<not> Allows scope (in_ProjectID inp) then fail SvcForbidden
       else attempt (Validate ?s inp (Some e)) (\<lambda>x.
         attempt (raw (js_Update (sv_jobs ?s) (toDomain x (Some e)))) (\<lambda>_.
         attempt (case in_Schedules x of None \<Rightarrow> ok () | Some es \<Rightarrow> raw (js_ReplaceSchedules (sv_jobs ?s) i es)) (\<lambda>_.
         case in_Headers x of None \<Rightarrow> ok ()
         | Some hs \<Rightarrow> raw (js_ReplaceHeaders (sv_jobs ?s) i (headersToDomain i hs)))))) u = (Inr (), w')"
    by (rule attemptE [OF assms(2) [unfolded Update_def]])
  have u: "u = w" using owned_alone [OF assms(1) o] by simp
  from rest have "run_state (attempt (Validate ?s inp (Some e)) (\<lambda>x.
         attempt (raw (stmt (update_job (toDomain x (Some e))))) (\<lambda>_.
         attempt (case in_Schedules x of None \<Rightarrow> ok () | Some es \<Rightarrow> raw (stmt (replace_schedules i es))) (\<lambda>_.
         case in_Headers x of None \<Rightarrow> ok ()
         | Some hs \<Rightarrow> raw (stmt (replace_headers i (headersToDomain i hs))))))) w = (Inr (), w')"
    by (simp add: u cong: option.case_cong split: if_split_asm)
  then obtain x v where v: "run_state (Validate ?s inp (Some e)) w = (Inr x, v)"
    and rest: "run_state (attempt (raw (stmt (update_job (toDomain x (Some e))))) (\<lambda>_.
         attempt (case in_Schedules x of None \<Rightarrow> ok () | Some es \<Rightarrow> raw (stmt (replace_schedules i es))) (\<lambda>_.
         case in_Headers x of None \<Rightarrow> ok ()
         | Some hs \<Rightarrow> raw (stmt (replace_headers i (headersToDomain i hs)))))) v = (Inr (), w')"
    by (rule attemptE)
  from Validate_Inr [OF v] have x: "x = applyDefaults inp" by blast
  have sx: "in_Schedules x = Some (clean_schedules (items (in_Schedules inp)))" "in_Headers x = in_Headers inp"
    by (simp_all add: x applyDefaults_def Let_def)
  from Validate_Inr [OF v] assms(1) have vw: "v = w" by (auto simp: stmt_alone_Inr get_project_def)
  from rest assms(1) have rest: "run_state (attempt (raw (stmt (replace_schedules i (clean_schedules (items (in_Schedules inp)))))) (\<lambda>_.
         case in_Headers inp of None \<Rightarrow> ok ()
         | Some hs \<Rightarrow> raw (stmt (replace_headers i (headersToDomain i hs)))))
       (w\<lparr>w_db := snd (update_job (toDomain x (Some e)) (w_now w) (w_db w))\<rparr>) = (Inr (), w')"
    by (auto simp: attempt_Inr raw_Inr stmt_alone_Inr vw sx)
  define d1 where "d1 = snd (update_job (toDomain x (Some e)) (w_now w) (w_db w))"
  define d2 where "d2 = snd (replace_schedules i (clean_schedules (items (in_Schedules inp))) (w_now w) d1)"
  from rest assms(1) have rs: "fst (replace_schedules i (clean_schedules (items (in_Schedules inp))) (w_now w) d1) = Inr ()"
    and rest: "run_state (case in_Headers inp of None \<Rightarrow> ok ()
         | Some hs \<Rightarrow> raw (stmt (replace_headers i (headersToDomain i hs)))) (w\<lparr>w_db := d2\<rparr>) = (Inr (), w')"
    by (auto simp: attempt_Inr raw_Inr stmt_alone_Inr d1_def [symmetric] d2_def)
  have l: "lists_exactly (schedules_of i d2) (clean_schedules (clean_schedules (items (in_Schedules inp))))"
    using replace_schedules_lists [OF rs] by (simp add: d2_def)
  show ?thesis
  proof (cases "in_Headers inp")
    case None
    with rest have "w' = w\<lparr>w_db := d2\<rparr>" by simp
    with l show ?thesis by (simp add: d2_def schedules_keep_headers d1_def update_job_keeps_headers)
  next
    case (Some hs)
    with rest assms(1) have "w_db w' = snd (replace_headers i (headersToDomain i hs) (w_now w) d2)"
      by (auto simp: raw_Inr stmt_alone_Inr)
    with l Some show ?thesis by (simp add: schedules_of_def headers_keep_schedules)
  qed
qed

lemma demo_update:
  "fst (run_state (Update demo_service (ScopeOf [1]) 1 (demo_input 300)) demo_world) = Inr ()"
proof -
  have o: "run_state (owned demo_service (ScopeOf [1]) 1) demo_world = (Inr (job.truncate (demo_job 1 ''nightly'' False)), demo_world)"
    by (simp add: owned_def svc_run demo_service_def stmt_def get_job_def demo_world_def demo_db_def demo_job_def ScopeOf_def
        Allows_def job.defs)
  have v: "run_state (Validate demo_service (demo_input 300) e) demo_world = (Inr (applyDefaults (demo_input 300)), demo_world)" for e
    by (rule demo_validated) simp
  have q: "Allows (ScopeOf [1]) (in_ProjectID (demo_input 300))"
    by (simp add: ScopeOf_def Allows_def demo_input_def)
  have q1: "in_ProjectID (demo_input 300) = 1" by (simp add: demo_input_def)
  have sc: "in_Schedules (applyDefaults (demo_input 300)) = Some []" "in_Headers (applyDefaults (demo_input 300)) = None"
    by (simp_all add: applyDefaults_def demo_input_def Let_def items_def clean_schedules_def)
  have upd: "fst (update_job (toDomain (applyDefaults (demo_input 300)) (Some (job.truncate (demo_job 1 ''nightly'' False)))) now demo_db) = Inr ()" for now
    by (simp add: update_job_def job_texts_def job_ints_def pg_text_def toDomain_def applyDefaults_def demo_input_def Let_def string_eval
        or_default_def upper_rune_def job.defs demo_job_def DefaultTimeoutSec_def int4_def demo_db_def job_write_error_def job_violation_def
        job_checks_def code_taken_def pg_lower_def find_project_def demo_project_def)
  have rs: "fst (replace_schedules i [] now d) = Inr ()" for i now d
    by (simp add: replace_schedules_def)
  let ?j = "toDomain (applyDefaults (demo_input 300)) (Some (job.truncate (demo_job 1 ''nightly'' False)))"
  have u: "run_state (js_Update (sv_jobs demo_service) ?j) demo_world = (Inr (), demo_world\<lparr>w_db := snd (update_job ?j demo_now demo_db)\<rparr>)"
    using upd [of demo_now] by (simp add: demo_service_def demo_world_def run_stmt_alone)
  have r: "run_state (js_ReplaceSchedules (sv_jobs demo_service) 1 []) (demo_world\<lparr>w_db := d\<rparr>)
      = (Inr (), demo_world\<lparr>w_db := snd (replace_schedules 1 [] demo_now d)\<rparr>)" for d
    by (simp add: demo_service_def demo_world_def run_stmt_alone rs)
  show ?thesis
    by (simp add: Update_def run_attempt o v q [unfolded q1] q1 sc run_raw u r)
qed

theorem update_replaces_schedules_witness:
  "schedules_of 1 (w_db demo_world) \<noteq> [] \<and> in_Schedules (demo_input 300) = None
   \<and> fst (run_state (Update demo_service (ScopeOf [1]) 1 (demo_input 300)) demo_world) = Inr ()
   \<and> schedules_of 1 (w_db (snd (run_state (Update demo_service (ScopeOf [1]) 1 (demo_input 300)) demo_world))) = []"
proof -
  let ?r = "run_state (Update demo_service (ScopeOf [1]) 1 (demo_input 300)) demo_world"
  have n: "in_Schedules (demo_input 300) = None" by (simp add: demo_input_def)
  have e: "w_events demo_world = []" by (simp add: demo_world_def)
  have "?r = (Inr (), snd ?r)" using demo_update by (metis prod.collapse)
  from update_replaces_schedules [OF e this [unfolded demo_service_def]] n
  have "schedules_of 1 (w_db (snd ?r)) = []"
    by (simp add: demo_service_def items_def clean_schedules_def lists_exactly_def)
  moreover have "schedules_of 1 (w_db demo_world) \<noteq> []"
    by (simp add: schedules_of_def demo_world_def demo_db_def demo_schedule_def)
  ultimately show ?thesis using n demo_update by simp
qed

end
