(* ===== verification/LinkProps.thy ===== *)
theory LinkProps
  imports JobProps
begin

text \<open>
  Chain links. The guard of \<open>AddLink\<close> walks at most \<open>ChainMaxDepth\<close> links back, so it keeps the chain free
  of the cycles that long, and of no longer ones.
\<close>

section \<open>Chains\<close>

definition chain :: "db \<Rightarrow> (int \<times> int) set" where
  "chain d = {(a, b). \<exists>l\<in>set (job_links d). l_active l \<and> l_job_id l = a \<and> l_target_job_id l = b}"

definition short_cycle_free :: "db \<Rightarrow> bool" where
  "short_cycle_free d \<longleftrightarrow> (\<forall>a k. 1 \<le> k \<and> k \<le> nat ChainMaxDepth + 1 \<longrightarrow> (a, a) \<notin> chain d ^^ k)"

lemma reaches_chain: "reaches n d a t \<longleftrightarrow> (\<exists>k\<le>n. (a, t) \<in> chain d ^^ k)"
proof (induction n arbitrary: a)
  case 0
  then show ?case by simp
next
  case (Suc n)
  have "(\<exists>k\<le>Suc n. (a, t) \<in> chain d ^^ k) \<longleftrightarrow> a = t \<or> (\<exists>b. (a, b) \<in> chain d \<and> (\<exists>k\<le>n. (b, t) \<in> chain d ^^ k))"
  proof
    assume "\<exists>k\<le>Suc n. (a, t) \<in> chain d ^^ k"
    then obtain k where k: "k \<le> Suc n" "(a, t) \<in> chain d ^^ k" by blast
    show "a = t \<or> (\<exists>b. (a, b) \<in> chain d \<and> (\<exists>k\<le>n. (b, t) \<in> chain d ^^ k))"
    proof (cases k)
      case 0
      with k show ?thesis by simp
    next
      case (Suc m)
      with k obtain b where "(a, b) \<in> chain d" "(b, t) \<in> chain d ^^ m" by (metis relpow_Suc_E2)
      with k Suc show ?thesis by auto
    qed
  next
    assume "a = t \<or> (\<exists>b. (a, b) \<in> chain d \<and> (\<exists>k\<le>n. (b, t) \<in> chain d ^^ k))"
    then show "\<exists>k\<le>Suc n. (a, t) \<in> chain d ^^ k"
      by (metis Suc_le_mono le0 relpow_0_I relpow_Suc_I2)
  qed
  then show ?case by (auto simp: Suc.IH list_ex_iff chain_def)
qed

text \<open>A walk that may use one new edge either does not, or reaches its start and leaves from its end.\<close>

lemma relpow_new_edge:
  "(a, b) \<in> (R \<union> {(i, t)}) ^^ k \<Longrightarrow>
     (a, b) \<in> R ^^ k \<or> (\<exists>p q. (a, i) \<in> R ^^ p \<and> (t, b) \<in> R ^^ q \<and> p + q + 1 \<le> k)"
proof (induction k arbitrary: b)
  case 0
  then show ?case by simp
next
  case (Suc k)
  then obtain c where c: "(a, c) \<in> (R \<union> {(i, t)}) ^^ k" "(c, b) \<in> R \<or> c = i \<and> b = t" by (auto elim!: relpow_Suc_E)
  from c(2) show ?case
  proof
    assume "(c, b) \<in> R"
    from Suc.IH [OF c(1)] show ?thesis
    proof
      assume "(a, c) \<in> R ^^ k"
      with \<open>(c, b) \<in> R\<close> show ?thesis by (metis relpow_Suc_I)
    next
      assume "\<exists>p q. (a, i) \<in> R ^^ p \<and> (t, c) \<in> R ^^ q \<and> p + q + 1 \<le> k"
      then obtain p q where "(a, i) \<in> R ^^ p" "(t, c) \<in> R ^^ q" "p + q + 1 \<le> k" by blast
      moreover from this(2) \<open>(c, b) \<in> R\<close> have "(t, b) \<in> R ^^ Suc q" by (metis relpow_Suc_I)
      ultimately show ?thesis by (intro disjI2 exI [of _ p] exI [of _ "Suc q"]) simp
    qed
  next
    assume cb: "c = i \<and> b = t"
    from Suc.IH [OF c(1)] show ?thesis
    proof
      assume "(a, c) \<in> R ^^ k"
      with cb show ?thesis by (intro disjI2 exI [of _ k] exI [of _ 0]) simp
    next
      assume "\<exists>p q. (a, i) \<in> R ^^ p \<and> (t, c) \<in> R ^^ q \<and> p + q + 1 \<le> k"
      then obtain p where "(a, i) \<in> R ^^ p" "p + 1 \<le> k" by auto
      with cb show ?thesis by (intro disjI2 exI [of _ p] exI [of _ 0]) simp
    qed
  qed
qed

lemma new_edge_short_cycle_free:
  assumes "short_cycle_free d" and "\<not> reaches (nat ChainMaxDepth) d t i" and "chain d' = chain d \<union> {(i, t)}"
  shows "short_cycle_free d'"
  unfolding short_cycle_free_def
proof (intro allI impI notI)
  fix a k assume k: "1 \<le> k \<and> k \<le> nat ChainMaxDepth + 1" and "(a, a) \<in> chain d' ^^ k"
  from relpow_new_edge [OF this(2) [unfolded assms(3)]] show False
  proof
    assume "(a, a) \<in> chain d ^^ k"
    with assms(1) k show False by (auto simp: short_cycle_free_def)
  next
    assume "\<exists>p q. (a, i) \<in> chain d ^^ p \<and> (t, a) \<in> chain d ^^ q \<and> p + q + 1 \<le> k"
    then obtain p q where "(a, i) \<in> chain d ^^ p" "(t, a) \<in> chain d ^^ q" "p + q + 1 \<le> k" by blast
    then have "(t, i) \<in> chain d ^^ (q + p)" "q + p \<le> nat ChainMaxDepth" using k by (auto simp: relpow_add)
    with assms(2) show False by (auto simp: reaches_chain)
  qed
qed

section \<open>Adding a link\<close>

lemma create_link_chain:
  assumes "l_active l"
  shows "chain (snd (create_link l now d)) = (if \<exists>i. fst (create_link l now d) = Inr i then chain d \<union> {(l_job_id l, l_target_job_id l)} else chain d)"
  using assms by (auto simp: create_link_def Let_def chain_def)

lemma owned_world:
  fixes w :: "'w world_scheme"
  assumes "w_events w = []"
  shows "snd (run_state (owned (NewJobService policy loc) scope i) w) = w"
proof -
  have "snd (run_state (stmt (get_job i)) w) = w" using assms by (simp add: run_stmt_alone get_job_def)
  then show ?thesis by (auto simp: owned_def svc_run split: prod.splits sum.splits)
qed

lemma run_attempt_owned:
  fixes w :: "'w world_scheme"
  assumes "w_events w = []"
  shows "run_state (attempt (owned (NewJobService policy loc) scope i) f) w =
    (case fst (run_state (owned (NewJobService policy loc) scope i) w) of Inl e \<Rightarrow> (Inl e, w) | Inr j \<Rightarrow> run_state (f j) w)"
  using owned_world [OF assms, of policy loc scope i]
  by (cases "run_state (owned (NewJobService policy loc :: 'w world_scheme job_service) scope i) w") (simp add: run_attempt split: sum.split)

lemma AddLink_chain:
  fixes w :: "'w world_scheme"
  assumes "w_events w = []"
  shows "chain (w_db (snd (run_state (AddLink (NewJobService policy loc) scope i t c n) w))) = chain (w_db w)
    \<or> \<not> reaches (nat ChainMaxDepth) (w_db w) t i
      \<and> chain (w_db (snd (run_state (AddLink (NewJobService policy loc) scope i t c n) w))) = chain (w_db w) \<union> {(i, t)}"
proof -
  let ?l = "\<lparr>l_id = 0, l_job_id = i, l_target_job_id = t, l_condition = c, l_delay_sec = n, l_active = True, l_created_at = - (62135596800 * second)\<rparr>"
  let ?d = "snd (create_link ?l (w_now w) (w_db w))"
  have k: "chain ?d = chain (w_db w) \<or> chain ?d = chain (w_db w) \<union> {(i, t)}"
    using create_link_chain [of ?l "w_now w" "w_db w"] by simp
  have r: "run_state (stmt (reaches_job t i ChainMaxDepth)) w = (Inr (reaches (nat ChainMaxDepth) (w_db w) t i), w)"
    using assms by (simp add: run_stmt_alone reaches_job_def query_def)
  have cl: "run_state (stmt (create_link ?l)) w = (fst (create_link ?l (w_now w) (w_db w)), w\<lparr>w_db := ?d\<rparr>)"
    using assms by (simp add: run_stmt_alone)
  define Q :: "('w world_scheme, unit) svc \<Rightarrow> bool" where "Q m \<longleftrightarrow> w_db (snd (run_state m w)) = w_db w
    \<or> \<not> reaches (nat ChainMaxDepth) (w_db w) t i \<and> w_db (snd (run_state m w)) = ?d" for m
  have own: "Q (attempt (owned (NewJobService policy loc) scope k) f)" if "\<And>j. Q (f j)" for k f
    using that by (simp add: Q_def run_attempt_owned [OF assms] split: sum.split)
  have cond: "Q (if b then m else m')" if "Q m" "Q m'" for b m m'
    using that by simp
  have stop: "Q (fail e)" for e by (simp add: Q_def)
  have "Q (AddLink (NewJobService policy loc) scope i t c n)"
    unfolding AddLink_def
    by (intro cond own stop) (auto simp: Q_def run_attempt run_raw r cl split: sum.split go_error.split)
  then have "w_db (snd (run_state (AddLink (NewJobService policy loc) scope i t c n) w)) = w_db w
    \<or> \<not> reaches (nat ChainMaxDepth) (w_db w) t i
      \<and> w_db (snd (run_state (AddLink (NewJobService policy loc) scope i t c n) w)) = ?d"
    by (simp add: Q_def)
  with k show ?thesis by metis
qed

text \<open> C30. The loop guard: whatever link is asked for, a chain without cycles of at most
  \<open>ChainMaxDepth + 1\<close> links still has none afterwards. \<close>
theorem links_stay_short_cycle_free:
  fixes w :: "'w world_scheme"
  assumes "w_events w = []" and "short_cycle_free (w_db w)"
  shows "short_cycle_free (w_db (snd (run_state (AddLink (NewJobService policy loc) scope i t c n) w)))"
  using AddLink_chain [OF assms(1), of policy loc scope i t c n]
proof
  assume "chain (w_db (snd (run_state (AddLink (NewJobService policy loc) scope i t c n) w))) = chain (w_db w)"
  with assms(2) show ?thesis by (simp add: short_cycle_free_def)
next
  assume "\<not> reaches (nat ChainMaxDepth) (w_db w) t i
      \<and> chain (w_db (snd (run_state (AddLink (NewJobService policy loc) scope i t c n) w))) = chain (w_db w) \<union> {(i, t)}"
  with new_edge_short_cycle_free [OF assms(2)] show ?thesis by blast
qed

text \<open>Seven jobs in a row; the link from the last back to the first is accepted.\<close>

definition seven_links :: "job_link list" where
  "seven_links = map (\<lambda>i. \<lparr>l_id = i, l_job_id = i, l_target_job_id = i + 1, l_condition = ''success'', l_delay_sec = 15,
     l_active = True, l_created_at = 0\<rparr>) [1, 2, 3, 4, 5, 6]"

definition seven_world :: world where
  "seven_world = demo_world\<lparr>w_db := demo_db\<lparr>jobs := map (\<lambda>i. demo_job i (CHR ''j'' # show_int i) True) [1, 2, 3, 4, 5, 6, 7],
     jobs_seq := 7, job_links := seven_links, links_seq := 6\<rparr>\<rparr>"

lemma seven_chain: "chain (w_db seven_world) = {(1, 2), (2, 3), (3, 4), (4, 5), (5, 6), (6, 7)}"
  by (auto simp: chain_def seven_world_def seven_links_def)

lemma upward_walk: "(a, b) \<in> R ^^ k \<Longrightarrow> (\<And>x y. (x, y) \<in> R \<Longrightarrow> y = x + 1) \<Longrightarrow> b = a + int k"
proof (induction k arbitrary: b)
  case (Suc k)
  then obtain y where y: "(a, y) \<in> R ^^ k" "(y, b) \<in> R" by (auto elim!: relpow_Suc_E)
  from Suc.IH [OF y(1) Suc.prems(2)] Suc.prems(2) [OF y(2)] show ?case by simp
qed simp

theorem links_stay_short_cycle_free_witness:
  "short_cycle_free (w_db (snd (run_state (AddLink (NewJobService \<lparr>AllowPrivate = True\<rparr> utc) AllProjects 7 1 ''success'' 15) seven_world)))
   \<and> fst (run_state (AddLink (NewJobService \<lparr>AllowPrivate = True\<rparr> utc) AllProjects 7 1 ''success'' 15) seven_world) = Inr ()"
proof -
  have "short_cycle_free (w_db seven_world)"
    unfolding short_cycle_free_def
    by (auto dest!: upward_walk simp: seven_chain)
  moreover have "w_events seven_world = []" by (simp add: seven_world_def demo_world_def)
  moreover have "fst (run_state (AddLink (NewJobService \<lparr>AllowPrivate = True\<rparr> utc) AllProjects 7 1 ''success'' 15) seven_world) = Inr ()"
    by code_simp
  ultimately show ?thesis using links_stay_short_cycle_free by blast
qed

end
