(* ===== verification/SyncService.thy ===== *)
theory SyncService
  imports JobService
begin

text \<open>
  A project's declaration of its jobs (\<open>internal/service/sync_service.go\<close>): one pass over the jobs,
  one over their links, and the optional deactivation of what was not declared.
\<close>

section \<open>Request and result\<close>

record sync_job =
  sd_Code :: string
  sd_Name :: string
  sd_Description :: string
  sd_Tag :: string
  sd_URL :: string
  sd_Method :: string
  sd_Body :: string
  sd_Schedules :: "string list option"
  sd_Headers :: "(string \<times> string) list option"
  sd_TimeoutSec :: int
  sd_MaxDurationSec :: int
  sd_Retries :: int
  sd_SingleRun :: "bool option"
  sd_RunMissed :: "bool option"
  sd_MaxDelayMin :: int
  sd_Priority :: int
  sd_SuccessMin :: int
  sd_SuccessMax :: int
  sd_Active :: "bool option"
  sd_Links :: "chain_in list"

record sync_request =
  rq_Prune :: bool
  rq_Jobs :: "sync_job list"

datatype sync_action = Created | Updated | Deactivated | Failed

record sync_outcome =
  oc_Code :: string
  oc_Action :: sync_action
  oc_JobID :: int
  oc_Errors :: "string list"

record sync_result =
  rs_Project :: string
  rs_Created :: int
  rs_Updated :: int
  rs_Deactivated :: int
  rs_Failed :: int
  rs_Jobs :: "sync_outcome list"

section \<open>One job\<close>

definition resolveBool :: "bool option \<Rightarrow> bool \<Rightarrow> bool \<Rightarrow> bool \<Rightarrow> bool" where
  "resolveBool explicit hasExisting stored fallback =
     (case explicit of Some b \<Rightarrow> b | None \<Rightarrow> if hasExisting then stored else fallback)"

text \<open>The header map as pairs with distinct keys; the keys are sorted.\<close>

definition declared_headers :: "(string \<times> string) list \<Rightarrow> header_in list" where
  "declared_headers hs = map (\<lambda>(k, v). \<lparr>hi_Key = k, hi_Value = v, hi_IsSecret = False\<rparr>) (sort_key fst hs)"

text \<open>An omitted field keeps the stored value.\<close>

definition keep_stored :: "sync_job \<Rightarrow> job \<Rightarrow> job_input \<Rightarrow> job_input" where
  "keep_stored d e i =
     i\<lparr>in_NotificationID := j_notification_id e,
       in_Name := (if sd_Name d = [] then j_name e else in_Name i),
       in_TimeoutSec := (if sd_TimeoutSec d = 0 then j_timeout_sec e else in_TimeoutSec i),
       in_MaxDurationSec := (if sd_MaxDurationSec d = 0 then j_max_duration_sec e else in_MaxDurationSec i),
       in_Priority := (if sd_Priority d = 0 then j_priority e else in_Priority i),
       in_Tag := (if sd_Tag d = [] then j_tag e else in_Tag i)\<rparr>"

definition toInput :: "sync_job \<Rightarrow> int \<Rightarrow> job option \<Rightarrow> job_input" where
  "toInput d projectID existing =
     (let stored = (\<lambda>f. case existing of None \<Rightarrow> False | Some e \<Rightarrow> f e);
          i = \<lparr>in_ProjectID = projectID, in_Code = sd_Code d, in_Name = sd_Name d, in_Description = sd_Description d,
               in_Tag = sd_Tag d, in_Method = sd_Method d, in_URL = sd_URL d, in_Body = sd_Body d,
               in_TimeoutSec = sd_TimeoutSec d, in_MaxDurationSec = sd_MaxDurationSec d, in_Retries = sd_Retries d,
               in_SingleRun = resolveBool (sd_SingleRun d) (existing \<noteq> None) (stored j_single_run) True,
               in_RunMissed = resolveBool (sd_RunMissed d) (existing \<noteq> None) (stored j_run_missed) False,
               in_MaxDelayMin = sd_MaxDelayMin d, in_Priority = sd_Priority d, in_SuccessMin = sd_SuccessMin d,
               in_SuccessMax = sd_SuccessMax d, in_NotificationID = None,
               in_Active = resolveBool (sd_Active d) (existing \<noteq> None) (stored j_active) (length (items (sd_Schedules d)) > 0),
               in_Schedules = sd_Schedules d, in_Headers = map_option declared_headers (sd_Headers d), in_Links = []\<rparr>
      in case existing of None \<Rightarrow> i | Some e \<Rightarrow> keep_stored d e i)"

fun messagesFor :: "svc_error \<Rightarrow> string list" where
  "messagesFor (SvcValidation es) = map (\<lambda>(f, m). f @ '': '' @ m) es"
| "messagesFor e = [svc_text e]"

definition failed :: "string \<Rightarrow> string list \<Rightarrow> sync_outcome" where
  "failed code errs = \<lparr>oc_Code = code, oc_Action = Failed, oc_JobID = 0, oc_Errors = errs\<rparr>"

definition done_as :: "string \<Rightarrow> sync_action \<Rightarrow> int \<Rightarrow> sync_outcome" where
  "done_as code action i = \<lparr>oc_Code = code, oc_Action = action, oc_JobID = i, oc_Errors = []\<rparr>"

definition create_declared :: "'w job_service \<Rightarrow> ProjectScope \<Rightarrow> string \<Rightarrow> job_input \<Rightarrow> ('w, sync_outcome) state" where
  "create_declared s scope code i = do {
     r \<leftarrow> Create s scope i;
     State_Monad.return (case r of Inl e \<Rightarrow> failed code (messagesFor e) | Inr j \<Rightarrow> done_as code Created j) }"

definition update_declared :: "'w job_service \<Rightarrow> ProjectScope \<Rightarrow> string \<Rightarrow> int \<Rightarrow> job_input \<Rightarrow> ('w, sync_outcome) state" where
  "update_declared s scope code j i = do {
     r \<leftarrow> Update s scope j i;
     State_Monad.return (case r of Inl e \<Rightarrow> failed code (messagesFor e) | Inr _ \<Rightarrow> done_as code Updated j) }"

definition applyJob :: "'w job_service \<Rightarrow> ProjectScope \<Rightarrow> project \<Rightarrow> sync_job \<Rightarrow> ('w, sync_outcome) state" where
  "applyJob s scope project d =
     (let code = to_lower (trim_space (sd_Code d)) in
      if code = [] then State_Monad.return (failed code [''code is required''])
      else do {
        r \<leftarrow> js_GetByCode (sv_jobs s) (p_id project) code;
        case r of
          Inr e \<Rightarrow> update_declared s scope code (j_id e) (toInput d (p_id project) (Some e))
        | Inl ErrNotFound \<Rightarrow> create_declared s scope code (toInput d (p_id project) None)
        | Inl err \<Rightarrow> State_Monad.return (failed code [err_text err]) })"

section \<open>Links\<close>

definition link_key :: "string \<Rightarrow> string \<Rightarrow> string" where
  "link_key code condition = code @ ''/'' @ condition"

definition applyLink ::
  "'w job_service \<Rightarrow> ProjectScope \<Rightarrow> project \<Rightarrow> int \<Rightarrow> string list \<Rightarrow> chain_in \<Rightarrow> string list \<Rightarrow> ('w, string list) state" where
  "applyLink s scope project jobID have link errs =
     (let code = to_lower (trim_space (ci_TargetCode link));
          condition = (if ci_Condition link = [] then ''success'' else ci_Condition link)
      in if code = [] then State_Monad.return (errs @ [''link target is empty''])
      else if link_key code condition \<in> set have then State_Monad.return errs
      else do {
        r \<leftarrow> js_GetByCode (sv_jobs s) (p_id project) code;
        case r of
          Inl ErrNotFound \<Rightarrow> State_Monad.return (errs @ [''link target '' @ go_quote code @ '' does not exist in this project''])
        | Inl e \<Rightarrow> State_Monad.return (errs @ [err_text e])
        | Inr target \<Rightarrow> do {
            r \<leftarrow> AddLink s scope jobID (j_id target) condition (if ci_DelaySec link = 0 then 15 else ci_DelaySec link);
            State_Monad.return (case r of
                Inl e \<Rightarrow> errs @ [''link to '' @ go_quote code @ '': '' @ svc_text e]
              | Inr _ \<Rightarrow> errs) } })"

definition applyLinks ::
  "'w job_service \<Rightarrow> ProjectScope \<Rightarrow> project \<Rightarrow> int \<Rightarrow> chain_in list \<Rightarrow> ('w, string list) state" where
  "applyLinks s scope project jobID links = do {
     r \<leftarrow> js_ListLinks (sv_jobs s) jobID;
     case r of
       Inl e \<Rightarrow> State_Monad.return [err_text e]
     | Inr existing \<Rightarrow>
         for_each links (applyLink s scope project jobID
           (map (\<lambda>l. link_key (to_lower (l_target_code l)) (l_condition l)) existing)) [] }"

section \<open>Pruning\<close>

definition prune_row ::
  "'w job_service \<Rightarrow> string list \<Rightarrow> job_row \<Rightarrow> go_error + string list \<Rightarrow> ('w, go_error + string list) state" where
  "prune_row s declared row acc = (case acc of
      Inl e \<Rightarrow> State_Monad.return (Inl e)
    | Inr codes \<Rightarrow>
        if to_lower (j_code (jr_job row)) \<in> set declared \<or> \<not> j_active (jr_job row) then State_Monad.return (Inr codes)
        else do {
          r \<leftarrow> js_SetActive (sv_jobs s) (j_id (jr_job row)) False;
          State_Monad.return (case r of Inl e \<Rightarrow> Inl e | Inr _ \<Rightarrow> Inr (codes @ [j_code (jr_job row)])) })"

definition prune_filter :: "ProjectScope \<Rightarrow> int \<Rightarrow> job_filter" where
  "prune_filter scope projectID =
     \<lparr>jf_Scope = scope, jf_ProjectID = Some projectID, jf_Tag = None, jf_Active = None, jf_Search = None\<rparr>"

definition prune :: "'w job_service \<Rightarrow> ProjectScope \<Rightarrow> int \<Rightarrow> string list \<Rightarrow> ('w, go_error + string list) state" where
  "prune s scope projectID declared = do {
     r \<leftarrow> js_List (sv_jobs s) (prune_filter scope projectID) 0 500;
     case r of
       Inl e \<Rightarrow> State_Monad.return (Inl e)
     | Inr (rows, n) \<Rightarrow> for_each rows (prune_row s declared) (Inr []) }"

section \<open>A declaration\<close>

definition job_pass :: "'w job_service \<Rightarrow> ProjectScope \<Rightarrow> project \<Rightarrow> sync_job \<Rightarrow> sync_outcome list \<Rightarrow> ('w, sync_outcome list) state" where
  "job_pass s scope project d acc = do {
     r \<leftarrow> applyJob s scope project d;
     State_Monad.return (acc @ [r]) }"

definition link_pass ::
  "'w job_service \<Rightarrow> ProjectScope \<Rightarrow> project \<Rightarrow> sync_job \<times> sync_outcome \<Rightarrow> sync_outcome list \<Rightarrow> ('w, sync_outcome list) state" where
  "link_pass s scope project du acc = (case du of (d, r) \<Rightarrow>
     if length (sd_Links d) = 0 \<or> oc_Action r = Failed then State_Monad.return (acc @ [r])
     else do {
       errs \<leftarrow> applyLinks s scope project (oc_JobID r) (sd_Links d);
       State_Monad.return (acc @ [r\<lparr>oc_Errors := oc_Errors r @ errs\<rparr>]) })"

definition counted :: "sync_action \<Rightarrow> sync_outcome list \<Rightarrow> int" where
  "counted a rs = int (length (filter (\<lambda>r. oc_Action r = a) rs))"

definition sync_summary :: "project \<Rightarrow> sync_outcome list \<Rightarrow> string list \<Rightarrow> sync_result" where
  "sync_summary project outcomes deactivated =
     \<lparr>rs_Project = p_slug project, rs_Created = counted Created outcomes, rs_Updated = counted Updated outcomes,
      rs_Deactivated = int (length deactivated), rs_Failed = counted Failed outcomes,
      rs_Jobs = sort_key oc_Code (outcomes @ map (\<lambda>c. done_as c Deactivated 0) deactivated)\<rparr>"

definition no_prune_empty :: svc_error where
  "no_prune_empty = invalid ''jobs'' ''cannot prune against an empty declaration; it would deactivate every job in the project''"

definition Sync :: "'w job_service \<Rightarrow> project \<Rightarrow> sync_request \<Rightarrow> ('w, sync_result) svc" where
  "Sync s project req =
     (if rq_Prune req \<and> length (rq_Jobs req) = 0 then fail no_prune_empty
      else let scope = ScopeOf [p_id project] in do {
        outcomes \<leftarrow> for_each (rq_Jobs req) (job_pass s scope project) [];
        let declared = map (\<lambda>r. to_lower (oc_Code r)) (filter (\<lambda>r. oc_Code r \<noteq> []) outcomes);
        outcomes \<leftarrow> for_each (zip (rq_Jobs req) outcomes) (link_pass s scope project) [];
        if rq_Prune req then do {
          r \<leftarrow> prune s scope (p_id project) declared;
          case r of
            Inl e \<Rightarrow> fail (SvcOther e)
          | Inr codes \<Rightarrow> ok (sync_summary project outcomes codes) }
        else ok (sync_summary project outcomes []) })"

end
