(* ===== verification/SyncProps.thy ===== *)
theory SyncProps
  imports SyncService Demo "HOL-Library.Multiset" "HOL-Library.Code_Target_Numeral"
begin



















end
