(* ===== verification/RunService.thy ===== *)
theory RunService
  imports ServiceErrors RunStore JobService
begin

text \<open>
  The management side of execution records (\<open>internal/service/run_service.go\<close>): reading the history
  within a scope, and asking for a run outside the schedule.
\<close>

record 'w RunRepository =
  rn_Get :: "int \<Rightarrow> ('w, run_row) call"
  rn_List :: "run_filter \<Rightarrow> int \<Rightarrow> int \<Rightarrow> ('w, run_row list \<times> int) call"
  rn_Recent :: "int \<Rightarrow> int \<Rightarrow> ('w, run list) call"
  rn_Children :: "int \<Rightarrow> ('w, run_row list) call"
  rn_Enqueue :: "int \<Rightarrow> string \<Rightarrow> int option \<Rightarrow> ('w, int) call"

definition run_repo :: "'w world_scheme RunRepository" where
  "run_repo = \<lparr>rn_Get = (\<lambda>i. stmt (get_run_row i)),
     rn_List = (\<lambda>f offset limit. paged (stmt (count_runs f)) (stmt (list_run_rows f offset limit))),
     rn_Recent = (\<lambda>i n. stmt (recent_runs i n)), rn_Children = (\<lambda>i. stmt (children_of i)),
     rn_Enqueue = (\<lambda>i t u. stmt (enqueue_run i t u))\<rparr>"

record 'w run_service =
  rv_runs :: "'w RunRepository"
  rv_job :: "int \<Rightarrow> ('w, job) call"
  rv_dispatch :: "(int \<Rightarrow> string \<Rightarrow> ('w, unit) state) option"

definition NewRunService :: "(int \<Rightarrow> string \<Rightarrow> ('w world_scheme, unit) state) option \<Rightarrow> 'w world_scheme run_service" where
  "NewRunService dispatch = \<lparr>rv_runs = run_repo, rv_job = (\<lambda>i. stmt (get_job i)), rv_dispatch = dispatch\<rparr>"

definition ListRuns :: "'w run_service \<Rightarrow> run_filter \<Rightarrow> int \<Rightarrow> int \<Rightarrow> ('w, run_row list \<times> int) svc" where
  "ListRuns s f offset limit = raw (rn_List (rv_runs s) f offset limit)"

text \<open>The second lookup returns whatever error the repository gave.\<close>

definition owned_run :: "'w run_service \<Rightarrow> ProjectScope \<Rightarrow> int \<Rightarrow> ('w, run_row) svc" where
  "owned_run s scope i =
     attempt (or_not_found (rn_Get (rv_runs s) i)) (\<lambda>row.
     attempt (raw (rv_job s (r_job_id row))) (\<lambda>job.
       if Allows scope (j_project_id job) then ok row else fail SvcNotFound))"

definition GetRun :: "'w run_service \<Rightarrow> ProjectScope \<Rightarrow> int \<Rightarrow> ('w, run_row) svc" where
  "GetRun s scope i = owned_run s scope i"

definition visible_child :: "'w run_service \<Rightarrow> ProjectScope \<Rightarrow> run_row \<Rightarrow> run_row list \<Rightarrow> ('w, run_row list) state" where
  "visible_child s scope child acc = do {
     r \<leftarrow> rv_job s (r_job_id child);
     State_Monad.return (case r of
         Inl _ \<Rightarrow> acc
       | Inr job \<Rightarrow> if Allows scope (j_project_id job) then acc @ [child] else acc) }"

definition Children :: "'w run_service \<Rightarrow> ProjectScope \<Rightarrow> int \<Rightarrow> ('w, run_row list) svc" where
  "Children s scope i =
     attempt (owned_run s scope i) (\<lambda>_.
     attempt (raw (rn_Children (rv_runs s) i)) (\<lambda>children.
       if All scope then ok children
       else do {
         visible \<leftarrow> for_each children (visible_child s scope) [];
         ok visible }))"

definition Trigger :: "'w run_service \<Rightarrow> ProjectScope \<Rightarrow> int \<Rightarrow> string \<Rightarrow> int option \<Rightarrow> ('w, int) svc" where
  "Trigger s scope jobID trigger userID =
     attempt (or_not_found (rv_job s jobID)) (\<lambda>job.
       if \<not> Allows scope (j_project_id job) then fail SvcNotFound
       else attempt (raw (rn_Enqueue (rv_runs s) jobID trigger userID)) (\<lambda>runID.
         case rv_dispatch s of
           None \<Rightarrow> ok runID
         | Some dispatch \<Rightarrow> do {
             dispatch runID (j_code job);
             ok runID }))"

text \<open>The product of days and hours is computed in nanoseconds at 64 bits.\<close>

definition RunFilterFromRange :: "('w, instant) state \<Rightarrow> int \<Rightarrow> ('w, run_filter) state" where
  "RunFilterFromRange now n = do {
     t \<leftarrow> now;
     State_Monad.return \<lparr>rf_Scope = NoProjects, rf_JobID = None, rf_ProjectID = None, rf_Status = None, rf_Trigger = None,
       rf_Start = Some (t + wrap64 (wrap64 (- (if n \<le> 0 then 1 else n) * 24) * (3600 * second))),
       rf_End = None, rf_Search = None\<rparr> }"

end
