(* ===== verification/RateLimit.thy ===== *)
theory RateLimit
  imports Target
begin

text \<open>
  Throttling (\<open>pkg/auth/ratelimit.go\<close>): the fixed window counter and the address a request is
  counted under. The map of windows is a partial function; an attempt is made at an instant the
  clock gives.
\<close>

section \<open>The limiter\<close>

record window =
  wd_count :: int
  wd_expiresAt :: instant

record limiter =
  hits :: "string \<rightharpoonup> window"
  li_limit :: int
  li_period :: int
  lastGC :: instant
  gcEvery :: int

definition NewLimiter :: "int \<Rightarrow> int \<Rightarrow> limiter" where
  "NewLimiter limit period =
     \<lparr>hits = (\<lambda>_. None), li_limit = limit, li_period = period, lastGC = zero_time, gcEvery = period\<rparr>"

definition expired :: "instant \<Rightarrow> window \<Rightarrow> bool" where
  "expired now w \<longleftrightarrow> now > wd_expiresAt w"

definition collect :: "instant \<Rightarrow> limiter \<Rightarrow> limiter" where
  "collect now l =
     (if time_sub now (lastGC l) < gcEvery l then l
      else l\<lparr>lastGC := now,
             hits := (\<lambda>k. case hits l k of
                None \<Rightarrow> None
              | Some w \<Rightarrow> if expired now w then None else Some w)\<rparr>)"

definition Allow :: "instant \<Rightarrow> string \<Rightarrow> limiter \<Rightarrow> bool \<times> limiter" where
  "Allow now k l0 =
     (let l = collect now l0;
          fresh = (1 \<le> li_limit l,
                   l\<lparr>hits := (hits l)(k \<mapsto> \<lparr>wd_count = 1, wd_expiresAt = now + li_period l\<rparr>)\<rparr>)
      in case hits l k of
           None \<Rightarrow> fresh
         | Some w \<Rightarrow>
             if expired now w then fresh
             else let n = wrap64 (wd_count w + 1) in
               (n \<le> li_limit l, l\<lparr>hits := (hits l)(k \<mapsto> w\<lparr>wd_count := n\<rparr>)\<rparr>))"

definition Reset :: "string \<Rightarrow> limiter \<Rightarrow> limiter" where
  "Reset k l = l\<lparr>hits := (hits l)(k := None)\<rparr>"

section \<open>Addresses\<close>

text \<open>\<open>net.SplitHostPort\<close>; \<open>None\<close> is any of its errors.\<close>

definition SplitHostPort :: "string \<Rightarrow> (string \<times> string) option" where
  "SplitHostPort s = (case split_last (CHR '':'') s of
      None \<Rightarrow> None
    | Some (before, colon) \<Rightarrow>
        if hd s = CHR ''['' then
          (if CHR '']'' \<notin> set s then None
           else let (host, rest) = cut_at (CHR '']'') (tl s) in
             if rest \<noteq> colon then None
             else if CHR ''['' \<in> set (tl s) \<or> CHR '']'' \<in> set rest then None
             else Some (host, tl colon))
        else if CHR '':'' \<in> set before then None
        else if CHR ''['' \<in> set s \<or> CHR '']'' \<in> set s then None
        else Some (before, tl colon))"

text \<open>\<open>IP.String\<close>: dotted decimal, or the eight groups with the longest run of zeros left out.\<close>

fun hex_digits :: "nat \<Rightarrow> nat \<Rightarrow> string" where
  "hex_digits 0 n = []"
| "hex_digits (Suc k) n = (if n < 16 then [''0123456789abcdef'' ! n] else hex_digits k (n div 16) @ [''0123456789abcdef'' ! (n mod 16)])"

definition groups :: "nat list \<Rightarrow> nat list" where
  "groups bs = map (\<lambda>i. bs ! (2 * i) * 256 + bs ! (2 * i + 1)) [0..<8]"

definition zero_run :: "nat list \<Rightarrow> nat \<Rightarrow> nat" where
  "zero_run gs i = length (takeWhile (\<lambda>g. g = 0) (drop i gs))"

definition longest_zeros :: "nat list \<Rightarrow> nat \<times> nat" where
  "longest_zeros gs =
     fold (\<lambda>i (start, len). if zero_run gs i \<ge> 2 \<and> zero_run gs i > len then (i, zero_run gs i) else (start, len))
       [0..<8] (8, 0)"

definition ip_string :: "nat list \<Rightarrow> string" where
  "ip_string ip =
     (if length ip = 4 then join ''.'' (map show_nat ip)
      else let gs = groups ip; (start, len) = longest_zeros gs; hex = map (hex_digits 4) in
        if len = 0 then join '':'' (hex gs)
        else join '':'' (hex (take start gs)) @ ''::'' @ join '':'' (hex (drop (start + len) gs)))"

text \<open>The empty text stands for no address.\<close>

definition parseIP :: "string \<Rightarrow> string" where
  "parseIP raw =
     (let v = trim_space raw in
      if v = [] then []
      else case ParseIP v of
          Some ip \<Rightarrow> ip_string ip
        | None \<Rightarrow>
            (case SplitHostPort v of
               None \<Rightarrow> []
             | Some (host, _) \<Rightarrow> (case ParseIP (trim_space host) of Some ip \<Rightarrow> ip_string ip | None \<Rightarrow> [])))"

section \<open>The trusted proxy\<close>

record request =
  rq_header :: "(string \<times> string) list"
  rq_remote :: string

record TrustedProxy =
  tp_header :: string
  tp_hops :: int

definition forwardedFor :: string where
  "forwardedFor = ''X-Forwarded-For''"

definition trustableHeaders :: "string list" where
  "trustableHeaders =
     [forwardedFor, ''X-Real-Ip'', ''Cf-Connecting-Ip'', ''True-Client-Ip'', ''X-Vercel-Forwarded-For'']"

text \<open>\<open>http.CanonicalHeaderKey\<close> leaves a name with any other byte than a token's as it is.\<close>

definition token_byte :: "char \<Rightarrow> bool" where
  "token_byte c \<longleftrightarrow> is_letter c \<or> is_digit c \<or> c \<in> set ''!#$%&*+-.^_|~'' \<or> c = CHR 0x27 \<or> c = CHR 0x60"

definition CanonicalHeaderKey :: "string \<Rightarrow> string" where
  "CanonicalHeaderKey k = (if list_all token_byte k then canonical_key k else k)"

definition NewTrustedProxy :: "string \<Rightarrow> int \<Rightarrow> string + TrustedProxy" where
  "NewTrustedProxy header0 hops =
     (let header = trim_space header0 in
      if header = [] then Inr \<lparr>tp_header = [], tp_hops = 0\<rparr>
      else let canonical = CanonicalHeaderKey header in
        if canonical \<notin> set trustableHeaders
        then Inl (''auth: '' @ go_quote header @ '' is not a header this service will trust for the client address'')
        else if canonical = forwardedFor then
          (if hops < 1
           then Inl (''auth: '' @ forwardedFor @ '' needs a hop count of at least 1, so the client's own entry can be counted from the right'')
           else Inr \<lparr>tp_header = canonical, tp_hops = hops\<rparr>)
        else Inr \<lparr>tp_header = canonical, tp_hops = 0\<rparr>)"

definition socketIP :: "request \<Rightarrow> string" where
  "socketIP r = (case SplitHostPort (rq_remote r) of Some (host, _) \<Rightarrow> host | None \<Rightarrow> rq_remote r)"

text \<open>A hop count is positive where it is read, so the index cannot leave the range of an int.\<close>

definition ip_or :: "string \<Rightarrow> string \<Rightarrow> string" where
  "ip_or socket raw = (let ip = parseIP raw in if ip \<noteq> [] then ip else socket)"

definition ClientIP :: "TrustedProxy \<Rightarrow> request \<Rightarrow> string" where
  "ClientIP p r =
     (let socket = socketIP r in
      if tp_header p = [] then socket
      else let raw = header_get (rq_header r) (tp_header p) in
        if trim_space raw = [] then socket
        else if tp_header p \<noteq> forwardedFor then ip_or socket raw
        else let parts = split_on (CHR '','') raw; index = int (length parts) - tp_hops p in
          if index < 0 \<or> index \<ge> int (length parts) then socket
          else ip_or socket (parts ! nat index))"

end
