(* ===== verification/RateProps.thy ===== *)
theory RateProps
  imports RateLimit "HOL-Library.Code_Target_Numeral"
begin

text \<open>
  What throttling guarantees: how many attempts a key gets within a period, and who chooses the
  address an attempt is counted under.
\<close>

section \<open>Attempts in sequence\<close>

datatype event = Attempt instant string | Forget string

fun after_events :: "event list \<Rightarrow> limiter \<Rightarrow> limiter" where
  "after_events [] l = l"
| "after_events (Attempt t j # es) l = after_events es (snd (Allow t j l))"
| "after_events (Forget j # es) l = after_events es (Reset j l)"

text \<open>How many attempts under one key are let through.\<close>

fun allowed :: "string \<Rightarrow> event list \<Rightarrow> limiter \<Rightarrow> nat" where
  "allowed k [] l = 0"
| "allowed k (Attempt t j # es) l =
     (if j = k \<and> fst (Allow t j l) then 1 else 0) + allowed k es (snd (Allow t j l))"
| "allowed k (Forget j # es) l = allowed k es (Reset j l)"

lemma collect_config [simp]:
  "li_limit (collect t l) = li_limit l" "li_period (collect t l) = li_period l"
  by (simp_all add: collect_def)

lemma collect_hits:
  "hits (collect t l) k = hits l k
   \<or> hits (collect t l) k = None \<and> (\<exists>w. hits l k = Some w \<and> expired t w)"
  by (auto simp: collect_def split: option.split)

lemma Allow_config [simp]:
  "li_limit (snd (Allow t j l)) = li_limit l" "li_period (snd (Allow t j l)) = li_period l"
  by (simp_all add: Allow_def Let_def split: option.split)

lemma Allow_other:
  "j \<noteq> k \<Longrightarrow> hits (snd (Allow t j l)) k = hits (collect t l) k"
  by (simp add: Allow_def Let_def split: option.split)

text \<open>The collection of expired windows cannot be told from the answers.\<close>

lemma Allow_fresh:
  assumes "\<And>w. hits l k = Some w \<Longrightarrow> expired t w"
  shows "fst (Allow t k l) \<longleftrightarrow> 1 \<le> li_limit l"
    and "hits (snd (Allow t k l)) k = Some \<lparr>wd_count = 1, wd_expiresAt = t + li_period l\<rparr>"
  using assms collect_hits [of t l k] by (auto simp: Allow_def Let_def split: option.split)

lemma Allow_live:
  assumes "hits l k = Some w" and "\<not> expired t w"
  shows "fst (Allow t k l) \<longleftrightarrow> wrap64 (wd_count w + 1) \<le> li_limit l"
    and "hits (snd (Allow t k l)) k = Some (w\<lparr>wd_count := wrap64 (wd_count w + 1)\<rparr>)"
  using assms collect_hits [of t l k] by (auto simp: Allow_def Let_def split: option.split)

section \<open>The bound\<close>

text \<open>Counts are positive and bounded by the number of attempts made.\<close>

definition counted :: "nat \<Rightarrow> limiter \<Rightarrow> bool" where
  "counted n l \<longleftrightarrow> (\<forall>k w. hits l k = Some w \<longrightarrow> 1 \<le> wd_count w \<and> wd_count w \<le> int n)"

lemma counted_event:
  assumes "counted n l" and "int (Suc n) \<le> max_int64"
  shows "counted (Suc n) (snd (Allow t j l))"
  unfolding counted_def
proof (intro allI impI)
  fix k w assume hit: "hits (snd (Allow t j l)) k = Some w"
  show "1 \<le> wd_count w \<and> wd_count w \<le> int (Suc n)"
  proof (cases "j = k")
    case False
    then have "hits l k = Some w" using hit Allow_other [OF False] collect_hits [of t l k] by auto
    then show ?thesis using assms(1) by (force simp: counted_def)
  next
    case True
    show ?thesis
    proof (cases "\<exists>v. hits l k = Some v \<and> \<not> expired t v")
      case live: True
      then obtain v where v: "hits l k = Some v" "\<not> expired t v" by blast
      have c: "1 \<le> wd_count v" "wd_count v \<le> int n" using assms(1) v(1) by (auto simp: counted_def)
      then have "wrap64 (wd_count v + 1) = wd_count v + 1"
        using assms(2) by (simp add: int64_def min_int64_def)
      then show ?thesis using Allow_live(2) [OF v] hit True c by auto
    next
      case False
      then have "\<And>v. hits l k = Some v \<Longrightarrow> expired t v" by blast
      from Allow_fresh(2) [OF this] show ?thesis using hit True by auto
    qed
  qed
qed

lemma counted_after:
  assumes "counted n l" and "int (n + length es) \<le> max_int64"
  shows "counted (n + length es) (after_events es l)"
  using assms
proof (induction es l arbitrary: n rule: after_events.induct)
  case (1 l)
  then show ?case by simp
next
  case (2 t j es l)
  have "counted (Suc n) (snd (Allow t j l))" using 2 by (intro counted_event) auto
  from 2(1) [OF this] 2(3) show ?case by simp
next
  case (3 j es l)
  have "counted (Suc n) (Reset j l)" using 3(2) by (force simp: counted_def Reset_def split: if_splits)
  from 3(1) [OF this] 3(3) show ?case by simp
qed

lemma after_events_config [simp]:
  "li_limit (after_events es l) = li_limit l" "li_period (after_events es l) = li_period l"
  by (induction es l rule: after_events.induct) (simp_all add: Reset_def)

text \<open>
  What a key may still get until an instant: the rest of its window and, where the window ends
  before, one more.
\<close>

definition budget :: "instant \<Rightarrow> string \<Rightarrow> limiter \<Rightarrow> int" where
  "budget T k l = (case hits l k of
      None \<Rightarrow> max 0 (li_limit l)
    | Some w \<Rightarrow> max 0 (li_limit l - wd_count w) + (if wd_expiresAt w < T then max 0 (li_limit l) else 0))"

lemma budget_step:
  assumes "counted n l" and "int (Suc n) \<le> max_int64" and "T \<le> t + li_period l" and "t \<le> T"
  shows "(if fst (Allow t k l) then 1 else 0) + budget T k (snd (Allow t k l)) \<le> budget T k l"
proof (cases "\<exists>v. hits l k = Some v \<and> \<not> expired t v")
  case True
  then obtain v where v: "hits l k = Some v" "\<not> expired t v" by blast
  have c: "1 \<le> wd_count v" "wd_count v \<le> int n" using assms(1) v(1) by (auto simp: counted_def)
  then have "wrap64 (wd_count v + 1) = wd_count v + 1"
    using assms(2) by (simp add: int64_def min_int64_def)
  then show ?thesis using Allow_live [OF v] v c by (simp add: budget_def)
next
  case False
  then have old: "\<And>v. hits l k = Some v \<Longrightarrow> expired t v" by blast
  then have "max 0 (li_limit l) \<le> budget T k l"
    using assms(4) by (force simp: budget_def expired_def split: option.split)
  then show ?thesis using Allow_fresh [OF old] assms(3) by (simp add: budget_def)
qed

lemma budget_other:
  assumes "j \<noteq> k" and "t \<le> T"
  shows "budget T k (snd (Allow t j l)) \<le> budget T k l"
  using collect_hits [of t l k] assms by (auto simp: budget_def Allow_other expired_def split: option.split)

lemma allowed_budget:
  assumes "counted n l" and "int (n + length es) \<le> max_int64"
    and "\<And>t j. Attempt t j \<in> set es \<Longrightarrow> T \<le> t + li_period l \<and> t \<le> T" and "Forget k \<notin> set es"
  shows "int (allowed k es l) \<le> budget T k l"
  using assms
proof (induction k es l arbitrary: n rule: allowed.induct)
  case (1 k l)
  then show ?case by (simp add: budget_def split: option.split)
next
  case (2 k t j es l)
  have c: "counted (Suc n) (snd (Allow t j l))" using 2(2,3) by (intro counted_event) auto
  have rest: "int (allowed k es (snd (Allow t j l))) \<le> budget T k (snd (Allow t j l))"
    by (rule 2(1) [OF c]) (use 2(3-5) in auto)
  show ?case
  proof (cases "j = k")
    case True
    have "T \<le> t + li_period l" "t \<le> T" using 2(4) [of t j] by auto
    with budget_step [OF 2(2), of T t k] 2(3) rest True show ?thesis by auto
  next
    case False
    with budget_other [OF False, of t T l] 2(4) [of t j] rest show ?thesis by auto
  qed
next
  case (3 k j es l)
  have c: "counted (Suc n) (Reset j l)" using 3(2) by (force simp: counted_def Reset_def split: if_splits)
  have "int (allowed k es (Reset j l)) \<le> budget T k (Reset j l)"
    by (rule 3(1) [OF c]) (use 3(3-5) in \<open>auto simp: Reset_def\<close>)
  moreover have "budget T k (Reset j l) = budget T k l" using 3(5) by (auto simp: budget_def Reset_def split: option.split)
  ultimately show ?case by simp
qed

lemma untouched:
  assumes "\<And>t. Attempt t k \<notin> set es" and "hits l k = None"
  shows "hits (after_events es l) k = None"
  using assms
proof (induction es l rule: after_events.induct)
  case (2 t j es l)
  have "hits (snd (Allow t j l)) k = None"
    using 2(2,3) Allow_other [of j k t l] collect_hits [of t l k] by auto
  with 2 show ?case by simp
qed (auto simp: Reset_def)

text \<open> C26. Whatever happened before and whatever other keys do, the attempts let through under one key
  within any stretch of time no longer than the period are at most twice the limit less one, and at
  most the limit where the key is used for the first time: the collection of expired windows and the
  boundary between two windows give nobody more. A limit of zero or less lets nothing through. The
  counter must not have been dropped in between, and the attempts fit an int. \<close>
theorem rate_limit_bound:
  assumes "\<forall>e\<in>set seg. case e of Attempt t _ \<Rightarrow> t0 \<le> t \<and> t \<le> t0 + period | Forget j \<Rightarrow> j \<noteq> k"
    and "int (length (pre @ seg)) \<le> max_int64"
  shows "int (allowed k seg (after_events pre (NewLimiter limit period))) \<le> max 0 (2 * limit - 1)
    \<and> ((\<forall>t. Attempt t k \<notin> set pre) \<longrightarrow>
         int (allowed k seg (after_events pre (NewLimiter limit period))) \<le> max 0 limit)"
proof -
  let ?l = "after_events pre (NewLimiter limit period)"
  have config: "li_limit ?l = limit" "li_period ?l = period" by (simp_all add: NewLimiter_def)
  have "counted 0 (NewLimiter limit period)" by (simp add: counted_def NewLimiter_def)
  with assms(2) have c: "counted (length pre) ?l" using counted_after [of 0 _ pre] by simp
  have times: "t0 + period \<le> t + li_period ?l \<and> t \<le> t0 + period" if "Attempt t j \<in> set seg" for t j
    using assms(1) that config by (metis add_right_mono event.simps(5))
  have forget: "Forget k \<notin> set seg" using assms(1) by force
  have len: "int (length pre + length seg) \<le> max_int64" using assms(2) by simp
  have bound: "int (allowed k seg ?l) \<le> budget (t0 + period) k ?l"
    by (rule allowed_budget [OF c len times forget])
  have "budget (t0 + period) k ?l \<le> max 0 (2 * limit - 1)"
    using c config by (force simp: budget_def counted_def split: option.split)
  moreover have "budget (t0 + period) k ?l \<le> max 0 limit" if "\<forall>t. Attempt t k \<notin> set pre"
    using untouched [of k pre "NewLimiter limit period"] that config by (simp add: budget_def NewLimiter_def)
  ultimately show ?thesis using bound by fastforce
qed

text \<open>Two attempts per ten nanoseconds: three in a row pass around the end of the first window.\<close>

definition burst_pre :: "event list" where
  "burst_pre = [Attempt 0 ''a'']"

definition burst :: "event list" where
  "burst = [Attempt 10 ''a'', Attempt 11 ''a'', Attempt 11 ''b'', Attempt 12 ''a'', Attempt 12 ''a'']"

theorem rate_limit_bound_witness:
  "allowed ''a'' burst (after_events burst_pre (NewLimiter 2 10)) = 3
   \<and> int (allowed ''a'' burst (after_events burst_pre (NewLimiter 2 10))) \<le> max 0 (2 * 2 - 1)"
proof
  show "allowed ''a'' burst (after_events burst_pre (NewLimiter 2 10)) = 3" by code_simp
  show "int (allowed ''a'' burst (after_events burst_pre (NewLimiter 2 10))) \<le> max 0 (2 * 2 - 1)"
    by (rule rate_limit_bound [of burst 5 10 "''a''" burst_pre 2, THEN conjunct1]) (simp_all add: burst_def burst_pre_def max_int64_def)
qed

section \<open>The address\<close>

lemma parseIP_blank: "trim_space raw = [] \<Longrightarrow> parseIP raw = []"
  by (simp add: parseIP_def)

lemma split_on_snoc_prefix:
  "split_on c (s @ c # t) = split_on c s @ split_on c t"
proof (induction s)
  case (Cons a s)
  then show ?case by (cases "split_on c s") auto
qed simp

lemma canonical_forwardedFor [simp]: "canonical_key forwardedFor = forwardedFor"
  by code_simp

lemma forwardedFor_not_Nil [simp]: "forwardedFor \<noteq> []"
  by (simp add: forwardedFor_def)

lemma not_blank:
  assumes "c \<in> set s" and "ascii c" and "\<not> is_space (byte c)"
  shows "trim_space s \<noteq> []"
proof
  assume blank: "trim_space s = []"
  let ?sp = "\<lambda>x :: nat \<times> string. is_space (fst x)"
  from mem_runes_ascii [OF assms(1,2)] assms(3) have "dropWhile ?sp (runes s) \<noteq> []"
    by (metis dropWhile_eq_Nil_conv fst_conv)
  then obtain r rs where head: "dropWhile ?sp (runes s) = r # rs" "\<not> ?sp r"
    by (metis hd_dropWhile list.sel(1) neq_Nil_conv)
  let ?kept = "dropWhile ?sp (rev (r # rs))"
  have "?kept \<noteq> []" using head(2) by (auto simp: dropWhile_append3)
  moreover have "x \<in> set (runes s)" if "x \<in> set ?kept" for x
  proof -
    have "x \<in> set (r # rs)" using set_dropWhileD [OF that] by simp
    then have "x \<in> set (dropWhile ?sp (runes s))" by (simp only: head(1))
    then show ?thesis by (rule set_dropWhileD)
  qed
  moreover have "\<forall>x\<in>set ?kept. snd x = []" using blank head(1) by (simp add: trim_space_def)
  ultimately show False using runes_chunk_nonempty [of _ s] by (metis list.set_intros(1) neq_Nil_conv)
qed

lemma NewTrustedProxy_hops:
  "NewTrustedProxy h n = Inr p \<Longrightarrow> tp_header p = forwardedFor \<Longrightarrow> 1 \<le> tp_hops p \<and> tp_hops p = n"
  by (auto simp: NewTrustedProxy_def Let_def forwardedFor_def split: if_splits)

text \<open> C28. Behind proxies that append to one \<open>X-Forwarded-For\<close> line, the address a request is counted
  under is the entry the outermost proxy wrote, or the socket's where that is no address: whatever the
  caller sent in front of it has no say. \<close>
theorem client_ip_from_proxies:
  assumes "NewTrustedProxy h n = Inr p" and "tp_header p = forwardedFor"
    and "int (length (split_on (CHR '','') own)) = n"
    and "header_get (rq_header r) forwardedFor \<in> {own, spoof @ CHR '','' # own}"
  shows "ClientIP p r = ip_or (socketIP r) (hd (split_on (CHR '','') own))"
proof -
  have hops: "tp_hops p = n" "1 \<le> n" using NewTrustedProxy_hops [OF assms(1,2)] by auto
  from assms(4) consider "header_get (rq_header r) forwardedFor = own"
    | "header_get (rq_header r) forwardedFor = spoof @ CHR '','' # own" by blast
  then show ?thesis
  proof cases
    case 1
    show ?thesis
    proof (cases "trim_space own = []")
      case True
      then have "CHR '','' \<notin> set own" using not_blank [of "CHR '',''" own] by (auto simp: ascii_def is_space_def)
      with True 1 show ?thesis
        by (simp add: ClientIP_def Let_def assms(2) ip_or_def split_on_no_sep parseIP_blank)
    next
      case False
      with 1 hops assms(3) show ?thesis
        by (simp add: ClientIP_def Let_def assms(2) hd_conv_nth)
    qed
  next
    case 2
    have "trim_space (spoof @ CHR '','' # own) \<noteq> []"
      by (rule not_blank [of "CHR '',''"]) (simp_all add: ascii_def is_space_def)
    then show ?thesis using 2 hops assms(3)
      by (simp add: ClientIP_def Let_def assms(2) split_on_snoc_prefix nth_append hd_conv_nth)
  qed
qed

definition demo_request :: "string \<Rightarrow> request" where
  "demo_request value = \<lparr>rq_header = [(''X-Forwarded-For'', value)], rq_remote = ''10.0.0.1:4711''\<rparr>"

theorem client_ip_from_proxies_witness:
  "ClientIP \<lparr>tp_header = forwardedFor, tp_hops = 2\<rparr> (demo_request ''1.1.1.1, 203.0.113.9, 10.0.0.2'') = ''203.0.113.9''"
proof -
  have "NewTrustedProxy ''x-forwarded-for'' 2 = Inr \<lparr>tp_header = forwardedFor, tp_hops = 2\<rparr>"
    by code_simp
  moreover have "header_get (rq_header (demo_request ''1.1.1.1, 203.0.113.9, 10.0.0.2'')) forwardedFor
      = ''1.1.1.1'' @ CHR '','' # '' 203.0.113.9, 10.0.0.2''" by code_simp
  moreover have "int (length (split_on (CHR '','') '' 203.0.113.9, 10.0.0.2'')) = 2" by code_simp
  ultimately have "ClientIP \<lparr>tp_header = forwardedFor, tp_hops = 2\<rparr> (demo_request ''1.1.1.1, 203.0.113.9, 10.0.0.2'')
      = ip_or (socketIP (demo_request ''1.1.1.1, 203.0.113.9, 10.0.0.2'')) (hd (split_on (CHR '','') '' 203.0.113.9, 10.0.0.2''))"
    by (intro client_ip_from_proxies) simp_all
  also have "\<dots> = ''203.0.113.9''" by code_simp
  finally show ?thesis .
qed

text \<open> A forwarding header sent on two lines is read from the first one only: behind a proxy that
  adds a line of its own instead of appending to the caller's, the caller chooses the address. \<close>
theorem first_header_line_chooses:
  assumes "CHR '','' \<notin> set invented" and "parseIP invented \<noteq> []"
  shows "ClientIP \<lparr>tp_header = forwardedFor, tp_hops = 1\<rparr>
           \<lparr>rq_header = (forwardedFor, invented) # lines, rq_remote = socket\<rparr> = parseIP invented"
  using assms parseIP_blank [of invented]
  by (auto simp: ClientIP_def Let_def header_get_def split_on_no_sep ip_or_def)

theorem first_header_line_chooses_witness:
  "ClientIP \<lparr>tp_header = forwardedFor, tp_hops = 1\<rparr>
     \<lparr>rq_header = [(forwardedFor, ''1.2.3.4''), (forwardedFor, ''203.0.113.9'')], rq_remote = ''10.0.0.1:4711''\<rparr>
   = ''1.2.3.4''"
proof -
  have ip: "parseIP ''1.2.3.4'' = ''1.2.3.4''" by code_simp
  show ?thesis by (subst first_header_line_chooses) (simp_all add: ip)
qed

end
