(* ===== verification/Pool.thy ===== *)
theory Pool
  imports GoTime "HOL-Library.Multiset"
begin

text \<open>
  The pool background work runs on (\<open>pkg/worker/pool.go\<close>): a bounded channel, a fixed number of
  workers, submissions that never wait, and a drain. The goroutines are interleaved: a move is what
  one of them does between two points where another may run. \<open>Submit\<close> has two such parts, because it
  gives the mutex back before it sends; so has \<open>Shutdown\<close>.
\<close>

section \<open>State\<close>

text \<open>A worker waits at the channel, runs a task, or has returned.\<close>

datatype 'a worker = Idle | Busy 'a | Gone

text \<open>\<open>sync.Once\<close> around the closing.\<close>

datatype once = NotYet | Doing | Over

record config =
  Workers :: int
  QueueSize :: int
  TaskTimeout :: int

text \<open>
  Besides the fields of the pool the state has what its goroutines are at: the submissions that have
  seen the pool open and have not sent yet. The last fields record what happened: the tasks submitted,
  those Submit answered true or false for, those it panicked on, those a worker took and those that
  returned, and what \<open>onPanic\<close> was called with.
\<close>

record 'a pool =
  queue :: "'a list"
  capacity :: int
  taskTimeout :: int
  closed :: bool
  chan_closed :: bool
  closeOnce :: once
  workers :: "'a worker list"
  sending :: "'a list"
  submitted :: "'a list"
  accepted :: "'a list"
  refused :: "'a list"
  send_panics :: "'a list"
  started :: "'a list"
  finished :: "'a list"
  recovered :: "string list"

definition at_least :: "int \<Rightarrow> int \<Rightarrow> int" where
  "at_least n v = (if v < n then n else v)"

definition new_pool :: "config \<Rightarrow> 'a pool" where
  "new_pool cfg =
     (let w = at_least 1 (Workers cfg); q = at_least w (QueueSize cfg);
          t = (if TaskTimeout cfg \<le> 0 then 15 * 60 * second else TaskTimeout cfg)
      in \<lparr>queue = [], capacity = q, taskTimeout = t, closed = False, chan_closed = False,
          closeOnce = NotYet, workers = replicate (nat w) Idle, sending = [], submitted = [], accepted = [],
          refused = [], send_panics = [], started = [], finished = [], recovered = []\<rparr>)"

definition Queued :: "'a pool \<Rightarrow> int" where
  "Queued p = int (length (queue p))"

definition Capacity :: "'a pool \<Rightarrow> int" where
  "Capacity p = capacity p"

section \<open>Moves\<close>

text \<open>\<open>Submit\<close> up to the unlocking.\<close>

definition submit_check :: "'a \<Rightarrow> 'a pool \<Rightarrow> 'a pool" where
  "submit_check t p =
     (let p = p\<lparr>submitted := submitted p @ [t]\<rparr> in
      if closed p then p\<lparr>refused := refused p @ [t]\<rparr>
      else p\<lparr>sending := sending p @ [t]\<rparr>)"

definition remove_at :: "nat \<Rightarrow> 'a list \<Rightarrow> 'a list" where
  "remove_at i xs = take i xs @ drop (Suc i) xs"

text \<open>
  The \<open>select\<close> of \<open>Submit\<close>: a send on a closed channel panics, with a default branch too; a full channel takes
  the default.
\<close>

definition submit_send :: "nat \<Rightarrow> 'a pool \<Rightarrow> 'a pool option" where
  "submit_send i p =
     (if i < length (sending p) then
        (let t = sending p ! i; p' = p\<lparr>sending := remove_at i (sending p)\<rparr> in
         if chan_closed p then Some (p'\<lparr>send_panics := send_panics p @ [t]\<rparr>)
         else if Queued p < capacity p
         then Some (p'\<lparr>queue := queue p @ [t], accepted := accepted p @ [t]\<rparr>)
         else Some (p'\<lparr>refused := refused p @ [t]\<rparr>))
      else None)"

text \<open>The loop of a worker: it receives, or leaves when the channel is closed and empty.\<close>

definition work_take :: "nat \<Rightarrow> 'a pool \<Rightarrow> 'a pool option" where
  "work_take i p =
     (if i < length (workers p) then
        (case (workers p ! i, queue p) of
           (Idle, t # rest) \<Rightarrow>
             Some (p\<lparr>queue := rest, workers := (workers p)[i := Busy t], started := started p @ [t]\<rparr>)
         | _ \<Rightarrow> None)
      else None)"

definition work_leave :: "nat \<Rightarrow> 'a pool \<Rightarrow> 'a pool option" where
  "work_leave i p =
     (if i < length (workers p) then
        (case (workers p ! i, queue p) of
           (Idle, []) \<Rightarrow> if chan_closed p then Some (p\<lparr>workers := (workers p)[i := Gone]\<rparr>) else None
         | _ \<Rightarrow> None)
      else None)"

text \<open>A task returns, or panics with a value that \<open>runOne\<close> recovers.\<close>

definition run_one_end :: "nat \<Rightarrow> string option \<Rightarrow> 'a pool \<Rightarrow> 'a pool option" where
  "run_one_end i value p =
     (if i < length (workers p) then
        (case workers p ! i of
           Busy t \<Rightarrow> Some (p\<lparr>workers := (workers p)[i := Idle], finished := finished p @ [t],
                            recovered := recovered p @ (case value of None \<Rightarrow> [] | Some v \<Rightarrow> [v])\<rparr>)
         | _ \<Rightarrow> None)
      else None)"

text \<open>The two parts of the closing.\<close>

definition shutdown_flag :: "'a pool \<Rightarrow> 'a pool option" where
  "shutdown_flag p = (if closeOnce p = NotYet then Some (p\<lparr>closed := True, closeOnce := Doing\<rparr>) else None)"

definition shutdown_close :: "'a pool \<Rightarrow> 'a pool option" where
  "shutdown_close p = (if closeOnce p = Doing then Some (p\<lparr>chan_closed := True, closeOnce := Over\<rparr>) else None)"

definition drained :: "'a pool \<Rightarrow> bool" where
  "drained p \<longleftrightarrow> list_all (\<lambda>w. case w of Gone \<Rightarrow> True | _ \<Rightarrow> False) (workers p)"

text \<open>What \<open>Shutdown\<close> may answer once it has closed the pool; when both are ready either is chosen.\<close>

definition shutdown_answers :: "bool \<Rightarrow> 'a pool \<Rightarrow> bool \<Rightarrow> bool" where
  "shutdown_answers ctx_done p b \<longleftrightarrow> closeOnce p = Over \<and> (if b then drained p else ctx_done)"

datatype 'a move =
    Check 'a
  | Send nat
  | Take nat
  | Leave nat
  | End nat "string option"
  | CloseFlag
  | CloseChan

fun perform_move :: "'a move \<Rightarrow> 'a pool \<Rightarrow> 'a pool option" where
  "perform_move (Check t) p = Some (submit_check t p)"
| "perform_move (Send i) p = submit_send i p"
| "perform_move (Take i) p = work_take i p"
| "perform_move (Leave i) p = work_leave i p"
| "perform_move (End i v) p = run_one_end i v p"
| "perform_move CloseFlag p = shutdown_flag p"
| "perform_move CloseChan p = shutdown_close p"

fun run_moves :: "'a move list \<Rightarrow> 'a pool \<Rightarrow> 'a pool option" where
  "run_moves [] p = Some p"
| "run_moves (m # ms) p = (case perform_move m p of None \<Rightarrow> None | Some p' \<Rightarrow> run_moves ms p')"

end
