(* ===== verification/PoolProps.thy ===== *)
theory PoolProps
  imports Pool
begin

text \<open>
  What the pool promises over any interleaving of its goroutines: no task it accepted is lost, run twice
  or overtaken; a closed pool drains; and when a submission may panic.
\<close>

section \<open>The invariant\<close>

fun running :: "'a worker list \<Rightarrow> 'a list" where
  "running [] = []"
| "running (Busy t # ws) = t # running ws"
| "running (Idle # ws) = running ws"
| "running (Gone # ws) = running ws"

lemma running_take: "i < length ws \<Longrightarrow> ws ! i = Idle \<Longrightarrow> mset (running (ws[i := Busy t])) = add_mset t (mset (running ws))"
proof (induction ws arbitrary: i)
  case (Cons w ws)
  then show ?case by (cases w; cases i) auto
qed simp

lemma running_end: "i < length ws \<Longrightarrow> ws ! i = Busy t \<Longrightarrow> mset (running ws) = add_mset t (mset (running (ws[i := Idle])))"
proof (induction ws arbitrary: i)
  case (Cons w ws)
  then show ?case by (cases w; cases i) auto
qed simp

lemma running_leave: "i < length ws \<Longrightarrow> ws ! i = Idle \<Longrightarrow> running (ws[i := Gone]) = running ws"
proof (induction ws arbitrary: i)
  case (Cons w ws)
  then show ?case by (cases w; cases i) auto
qed simp

lemma length_running: "length (running ws) \<le> length ws"
  by (induction ws rule: running.induct) auto

lemma running_drained: "drained p \<Longrightarrow> running (workers p) = []"
proof -
  have "list_all (\<lambda>w. case w of Gone \<Rightarrow> True | _ \<Rightarrow> False) ws \<Longrightarrow> running ws = []" for ws :: "'a worker list"
    by (induction ws rule: running.induct) auto
  then show "drained p \<Longrightarrow> running (workers p) = []" by (simp add: drained_def)
qed

lemma mset_remove_at: "i < length xs \<Longrightarrow> mset xs = add_mset (xs ! i) (mset (remove_at i xs))"
  by (metis id_take_nth_drop mset.simps(2) mset_append remove_at_def union_mset_add_mset_right)

definition pool_ok :: "'a pool \<Rightarrow> bool" where
  "pool_ok p \<longleftrightarrow>
     accepted p = started p @ queue p
     \<and> mset (started p) = mset (finished p) + mset (running (workers p))
     \<and> mset (submitted p) = mset (accepted p) + mset (refused p) + mset (sending p) + mset (send_panics p)
     \<and> Queued p \<le> capacity p
     \<and> (chan_closed p \<longrightarrow> closed p) \<and> (closeOnce p = NotYet \<longleftrightarrow> \<not> closed p) \<and> (chan_closed p \<longleftrightarrow> closeOnce p = Over)
     \<and> (send_panics p \<noteq> [] \<longrightarrow> chan_closed p)
     \<and> (Gone \<in> set (workers p) \<longrightarrow> chan_closed p \<and> queue p = [])"

lemma pool_ok_new: "pool_ok (new_pool cfg)"
proof -
  have "running (replicate n (Idle :: 'a worker)) = []" for n by (induction n) auto
  then show ?thesis by (simp add: pool_ok_def new_pool_def Let_def Queued_def at_least_def)
qed

lemma pool_ok_move:
  assumes "perform_move m p = Some p'" and "pool_ok p"
  shows "pool_ok p'"
proof (cases m)
  case (Check t)
  then show ?thesis using assms by (auto simp: pool_ok_def submit_check_def Let_def Queued_def)
next
  case (Send i)
  then show ?thesis using assms mset_remove_at [of i "sending p"]
    by (auto simp: pool_ok_def submit_send_def Let_def Queued_def split: if_splits)
next
  case (Take i)
  then show ?thesis using assms running_take [of i "workers p"]
    by (auto simp: pool_ok_def work_take_def Queued_def dest!: set_update_subset_insert [THEN subsetD]
        split: if_splits worker.splits list.splits)
next
  case (Leave i)
  then show ?thesis using assms running_leave [of i "workers p"]
    by (auto simp: pool_ok_def work_leave_def Queued_def dest!: set_update_subset_insert [THEN subsetD]
        split: if_splits worker.splits list.splits)
next
  case (End i v)
  then show ?thesis using assms running_end [of i "workers p"]
    by (auto simp: pool_ok_def run_one_end_def Queued_def dest!: set_update_subset_insert [THEN subsetD]
        split: if_splits worker.splits)
next
  case CloseFlag
  then show ?thesis using assms by (auto simp: pool_ok_def shutdown_flag_def Queued_def split: if_splits)
next
  case CloseChan
  then show ?thesis using assms by (auto simp: pool_ok_def shutdown_close_def Queued_def split: if_splits)
qed

lemma pool_ok_moves: "run_moves ms p = Some p' \<Longrightarrow> pool_ok p \<Longrightarrow> pool_ok p'"
  by (induction ms p rule: run_moves.induct) (auto split: option.splits intro: pool_ok_move)

text \<open>What no move changes.\<close>

lemma move_config:
  "perform_move m p = Some p' \<Longrightarrow> capacity p' = capacity p \<and> length (workers p') = length (workers p)"
  by (cases m) (auto simp: submit_check_def submit_send_def work_take_def work_leave_def run_one_end_def
      shutdown_flag_def shutdown_close_def Let_def split: if_splits worker.splits list.splits)

lemma moves_config:
  "run_moves ms p = Some p' \<Longrightarrow> capacity p' = capacity p \<and> length (workers p') = length (workers p)"
  by (induction ms p rule: run_moves.induct) (auto split: option.splits dest: move_config)

text \<open> C9. Over any interleaving of submissions, workers and a closing: the tasks accepted are exactly
  those a worker took, in the order of their acceptance, and those still queued; every task taken has
  returned or is being run, once; a submission was answered true, false, or panicked, or has not sent
  yet; the backlog and the tasks being run stay within the configured bounds, which are at least one;
  and no submission panics while the channel is open. \<close>
theorem pool_loses_no_task:
  assumes "run_moves ms (new_pool cfg) = Some p"
  shows "accepted p = started p @ queue p
    \<and> mset (started p) = mset (finished p) + mset (running (workers p))
    \<and> mset (submitted p) = mset (accepted p) + mset (refused p) + mset (sending p) + mset (send_panics p)
    \<and> Queued p \<le> max (QueueSize cfg) (max 1 (Workers cfg))
    \<and> int (length (running (workers p))) \<le> max 1 (Workers cfg)
    \<and> (send_panics p \<noteq> [] \<longrightarrow> chan_closed p)"
proof -
  have okp: "pool_ok p" by (rule pool_ok_moves [OF assms pool_ok_new])
  have "capacity p = max (QueueSize cfg) (max 1 (Workers cfg))" "int (length (workers p)) = max 1 (Workers cfg)"
    using moves_config [OF assms] by (auto simp: new_pool_def Let_def at_least_def)
  then show ?thesis using okp length_running [of "workers p"] by (auto simp: pool_ok_def)
qed

definition demo_config :: config where
  "demo_config = \<lparr>Workers = 1, QueueSize = 2, TaskTimeout = 0\<rparr>"

definition demo_moves :: "nat move list" where
  "demo_moves = [Check 1, Check 2, Send 1, Take 0, Send 0, Check 3, Send 0, Check 4, Send 0,
     End 0 (Some ''boom''), Take 0, CloseFlag, Check 5, CloseChan]"

definition demo_pool :: "nat pool" where
  "demo_pool = the (run_moves demo_moves (new_pool demo_config))"

lemma demo_pool_run: "run_moves demo_moves (new_pool demo_config) = Some demo_pool"
  by code_simp

theorem pool_loses_no_task_witness:
  "accepted demo_pool = [2, 1, 3] \<and> started demo_pool = [2, 1] \<and> refused demo_pool = [4, 5]
   \<and> mset (started demo_pool) = mset (finished demo_pool) + mset (running (workers demo_pool))"
proof -
  have "accepted demo_pool = [2, 1, 3]" "started demo_pool = [2, 1]" "refused demo_pool = [4, 5]"
    by code_simp+
  with pool_loses_no_task [OF demo_pool_run] show ?thesis by simp
qed

section \<open>Draining\<close>

fun worker_move :: "'a move \<Rightarrow> bool" where
  "worker_move (Take i) = True"
| "worker_move (Leave i) = True"
| "worker_move (End i v) = True"
| "worker_move _ = False"

fun worker_work :: "'a worker \<Rightarrow> nat" where
  "worker_work Idle = 1"
| "worker_work (Busy t) = 2"
| "worker_work Gone = 0"

text \<open>How many moves the workers of a closed pool have left.\<close>

definition work_left :: "'a pool \<Rightarrow> nat" where
  "work_left p = 2 * length (queue p) + sum_list (map worker_work (workers p))"

lemma work_update:
  "i < length ws \<Longrightarrow> sum_list (map worker_work (ws[i := w])) + worker_work (ws ! i)
     = sum_list (map worker_work ws) + worker_work w"
proof (induction ws arbitrary: i)
  case (Cons a ws)
  then show ?case by (cases i) auto
qed simp

lemma closed_move:
  assumes "perform_move m p = Some p'" and "chan_closed p"
  shows "chan_closed p' \<and> work_left p' + (if worker_move m then 1 else 0) = work_left p"
proof (cases m)
  case (Take i)
  then show ?thesis using assms work_update [of i "workers p" "Busy (hd (queue p))"]
    by (auto simp: work_left_def work_take_def split: if_splits worker.splits list.splits)
next
  case (Leave i)
  then show ?thesis using assms work_update [of i "workers p" Gone]
    by (auto simp: work_left_def work_leave_def split: if_splits worker.splits list.splits)
next
  case (End i v)
  then show ?thesis using assms work_update [of i "workers p" Idle]
    by (auto simp: work_left_def run_one_end_def split: if_splits worker.splits)
qed (use assms in \<open>auto simp: work_left_def submit_check_def submit_send_def shutdown_flag_def shutdown_close_def
      Let_def split: if_splits\<close>)

lemma closed_moves:
  assumes "run_moves ms p = Some p'" and "chan_closed p"
  shows "chan_closed p' \<and> work_left p' + length (filter worker_move ms) = work_left p"
  using assms
proof (induction ms arbitrary: p)
  case (Cons m ms)
  then obtain q where q: "perform_move m p = Some q" "run_moves ms q = Some p'"
    by (auto split: option.splits)
  with closed_move [OF q(1) Cons.prems(2)] Cons.IH [OF q(2)] show ?case by auto
qed simp

text \<open>Some worker can move until all have returned.\<close>

lemma closed_progress:
  assumes "chan_closed p" and "\<not> drained p"
  shows "\<exists>m p'. worker_move m \<and> perform_move m p = Some p'"
proof -
  obtain w where w: "w \<in> set (workers p)" "w \<noteq> Gone"
    using assms(2) by (auto simp: drained_def list_all_iff split: worker.splits)
  then obtain i where i: "i < length (workers p)" "workers p ! i = w" by (auto simp: in_set_conv_nth)
  show ?thesis
  proof (cases w)
    case (Busy t)
    with i have "perform_move (End i None) p \<noteq> None" by (simp add: run_one_end_def)
    then show ?thesis by (metis not_None_eq worker_move.simps(3))
  next
    case Idle
    show ?thesis
    proof (cases "queue p")
      case Nil
      with i Idle assms(1) have "perform_move (Leave i) p \<noteq> None" by (simp add: work_leave_def)
      then show ?thesis by (metis not_None_eq worker_move.simps(2))
    next
      case (Cons t q)
      with i Idle have "perform_move (Take i) p \<noteq> None" by (simp add: work_take_def)
      then show ?thesis by (metis not_None_eq worker_move.simps(1))
    qed
  qed (use w in simp)
qed

lemma closed_can_drain:
  assumes "chan_closed p"
  shows "\<exists>ms p'. run_moves ms p = Some p' \<and> drained p' \<and> (\<forall>m\<in>set ms. worker_move m)"
  using assms
proof (induction "work_left p" arbitrary: p rule: less_induct)
  case less
  show ?case
  proof (cases "drained p")
    case True
    then show ?thesis by (intro exI [of _ "[]"] exI [of _ p]) simp
  next
    case False
    then obtain m q where m: "worker_move m" "perform_move m p = Some q"
      using closed_progress less.prems by blast
    with closed_move [OF m(2) less.prems] have "work_left q < work_left p" "chan_closed q" by auto
    from less.hyps [OF this] obtain ms p' where
      "run_moves ms q = Some p'" "drained p'" "\<forall>m\<in>set ms. worker_move m" by blast
    with m show ?thesis by (intro exI [of _ "m # ms"] exI [of _ p']) auto
  qed
qed

text \<open> C10. A closed pool drains: whatever else is going on, its workers make at most two moves per queued
  task and two per worker, one of them can move as long as one has not returned, so in the end all have;
  and then every task that was ever accepted has been run to its end, none is left behind, and Shutdown
  may report a completed drain. \<close>
theorem closed_pool_drains:
  assumes "run_moves ms (new_pool cfg) = Some p" and "chan_closed p" and "run_moves later p = Some q"
  shows "length (filter worker_move later) \<le> 2 * length (queue p) + 2 * length (workers p)
    \<and> (drained q \<or> (\<exists>m q'. worker_move m \<and> perform_move m q = Some q'))
    \<and> (\<exists>ms' r. run_moves ms' q = Some r \<and> drained r)
    \<and> (drained q \<longrightarrow> queue q = [] \<and> mset (finished q) = mset (accepted q) \<and> shutdown_answers False q True)"
proof (intro conjI impI)
  have "sum_list (map worker_work ws) \<le> 2 * length ws" for ws :: "'a worker list"
  proof (induction ws)
    case (Cons w ws)
    then show ?case by (cases w) auto
  qed simp
  from this [of "workers p"] show "length (filter worker_move later) \<le> 2 * length (queue p) + 2 * length (workers p)"
    using closed_moves [OF assms(3,2)] by (simp add: work_left_def)
  have closed: "chan_closed q" using closed_moves [OF assms(3,2)] by simp
  show "drained q \<or> (\<exists>m q'. worker_move m \<and> perform_move m q = Some q')" using closed_progress [OF closed] by blast
  show "\<exists>ms' r. run_moves ms' q = Some r \<and> drained r" using closed_can_drain [OF closed] by blast
  have okq: "pool_ok q" using assms(1,3) by (intro pool_ok_moves [OF assms(3)] pool_ok_moves [OF assms(1)] pool_ok_new)
  assume d: "drained q"
  have "length (workers p) = length (workers (new_pool cfg :: 'a pool))" "length (workers q) = length (workers p)"
    using moves_config assms(1,3) by blast+
  then have "workers q \<noteq> []" by (auto simp: new_pool_def Let_def at_least_def split: if_splits)
  with d have "Gone \<in> set (workers q)" by (cases "workers q") (auto simp: drained_def split: worker.splits)
  with okq show empty: "queue q = []" by (simp add: pool_ok_def)
  with okq running_drained [OF d] show "mset (finished q) = mset (accepted q)" by (simp add: pool_ok_def)
  from okq closed d show "shutdown_answers False q True" by (simp add: pool_ok_def shutdown_answers_def)
qed

definition demo_rest :: "nat move list" where
  "demo_rest = [End 0 None, Take 0, Check 6, End 0 None, Leave 0]"

theorem closed_pool_drains_witness:
  "\<exists>q. run_moves demo_rest demo_pool = Some q \<and> finished q = [2, 1, 3] \<and> shutdown_answers False q True"
proof -
  have "chan_closed demo_pool" by code_simp
  moreover obtain q where q: "run_moves demo_rest demo_pool = Some q" "q = the (run_moves demo_rest demo_pool)"
  proof -
    have "run_moves demo_rest demo_pool \<noteq> None" by code_simp
    then show thesis using that by auto
  qed
  moreover have "drained (the (run_moves demo_rest demo_pool))" "finished (the (run_moves demo_rest demo_pool)) = [2, 1, 3]"
    by code_simp+
  ultimately show ?thesis using closed_pool_drains [OF demo_pool_run, of demo_rest q] by auto
qed

section \<open>Submitting while the pool closes\<close>

lemma quiet_move:
  assumes "perform_move m p = Some p'" and "closed p" and "sending p = []"
  shows "closed p' \<and> sending p' = [] \<and> send_panics p' = send_panics p"
  using assms by (cases m) (auto simp: submit_check_def submit_send_def work_take_def work_leave_def run_one_end_def
      shutdown_flag_def shutdown_close_def Let_def split: if_splits worker.splits list.splits)

lemma quiet_moves:
  "run_moves ms p = Some p' \<Longrightarrow> closed p \<Longrightarrow> sending p = [] \<Longrightarrow> send_panics p' = send_panics p"
  by (induction ms p rule: run_moves.induct) (auto split: option.splits dest: quiet_move)

text \<open> A submission that has seen the pool open and sends after \<open>Shutdown\<close> has closed the channel panics:
  the mutex is given back in between. Where no submission is between the two when the pool is marked
  closed, none ever panics. \<close>
theorem submit_races_with_shutdown:
  "(\<exists>p. run_moves [Check t, CloseFlag, CloseChan, Send 0] (new_pool cfg) = Some p \<and> send_panics p = [t])
   \<and> (run_moves ms (new_pool cfg) = Some p \<and> closed p \<and> sending p = [] \<and> send_panics p = []
        \<and> run_moves later p = Some q \<longrightarrow> send_panics q = [])"
proof
  show "\<exists>p. run_moves [Check t, CloseFlag, CloseChan, Send 0] (new_pool cfg) = Some p \<and> send_panics p = [t]"
    by (simp add: new_pool_def Let_def submit_check_def submit_send_def shutdown_flag_def shutdown_close_def)
qed (use quiet_moves in force)

theorem submit_races_with_shutdown_witness:
  "\<exists>q. run_moves demo_rest demo_pool = Some q \<and> send_panics q = []"
proof -
  have "closed demo_pool \<and> sending demo_pool = [] \<and> send_panics demo_pool = []" by code_simp
  moreover have "run_moves demo_rest demo_pool \<noteq> None" by code_simp
  then obtain q where "run_moves demo_rest demo_pool = Some q" by blast
  ultimately show ?thesis
    using submit_races_with_shutdown [of 0 demo_config demo_moves demo_pool demo_rest q] demo_pool_run by blast
qed

end
