(* ===== verification/Roles.thy ===== *)
theory Roles
  imports ServiceErrors Scope Store
begin

text \<open>
  Roles (\<open>internal/authz/roles.go\<close>, \<open>catalog.go\<close>): the permissions, the three built-in roles and their
  rank, the store of the role mapping as an interface, and the reconciliation at boot.
\<close>

section \<open>The catalogue\<close>

definition ProjectsRead :: string where "ProjectsRead = ''projects.read''"
definition ProjectsCreate :: string where "ProjectsCreate = ''projects.create''"
definition ProjectsUpdate :: string where "ProjectsUpdate = ''projects.update''"
definition ProjectsDelete :: string where "ProjectsDelete = ''projects.delete''"
definition ProjectsRotateKey :: string where "ProjectsRotateKey = ''projects.rotate_key''"
definition JobsRead :: string where "JobsRead = ''jobs.read''"
definition JobsCreate :: string where "JobsCreate = ''jobs.create''"
definition JobsUpdate :: string where "JobsUpdate = ''jobs.update''"
definition JobsDelete :: string where "JobsDelete = ''jobs.delete''"
definition JobsActivate :: string where "JobsActivate = ''jobs.activate''"
definition JobsRun :: string where "JobsRun = ''jobs.run''"
definition RunsRead :: string where "RunsRead = ''runs.read''"
definition MembersRead :: string where "MembersRead = ''members.read''"
definition MembersManage :: string where "MembersManage = ''members.manage''"
definition NotificationsRead :: string where "NotificationsRead = ''notifications.read''"
definition NotificationsManage :: string where "NotificationsManage = ''notifications.manage''"
definition UsersRead :: string where "UsersRead = ''users.read''"
definition UsersManage :: string where "UsersManage = ''users.manage''"
definition SettingsRead :: string where "SettingsRead = ''settings.read''"

text \<open>The keys of the catalogue, in its order.\<close>

definition Catalog :: "string list" where
  "Catalog = [ProjectsRead, ProjectsCreate, ProjectsUpdate, ProjectsDelete, ProjectsRotateKey,
     JobsRead, JobsCreate, JobsUpdate, JobsDelete, JobsActivate, JobsRun, RunsRead,
     MembersRead, MembersManage, NotificationsRead, NotificationsManage, UsersRead, UsersManage, SettingsRead]"

definition Global :: "string list" where
  "Global = [UsersRead, UsersManage, SettingsRead, ProjectsCreate]"

lemmas permission_defs = ProjectsRead_def ProjectsCreate_def ProjectsUpdate_def ProjectsDelete_def
  ProjectsRotateKey_def JobsRead_def JobsCreate_def JobsUpdate_def JobsDelete_def JobsActivate_def JobsRun_def
  RunsRead_def MembersRead_def MembersManage_def NotificationsRead_def NotificationsManage_def UsersRead_def
  UsersManage_def SettingsRead_def

section \<open>Built-in roles\<close>

definition RoleProjectReader :: string where "RoleProjectReader = ''project_reader''"
definition RoleProjectWriter :: string where "RoleProjectWriter = ''project_writer''"
definition RoleProjectAdmin :: string where "RoleProjectAdmin = ''project_admin''"

record Role =
  ro_Key :: string
  ro_Name :: string
  ro_Description :: string
  ro_Permissions :: "string list"

definition BuiltinRoles :: "Role list" where
  "BuiltinRoles =
     [\<lparr>ro_Key = RoleProjectReader, ro_Name = ''Reader'',
       ro_Description = ''Sees the project's jobs and their history. Changes nothing.'',
       ro_Permissions = [ProjectsRead, JobsRead, RunsRead]\<rparr>,
      \<lparr>ro_Key = RoleProjectWriter, ro_Name = ''Writer'',
       ro_Description = ''Everything a reader sees, plus adding, editing and running jobs. Cannot switch a job on.'',
       ro_Permissions = [ProjectsRead, JobsRead, JobsCreate, JobsUpdate, JobsDelete, JobsRun, RunsRead, NotificationsRead]\<rparr>,
      \<lparr>ro_Key = RoleProjectAdmin, ro_Name = ''Project administrator'',
       ro_Description = ''Everything in the project, including switching jobs on, rotating the API key and granting access to others.'',
       ro_Permissions = [ProjectsRead, ProjectsUpdate, ProjectsDelete, ProjectsRotateKey,
         JobsRead, JobsCreate, JobsUpdate, JobsDelete, JobsRun, JobsActivate, RunsRead,
         MembersRead, MembersManage, NotificationsRead, NotificationsManage]\<rparr>]"

text \<open>A key that is not in the map reads as zero.\<close>

definition RoleRank :: "string \<Rightarrow> int" where
  "RoleRank key =
     (if key = RoleProjectReader then 1 else if key = RoleProjectWriter then 2
      else if key = RoleProjectAdmin then 3 else 0)"

definition IsBuiltin :: "string \<Rightarrow> bool" where
  "IsBuiltin key \<longleftrightarrow> key = RoleProjectReader \<or> key = RoleProjectWriter \<or> key = RoleProjectAdmin"

section \<open>The store\<close>

record StoredRole =
  st_ID :: int
  st_Key :: string
  st_Name :: string
  st_Description :: string
  st_Active :: bool
  st_Builtin :: bool
  st_Permissions :: "string list"

record Member =
  me_UserID :: int
  me_Fullname :: string
  me_Email :: string
  me_Active :: bool
  me_IsAdmin :: bool
  me_RoleID :: int
  me_RoleKey :: string
  me_RoleName :: string

record Assignment =
  as_RoleID :: int
  as_RoleKey :: string
  as_RoleName :: string
  as_ProjectIDs :: "int list"
  as_Unscoped :: bool

record 'w AuthzStore =
  ax_EnsureRole :: "Role \<Rightarrow> ('w, int) call"
  ax_ReplaceRolePermissions :: "int \<Rightarrow> string list \<Rightarrow> ('w, unit) call"
  ax_RoleIDByKey :: "string \<Rightarrow> ('w, int) call"
  ax_ListRoles :: "('w, StoredRole list) call"
  ax_ListProjectMembers :: "int \<Rightarrow> ('w, Member list) call"
  ax_ListUserRoles :: "int \<Rightarrow> ('w, Assignment list) call"
  ax_GrantProject :: "int \<Rightarrow> int \<Rightarrow> int \<Rightarrow> ('w, unit) call"
  ax_RevokeProject :: "int \<Rightarrow> int \<Rightarrow> int \<Rightarrow> ('w, unit) call"
  ax_RevokeUser :: "int \<Rightarrow> ('w, unit) call"
  ax_SetRoleFields :: "int \<Rightarrow> string \<Rightarrow> string list option \<Rightarrow> ('w, unit) call"
  ax_RoleFields :: "int \<Rightarrow> string \<Rightarrow> ('w, string list \<times> bool) call"

text \<open>One role of \<open>Reconcile\<close>; the error is wrapped in the name of the role.\<close>

definition wrap_error :: "string \<Rightarrow> go_error + 'a \<Rightarrow> go_error + 'a" where
  "wrap_error prefix r = (case r of Inl e \<Rightarrow> Inl (ErrText (prefix @ err_text e)) | Inr x \<Rightarrow> Inr x)"

definition wrapped :: "string \<Rightarrow> ('w, 'a) call \<Rightarrow> ('w, 'a) call" where
  "wrapped prefix m = do { r \<leftarrow> m; State_Monad.return (wrap_error prefix r) }"

definition reconcile_role :: "'w AuthzStore \<Rightarrow> Role \<Rightarrow> ('w, unit) call" where
  "reconcile_role store role =
     attempt (wrapped (''authz: role '' @ go_quote (ro_Key role) @ '': '') (ax_EnsureRole store role)) (\<lambda>i.
       wrapped (''authz: role '' @ go_quote (ro_Key role) @ '' permissions: '')
         (ax_ReplaceRolePermissions store i (ro_Permissions role)))"

fun reconcile_roles :: "'w AuthzStore \<Rightarrow> Role list \<Rightarrow> ('w, unit) call" where
  "reconcile_roles store [] = ok ()"
| "reconcile_roles store (role # roles) = attempt (reconcile_role store role) (\<lambda>_. reconcile_roles store roles)"

definition Reconcile :: "'w AuthzStore \<Rightarrow> ('w, unit) call" where
  "Reconcile store = reconcile_roles store BuiltinRoles"

section \<open>Writing a scope\<close>

text \<open>\<open>json.Marshal\<close> of the one-key map; an empty list is a nil slice and is written as null.\<close>

definition EncodeScope :: "int list \<Rightarrow> string" where
  "EncodeScope ids = [CHR ''{''] @ quoted ScopeKey @ '':'' @
     (if ids = [] then ''null'' else ''['' @ join '','' (map show_int (sort ids)) @ '']'') @ [CHR ''}'']"

section \<open>Ranks\<close>

lemma role_keys_distinct [simp]:
  "RoleProjectReader \<noteq> RoleProjectWriter" "RoleProjectWriter \<noteq> RoleProjectReader"
  "RoleProjectReader \<noteq> RoleProjectAdmin" "RoleProjectAdmin \<noteq> RoleProjectReader"
  "RoleProjectWriter \<noteq> RoleProjectAdmin" "RoleProjectAdmin \<noteq> RoleProjectWriter"
  by (simp_all add: RoleProjectReader_def RoleProjectWriter_def RoleProjectAdmin_def)

lemma RoleRank_bounds: "0 \<le> RoleRank k" "RoleRank k \<le> 3"
  by (simp_all add: RoleRank_def)

lemma RoleRank_pos: "0 < RoleRank k \<longleftrightarrow> IsBuiltin k"
  by (simp add: RoleRank_def IsBuiltin_def)

lemma ranks_grow:
  "RoleRank RoleProjectReader < RoleRank RoleProjectWriter" "RoleRank RoleProjectWriter < RoleRank RoleProjectAdmin"
  by (simp_all add: RoleRank_def)

end
