(* ===== verification/AuthzRepo.thy ===== *)
theory AuthzRepo
  imports Roles Store
begin

text \<open>
  The statements of \<open>internal/repository/authz_repo.go\<close> over the tables of the grant library: roles, their
  permissions, and who holds which role over which projects. The scope column holds no value, or an
  object; role identifiers and the names of an allow-list are the program's own.
\<close>

section \<open>Scopes as stored\<close>

definition scope_elements :: "(string \<times> json) list \<Rightarrow> json list" where
  "scope_elements sc = (case map_of sc ScopeKey of
      None \<Rightarrow> [] | Some (JArr xs) \<Rightarrow> xs | Some v \<Rightarrow> [v])"

definition single_element :: "(string \<times> json) list \<Rightarrow> json list" where
  "single_element sc = (case map_of sc ScopeKeySingle of None \<Rightarrow> [] | Some v \<Rightarrow> [v])"

text \<open>The order of \<open>jsonb\<close> values, up to ties among texts, lists and objects.\<close>

definition json_key :: "json \<Rightarrow> int \<times> int" where
  "json_key v = (case v of
      JNull \<Rightarrow> (0, 0) | JStr _ \<Rightarrow> (1, 0) | JNum n \<Rightarrow> (2, n) | JBool b \<Rightarrow> (3, if b then 1 else 0)
    | JArr _ \<Rightarrow> (4, 0) | JObj _ \<Rightarrow> (5, 0))"

text \<open>\<open>jsonb_agg(DISTINCT value)\<close>.\<close>

definition distinct_values :: "json list \<Rightarrow> json list" where
  "distinct_values xs = sort_key json_key (remdups xs)"

definition scope_with :: "int \<Rightarrow> (string \<times> json) list option \<Rightarrow> (string \<times> json) list option" where
  "scope_with p sc = (case sc of
      None \<Rightarrow> None
    | Some [] \<Rightarrow> Some []
    | Some s \<Rightarrow> Some [(ScopeKey, JArr (distinct_values (scope_elements s @ single_element s @ [JNum p])))])"

text \<open>\<open>scope->'project_ids' @> n\<close>: a list that has the number, or the number itself.\<close>

definition json_contains :: "json \<Rightarrow> int \<Rightarrow> bool" where
  "json_contains v n = (case v of JArr xs \<Rightarrow> JNum n \<in> set xs | JNum m \<Rightarrow> m = n | _ \<Rightarrow> False)"

text \<open>\<open>scope->>'project_id' = n::text\<close>.\<close>

definition json_text_is :: "json \<Rightarrow> int \<Rightarrow> bool" where
  "json_text_is v n = (case v of JNum m \<Rightarrow> m = n | JStr s \<Rightarrow> s = show_int n | _ \<Rightarrow> False)"

definition covers :: "(string \<times> json) list option \<Rightarrow> int \<Rightarrow> bool" where
  "covers sc p = (case sc of
      None \<Rightarrow> True
    | Some s \<Rightarrow> s = []
        \<or> (case map_of s ScopeKey of None \<Rightarrow> False | Some v \<Rightarrow> json_contains v p)
        \<or> (case map_of s ScopeKeySingle of None \<Rightarrow> False | Some v \<Rightarrow> json_text_is v p))"

section \<open>Reading a scope\<close>

text \<open>\<open>json.Unmarshal\<close> reads a number as the nearest float64, halves to even; one out of range is an error.\<close>

function f64_shift :: "nat \<Rightarrow> nat" where
  "f64_shift a = (if a < 9007199254740992 then 0 else Suc (f64_shift (a div 2)))"
  by pat_completeness auto
termination by (relation "measure id") auto

declare f64_shift.simps [simp del]

definition f64_nat :: "nat \<Rightarrow> nat" where
  "f64_nat a =
     (let k = f64_shift a; q = a div 2 ^ k; r = 2 * (a mod 2 ^ k)
      in (if k > 0 \<and> (r > 2 ^ k \<or> (r = 2 ^ k \<and> odd q)) then q + 1 else q) * 2 ^ k)"

definition f64_of :: "int \<Rightarrow> int" where
  "f64_of n = (if n < 0 then - int (f64_nat (nat (- n))) else int (f64_nat (nat n)))"

fun json_readable :: "json \<Rightarrow> bool" where
  "json_readable (JNum n) = (\<bar>f64_of n\<bar> < 2 ^ 1024)"
| "json_readable (JArr xs) = list_all json_readable xs"
| "json_readable (JObj kvs) = list_all (\<lambda>kv. json_readable (snd kv)) kvs"
| "json_readable _ = True"

definition number_range :: go_error where
  "number_range = ErrText ''json: cannot unmarshal number into Go value of type float64''"

fun numeric_ids :: "json list \<Rightarrow> go_error + int list" where
  "numeric_ids [] = Inr []"
| "numeric_ids (JNum n # xs) = bind_res (numeric_ids xs) (\<lambda>ids. Inr (float_to_int64 (f64_of n) 0 # ids))"
| "numeric_ids (_ # xs) = Inl (ErrText ''repository: project_ids holds a non numeric entry'')"

definition decodeScope :: "(string \<times> json) list option \<Rightarrow> go_error + int list \<times> bool" where
  "decodeScope col = (case col of
      None \<Rightarrow> Inr ([], True)
    | Some s \<Rightarrow>
        if \<not> json_readable (JObj s) then Inl number_range
        else if s = [] then Inr ([], True)
        else (case map_of s ScopeKey of
            Some (JArr xs) \<Rightarrow> bind_res (numeric_ids xs) (\<lambda>ids. Inr (ids, False))
          | _ \<Rightarrow>
              (case map_of s ScopeKeySingle of
                 Some (JNum n) \<Rightarrow> Inr ([float_to_int64 (f64_of n) 0], False)
               | _ \<Rightarrow> Inl (ErrText ''repository: scope names no project''))))"

section \<open>Roles and their permissions\<close>

definition pg_varchar :: "nat \<Rightarrow> string \<Rightarrow> bool" where
  "pg_varchar n s \<longleftrightarrow> rune_count s \<le> n"

definition too_long :: "nat \<Rightarrow> go_error" where
  "too_long n = ErrText (''pq: value too long for type character varying('' @ show_nat n @ '')'')"

definition find_role :: "db \<Rightarrow> int \<Rightarrow> role_t option" where
  "find_role d i = find (\<lambda>r. ro_id r = i) (role_rows d)"

definition ensure_role :: "Role \<Rightarrow> int statement" where
  "ensure_role role now d =
     (if \<not> (pg_text (ro_Key role) \<and> pg_text (ro_Name role) \<and> pg_text (ro_Description role)) then (Inl invalid_text, d)
      else if \<not> pg_varchar 100 (ro_Key role) then (Inl (too_long 100), d)
      else if \<not> pg_varchar 150 (ro_Name role) then (Inl (too_long 150), d)
      else if \<not> pg_varchar 500 (ro_Description role) then (Inl (too_long 500), d)
      else let i = roles_seq d + 1; d1 = d\<lparr>roles_seq := i\<rparr> in
        (case find (\<lambda>r. ro_key r = ro_Key role) (role_rows d) of
           Some r \<Rightarrow> (Inr (ro_id r), d1\<lparr>role_rows := update_where (\<lambda>x. ro_key x = ro_Key role)
               (\<lambda>x. x\<lparr>ro_name := ro_Name role, ro_description := Some (ro_Description role)\<rparr>) (role_rows d)\<rparr>)
         | None \<Rightarrow> (Inr i, d1\<lparr>role_rows := role_rows d @ [\<lparr>ro_id = i, ro_key = ro_Key role, ro_name = ro_Name role,
               ro_description = Some (ro_Description role), ro_active = True\<rparr>]\<rparr>)))"

definition role_id_by_key :: "string \<Rightarrow> int statement" where
  "role_id_by_key key now d =
     ((if \<not> pg_text key then Inl invalid_text
       else case find (\<lambda>r. ro_key r = key) (role_rows d) of None \<Rightarrow> Inl ErrNotFound | Some r \<Rightarrow> Inr (ro_id r)), d)"

definition holds_permission :: "db \<Rightarrow> int \<Rightarrow> string \<Rightarrow> bool" where
  "holds_permission d i key \<longleftrightarrow> list_ex (\<lambda>p. rp_role_id p = i \<and> rp_key p = key) (role_permissions d)"

text \<open>The foreign keys of a permission that is written for a role.\<close>

definition role_permission_error :: "db \<Rightarrow> int \<Rightarrow> string \<Rightarrow> go_error option" where
  "role_permission_error d i key =
     (if find_role d i = None
        then Some (fk_violation ''grantz_role_permissions'' ''grantz_role_permissions_role_id_fkey'')
      else if key \<notin> set (permission_keys d)
        then Some (fk_violation ''grantz_role_permissions'' ''grantz_role_permissions_permission_key_fkey'')
      else None)"

fun insert_permissions :: "int \<Rightarrow> string list \<Rightarrow> db \<Rightarrow> go_error + db" where
  "insert_permissions i [] d = Inr d"
| "insert_permissions i (key # keys) d =
     (if holds_permission d i key then insert_permissions i keys d
      else case role_permission_error d i key of
          Some e \<Rightarrow> Inl e
        | None \<Rightarrow> insert_permissions i keys
            (d\<lparr>role_permissions := role_permissions d @ [\<lparr>rp_role_id = i, rp_key = key, rp_fields = None\<rparr>]\<rparr>))"

text \<open>One transaction: a failure leaves the tables as they were.\<close>

definition replace_role_permissions :: "int \<Rightarrow> string list \<Rightarrow> unit statement" where
  "replace_role_permissions i keys now d =
     (if \<not> list_all pg_text keys then (Inl invalid_text, d)
      else case insert_permissions i keys
          (d\<lparr>role_permissions := filter (\<lambda>p. \<not> (rp_role_id p = i \<and> rp_key p \<notin> set keys)) (role_permissions d)\<rparr>) of
        Inl e \<Rightarrow> (Inl e, d)
      | Inr d' \<Rightarrow> (Inr (), d'))"

text \<open>What \<open>{"allow": fields}\<close> is stored as.\<close>

definition fields_json :: "string list option \<Rightarrow> json option" where
  "fields_json fs = map_option (\<lambda>xs. JObj [(''allow'', JArr (map JStr xs))]) fs"

definition set_role_fields :: "int \<Rightarrow> string \<Rightarrow> string list option \<Rightarrow> unit statement" where
  "set_role_fields i key fs now d =
     (if holds_permission d i key then
        (Inr (), d\<lparr>role_permissions := update_where (\<lambda>p. rp_role_id p = i \<and> rp_key p = key)
           (\<lambda>p. p\<lparr>rp_fields := fields_json fs\<rparr>) (role_permissions d)\<rparr>)
      else case role_permission_error d i key of
          Some e \<Rightarrow> (Inl e, d)
        | None \<Rightarrow> (Inr (), d\<lparr>role_permissions := role_permissions d
            @ [\<lparr>rp_role_id = i, rp_key = key, rp_fields = fields_json fs\<rparr>]\<rparr>))"

text \<open>The elements of an allow-list; a null entry reads as an empty text.\<close>

fun allow_names :: "json list \<Rightarrow> string list option" where
  "allow_names [] = Some []"
| "allow_names (JStr s # xs) = map_option (\<lambda>ss. s # ss) (allow_names xs)"
| "allow_names (JNull # xs) = map_option (\<lambda>ss. [] # ss) (allow_names xs)"
| "allow_names (_ # xs) = None"

definition not_allow_list :: go_error where
  "not_allow_list = ErrText ''json: cannot unmarshal value into Go struct field of type []string''"

definition decode_fields :: "json option \<Rightarrow> go_error + string list \<times> bool" where
  "decode_fields col = (case col of
      None \<Rightarrow> Inr ([], False)
    | Some JNull \<Rightarrow> Inr ([], False)
    | Some (JObj kvs) \<Rightarrow>
        (case map_of kvs ''allow'' of
           None \<Rightarrow> Inr ([], True)
         | Some JNull \<Rightarrow> Inr ([], True)
         | Some (JArr xs) \<Rightarrow>
             (case allow_names xs of
                None \<Rightarrow> Inl not_allow_list
              | Some ss \<Rightarrow> if ss = [''*''] then Inr ([], False) else Inr (ss, True))
         | Some _ \<Rightarrow> Inl not_allow_list)
    | Some _ \<Rightarrow> Inl not_allow_list)"

definition role_fields :: "int \<Rightarrow> string \<Rightarrow> (string list \<times> bool) statement" where
  "role_fields i key now d =
     ((case find (\<lambda>p. rp_role_id p = i \<and> rp_key p = key) (role_permissions d) of
         None \<Rightarrow> Inr ([], False) | Some p \<Rightarrow> decode_fields (rp_fields p)), d)"

definition stored_role_of :: "db \<Rightarrow> role_t \<Rightarrow> StoredRole" where
  "stored_role_of d r = \<lparr>st_ID = ro_id r, st_Key = ro_key r, st_Name = ro_name r,
     st_Description = (case ro_description r of None \<Rightarrow> [] | Some s \<Rightarrow> s), st_Active = ro_active r,
     st_Builtin = IsBuiltin (ro_key r),
     st_Permissions = sort (map rp_key (filter (\<lambda>p. rp_role_id p = ro_id r) (role_permissions d)))\<rparr>"

definition list_roles :: "StoredRole list statement" where
  "list_roles = query (\<lambda>d. map (stored_role_of d) (sort_key ro_key (role_rows d)))"

section \<open>Who holds what\<close>

definition member_of :: "db \<Rightarrow> int \<Rightarrow> user_role_t \<Rightarrow> Member list" where
  "member_of d p ur =
     (case (find_role d (ur_role_id ur), find (\<lambda>u. u_id u = ur_user_id ur) (users d)) of
        (Some r, Some u) \<Rightarrow>
          if ut_deleted_at u = None \<and> ro_active r \<and> covers (ur_scope ur) p
          then [\<lparr>me_UserID = u_id u, me_Fullname = u_fullname u, me_Email = u_email u, me_Active = u_active u,
                 me_IsAdmin = u_is_admin u, me_RoleID = ro_id r, me_RoleKey = ro_key r, me_RoleName = ro_name r\<rparr>]
          else []
      | _ \<Rightarrow> [])"

definition list_project_members :: "int \<Rightarrow> Member list statement" where
  "list_project_members p = query (\<lambda>d. sort_key me_Fullname (concat (map (member_of d p) (user_roles d))))"

fun read_assignments :: "(role_t \<times> user_role_t) list \<Rightarrow> go_error + Assignment list" where
  "read_assignments [] = Inr []"
| "read_assignments ((r, ur) # rows) =
     bind_res (decodeScope (ur_scope ur)) (\<lambda>(ids, unscoped).
     bind_res (read_assignments rows) (\<lambda>out.
       Inr (\<lparr>as_RoleID = ro_id r, as_RoleKey = ro_key r, as_RoleName = ro_name r, as_ProjectIDs = ids,
             as_Unscoped = unscoped\<rparr> # out)))"

definition roles_of_user :: "db \<Rightarrow> int \<Rightarrow> (role_t \<times> user_role_t) list" where
  "roles_of_user d u = concat (map (\<lambda>ur. case find_role d (ur_role_id ur) of None \<Rightarrow> [] | Some r \<Rightarrow> [(r, ur)])
     (filter (\<lambda>ur. ur_user_id ur = u) (user_roles d)))"

definition list_user_roles :: "int \<Rightarrow> Assignment list statement" where
  "list_user_roles u now d = (read_assignments (sort_key (\<lambda>x. ro_key (fst x)) (roles_of_user d u)), d)"

definition held :: "int \<Rightarrow> int \<Rightarrow> user_role_t \<Rightarrow> bool" where
  "held u i ur \<longleftrightarrow> ur_user_id ur = u \<and> ur_role_id ur = i"

definition grant_project :: "int \<Rightarrow> int \<Rightarrow> int \<Rightarrow> unit statement" where
  "grant_project u i p now d =
     (if \<not> int4 i then (Inl out_of_range, d)
      else if list_ex (held u i) (user_roles d)
        then (Inr (), d\<lparr>user_roles := update_where (held u i) (\<lambda>r. r\<lparr>ur_scope := scope_with p (ur_scope r)\<rparr>) (user_roles d)\<rparr>)
      else if \<not> list_ex (\<lambda>x. u_id x = u) (users d)
        then (Inl (fk_violation ''grantz_user_roles'' ''grantz_user_roles_user_id_fkey''), d)
      else if find_role d i = None
        then (Inl (fk_violation ''grantz_user_roles'' ''grantz_user_roles_role_id_fkey''), d)
      else (Inr (), d\<lparr>user_roles := user_roles d @ [\<lparr>ur_user_id = u, ur_role_id = i,
          ur_scope = Some [(ScopeKey, JArr [JNum p])]\<rparr>]\<rparr>))"

text \<open>A row a project can be taken from: it has a scope, and not the empty one.\<close>

definition scoped :: "user_role_t \<Rightarrow> bool" where
  "scoped r \<longleftrightarrow> ur_scope r \<noteq> None \<and> ur_scope r \<noteq> Some []"

definition scope_without :: "int \<Rightarrow> (string \<times> json) list \<Rightarrow> ((string \<times> json) list) option" where
  "scope_without p s = (case map_of s ScopeKey of
      None \<Rightarrow> Some [(ScopeKey, JArr [])]
    | Some (JArr xs) \<Rightarrow> Some [(ScopeKey, JArr (filter (\<lambda>v. v \<noteq> JNum p) xs))]
    | Some _ \<Rightarrow> None)"

definition not_an_array :: go_error where
  "not_an_array = ErrText ''pq: cannot extract elements from a scalar''"

fun emptied :: "(string \<times> json) list option \<Rightarrow> bool" where
  "emptied (Some s) = (case map_of s ScopeKey of Some (JArr xs) \<Rightarrow> xs = [] | None \<Rightarrow> s \<noteq> [] | _ \<Rightarrow> False)"
| "emptied None = False"

definition revoke_row :: "int \<Rightarrow> user_role_t \<Rightarrow> user_role_t" where
  "revoke_row p r = r\<lparr>ur_scope := (case ur_scope r of None \<Rightarrow> None | Some s \<Rightarrow> scope_without p s)\<rparr>"

definition revoke_project :: "int \<Rightarrow> int \<Rightarrow> int \<Rightarrow> unit statement" where
  "revoke_project u i p now d =
     (if \<not> int4 i then (Inl out_of_range, d)
      else if list_ex (\<lambda>r. held u i r \<and> scoped r \<and> scope_without p (the (ur_scope r)) = None) (user_roles d)
        then (Inl not_an_array, d)
      else (Inr (), d\<lparr>user_roles := filter (\<lambda>r. \<not> (held u i r \<and> emptied (ur_scope r)))
          (update_where (\<lambda>r. held u i r \<and> scoped r) (revoke_row p) (user_roles d))\<rparr>))"

definition revoke_user :: "int \<Rightarrow> unit statement" where
  "revoke_user u = exec (\<lambda>d. d\<lparr>user_roles := filter (\<lambda>r. ur_user_id r \<noteq> u) (user_roles d),
     user_permissions := filter (\<lambda>p. up_user_id p \<noteq> u) (user_permissions d)\<rparr>)"

definition authz_repo :: "'w world_scheme AuthzStore" where
  "authz_repo = \<lparr>ax_EnsureRole = (\<lambda>r. stmt (ensure_role r)),
     ax_ReplaceRolePermissions = (\<lambda>i ks. stmt (replace_role_permissions i ks)),
     ax_RoleIDByKey = (\<lambda>k. stmt (role_id_by_key k)), ax_ListRoles = stmt list_roles,
     ax_ListProjectMembers = (\<lambda>p. stmt (list_project_members p)), ax_ListUserRoles = (\<lambda>u. stmt (list_user_roles u)),
     ax_GrantProject = (\<lambda>u i p. stmt (grant_project u i p)), ax_RevokeProject = (\<lambda>u i p. stmt (revoke_project u i p)),
     ax_RevokeUser = (\<lambda>u. stmt (revoke_user u)), ax_SetRoleFields = (\<lambda>i k fs. stmt (set_role_fields i k fs)),
     ax_RoleFields = (\<lambda>i k. stmt (role_fields i k))\<rparr>"

end
