(* ===== verification/MemberService.thy ===== *)
theory MemberService
  imports AuthzRepo AccountStore
begin

text \<open>
  Who may reach a project (\<open>internal/service/member_service.go\<close>): listing, granting and revoking, with the
  rules that keep a project administrator from rising, and what a role sees of a run.
\<close>

section \<open>Errors and interfaces\<close>

datatype member_error =
    MbSvc svc_error
  | MbAuthz authz_error
  | ErrSelfMembership
  | ErrRoleTooHigh
  | ErrTargetIsAdmin
  | ErrUnscopedMembership
  | MbInvalid string

type_synonym ('w, 'a) mb = "('w, member_error + 'a) state"

record 'w Authorizer =
  az_RequireProject :: "user option \<Rightarrow> string \<Rightarrow> int \<Rightarrow> ('w, authz_error option) state"
  az_Store :: "'w AuthzStore"
  az_Invalidate :: "int \<Rightarrow> ('w, unit) state"

record 'w member_service =
  mv_authz :: "'w Authorizer"
  mv_by_id :: "int \<Rightarrow> ('w, user) call"
  mv_by_email :: "string \<Rightarrow> ('w, user) call"

text \<open>
  The permission engine is not part of the repository: what it answers in a world, and what dropping an
  account from its cache does to it, are arguments.
\<close>

definition NewMemberService ::
  "('w world_scheme \<Rightarrow> int \<Rightarrow> string \<Rightarrow> string + decision) \<Rightarrow> (int \<Rightarrow> 'w world_scheme \<Rightarrow> 'w world_scheme)
     \<Rightarrow> 'w world_scheme member_service" where
  "NewMemberService engine forget =
     \<lparr>mv_authz = \<lparr>az_RequireProject = (\<lambda>u key p. State (\<lambda>w. (RequireProject (engine w) u key p, w))),
        az_Store = authz_repo, az_Invalidate = (\<lambda>u. modify (forget u))\<rparr>,
      mv_by_id = (\<lambda>i. stmt (get_user i)), mv_by_email = (\<lambda>e. stmt (get_user_by_email e))\<rparr>"

definition mb_require :: "'w member_service \<Rightarrow> user option \<Rightarrow> string \<Rightarrow> int \<Rightarrow> ('w, unit) mb" where
  "mb_require s caller key p = do {
     r \<leftarrow> az_RequireProject (mv_authz s) caller key p;
     State_Monad.return (case r of None \<Rightarrow> Inr () | Some e \<Rightarrow> Inl (MbAuthz e)) }"

text \<open>An error of a dependency: passed on, or replaced whatever it is.\<close>

definition mb_pass :: "('w, 'a) call \<Rightarrow> ('w, 'a) mb" where
  "mb_pass m = do {
     r \<leftarrow> m;
     State_Monad.return (case r of Inl e \<Rightarrow> Inl (MbSvc (SvcOther e)) | Inr x \<Rightarrow> Inr x) }"

definition mb_or :: "member_error \<Rightarrow> ('w, 'a) call \<Rightarrow> ('w, 'a) mb" where
  "mb_or err m = do {
     r \<leftarrow> m;
     State_Monad.return (case r of Inl _ \<Rightarrow> Inl err | Inr x \<Rightarrow> Inr x) }"

definition invalid_member :: "string \<Rightarrow> member_error" where
  "invalid_member m = MbInvalid (''validation failed: '' @ m)"

section \<open>Ranks\<close>

definition best_rank :: "int \<Rightarrow> Assignment list \<Rightarrow> int" where
  "best_rank p assignments = fold (\<lambda>a best.
     if \<not> as_Unscoped a \<and> \<not> mem_id (as_ProjectIDs a) p then best
     else if RoleRank (as_RoleKey a) > best then RoleRank (as_RoleKey a) else best) assignments 0"

definition rankOf :: "'w member_service \<Rightarrow> user option \<Rightarrow> int \<Rightarrow> ('w, int) mb" where
  "rankOf s caller p = (case caller of
      None \<Rightarrow> fail (MbSvc SvcForbidden)
    | Some c \<Rightarrow>
        if u_is_admin c then ok (RoleRank RoleProjectAdmin + 1)
        else attempt (mb_pass (ax_ListUserRoles (az_Store (mv_authz s)) (u_id c))) (\<lambda>assignments.
          ok (best_rank p assignments)))"

definition mayChange :: "user option \<Rightarrow> int \<Rightarrow> Member \<Rightarrow> member_error option" where
  "mayChange caller callerRank target = (case caller of
      None \<Rightarrow> Some (MbSvc SvcForbidden)
    | Some c \<Rightarrow>
        if u_id c = me_UserID target then Some ErrSelfMembership
        else if u_is_admin c then None
        else if me_IsAdmin target then Some ErrTargetIsAdmin
        else if RoleRank (me_RoleKey target) > callerRank then Some ErrRoleTooHigh
        else None)"

section \<open>Members\<close>

definition ListMembers :: "'w member_service \<Rightarrow> user option \<Rightarrow> int \<Rightarrow> ('w, (Member \<times> bool) list) mb" where
  "ListMembers s caller p =
     attempt (mb_require s caller MembersRead p) (\<lambda>_.
     attempt (mb_pass (ax_ListProjectMembers (az_Store (mv_authz s)) p)) (\<lambda>members.
     attempt (rankOf s caller p) (\<lambda>callerRank.
       ok (map (\<lambda>m. (m, mayChange caller callerRank m = None)) members))))"

definition grantable :: "user \<Rightarrow> int \<Rightarrow> StoredRole \<Rightarrow> bool" where
  "grantable caller callerRank role \<longleftrightarrow>
     st_Active role \<and> \<not> RoleRank (st_Key role) > callerRank \<and> \<not> (\<not> st_Builtin role \<and> \<not> u_is_admin caller)"

text \<open>The permission check has passed by the time the caller's flag is read, so there is a caller.\<close>

definition RolesFor :: "'w member_service \<Rightarrow> user option \<Rightarrow> int \<Rightarrow> ('w, StoredRole list) mb" where
  "RolesFor s caller p =
     attempt (mb_require s caller MembersManage p) (\<lambda>_.
     attempt (mb_pass (ax_ListRoles (az_Store (mv_authz s)))) (\<lambda>roles.
     attempt (rankOf s caller p) (\<lambda>callerRank.
       case caller of None \<Rightarrow> ok [] | Some c \<Rightarrow> ok (filter (grantable c callerRank) roles))))"

text \<open>The part of \<open>Grant\<close> behind the guards.\<close>

definition grant_role :: "'w member_service \<Rightarrow> int \<Rightarrow> int \<Rightarrow> string \<Rightarrow> ('w, unit) mb" where
  "grant_role s p userID roleKey =
     attempt (mb_or (invalid_member (''unknown role '' @ go_quote roleKey))
       (ax_RoleIDByKey (az_Store (mv_authz s)) roleKey)) (\<lambda>roleID.
     attempt (mb_pass (ax_GrantProject (az_Store (mv_authz s)) userID roleID p)) (\<lambda>_. do {
       az_Invalidate (mv_authz s) userID;
       ok () }))"

definition Grant :: "'w member_service \<Rightarrow> user option \<Rightarrow> int \<Rightarrow> int \<Rightarrow> string \<Rightarrow> ('w, unit) mb" where
  "Grant s caller p userID roleKey =
     attempt (mb_require s caller MembersManage p) (\<lambda>_.
       case caller of
         None \<Rightarrow> fail (MbSvc SvcForbidden)
       | Some c \<Rightarrow>
           if u_id c = userID then fail ErrSelfMembership
           else attempt (mb_or (MbSvc SvcNotFound) (mv_by_id s userID)) (\<lambda>target.
             if u_is_admin target then fail ErrTargetIsAdmin
             else attempt (rankOf s caller p) (\<lambda>callerRank.
               if (RoleRank roleKey = 0 \<or> RoleRank roleKey > callerRank) \<and> \<not> u_is_admin c
               then fail ErrRoleTooHigh
               else grant_role s p userID roleKey)))"

definition GrantByEmail :: "'w member_service \<Rightarrow> user option \<Rightarrow> int \<Rightarrow> string \<Rightarrow> string \<Rightarrow> ('w, unit) mb" where
  "GrantByEmail s caller p email roleKey =
     attempt (mb_require s caller MembersManage p) (\<lambda>_.
       let address = to_lower (trim_space email) in
       if address = [] then fail (invalid_member ''an email address is required'')
       else attempt (mb_or (MbSvc SvcNotFound) (mv_by_email s address)) (\<lambda>target.
         Grant s caller p (u_id target) roleKey))"

definition Revoke :: "'w member_service \<Rightarrow> user option \<Rightarrow> int \<Rightarrow> int \<Rightarrow> int \<Rightarrow> ('w, unit) mb" where
  "Revoke s caller p userID roleID =
     attempt (mb_require s caller MembersManage p) (\<lambda>_.
       if map_option u_id caller = Some userID then fail ErrSelfMembership
       else attempt (mb_pass (ax_ListProjectMembers (az_Store (mv_authz s)) p)) (\<lambda>members.
         attempt (rankOf s caller p) (\<lambda>callerRank.
           case find (\<lambda>m. me_UserID m = userID \<and> me_RoleID m = roleID) members of
             None \<Rightarrow> fail (MbSvc SvcNotFound)
           | Some target \<Rightarrow>
               (case mayChange caller callerRank target of
                  Some e \<Rightarrow> fail e
                | None \<Rightarrow>
                    attempt (mb_pass (ax_ListUserRoles (az_Store (mv_authz s)) userID)) (\<lambda>assignments.
                      if list_ex (\<lambda>a. as_RoleID a = roleID \<and> as_Unscoped a) assignments
                      then fail ErrUnscopedMembership
                      else attempt (mb_pass (ax_RevokeProject (az_Store (mv_authz s)) userID roleID p)) (\<lambda>_. do {
                        az_Invalidate (mv_authz s) userID;
                        ok () }))))))"

section \<open>What a role sees of a run\<close>

record RoleRunView =
  rrv_Key :: string
  rrv_Name :: string
  rrv_Description :: string
  rrv_View :: RunView

definition role_view :: "'w member_service \<Rightarrow> Role \<Rightarrow> ('w, RoleRunView) mb" where
  "role_view s role =
     attempt (mb_pass (ax_RoleIDByKey (az_Store (mv_authz s)) (ro_Key role))) (\<lambda>roleID.
     attempt (mb_pass (ax_RoleFields (az_Store (mv_authz s)) roleID RunsRead)) (\<lambda>(names, restricted).
       ok \<lparr>rrv_Key = ro_Key role, rrv_Name = ro_Name role, rrv_Description = ro_Description role,
           rrv_View = (if restricted then RunViewOf names else FullRunView)\<rparr>))"

fun role_views :: "'w member_service \<Rightarrow> Role list \<Rightarrow> ('w, RoleRunView list) mb" where
  "role_views s [] = ok []"
| "role_views s (role # roles) =
     attempt (role_view s role) (\<lambda>v. attempt (role_views s roles) (\<lambda>vs. ok (v # vs)))"

definition is_platform_admin :: "user option \<Rightarrow> bool" where
  "is_platform_admin caller \<longleftrightarrow> (case caller of None \<Rightarrow> False | Some c \<Rightarrow> u_is_admin c)"

definition RunVisibility :: "'w member_service \<Rightarrow> user option \<Rightarrow> ('w, RoleRunView list) mb" where
  "RunVisibility s caller =
     (if \<not> is_platform_admin caller then fail (MbSvc SvcForbidden) else role_views s BuiltinRoles)"

definition SetRunVisibility :: "'w member_service \<Rightarrow> user option \<Rightarrow> string \<Rightarrow> RunView \<Rightarrow> ('w, unit) mb" where
  "SetRunVisibility s caller roleKey view =
     (if \<not> is_platform_admin caller then fail (MbSvc SvcForbidden)
      else if \<not> IsBuiltin roleKey then fail (invalid_member (''unknown role '' @ go_quote roleKey))
      else attempt (mb_or (MbSvc SvcNotFound) (ax_RoleIDByKey (az_Store (mv_authz s)) roleKey)) (\<lambda>roleID.
        let names = (if \<not> Output view \<or> \<not> Error view \<or> \<not> RequestURL view then Some (Fields view) else None) in
        attempt (mb_pass (ax_SetRoleFields (az_Store (mv_authz s)) roleID RunsRead names)) (\<lambda>_. ok ())))"

end
