(* ===== verification/MemberFacts.thy ===== *)
theory MemberFacts
  imports MemberService
begin

text \<open>
  Who holds what, independently of how the scope column writes it, and what the statements and the
  guards of membership do to it.
\<close>

section \<open>Scopes the program writes\<close>

text \<open>Identifiers that survive the reading of JSON numbers as float64.\<close>

definition small :: "int \<Rightarrow> bool" where
  "small n \<longleftrightarrow> \<bar>n\<bar> < 9007199254740992"

definition wf_scope :: "(string \<times> json) list option \<Rightarrow> bool" where
  "wf_scope sc \<longleftrightarrow> (case sc of
      None \<Rightarrow> True
    | Some s \<Rightarrow> s = []
        \<or> (\<exists>ns. map_of s ScopeKey = Some (JArr (map JNum ns)) \<and> map_of s ScopeKeySingle = None \<and> list_all small ns)
        \<or> (\<exists>n. map_of s ScopeKey = None \<and> map_of s ScopeKeySingle = Some (JNum n) \<and> small n))"

lemma wf_scopeE:
  assumes "wf_scope sc"
  obtains (nothing) "sc = None" | (blank) "sc = Some []"
    | (many) s ns where "sc = Some s" and "s \<noteq> []" and "map_of s ScopeKey = Some (JArr (map JNum ns))"
        and "map_of s ScopeKeySingle = None" and "list_all small ns"
    | (one) s n where "sc = Some s" and "s \<noteq> []" and "map_of s ScopeKey = None"
        and "map_of s ScopeKeySingle = Some (JNum n)" and "small n"
  using assms unfolding wf_scope_def by (cases sc) (auto split: option.splits)

lemma scope_keys_differ [simp]: "ScopeKey \<noteq> ScopeKeySingle" "ScopeKeySingle \<noteq> ScopeKey"
  by (simp_all add: ScopeKey_def ScopeKeySingle_def)

lemma covers_all [simp]: "covers None p" "covers (Some []) p"
  by (simp_all add: covers_def)

lemma covers_many:
  "s \<noteq> [] \<Longrightarrow> map_of s ScopeKey = Some (JArr (map JNum ns)) \<Longrightarrow> map_of s ScopeKeySingle = None
     \<Longrightarrow> covers (Some s) p \<longleftrightarrow> p \<in> set ns"
  by (auto simp: covers_def json_contains_def)

lemma covers_one:
  "s \<noteq> [] \<Longrightarrow> map_of s ScopeKey = None \<Longrightarrow> map_of s ScopeKeySingle = Some (JNum n) \<Longrightarrow> covers (Some s) p \<longleftrightarrow> p = n"
  by (auto simp: covers_def json_text_is_def)

lemma covers_ids: "covers (Some [(ScopeKey, JArr (map JNum ns))]) p \<longleftrightarrow> p \<in> set ns"
  by (rule covers_many) simp_all

lemma wf_ids: "list_all small ns \<Longrightarrow> wf_scope (Some [(ScopeKey, JArr (map JNum ns))])"
  by (auto simp: wf_scope_def)

section \<open>Reading\<close>

lemma f64_small: "small n \<Longrightarrow> f64_of n = n"
  by (auto simp: f64_of_def f64_nat_def small_def f64_shift.simps Let_def)

lemma json_readable_num:
  "json_readable (JNum n) = (if \<bar>n\<bar> < 9007199254740992 then True else \<bar>f64_of n\<bar> < 2 ^ 1024)"
proof (cases "\<bar>n\<bar> < 9007199254740992")
  case True
  then have "f64_of n = n" by (simp add: f64_small small_def)
  moreover have "(2::int) ^ 53 \<le> 2 ^ 1024" by (intro power_increasing) simp_all
  ultimately show ?thesis using True by simp
qed simp

lemmas json_readable_code [code] = json_readable_num json_readable.simps(2-)

lemma small_int64: "small n \<Longrightarrow> float_to_int64 n 0 = n"
  by (auto simp: float_to_int64_def small_def int64_def min_int64_def max_int64_def Let_def)

lemma numeric_ids_small: "list_all small ns \<Longrightarrow> numeric_ids (map JNum ns) = Inr ns"
  by (induction ns) (simp_all add: f64_small small_int64)

text \<open>What is read back from a scope is what the list of members goes by.\<close>

lemma decode_covers:
  assumes "wf_scope sc" and "decodeScope sc = Inr (ids, unscoped)"
  shows "((unscoped \<or> p \<in> set ids) \<longleftrightarrow> covers sc p) \<and> (unscoped \<longleftrightarrow> sc = None \<or> sc = Some [])"
  using assms(1)
proof (cases rule: wf_scopeE)
  case (many s ns)
  have "ids = ns \<and> \<not> unscoped"
    using assms(2) many by (auto simp: decodeScope_def numeric_ids_small split: if_splits)
  then show ?thesis using covers_many [of s ns p] many by auto
next
  case (one s n)
  have "ids = [n] \<and> \<not> unscoped"
    using assms(2) one by (auto simp: decodeScope_def f64_small small_int64 split: if_splits)
  then show ?thesis using covers_one [of s n p] one by auto
qed (use assms(2) in \<open>auto simp: decodeScope_def\<close>)

section \<open>Writing\<close>

lemma set_distinct_values [simp]: "set (distinct_values xs) = set xs"
  by (simp add: distinct_values_def)

lemma distinct_values_nums: "\<exists>ms. distinct_values (map JNum ns) = map JNum ms \<and> set ms = set ns"
proof -
  have "\<forall>v\<in>set (distinct_values (map JNum ns)). \<exists>n. v = JNum n" by auto
  then have "\<exists>ms. distinct_values (map JNum ns) = map JNum ms" by (simp only: ex_map_conv)
  then obtain ms where ms: "distinct_values (map JNum ns) = map JNum ms" by blast
  have "JNum ` set ms = JNum ` set ns" using arg_cong [OF ms, of set] by auto
  moreover have "inj JNum" by (simp add: inj_def)
  ultimately have "set ms = set ns" by (simp add: inj_image_eq_iff)
  with ms show ?thesis by blast
qed

lemma scope_with_Some:
  "s \<noteq> [] \<Longrightarrow> scope_with p (Some s)
     = Some [(ScopeKey, JArr (distinct_values (scope_elements s @ single_element s @ [JNum p])))]"
  by (cases s) (simp_all add: scope_with_def)

lemma scope_with_wf:
  assumes "wf_scope sc" and "small p"
  shows "wf_scope (scope_with p sc) \<and> (covers (scope_with p sc) q \<longleftrightarrow> covers sc q \<or> q = p)"
proof -
  have new: "wf_scope (Some [(ScopeKey, JArr (distinct_values (map JNum ns)))])
      \<and> (covers (Some [(ScopeKey, JArr (distinct_values (map JNum ns)))]) q \<longleftrightarrow> q \<in> set ns)"
    if "list_all small ns" for ns
  proof -
    obtain ms where "distinct_values (map JNum ns) = map JNum ms" "set ms = set ns"
      using distinct_values_nums by blast
    with that show ?thesis by (simp add: covers_ids wf_ids list_all_iff)
  qed
  show ?thesis
    using assms(1)
  proof (cases rule: wf_scopeE)
    case (many s ns)
    then have e: "scope_with p sc = Some [(ScopeKey, JArr (distinct_values (map JNum (ns @ [p]))))]"
      by (simp add: scope_with_Some scope_elements_def single_element_def)
    from new [of "ns @ [p]"] many assms(2) covers_many [of s ns q]
    show ?thesis unfolding e by auto
  next
    case (one s n)
    then have e: "scope_with p sc = Some [(ScopeKey, JArr (distinct_values (map JNum [n, p])))]"
      by (simp add: scope_with_Some scope_elements_def single_element_def)
    from new [of "[n, p]"] one assms(2) covers_one [of s n q]
    show ?thesis unfolding e by auto
  qed (simp_all add: scope_with_def wf_scope_def)
qed

lemma scope_without_wf:
  assumes "wf_scope (Some s)" and "s \<noteq> []" and "covers (Some s) p"
  obtains ns where "scope_without p s = Some [(ScopeKey, JArr (map JNum ns))]" and "list_all small ns"
    and "\<And>q. q \<in> set ns \<longleftrightarrow> covers (Some s) q \<and> q \<noteq> p"
proof -
  from assms(1) show thesis
  proof (cases rule: wf_scopeE)
    case (many s' ns)
    have "filter (\<lambda>v. v \<noteq> JNum p) (map JNum ns) = map JNum (filter (\<lambda>n. n \<noteq> p) ns)"
      by (simp add: filter_map comp_def)
    then show thesis
      using many covers_many [of s ns] by (intro that [of "filter (\<lambda>n. n \<noteq> p) ns"]) (auto simp: scope_without_def list_all_iff)
  next
    case (one s' n)
    then show thesis using assms(3) covers_one [of s n] by (intro that [of "[]"]) (auto simp: scope_without_def)
  qed (use assms(2) in auto)
qed

end
