(* ===== verification/MemberProps.thy ===== *)
theory MemberProps
  imports MemberFacts Demo "HOL-Library.Code_Target_Numeral"
begin

text \<open>
  What membership guarantees: whoever is not a platform administrator can neither rise nor lift anybody
  above themselves nor touch what stands above them, and what a role was told to see of a run is what it
  is reported to see.
\<close>

section \<open>Who holds what\<close>

definition holds :: "db \<Rightarrow> int \<Rightarrow> int \<Rightarrow> int \<Rightarrow> bool" where
  "holds d u i p \<longleftrightarrow> (\<exists>r\<in>set (user_roles d). held u i r \<and> covers (ur_scope r) p)"

definition roles_ok :: "db \<Rightarrow> bool" where
  "roles_ok d \<longleftrightarrow> distinct (map (\<lambda>r. (ur_user_id r, ur_role_id r)) (user_roles d))
     \<and> (\<forall>r\<in>set (user_roles d). wf_scope (ur_scope r))
     \<and> distinct (map ro_id (role_rows d)) \<and> distinct (map u_id (users d))"

definition role_rank :: "db \<Rightarrow> int \<Rightarrow> int" where
  "role_rank d i = (case find_role d i of None \<Rightarrow> 0 | Some r \<Rightarrow> RoleRank (ro_key r))"

text \<open>The highest rank an account holds over a project.\<close>

definition rank_on :: "db \<Rightarrow> int \<Rightarrow> int \<Rightarrow> int" where
  "rank_on d u p = Max (insert 0 (role_rank d ` {i \<in> ro_id ` set (role_rows d). holds d u i p}))"

definition platform_admin :: "db \<Rightarrow> int \<Rightarrow> bool" where
  "platform_admin d u \<longleftrightarrow> (\<exists>x\<in>set (users d). u_id x = u \<and> live_user x \<and> u_is_admin x)"

text \<open>What an account may change: somebody else's role, not above its own on that project.\<close>

definition in_reach :: "db \<Rightarrow> int \<Rightarrow> int \<Rightarrow> int \<Rightarrow> int \<Rightarrow> bool" where
  "in_reach d c u i p \<longleftrightarrow> u \<noteq> c \<and> \<not> platform_admin d u \<and> role_rank d i \<le> rank_on d c p"

definition no_rise :: "int \<Rightarrow> db \<Rightarrow> db \<Rightarrow> bool" where
  "no_rise c d d' \<longleftrightarrow> d' = d\<lparr>user_roles := user_roles d'\<rparr>
     \<and> (\<forall>i p. holds d' c i p \<longleftrightarrow> holds d c i p)
     \<and> (\<forall>u i p. holds d' u i p \<and> \<not> holds d u i p \<longrightarrow> in_reach d c u i p \<and> 0 < role_rank d i)
     \<and> (\<forall>u i p. holds d u i p \<and> \<not> holds d' u i p \<longrightarrow> in_reach d c u i p \<and> \<not> (\<forall>q. holds d u i q))"

lemma no_riseI:
  assumes "d' = d\<lparr>user_roles := rows\<rparr>"
    and "\<And>i p. holds d' c i p \<longleftrightarrow> holds d c i p"
    and "\<And>u i p. holds d' u i p \<Longrightarrow> \<not> holds d u i p \<Longrightarrow> in_reach d c u i p \<and> 0 < role_rank d i"
    and "\<And>u i p. holds d u i p \<Longrightarrow> \<not> holds d' u i p \<Longrightarrow> in_reach d c u i p \<and> \<not> (\<forall>q. holds d u i q)"
  shows "no_rise c d d'"
  using assms unfolding no_rise_def by (metis db.select_convs(25) db.surjective db.update_convs(25))

lemma no_rise_refl: "no_rise c d d"
  by (simp add: no_rise_def)

lemma no_rise_same:
  assumes "no_rise c d d'"
  shows "role_rows d' = role_rows d" "users d' = users d" "role_rank d' = role_rank d"
    "platform_admin d' = platform_admin d" "rank_on d' c = rank_on d c"
proof -
  have d': "d' = d\<lparr>user_roles := user_roles d'\<rparr>" using assms by (simp add: no_rise_def)
  show r: "role_rows d' = role_rows d" "users d' = users d" by (subst d', simp)+
  then show rr: "role_rank d' = role_rank d" and "platform_admin d' = platform_admin d"
    by (auto simp: role_rank_def find_role_def platform_admin_def)
  show "rank_on d' c = rank_on d c"
    using assms by (intro ext) (simp add: rank_on_def r rr no_rise_def)
qed

lemma in_reach_same: "no_rise c d d' \<Longrightarrow> in_reach d' c = in_reach d c"
  by (intro ext) (simp add: in_reach_def no_rise_same)

lemma no_rise_trans:
  assumes "no_rise c d d'" and "no_rise c d' d''"
  shows "no_rise c d d''"
proof (rule no_riseI)
  have "d'' = d'\<lparr>user_roles := user_roles d''\<rparr>" "d' = d\<lparr>user_roles := user_roles d'\<rparr>"
    using assms by (simp_all add: no_rise_def)
  then show "d'' = d\<lparr>user_roles := user_roles d''\<rparr>" by (metis db.update_convs(25) db.surjective)
  show "holds d'' c i p \<longleftrightarrow> holds d c i p" for i p using assms by (simp add: no_rise_def)
  show "in_reach d c u i p \<and> 0 < role_rank d i" if "holds d'' u i p" "\<not> holds d u i p" for u i p
    using assms that in_reach_same [OF assms(1)] no_rise_same(3) [OF assms(1)] unfolding no_rise_def by metis
  show "in_reach d c u i p \<and> \<not> (\<forall>q. holds d u i q)" if "holds d u i p" "\<not> holds d'' u i p" for u i p
    using assms that in_reach_same [OF assms(1)] unfolding no_rise_def by metis
qed

section \<open>The statements\<close>

lemma covers_row:
  assumes "roles_ok d" and "r \<in> set (user_roles d)" and "held u i r"
  shows "holds d u i p \<longleftrightarrow> covers (ur_scope r) p"
proof
  assume "holds d u i p"
  then obtain r' where r': "r' \<in> set (user_roles d)" "held u i r'" "covers (ur_scope r') p" by (auto simp: holds_def)
  have "inj_on (\<lambda>r. (ur_user_id r, ur_role_id r)) (set (user_roles d))"
    using assms(1) by (simp add: roles_ok_def distinct_map)
  from inj_onD [OF this _ r'(1) assms(2)] r'(2) assms(3) have "r' = r" by (simp add: held_def)
  with r'(3) show "covers (ur_scope r) p" by simp
qed (use assms in \<open>auto simp: holds_def\<close>)

lemma holds_update_other:
  assumes "\<And>r. held u i r \<Longrightarrow> held u i (f r)" and "\<not> (v = u \<and> j = i)" and "\<And>r. ur_user_id (f r) = ur_user_id r \<and> ur_role_id (f r) = ur_role_id r"
  shows "holds (d\<lparr>user_roles := update_where (held u i) f (user_roles d)\<rparr>) v j p \<longleftrightarrow> holds d v j p"
  using assms by (auto simp: holds_def set_update_where held_def)

lemma grant_project_holds:
  assumes "roles_ok d" and "small p" and "fst (grant_project u i p now d) = Inr ()"
  shows "roles_ok (snd (grant_project u i p now d))
    \<and> snd (grant_project u i p now d) = d\<lparr>user_roles := user_roles (snd (grant_project u i p now d))\<rparr>
    \<and> (\<forall>v j q. holds (snd (grant_project u i p now d)) v j q \<longleftrightarrow> holds d v j q \<or> v = u \<and> j = i \<and> q = p)"
proof (cases "list_ex (held u i) (user_roles d)")
  case True
  let ?f = "\<lambda>r. r\<lparr>ur_scope := scope_with p (ur_scope r)\<rparr>"
  let ?d = "d\<lparr>user_roles := update_where (held u i) ?f (user_roles d)\<rparr>"
  have "int4 i" using assms(3) by (rule contrapos_pp) (simp add: grant_project_def)
  with True have d: "snd (grant_project u i p now d) = ?d" by (simp add: grant_project_def)
  have keys: "map (\<lambda>r. (ur_user_id r, ur_role_id r)) (update_where (held u i) ?f (user_roles d))
      = map (\<lambda>r. (ur_user_id r, ur_role_id r)) (user_roles d)"
    by (auto simp: update_where_def)
  have "wf_scope (scope_with p (ur_scope r))" if "r \<in> set (user_roles d)" for r
    using scope_with_wf [OF _ assms(2)] assms(1) that by (simp add: roles_ok_def)
  then have okd: "roles_ok ?d" using assms(1) by (auto simp: roles_ok_def keys set_update_where)
  obtain r where r: "r \<in> set (user_roles d)" "held u i r" using True by (auto simp: list_ex_iff)
  then have r': "?f r \<in> set (user_roles ?d)" "held u i (?f r)" by (auto simp: set_update_where held_def)
  have "holds ?d v j q \<longleftrightarrow> holds d v j q \<or> v = u \<and> j = i \<and> q = p" for v j q
  proof (cases "v = u \<and> j = i")
    case False
    then show ?thesis using holds_update_other [of u i ?f v j d q] by (auto simp: held_def)
  next
    case same: True
    have "wf_scope (ur_scope r)" using assms(1) r(1) by (simp add: roles_ok_def)
    from scope_with_wf [OF this assms(2), of q] covers_row [OF assms(1) r, of q] covers_row [OF okd r', of q] same
    show ?thesis by simp
  qed
  with okd show ?thesis unfolding d by simp
next
  case False
  let ?r = "\<lparr>ur_user_id = u, ur_role_id = i, ur_scope = Some [(ScopeKey, JArr [JNum p])]\<rparr>"
  have "int4 i" using assms(3) by (rule contrapos_pp) (simp add: grant_project_def)
  moreover have "list_ex (\<lambda>x. u_id x = u) (users d)"
    using assms(3) by (rule contrapos_pp) (use False in \<open>simp add: grant_project_def\<close>)
  moreover have "find_role d i \<noteq> None"
    using assms(3) by (rule contrapos_pp) (use False in \<open>simp add: grant_project_def\<close>)
  ultimately have d: "snd (grant_project u i p now d) = d\<lparr>user_roles := user_roles d @ [?r]\<rparr>"
    using False by (simp add: grant_project_def)
  have "wf_scope (ur_scope ?r)" "\<And>q. covers (ur_scope ?r) q \<longleftrightarrow> q = p"
    using wf_ids [of "[p]"] covers_ids [of "[p]"] assms(2) by simp_all
  then show ?thesis
    using assms(1) False unfolding d
    by (auto simp: roles_ok_def holds_def held_def list_ex_iff)
qed

lemma revoke_project_holds:
  assumes "roles_ok d" and "holds d u i p" and "\<not> (\<forall>q. holds d u i q)" and "fst (revoke_project u i p now d) = Inr ()"
  shows "roles_ok (snd (revoke_project u i p now d))
    \<and> snd (revoke_project u i p now d) = d\<lparr>user_roles := user_roles (snd (revoke_project u i p now d))\<rparr>
    \<and> (\<forall>v j q. holds (snd (revoke_project u i p now d)) v j q \<longleftrightarrow> holds d v j q \<and> \<not> (v = u \<and> j = i \<and> q = p))"
proof -
  obtain r where r: "r \<in> set (user_roles d)" "held u i r" using assms(2) by (auto simp: holds_def)
  obtain q0 where "\<not> holds d u i q0" using assms(3) by blast
  with covers_row [OF assms(1) r] have "\<not> covers (ur_scope r) q0" by simp
  then have "ur_scope r \<noteq> None" "ur_scope r \<noteq> Some []" by (metis covers_all)+
  then obtain s where s: "ur_scope r = Some s" "s \<noteq> []" by blast
  have "wf_scope (Some s)" using assms(1) r(1) s(1) by (force simp: roles_ok_def)
  moreover have "covers (Some s) p" using covers_row [OF assms(1) r, of p] assms(2) s(1) by simp
  ultimately obtain ns where ns: "scope_without p s = Some [(ScopeKey, JArr (map JNum ns))]" "list_all small ns"
    "\<And>q. q \<in> set ns \<longleftrightarrow> covers (Some s) q \<and> q \<noteq> p" using scope_without_wf [OF _ s(2)] by metis
  have unique: "r' = r" if "r' \<in> set (user_roles d)" "held u i r'" for r'
  proof -
    have "inj_on (\<lambda>r. (ur_user_id r, ur_role_id r)) (set (user_roles d))"
      using assms(1) by (simp add: roles_ok_def distinct_map)
    from inj_onD [OF this _ that(1) r(1)] that(2) r(2) show ?thesis by (simp add: held_def)
  qed
  let ?new = "revoke_row p r"
  define rows where "rows = filter (\<lambda>x. \<not> (held u i x \<and> emptied (ur_scope x))) (update_where (\<lambda>x. held u i x \<and> scoped x) (revoke_row p) (user_roles d))"
  have "int4 i" using assms(4) by (rule contrapos_pp) (simp add: revoke_project_def)
  moreover have "\<not> list_ex (\<lambda>r. held u i r \<and> scoped r \<and> scope_without p (the (ur_scope r)) = None) (user_roles d)"
    using assms(4) by (rule contrapos_pp) (simp add: revoke_project_def)
  ultimately have d: "snd (revoke_project u i p now d) = d\<lparr>user_roles := rows\<rparr>"
    unfolding revoke_project_def rows_def by (simp only: if_False if_True not_not simp_thms snd_conv)
  have new: "ur_scope ?new = Some [(ScopeKey, JArr (map JNum ns))]" "held u i ?new"
    using r(2) by (simp_all add: revoke_row_def s(1) ns(1) held_def)
  have mem: "x \<in> set rows \<longleftrightarrow> x \<in> set (user_roles d) \<and> \<not> held u i x \<or> ns \<noteq> [] \<and> x = ?new" for x
  proof -
    have "scoped r" using s by (simp add: scoped_def)
    then have "set (update_where (\<lambda>x. held u i x \<and> scoped x) (revoke_row p) (user_roles d))
        = {x \<in> set (user_roles d). \<not> held u i x} \<union> {?new}"
      using set_update_where_one [of r "user_roles d" "\<lambda>x. held u i x \<and> scoped x" "revoke_row p"] r unique by blast
    moreover have "emptied (ur_scope ?new) \<longleftrightarrow> ns = []" using new(1) by simp
    ultimately show ?thesis using new(2) by (auto simp: rows_def)
  qed
  have "map (\<lambda>r. (ur_user_id r, ur_role_id r)) (update_where P (revoke_row p) xs) = map (\<lambda>r. (ur_user_id r, ur_role_id r)) xs" for P xs
    by (rule update_where_map_key) (simp add: revoke_row_def)
  then have "distinct (map (\<lambda>r. (ur_user_id r, ur_role_id r)) rows)"
    unfolding rows_def using assms(1) by (intro distinct_map_filter) (simp only: roles_ok_def)
  moreover have "\<forall>x\<in>set rows. wf_scope (ur_scope x)"
    using assms(1) wf_ids [OF ns(2)] new(1) unfolding mem Ball_def roles_ok_def by metis
  ultimately have okd: "roles_ok (d\<lparr>user_roles := rows\<rparr>)" using assms(1) by (simp add: roles_ok_def)
  have "holds (d\<lparr>user_roles := rows\<rparr>) v j q \<longleftrightarrow> holds d v j q \<and> \<not> (v = u \<and> j = i \<and> q = p)" for v j q
  proof (cases "v = u \<and> j = i")
    case False
    then have "held v j x \<Longrightarrow> \<not> held u i x" for x by (auto simp: held_def)
    then show ?thesis using False new(2) by (auto simp: holds_def mem)
  next
    case True
    have "holds (d\<lparr>user_roles := rows\<rparr>) u i q \<longleftrightarrow> ns \<noteq> [] \<and> covers (ur_scope ?new) q"
      using new(2) by (auto simp: holds_def mem)
    also have "\<dots> \<longleftrightarrow> q \<in> set ns" by (auto simp: new(1) covers_ids)
    finally show ?thesis using True ns(3) [of q] covers_row [OF assms(1) r, of q] s(1) by simp
  qed
  with okd show ?thesis unfolding d by simp
qed

section \<open>The service in a quiet world\<close>

definition member_sound :: "'w world_scheme \<Rightarrow> bool" where
  "member_sound w \<longleftrightarrow> w_events w = [] \<and> roles_ok (w_db w)"

definition same_standing :: "int \<Rightarrow> 'w world_scheme \<Rightarrow> 'w world_scheme \<Rightarrow> bool" where
  "same_standing c w w' \<longleftrightarrow> no_rise c (w_db w) (w_db w')"

interpretation standing: frame "within member_sound (same_standing c)" for c
  by unfold_locales (auto simp: within_def same_standing_def no_rise_refl intro: no_rise_trans)

text \<open>Dropping an account from the cache of the permission engine concerns no table.\<close>

definition cache_only :: "(int \<Rightarrow> 'w world_scheme \<Rightarrow> 'w world_scheme) \<Rightarrow> bool" where
  "cache_only forget \<longleftrightarrow> (\<forall>u w. w_db (forget u w) = w_db w \<and> w_events (forget u w) = w_events w)"

lemma member_simps [simp]:
  "az_Store (mv_authz (NewMemberService engine forget)) = authz_repo"
  "mv_by_id (NewMemberService engine forget) = (\<lambda>i. stmt (get_user i))"
  "mv_by_email (NewMemberService engine forget) = (\<lambda>e. stmt (get_user_by_email e))"
  "az_Invalidate (mv_authz (NewMemberService engine forget)) = (\<lambda>u. modify (forget u))"
  by (simp_all add: NewMemberService_def)

lemma authz_repo_simps [simp]:
  "ax_ListUserRoles authz_repo = (\<lambda>u. stmt (list_user_roles u))" "ax_RoleIDByKey authz_repo = (\<lambda>k. stmt (role_id_by_key k))"
  "ax_ListProjectMembers authz_repo = (\<lambda>p. stmt (list_project_members p))"
  "ax_GrantProject authz_repo = (\<lambda>u i p. stmt (grant_project u i p))"
  "ax_RevokeProject authz_repo = (\<lambda>u i p. stmt (revoke_project u i p))"
  "ax_SetRoleFields authz_repo = (\<lambda>i k fs. stmt (set_role_fields i k fs))"
  "ax_RoleFields authz_repo = (\<lambda>i k. stmt (role_fields i k))"
  "ax_EnsureRole authz_repo = (\<lambda>r. stmt (ensure_role r))"
  "ax_ReplaceRolePermissions authz_repo = (\<lambda>i ks. stmt (replace_role_permissions i ks))"
  by (simp_all add: authz_repo_def)

lemma member_reads [simp]:
  "reads_only (get_user i)" "reads_only (get_user_by_email e)" "reads_only (list_user_roles u)"
  "reads_only (role_id_by_key k)" "reads_only (list_project_members p)" "reads_only (role_fields i k)"
  by (simp_all add: reads_only_def get_user_def get_user_by_email_def list_user_roles_def role_id_by_key_def
      list_project_members_def role_fields_def query_def)

lemma run_mb_require:
  "run_state (mb_require (NewMemberService engine forget) caller key p) w =
     (case RequireProject (engine w) caller key p of None \<Rightarrow> Inr () | Some e \<Rightarrow> Inl (MbAuthz e), w)"
  by (simp add: mb_require_def NewMemberService_def)

lemma run_mb_pass: "run_state (mb_pass m) w =
    (case run_state m w of (r, w') \<Rightarrow> (case r of Inl e \<Rightarrow> Inl (MbSvc (SvcOther e)) | Inr x \<Rightarrow> Inr x, w'))"
  by (simp add: mb_pass_def split: prod.split)

lemma run_mb_or: "run_state (mb_or err m) w =
    (case run_state m w of (r, w') \<Rightarrow> (case r of Inl e \<Rightarrow> Inl err | Inr x \<Rightarrow> Inr x, w'))"
  by (simp add: mb_or_def split: prod.split)

lemmas member_run = run_attempt run_mb_require run_mb_pass run_mb_or run_read

lemma run_rankOf:
  assumes "w_events w = []" and "\<not> u_is_admin c" and "run_state (rankOf (NewMemberService engine forget) (Some c) p) w = (r, w')"
  shows "w' = w \<and> (\<forall>n. r = Inr n \<longrightarrow> (\<exists>as. fst (list_user_roles (u_id c) (w_now w) (w_db w)) = Inr as \<and> n = best_rank p as))"
  using assms by (auto simp: rankOf_def member_run split: sum.splits)

lemma best_rank_witness:
  "best_rank p as = 0 \<or> (\<exists>a\<in>set as. (as_Unscoped a \<or> p \<in> set (as_ProjectIDs a)) \<and> best_rank p as = RoleRank (as_RoleKey a))"
proof (induction as rule: rev_induct)
  case (snoc a as)
  then show ?case by (auto simp: best_rank_def)
qed (simp add: best_rank_def)

lemma read_assignments_mem:
  "read_assignments rows = Inr as \<Longrightarrow> a \<in> set as \<Longrightarrow>
     \<exists>r ur. (r, ur) \<in> set rows \<and> as_RoleID a = ro_id r \<and> as_RoleKey a = ro_key r
       \<and> decodeScope (ur_scope ur) = Inr (as_ProjectIDs a, as_Unscoped a)"
proof (induction rows arbitrary: as rule: read_assignments.induct)
  case (2 r ur rows)
  from 2(2) obtain ids unscoped out where d: "decodeScope (ur_scope ur) = Inr (ids, unscoped)"
    and out: "read_assignments rows = Inr out"
    and as: "as = \<lparr>as_RoleID = ro_id r, as_RoleKey = ro_key r, as_RoleName = ro_name r, as_ProjectIDs = ids, as_Unscoped = unscoped\<rparr> # out"
    by (auto simp: bind_res_Inr_iff)
  from 2(3) as d 2(1) [OF out] show ?case by fastforce
qed simp

text \<open>The rank the service finds is one the caller has.\<close>

lemma best_rank_on:
  assumes "roles_ok d" and "fst (list_user_roles c now d) = Inr as"
  shows "best_rank p as \<le> rank_on d c p"
proof (cases "best_rank p as = 0")
  case True
  then show ?thesis by (simp add: rank_on_def)
next
  case False
  with best_rank_witness [of p as] obtain a where a: "a \<in> set as" "as_Unscoped a \<or> p \<in> set (as_ProjectIDs a)"
    "best_rank p as = RoleRank (as_RoleKey a)" by blast
  from assms(2) have "read_assignments (sort_key (\<lambda>x. ro_key (fst x)) (roles_of_user d c)) = Inr as"
    by (simp add: list_user_roles_def)
  from read_assignments_mem [OF this a(1)] obtain r ur where m: "(r, ur) \<in> set (roles_of_user d c)"
    "as_RoleKey a = ro_key r" "decodeScope (ur_scope ur) = Inr (as_ProjectIDs a, as_Unscoped a)" by auto
  then have ur: "ur \<in> set (user_roles d)" "ur_user_id ur = c" "find_role d (ur_role_id ur) = Some r"
    by (auto simp: roles_of_user_def split: option.splits)
  have "covers (ur_scope ur) p" using decode_covers [OF _ m(3)] assms(1) ur(1) a(2) by (auto simp: roles_ok_def)
  with ur have h: "holds d c (ur_role_id ur) p" by (auto simp: holds_def held_def)
  have "r \<in> set (role_rows d)" "ro_id r = ur_role_id ur"
    using ur(3) by (auto simp: find_role_def find_Some_iff)
  with h ur(3) m(2) a(3) show ?thesis
    unfolding rank_on_def by (intro Max_ge) (auto simp: role_rank_def image_iff intro!: bexI [of _ r])
qed

lemma grant_project_failed: "fst (grant_project u i p now d) = Inl e \<Longrightarrow> snd (grant_project u i p now d) = d"
proof -
  have "fst (grant_project u i p now d) = Inr () \<or> snd (grant_project u i p now d) = d"
    unfolding grant_project_def by (simp only: split: if_split) simp
  then show "fst (grant_project u i p now d) = Inl e \<Longrightarrow> snd (grant_project u i p now d) = d" by auto
qed

lemma revoke_project_failed: "fst (revoke_project u i p now d) = Inl e \<Longrightarrow> snd (revoke_project u i p now d) = d"
proof -
  have "fst (revoke_project u i p now d) = Inr () \<or> snd (revoke_project u i p now d) = d"
    unfolding revoke_project_def by (simp only: split: if_split) simp
  then show "fst (revoke_project u i p now d) = Inl e \<Longrightarrow> snd (revoke_project u i p now d) = d" by auto
qed

lemma role_id_by_key_rank:
  assumes "roles_ok d" and "fst (role_id_by_key key now d) = Inr i"
  shows "role_rank d i = RoleRank key"
proof -
  obtain r where r: "find (\<lambda>r. ro_key r = key) (role_rows d) = Some r" "ro_id r = i"
    using assms(2) by (auto simp: role_id_by_key_def split: if_splits option.splits)
  then have m: "r \<in> set (role_rows d)" "ro_key r = key" using find_SomeD [OF r(1)] by auto
  obtain r' where r': "find_role d i = Some r'"
    using m(1) r(2) by (cases "find_role d i") (auto simp: find_role_def find_None_iff)
  then have "r' \<in> set (role_rows d)" "ro_id r' = i" by (auto simp: find_role_def dest: find_SomeD)
  with m(1) r(2) assms(1) have "r' = r" by (auto simp: roles_ok_def distinct_map dest: inj_onD)
  with r' m(2) show ?thesis by (simp add: role_rank_def)
qed

lemma get_user_not_admin:
  assumes "roles_ok d" and "fst (get_user u now d) = Inr x" and "\<not> u_is_admin x"
  shows "\<not> platform_admin d u"
proof
  assume "platform_admin d u"
  then obtain y where y: "y \<in> set (users d)" "u_id y = u" "u_is_admin y" by (auto simp: platform_admin_def)
  from assms(2) obtain z where z: "find (\<lambda>u'. u_id u' = u \<and> live_user u') (users d) = Some z" "x = user.truncate z"
    by (auto simp: get_user_def split: option.splits)
  then have "z \<in> set (users d)" "u_id z = u" using find_SomeD [OF z(1)] by auto
  with y(1,2) assms(1) have "z = y" by (auto simp: roles_ok_def distinct_map dest: inj_onD)
  with y(3) z(2) assms(3) show False by (simp add: user.defs)
qed

lemma grant_role_keeps:
  fixes w :: "'w world_scheme"
  assumes "member_sound w" and "cache_only forget" and "small p" and "u \<noteq> c" and "\<not> platform_admin (w_db w) u"
    and "0 < RoleRank key" and "RoleRank key \<le> rank_on (w_db w) c p"
    and "run_state (grant_role (NewMemberService engine forget) p u key) w = (r, w')"
  shows "member_sound w' \<and> same_standing c w w'"
proof -
  let ?d = "w_db w"
  have quiet: "w_events w = []" and okd: "roles_ok ?d" using assms(1) by (simp_all add: member_sound_def)
  show ?thesis
  proof (cases "fst (role_id_by_key key (w_now w) ?d)")
    case (Inl e)
    with assms(8) quiet assms(1) show ?thesis
      by (auto simp: grant_role_def member_run same_standing_def no_rise_refl)
  next
    case (Inr i)
    show ?thesis
    proof (cases "fst (grant_project u i p (w_now w) ?d)")
      case failed: (Inl e)
      with assms(8) quiet Inr grant_project_failed [OF failed] have "w' = w"
        by (auto simp: grant_role_def member_run run_stmt_alone)
      with assms(1) show ?thesis by (simp add: same_standing_def no_rise_refl)
    next
      case granted: (Inr x)
      let ?d' = "snd (grant_project u i p (w_now w) ?d)"
      from assms(8) quiet Inr granted have w': "w' = forget u (w\<lparr>w_db := ?d'\<rparr>)"
        by (auto simp: grant_role_def member_run run_stmt_alone)
      from granted have g: "fst (grant_project u i p (w_now w) ?d) = Inr ()" by simp
      note gr = grant_project_holds [OF okd assms(3) g]
      have "no_rise c ?d ?d'"
      proof (rule no_riseI)
        show "?d' = ?d\<lparr>user_roles := user_roles ?d'\<rparr>" using gr by blast
      qed (use gr assms(4-7) role_id_by_key_rank [OF okd Inr] in \<open>auto simp: in_reach_def\<close>)
      with gr quiet assms(2) show ?thesis
        by (simp add: w' member_sound_def same_standing_def cache_only_def)
    qed
  qed
qed

lemma Grant_keeps:
  assumes "\<not> u_is_admin c" and "cache_only forget" and "small p"
  shows "keeps (within member_sound (same_standing (u_id c))) (Grant (NewMemberService engine forget :: 'w world_scheme member_service) (Some c) p u key)"
proof (rule keepsI, unfold within_def, intro impI)
  fix w w' :: "'w world_scheme" and r
  let ?s = "NewMemberService engine forget :: 'w world_scheme member_service" and ?d = "w_db w"
  assume run: "run_state (Grant ?s (Some c) p u key) w = (r, w')" and sound: "member_sound w"
  then have quiet: "w_events w = []" and okd: "roles_ok ?d" by (simp_all add: member_sound_def)
  show "member_sound w' \<and> same_standing (u_id c) w w'"
  proof (cases "w' = w")
    case True
    then show ?thesis using sound by (simp add: same_standing_def no_rise_refl)
  next
    case False
    with run quiet have "u_id c \<noteq> u" by (auto simp: Grant_def member_run split: option.splits if_splits)
    moreover from False run quiet calculation obtain x where x: "fst (get_user u (w_now w) ?d) = Inr x" "\<not> u_is_admin x"
      and rest: "run_state (attempt (rankOf ?s (Some c) p) (\<lambda>callerRank.
               if (RoleRank key = 0 \<or> RoleRank key > callerRank) \<and> \<not> u_is_admin c
               then fail ErrRoleTooHigh else grant_role ?s p u key)) w = (r, w')"
      by (auto simp: Grant_def member_run split: option.splits if_splits sum.splits)
    obtain q v where q: "run_state (rankOf ?s (Some c) p) w = (q, v)" by fastforce
    from run_rankOf [OF quiet assms(1) q] have v: "v = w" by simp
    from rest q v False obtain n where n: "q = Inr n" by (cases q) (auto simp: run_attempt)
    with run_rankOf [OF quiet assms(1) q] obtain as where
      as: "fst (list_user_roles (u_id c) (w_now w) ?d) = Inr as" "n = best_rank p as" by blast
    have rest': "run_state (if (RoleRank key = 0 \<or> RoleRank key > n) \<and> \<not> u_is_admin c
               then fail ErrRoleTooHigh else grant_role ?s p u key) w = (r, w')"
      using rest q v n by (simp add: run_attempt)
    with False assms(1) have rank: "RoleRank key \<noteq> 0" "RoleRank key \<le> n" by (auto split: if_splits)
    moreover have "0 < RoleRank key" using rank(1) RoleRank_bounds(1) [of key] by simp
    moreover have "run_state (grant_role ?s p u key) w = (r, w')" using rest' rank by simp
    ultimately show ?thesis
      using grant_role_keeps [OF sound assms(2,3), of u "u_id c" key engine r w'] get_user_not_admin [OF okd x]
        best_rank_on [OF okd as(1), of p] as(2) by simp
  qed
qed

lemma read_assignments_row:
  "read_assignments rows = Inr as \<Longrightarrow> (r, ur) \<in> set rows \<Longrightarrow>
     \<exists>a\<in>set as. as_RoleID a = ro_id r \<and> decodeScope (ur_scope ur) = Inr (as_ProjectIDs a, as_Unscoped a)"
proof (induction rows arbitrary: as rule: read_assignments.induct)
  case (2 r0 ur0 rows)
  then obtain ids unscoped out where d: "decodeScope (ur_scope ur0) = Inr (ids, unscoped)" and out: "read_assignments rows = Inr out"
    and as: "as = \<lparr>as_RoleID = ro_id r0, as_RoleKey = ro_key r0, as_RoleName = ro_name r0, as_ProjectIDs = ids, as_Unscoped = unscoped\<rparr> # out"
    by (auto simp: bind_res_Inr_iff)
  show ?case
  proof (cases "(r, ur) = (r0, ur0)")
    case True
    with d show ?thesis by (simp add: as)
  next
    case False
    with 2(1) [OF out] 2(3) show ?thesis by (auto simp: as)
  qed
qed simp

lemma scoped_misses:
  assumes "wf_scope sc" and "sc \<noteq> None" and "sc \<noteq> Some []"
  shows "\<exists>q. \<not> covers sc q"
  using assms(1)
proof (cases rule: wf_scopeE)
  case (many s ns)
  obtain q where "q \<notin> set ns" using ex_new_if_finite [OF infinite_UNIV_int, of "set ns"] by auto
  with many show ?thesis using covers_many by auto
next
  case (one s n)
  then show ?thesis using covers_one [of s n "n + 1"] by auto
qed (use assms in auto)

text \<open>A member that is listed and may be changed.\<close>

lemma listed_member:
  assumes "roles_ok d" and "m \<in> set (concat (map (member_of d p) (user_roles d)))"
  shows "holds d (me_UserID m) (me_RoleID m) p \<and> role_rank d (me_RoleID m) = RoleRank (me_RoleKey m)
    \<and> (me_IsAdmin m \<or> \<not> platform_admin d (me_UserID m))
    \<and> (\<exists>r ur. (r, ur) \<in> set (roles_of_user d (me_UserID m)) \<and> ro_id r = me_RoleID m \<and> ur \<in> set (user_roles d)
         \<and> held (me_UserID m) (me_RoleID m) ur)"
proof -
  from assms(2) obtain ur r x where ur: "ur \<in> set (user_roles d)" and r: "find_role d (ur_role_id ur) = Some r"
    and x: "find (\<lambda>u. u_id u = ur_user_id ur) (users d) = Some x" and c: "covers (ur_scope ur) p"
    and m: "me_UserID m = u_id x" "me_IsAdmin m = u_is_admin x" "me_RoleID m = ro_id r" "me_RoleKey m = ro_key r"
    by (fastforce simp: member_of_def split: option.splits if_splits dest: sym)
  have ids: "ro_id r = ur_role_id ur" "u_id x = ur_user_id ur" "x \<in> set (users d)"
    using r find_SomeD [OF x] by (auto simp: find_role_def dest: find_SomeD)
  have "y = x" if "y \<in> set (users d)" "u_id y = u_id x" for y
    using that ids(3) assms(1) by (auto simp: roles_ok_def distinct_map dest: inj_onD)
  then have "me_IsAdmin m \<or> \<not> platform_admin d (me_UserID m)" by (auto simp: platform_admin_def m)
  moreover have "holds d (me_UserID m) (me_RoleID m) p" using ur c ids by (auto simp: holds_def held_def m)
  moreover have "role_rank d (me_RoleID m) = RoleRank (me_RoleKey m)" using r ids by (simp add: role_rank_def m)
  moreover have "(r, ur) \<in> set (roles_of_user d (me_UserID m))"
    using ur r ids by (force simp: roles_of_user_def m)
  ultimately show ?thesis using ur ids m by (auto simp: held_def)
qed

lemma Revoke_keeps:
  assumes "\<not> u_is_admin c" and "cache_only forget"
  shows "keeps (within member_sound (same_standing (u_id c))) (Revoke (NewMemberService engine forget :: 'w world_scheme member_service) (Some c) p u i)"
proof (rule keepsI, unfold within_def, intro impI)
  fix w w' :: "'w world_scheme" and r
  let ?s = "NewMemberService engine forget :: 'w world_scheme member_service" and ?d = "w_db w"
  let ?ms = "sort_key me_Fullname (concat (map (member_of ?d p) (user_roles ?d)))"
  let ?after = "\<lambda>n. case find (\<lambda>m. me_UserID m = u \<and> me_RoleID m = i) ?ms of
             None \<Rightarrow> fail (MbSvc SvcNotFound)
           | Some target \<Rightarrow>
               (case mayChange (Some c) n target of
                  Some e \<Rightarrow> fail e
                | None \<Rightarrow>
                    attempt (mb_pass (stmt (list_user_roles u))) (\<lambda>assignments.
                      if list_ex (\<lambda>a. as_RoleID a = i \<and> as_Unscoped a) assignments
                      then fail ErrUnscopedMembership
                      else attempt (mb_pass (stmt (revoke_project u i p))) (\<lambda>_. do { modify (forget u); ok () })))"
  assume run: "run_state (Revoke ?s (Some c) p u i) w = (r, w')" and sound: "member_sound w"
  then have quiet: "w_events w = []" and okd: "roles_ok ?d" by (simp_all add: member_sound_def)
  show "member_sound w' \<and> same_standing (u_id c) w w'"
  proof (cases "w' = w")
    case True
    then show ?thesis using sound by (simp add: same_standing_def no_rise_refl)
  next
    case False
    have req: "RequireProject (engine w) (Some c) MembersManage p = None"
      using False run by (cases "RequireProject (engine w) (Some c) MembersManage p") (auto simp: Revoke_def run_attempt run_mb_require)
    have "run_state (mb_require ?s (Some c) MembersManage p) w = (Inr (), w)" by (simp add: run_mb_require req)
    note run1 = run [unfolded Revoke_def run_attempt_after [OF this] member_simps authz_repo_simps]
    have uc: "u \<noteq> u_id c" using False run1 by auto
    have ms: "run_state (mb_pass (stmt (list_project_members p))) w = (Inr ?ms, w)"
      using quiet by (simp add: run_mb_pass run_read list_project_members_def query_def)
    have "map_option u_id (Some c) \<noteq> Some u" using uc by simp
    note rest = run1 [unfolded if_not_P [OF this] run_attempt_after [OF ms]]
    obtain q v where q: "run_state (rankOf ?s (Some c) p) w = (q, v)" by fastforce
    from run_rankOf [OF quiet assms(1) q] have v: "v = w" by simp
    from rest q v False obtain n where n: "q = Inr n" by (cases q) (auto simp: run_attempt)
    with run_rankOf [OF quiet assms(1) q] obtain as where
      as: "fst (list_user_roles (u_id c) (w_now w) ?d) = Inr as" "n = best_rank p as" by blast
    from rest q v n have rest': "run_state (?after n) w = (r, w')" by (simp add: run_attempt)
    obtain m where m: "find (\<lambda>m. me_UserID m = u \<and> me_RoleID m = i) ?ms = Some m"
      using rest' False by (cases "find (\<lambda>m. me_UserID m = u \<and> me_RoleID m = i) ?ms") auto
    have may: "mayChange (Some c) n m = None" using rest' False m by (cases "mayChange (Some c) n m") auto
    from find_SomeD [OF m] have mem: "m \<in> set (concat (map (member_of ?d p) (user_roles ?d)))" "me_UserID m = u" "me_RoleID m = i"
      by auto
    from rest' m may have rest2: "run_state (attempt (mb_pass (stmt (list_user_roles u))) (\<lambda>assignments.
        if list_ex (\<lambda>a. as_RoleID a = i \<and> as_Unscoped a) assignments then fail ErrUnscopedMembership
        else attempt (mb_pass (stmt (revoke_project u i p))) (\<lambda>_. do { modify (forget u); ok () }))) w = (r, w')"
      by simp
    obtain bs where bs: "fst (list_user_roles u (w_now w) ?d) = Inr bs" "\<not> list_ex (\<lambda>a. as_RoleID a = i \<and> as_Unscoped a) bs"
      using rest2 quiet False by (cases "fst (list_user_roles u (w_now w) ?d)") (auto simp: member_run split: if_splits)
    from listed_member [OF okd mem(1)] mem obtain x ur where l: "holds ?d u i p" "role_rank ?d i = RoleRank (me_RoleKey m)"
      "me_IsAdmin m \<or> \<not> platform_admin ?d u" "(x, ur) \<in> set (roles_of_user ?d u)" "ro_id x = i"
      "ur \<in> set (user_roles ?d)" "held u i ur" by auto
    have reach: "in_reach ?d (u_id c) u i p"
      using may assms(1) l(2,3) uc best_rank_on [OF okd as(1), of p] as(2) by (auto simp: mayChange_def in_reach_def split: if_splits)
    from bs(1) have "read_assignments (sort_key (\<lambda>x. ro_key (fst x)) (roles_of_user ?d u)) = Inr bs"
      by (simp add: list_user_roles_def)
    from read_assignments_row [OF this, of x ur] l(4,5) obtain a where "a \<in> set bs" "as_RoleID a = i"
      "decodeScope (ur_scope ur) = Inr (as_ProjectIDs a, as_Unscoped a)" by auto
    moreover with bs(2) have "\<not> as_Unscoped a" by (auto simp: list_ex_iff)
    moreover have wf: "wf_scope (ur_scope ur)" using okd l(6) by (simp add: roles_ok_def)
    ultimately have "ur_scope ur \<noteq> None \<and> ur_scope ur \<noteq> Some []" 
      using decode_covers [OF wf, of "as_ProjectIDs a" "as_Unscoped a"] by simp
    with scoped_misses [OF wf] covers_row [OF okd l(6,7)] have partial: "\<not> (\<forall>q. holds ?d u i q)" by blast
    show ?thesis
    proof (cases "fst (revoke_project u i p (w_now w) ?d)")
      case failed: (Inl e)
      with rest2 quiet bs revoke_project_failed [OF failed] have "w' = w" by (auto simp: member_run run_stmt_alone)
      with False show ?thesis by simp
    next
      case revoked: (Inr y)
      let ?d' = "snd (revoke_project u i p (w_now w) ?d)"
      from rest2 quiet bs revoked have w': "w' = forget u (w\<lparr>w_db := ?d'\<rparr>)"
        by (auto simp: member_run run_stmt_alone)
      from revoked have g: "fst (revoke_project u i p (w_now w) ?d) = Inr ()" by simp
      note rv = revoke_project_holds [OF okd l(1) partial g]
      have "no_rise (u_id c) ?d ?d'"
      proof (rule no_riseI)
        show "?d' = ?d\<lparr>user_roles := user_roles ?d'\<rparr>" using rv by blast
      qed (use rv uc reach partial in auto)
      with rv quiet assms(2) show ?thesis by (simp add: w' member_sound_def same_standing_def cache_only_def)
    qed
  qed
qed

lemma standing_require: "keeps (within member_sound (same_standing c)) (mb_require (NewMemberService engine forget) caller key p)"
  by (rule keepsI) (auto simp: run_mb_require within_def same_standing_def no_rise_refl)

lemma standing_read:
  "reads_only f \<Longrightarrow> keeps (within member_sound (same_standing c)) (mb_or e (stmt f))"
  by (rule keepsI) (auto simp: within_def member_sound_def run_mb_or run_read same_standing_def no_rise_refl split: sum.splits)

lemma GrantByEmail_keeps:
  assumes "\<not> u_is_admin c" and "cache_only forget" and "small p"
  shows "keeps (within member_sound (same_standing (u_id c)))
    (GrantByEmail (NewMemberService engine forget :: 'w world_scheme member_service) (Some c) p email key)"
  unfolding GrantByEmail_def Let_def member_simps
  by (intro standing.keeps_attempt standing.keeps_cond standing.keeps_fail standing_require standing_read Grant_keeps assms member_reads)

section \<open>Sequences of calls\<close>

datatype member_request =
    DoGrant int int string
  | DoGrantByEmail int string string
  | DoRevoke int int int

fun call_project :: "member_request \<Rightarrow> int" where
  "call_project (DoGrant p u key) = p"
| "call_project (DoGrantByEmail p email key) = p"
| "call_project (DoRevoke p u i) = p"

fun member_call :: "'w member_service \<Rightarrow> user option \<Rightarrow> member_request \<Rightarrow> ('w, member_error + unit) state" where
  "member_call s caller (DoGrant p u key) = Grant s caller p u key"
| "member_call s caller (DoGrantByEmail p email key) = GrantByEmail s caller p email key"
| "member_call s caller (DoRevoke p u i) = Revoke s caller p u i"

fun member_calls :: "'w member_service \<Rightarrow> user option \<Rightarrow> member_request list \<Rightarrow> ('w, (member_error + unit) list) state" where
  "member_calls s caller [] = State_Monad.return []"
| "member_calls s caller (call # calls) = do {
     r \<leftarrow> member_call s caller call;
     rs \<leftarrow> member_calls s caller calls;
     State_Monad.return (r # rs) }"

lemma member_calls_keep:
  assumes "\<not> u_is_admin c" and "cache_only forget" and "\<forall>call\<in>set calls. small (call_project call)"
  shows "keeps (within member_sound (same_standing (u_id c)))
    (member_calls (NewMemberService engine forget :: 'w world_scheme member_service) (Some c) calls)"
  using assms(3)
proof (induction calls)
  case Nil
  show ?case unfolding member_calls.simps by (rule standing.keeps_return)
next
  case (Cons call calls)
  have "keeps (within member_sound (same_standing (u_id c))) (member_call (NewMemberService engine forget :: 'w world_scheme member_service) (Some c) call)"
    using Cons.prems by (cases call)
      (simp_all add: Grant_keeps [OF assms(1,2)] GrantByEmail_keeps [OF assms(1,2)] Revoke_keeps [OF assms(1,2)])
  with Cons show ?case unfolding member_calls.simps
    by (intro standing.keeps_bind standing.keeps_return) auto
qed

text \<open> C4. Nobody who is not a platform administrator rises, or lifts anybody above themselves: whatever
  sequence of grants and revocations such an account makes, over any projects and by identifier or
  address, its own roles stay as they were; who holds a built-in role afterwards and did not before is
  somebody else, no platform administrator, and the role is not above the caller's own on that project;
  the same is true of who lost one, and nobody loses a role that covers every project. No other table
  changes. Identifiers are taken to be ones a JSON number can hold. \<close>
theorem members_never_rise:
  fixes w w' :: "'w world_scheme"
  assumes "w_events w = []" and "roles_ok (w_db w)" and "\<not> u_is_admin c" and "cache_only forget"
    and "\<forall>call\<in>set calls. small (call_project call)"
    and "run_state (member_calls (NewMemberService engine forget) (Some c) calls) w = (rs, w')"
  shows "(\<forall>i p. holds (w_db w') (u_id c) i p \<longleftrightarrow> holds (w_db w) (u_id c) i p)
    \<and> (\<forall>u i p. holds (w_db w') u i p \<and> \<not> holds (w_db w) u i p
         \<longrightarrow> in_reach (w_db w) (u_id c) u i p \<and> 0 < role_rank (w_db w) i)
    \<and> (\<forall>u i p. holds (w_db w) u i p \<and> \<not> holds (w_db w') u i p
         \<longrightarrow> in_reach (w_db w) (u_id c) u i p \<and> \<not> (\<forall>q. holds (w_db w) u i q))
    \<and> w_db w' = (w_db w)\<lparr>user_roles := user_roles (w_db w')\<rparr>"
proof -
  from keepsD [OF member_calls_keep [OF assms(3-5)] assms(6)] assms(1,2)
  have "no_rise (u_id c) (w_db w) (w_db w')" by (simp add: within_def member_sound_def same_standing_def)
  then show ?thesis unfolding no_rise_def by blast
qed

definition team_user :: "int \<Rightarrow> string \<Rightarrow> user_t" where
  "team_user i email = user.extend (demo_user\<lparr>u_id := i, u_email := email\<rparr>) (user_t.fields None)"

definition team_role :: "int \<Rightarrow> string \<Rightarrow> role_t" where
  "team_role i key = \<lparr>ro_id = i, ro_key = key, ro_name = key, ro_description = None, ro_active = True\<rparr>"

definition team_db :: db where
  "team_db = demo_db\<lparr>job_runs := [], jobs := [], job_schedules := [], users := [team_user 7 ''ann@x.test'', team_user 8 ''bob@x.test''],
     role_rows := [team_role 1 RoleProjectReader, team_role 2 RoleProjectWriter, team_role 3 RoleProjectAdmin],
     user_roles := [\<lparr>ur_user_id = 7, ur_role_id = 2, ur_scope = Some [(''project_ids'', JArr [JNum 1])]\<rparr>,
                    \<lparr>ur_user_id = 8, ur_role_id = 1, ur_scope = Some [(''project_ids'', JArr [JNum 1])]\<rparr>]\<rparr>"

definition team_world :: world where
  "team_world = demo_world\<lparr>w_db := team_db\<rparr>"

text \<open>An engine that lets everybody manage members everywhere.\<close>

definition lenient :: "world \<Rightarrow> int \<Rightarrow> string \<Rightarrow> string + decision" where
  "lenient w u key = Inr \<lparr>de_allowed = True, de_scopes = []\<rparr>"

definition team_calls :: "member_request list" where
  "team_calls = [DoGrant 1 8 ''project_admin'', DoGrant 1 8 ''project_writer'']"

definition team_run :: "(member_error + unit) list \<times> world" where
  "team_run = run_state (member_calls (NewMemberService lenient (\<lambda>u w. w))
     (Some (user.truncate (team_user 7 ''ann@x.test''))) team_calls) team_world"

lemma team_result:
  "fst team_run = [Inl ErrRoleTooHigh, Inr ()]"
  "user_roles (w_db (snd team_run)) = user_roles team_db @
    [\<lparr>ur_user_id = 8, ur_role_id = 2, ur_scope = Some [(''project_ids'', JArr [JNum 1])]\<rparr>]"
  by code_simp+

lemma team_ok: "roles_ok team_db"
proof -
  have "wf_scope (Some [(''project_ids'', JArr [JNum 1])])"
    using wf_ids [of "[1]"] by (simp add: ScopeKey_def small_def)
  then show ?thesis by (simp add: roles_ok_def team_db_def team_role_def team_user_def user.defs user_t.defs)
qed

theorem members_never_rise_witness:
  "\<exists>rs w'. run_state (member_calls (NewMemberService lenient (\<lambda>u w. w))
        (Some (user.truncate (team_user 7 ''ann@x.test''))) team_calls) team_world = (rs, w')
    \<and> rs = [Inl ErrRoleTooHigh, Inr ()]
    \<and> holds (w_db w') 8 2 1 \<and> \<not> holds (w_db team_world) 8 2 1
    \<and> in_reach (w_db team_world) 7 8 2 1 \<and> 0 < role_rank (w_db team_world) 2"
proof -
  let ?w = "snd team_run"
  have run: "run_state (member_calls (NewMemberService lenient (\<lambda>u w. w))
      (Some (user.truncate (team_user 7 ''ann@x.test''))) team_calls) team_world = (fst team_run, ?w)"
    by (simp add: team_run_def)
  have new: "holds (w_db ?w) 8 2 1" and old: "\<not> holds (w_db team_world) 8 2 1"
    by (auto simp: holds_def team_result held_def team_world_def team_db_def
        covers_ids [of "[1]", unfolded ScopeKey_def, simplified])
  have "w_events team_world = []" "roles_ok (w_db team_world)"
    by (simp_all add: team_world_def demo_world_def team_ok)
  moreover have "\<not> u_is_admin (user.truncate (team_user 7 ''ann@x.test''))" "cache_only (\<lambda>u w :: world. w)"
    "\<forall>call\<in>set team_calls. small (call_project call)"
    by (simp_all add: team_user_def user.defs user_t.defs demo_user_def cache_only_def team_calls_def small_def)
  ultimately have "in_reach (w_db team_world) 7 8 2 1 \<and> 0 < role_rank (w_db team_world) 2"
    using members_never_rise [OF _ _ _ _ _ run] new old by (simp add: team_user_def user.defs user_t.defs)
  with run new old show ?thesis by (simp add: team_result)
qed

end
