(* ===== verification/RoleProps.thy ===== *)
theory RoleProps
  imports MemberProps
begin

text \<open>
  What the role mapping guarantees: the visibility an administrator stores for a built-in role is the one
  reported afterwards, the others keeping theirs, and reconciling at boot leaves every built-in role with
  exactly the permissions of the source, and nothing else changed.
\<close>

section \<open>Run visibility\<close>

text \<open>One row of the report, as a function of the database.\<close>

definition seen_by :: "instant \<Rightarrow> db \<Rightarrow> Role \<Rightarrow> member_error + RoleRunView" where
  "seen_by now d role = (case fst (role_id_by_key (ro_Key role) now d) of
      Inl e \<Rightarrow> Inl (MbSvc (SvcOther e))
    | Inr i \<Rightarrow> (case fst (role_fields i RunsRead now d) of
        Inl e \<Rightarrow> Inl (MbSvc (SvcOther e))
      | Inr (names, restricted) \<Rightarrow> Inr \<lparr>rrv_Key = ro_Key role, rrv_Name = ro_Name role,
          rrv_Description = ro_Description role,
          rrv_View = (if restricted then RunViewOf names else FullRunView)\<rparr>))"

lemma run_role_view:
  fixes w :: "'w world_scheme"
  assumes "w_events w = []"
  shows "run_state (role_view (NewMemberService engine forget) role) w = (seen_by (w_now w) (w_db w) role, w)"
  using assms by (auto simp: role_view_def seen_by_def member_run split: sum.splits)

lemma run_role_views:
  fixes w :: "'w world_scheme"
  assumes "w_events w = []"
  shows "run_state (role_views (NewMemberService engine forget) roles) w = (Inr vs, w')
    \<longleftrightarrow> map (seen_by (w_now w) (w_db w)) roles = map Inr vs \<and> w' = w"
proof (induction roles arbitrary: vs)
  case (Cons role roles)
  show ?case using assms
    by (auto simp: attempt_Inr run_role_view Cons Cons_eq_map_conv)
qed auto

text \<open>The names a view is stored as are read back as that view.\<close>

lemma fields_never_star: "Fields v \<noteq> [''*'']"
  by (auto simp: Fields_def RunFieldOutput_def RunFieldError_def RunFieldRequest_def)

lemma allow_names_strings: "allow_names (map JStr xs) = Some xs"
  by (induction xs) simp_all

lemma decode_stored: "xs \<noteq> [''*''] \<Longrightarrow> decode_fields (fields_json (Some xs)) = Inr (xs, True)"
  by (simp add: decode_fields_def fields_json_def allow_names_strings)

lemma decode_nothing: "decode_fields (fields_json None) = Inr ([], False)"
  by (simp add: decode_fields_def fields_json_def)

lemma role_fields_set:
  assumes "fst (set_role_fields i key fs now d) = Inr ()"
  shows "fst (role_fields j k now' (snd (set_role_fields i key fs now d)))
      = (if j = i \<and> k = key then decode_fields (fields_json fs) else fst (role_fields j k now' d))"
    and "fst (role_id_by_key rk now' (snd (set_role_fields i key fs now d))) = fst (role_id_by_key rk now' d)"
proof -
  show "fst (role_fields j k now' (snd (set_role_fields i key fs now d)))
      = (if j = i \<and> k = key then decode_fields (fields_json fs) else fst (role_fields j k now' d))"
  proof (cases "holds_permission d i key")
    case True
    then have hit: "find (\<lambda>p. rp_role_id p = i \<and> rp_key p = key) (role_permissions d) \<noteq> None"
      by (auto simp: holds_permission_def list_ex_iff find_None_iff)
    from True have "snd (set_role_fields i key fs now d) = d\<lparr>role_permissions :=
        update_where (\<lambda>p. rp_role_id p = i \<and> rp_key p = key) (\<lambda>p. p\<lparr>rp_fields := fields_json fs\<rparr>) (role_permissions d)\<rparr>"
      by (simp add: set_role_fields_def)
    then have read: "fst (role_fields j k now' (snd (set_role_fields i key fs now d))) =
        (case map_option (\<lambda>p. if rp_role_id p = i \<and> rp_key p = key then p\<lparr>rp_fields := fields_json fs\<rparr> else p)
            (find (\<lambda>p. rp_role_id p = j \<and> rp_key p = k) (role_permissions d)) of
          None \<Rightarrow> Inr ([], False) | Some p \<Rightarrow> decode_fields (rp_fields p))"
      by (simp add: role_fields_def find_update_where)
    show ?thesis
    proof (cases "j = i \<and> k = key")
      case True
      with hit show ?thesis unfolding read by (auto dest: find_SomeD)
    next
      case False
      then show ?thesis unfolding read by (auto simp: role_fields_def dest: find_SomeD split: option.splits)
    qed
  next
    case False
    then have miss: "find (\<lambda>p. rp_role_id p = i \<and> rp_key p = key) (role_permissions d) = None"
      by (auto simp: holds_permission_def list_ex_iff find_None_iff)
    from False assms have "snd (set_role_fields i key fs now d) = d\<lparr>role_permissions := role_permissions d
        @ [\<lparr>rp_role_id = i, rp_key = key, rp_fields = fields_json fs\<rparr>]\<rparr>"
      by (simp add: set_role_fields_def split: option.splits)
    then show ?thesis using miss by (auto simp: role_fields_def find_append split: option.splits)
  qed
  show "fst (role_id_by_key rk now' (snd (set_role_fields i key fs now d))) = fst (role_id_by_key rk now' d)"
    by (simp add: set_role_fields_def role_id_by_key_def split: option.split)
qed

lemma builtin_keys: "role \<in> set BuiltinRoles \<Longrightarrow> IsBuiltin (ro_Key role)"
  by (auto simp: BuiltinRoles_def IsBuiltin_def)

lemma role_ids_differ:
  assumes "distinct (map ro_id (role_rows d))" and "fst (role_id_by_key k now d) = Inr i"
    and "fst (role_id_by_key k' now' d) = Inr i"
  shows "k = k'"
proof -
  from assms(2,3) obtain r r' where "find (\<lambda>r. ro_key r = k) (role_rows d) = Some r" "ro_id r = i"
      "find (\<lambda>r. ro_key r = k') (role_rows d) = Some r'" "ro_id r' = i"
    by (auto simp: role_id_by_key_def split: if_splits option.splits)
  then have "r \<in> set (role_rows d)" "r' \<in> set (role_rows d)" "ro_key r = k" "ro_key r' = k'" "ro_id r = ro_id r'"
    by (auto dest: find_SomeD)
  then show ?thesis using assms(1) by (metis distinct_map inj_onD)
qed

text \<open>What storing a view does to the rows of the report.\<close>

lemma seen_by_set:
  assumes "distinct (map ro_id (role_rows d))" and "fst (role_id_by_key key now d) = Inr i"
    and "names = (if \<not> Output view \<or> \<not> Error view \<or> \<not> RequestURL view then Some (Fields view) else None)"
    and "fst (set_role_fields i RunsRead names now d) = Inr ()" and "seen_by now d role = Inr v"
  shows "seen_by now (snd (set_role_fields i RunsRead names now d)) role
    = Inr (if rrv_Key v = key then v\<lparr>rrv_View := view\<rparr> else v)"
proof -
  let ?d = "snd (set_role_fields i RunsRead names now d)"
  from assms(5) obtain j where j: "fst (role_id_by_key (ro_Key role) now d) = Inr j"
    by (auto simp: seen_by_def split: sum.splits)
  have v: "rrv_Key v = ro_Key role" using assms(5) by (auto simp: seen_by_def split: sum.splits)
  have j': "fst (role_id_by_key (ro_Key role) now ?d) = Inr j" using j role_fields_set(2) [OF assms(4)] by simp
  show ?thesis
  proof (cases "ro_Key role = key")
    case True
    with j assms(2) have "j = i" by simp
    moreover have "decode_fields (fields_json names) = Inr (if names = None then ([], False) else (Fields view, True))"
      using assms(3) fields_never_star by (simp add: decode_stored decode_nothing)
    moreover have "FullRunView = view" if "names = None"
      using that assms(3) by (cases view) (auto simp: FullRunView_def split: if_splits)
    ultimately show ?thesis using True j j' v assms(5) run_view_roundtrip [of view]
      by (auto simp: seen_by_def role_fields_set(1) [OF assms(4)] split: sum.splits)
  next
    case False
    with role_ids_differ [OF assms(1) j] assms(2) have "j \<noteq> i" by blast
    with False j j' v assms(5) show ?thesis
      by (auto simp: seen_by_def role_fields_set(1) [OF assms(4)])
  qed
qed

text \<open> C37. A run visibility survives the round trip through the store: after an administrator has set
  what a built-in role sees of a run, the report names exactly that view for the role, for each of the
  eight views, and the view it named before for every other role. \<close>
theorem run_visibility_roundtrip:
  fixes w w' :: "'w world_scheme"
  assumes "w_events w = []" and "distinct (map ro_id (role_rows (w_db w)))"
    and "run_state (RunVisibility (NewMemberService engine forget) caller) w = (Inr vs, w)"
    and "run_state (SetRunVisibility (NewMemberService engine forget) caller key view) w = (Inr (), w')"
  shows "run_state (RunVisibility (NewMemberService engine forget) caller) w' =
    (Inr (map (\<lambda>v. if rrv_Key v = key then v\<lparr>rrv_View := view\<rparr> else v) vs), w')"
proof -
  let ?names = "if \<not> Output view \<or> \<not> Error view \<or> \<not> RequestURL view then Some (Fields view) else None"
  from assms(3) have admin: "is_platform_admin caller"
    by (cases "is_platform_admin caller") (simp_all add: RunVisibility_def)
  note set = assms(4) [unfolded SetRunVisibility_def Let_def, simplified admin, simplified]
  from set assms(1) have "IsBuiltin key" by (cases "IsBuiltin key") simp_all
  with set assms(1) obtain i where i: "fst (role_id_by_key key (w_now w) (w_db w)) = Inr i"
    and s: "fst (set_role_fields i RunsRead ?names (w_now w) (w_db w)) = Inr ()"
    and w': "w' = w\<lparr>w_db := snd (set_role_fields i RunsRead ?names (w_now w) (w_db w))\<rparr>"
    by (auto simp: attempt_Inr member_run run_stmt_alone split: sum.splits)
  have before: "map (seen_by (w_now w) (w_db w)) BuiltinRoles = map Inr vs"
    using assms(1,3) admin by (simp add: RunVisibility_def run_role_views)
  have row: "seen_by (w_now w) (w_db w') role
      = map_sum id (\<lambda>v. if rrv_Key v = key then v\<lparr>rrv_View := view\<rparr> else v) (seen_by (w_now w) (w_db w) role)"
    if "role \<in> set BuiltinRoles" for role
  proof -
    from that arg_cong [OF before, of set] obtain v where "seen_by (w_now w) (w_db w) role = Inr v"
      by (metis (no_types, lifting) image_iff list.set_map)
    with seen_by_set [OF assms(2) i refl s] show ?thesis by (simp add: w')
  qed
  have "map (seen_by (w_now w) (w_db w')) BuiltinRoles
      = map (map_sum id (\<lambda>v. if rrv_Key v = key then v\<lparr>rrv_View := view\<rparr> else v)) (map (seen_by (w_now w) (w_db w)) BuiltinRoles)"
    unfolding map_map by (rule map_cong [OF refl]) (simp add: row)
  then have "map (seen_by (w_now w') (w_db w')) BuiltinRoles
      = map Inr (map (\<lambda>v. if rrv_Key v = key then v\<lparr>rrv_View := view\<rparr> else v) vs)"
    unfolding before by (simp add: w' comp_def)
  then show ?thesis using admin assms(1) by (simp add: RunVisibility_def run_role_views w')
qed

definition roles_world :: world where
  "roles_world = team_world\<lparr>w_db := team_db\<lparr>permission_keys := Catalog\<rparr>\<rparr>"

definition root_user :: user where
  "root_user = demo_user\<lparr>u_is_admin := True\<rparr>"

definition url_hidden :: RunView where
  "url_hidden = \<lparr>Output = True, Error = True, RequestURL = False\<rparr>"

definition full_report :: "RoleRunView list" where
  "full_report = map (\<lambda>r. \<lparr>rrv_Key = ro_Key r, rrv_Name = ro_Name r, rrv_Description = ro_Description r,
     rrv_View = FullRunView\<rparr>) BuiltinRoles"

theorem run_visibility_roundtrip_witness:
  "\<exists>w'. run_state (SetRunVisibility (NewMemberService lenient (\<lambda>u w. w)) (Some root_user) RoleProjectReader url_hidden)
      roles_world = (Inr (), w')
    \<and> run_state (RunVisibility (NewMemberService lenient (\<lambda>u w. w)) (Some root_user)) w' =
      (Inr (map (\<lambda>v. if rrv_Key v = RoleProjectReader then v\<lparr>rrv_View := url_hidden\<rparr> else v) full_report), w')"
proof -
  have quiet: "w_events roles_world = []" by (simp add: roles_world_def team_world_def demo_world_def)
  have admin: "is_platform_admin (Some root_user)" by (simp add: is_platform_admin_def root_user_def)
  have "map (seen_by (w_now roles_world) (w_db roles_world)) BuiltinRoles = map Inr full_report" by code_simp
  with quiet admin have before: "run_state (RunVisibility (NewMemberService lenient (\<lambda>u w. w)) (Some root_user)) roles_world
      = (Inr full_report, roles_world)"
    by (simp add: RunVisibility_def run_role_views)
  have ids: "distinct (map ro_id (role_rows (w_db roles_world)))" by code_simp
  have "fst (run_state (SetRunVisibility (NewMemberService lenient (\<lambda>u w. w)) (Some root_user) RoleProjectReader url_hidden)
      roles_world) = Inr ()" by code_simp
  then obtain w' where set: "run_state (SetRunVisibility (NewMemberService lenient (\<lambda>u w. w)) (Some root_user)
      RoleProjectReader url_hidden) roles_world = (Inr (), w')"
    by (cases "run_state (SetRunVisibility (NewMemberService lenient (\<lambda>u w. w)) (Some root_user)
        RoleProjectReader url_hidden) roles_world") simp
  from run_visibility_roundtrip [OF quiet ids before set] set show ?thesis by blast
qed

section \<open>Reconciling at boot\<close>

text \<open>What the tables of the role mapping promise of themselves, and that the catalogue has been synced.\<close>

definition mapping_ok :: "db \<Rightarrow> bool" where
  "mapping_ok d \<longleftrightarrow> distinct (map ro_key (role_rows d)) \<and> distinct (map ro_id (role_rows d))
     \<and> (\<forall>r\<in>set (role_rows d). ro_id r \<le> roles_seq d)
     \<and> (\<forall>p\<in>set (role_permissions d). \<exists>r\<in>set (role_rows d). ro_id r = rp_role_id p)
     \<and> distinct (map (\<lambda>p. (rp_role_id p, rp_key p)) (role_permissions d))
     \<and> set Catalog \<subseteq> set (permission_keys d)"

text \<open>What a role of that key is allowed, and with which restriction.\<close>

definition entry :: "role_permission_t \<Rightarrow> string \<times> json option" where
  "entry p = (rp_key p, rp_fields p)"

definition allowed :: "db \<Rightarrow> string \<Rightarrow> (string \<times> json option) set" where
  "allowed d k = entry ` {p \<in> set (role_permissions d). \<exists>r\<in>set (role_rows d). ro_key r = k \<and> ro_id r = rp_role_id p}"

text \<open>The permissions of the source; one that was there keeps its restriction, a new one has none.\<close>

definition reconciled :: "Role \<Rightarrow> (string \<times> json option) set \<Rightarrow> (string \<times> json option) set" where
  "reconciled role old = {(k, f) \<in> old. k \<in> set (ro_Permissions role)}
     \<union> {(k, None) | k. k \<in> set (ro_Permissions role) \<and> k \<notin> fst ` old}"

lemma reconciled_code [code]:
  "reconciled role old = {x \<in> old. fst x \<in> set (ro_Permissions role)}
     \<union> (\<lambda>k. (k, None)) ` (set (ro_Permissions role) - fst ` old)"
  by (auto simp: reconciled_def image_iff)

lemma insert_permissions_run:
  assumes "find_role d i \<noteq> None" and "set keys \<subseteq> set (permission_keys d)"
  shows "\<exists>new. insert_permissions i keys d = Inr (d\<lparr>role_permissions := role_permissions d @ new\<rparr>)
    \<and> set new = {\<lparr>rp_role_id = i, rp_key = k, rp_fields = None\<rparr> | k. k \<in> set keys \<and> \<not> holds_permission d i k}
    \<and> distinct new"
  using assms
proof (induction keys arbitrary: d)
  case Nil
  show ?case by simp
next
  case (Cons key keys)
  show ?case
  proof (cases "holds_permission d i key")
    case True
    with Cons.IH [of d] Cons.prems show ?thesis by fastforce
  next
    case False
    let ?p = "\<lparr>rp_role_id = i, rp_key = key, rp_fields = None\<rparr>"
    let ?d = "d\<lparr>role_permissions := role_permissions d @ [?p]\<rparr>"
    have err: "role_permission_error d i key = None"
      using Cons.prems by (simp add: role_permission_error_def)
    have "find_role ?d i \<noteq> None" "set keys \<subseteq> set (permission_keys ?d)"
      using Cons.prems by (simp_all add: find_role_def)
    from Cons.IH [OF this] obtain new where new: "insert_permissions i keys ?d = Inr (?d\<lparr>role_permissions := role_permissions ?d @ new\<rparr>)"
      "set new = {\<lparr>rp_role_id = i, rp_key = k, rp_fields = None\<rparr> | k. k \<in> set keys \<and> \<not> holds_permission ?d i k}" "distinct new"
      by blast
    have holds: "holds_permission ?d i k \<longleftrightarrow> holds_permission d i k \<or> k = key" for k
      by (auto simp: holds_permission_def)
    show ?thesis
    proof (intro exI conjI)
      show "insert_permissions i (key # keys) d = Inr (d\<lparr>role_permissions := role_permissions d @ ?p # new\<rparr>)"
        using False err new(1) by simp
      show "set (?p # new) = {\<lparr>rp_role_id = i, rp_key = k, rp_fields = None\<rparr> | k. k \<in> set (key # keys) \<and> \<not> holds_permission d i k}"
        using False by (auto simp: new(2) holds)
      show "distinct (?p # new)" using new(3) by (auto simp: new(2) holds)
    qed
  qed
qed

lemma allowed_row:
  assumes "mapping_ok d" and "r \<in> set (role_rows d)"
  shows "allowed d (ro_key r) = entry ` {p \<in> set (role_permissions d). rp_role_id p = ro_id r}"
proof -
  have "r' = r" if "r' \<in> set (role_rows d)" "ro_key r' = ro_key r" for r'
    using that assms by (auto simp: mapping_ok_def distinct_map dest: inj_onD)
  then have "(\<exists>r'\<in>set (role_rows d). ro_key r' = ro_key r \<and> ro_id r' = i) \<longleftrightarrow> ro_id r = i" for i
    using assms(2) by blast
  then show ?thesis unfolding allowed_def by (metis (no_types, lifting))
qed

lemma replaced:
  assumes "mapping_ok d" and "r \<in> set (role_rows d)" and "list_all pg_text keys" and "set keys \<subseteq> set Catalog"
  obtains d' where "replace_role_permissions (ro_id r) keys now d = (Inr (), d')" and "mapping_ok d'"
    and "d' = d\<lparr>role_permissions := role_permissions d'\<rparr>"
    and "allowed d' (ro_key r) = {(k, f) \<in> allowed d (ro_key r). k \<in> set keys}
      \<union> {(k, None) | k. k \<in> set keys \<and> k \<notin> fst ` allowed d (ro_key r)}"
    and "\<And>k. k \<noteq> ro_key r \<Longrightarrow> allowed d' k = allowed d k"
proof -
  let ?i = "ro_id r"
  let ?kept = "filter (\<lambda>p. \<not> (rp_role_id p = ?i \<and> rp_key p \<notin> set keys)) (role_permissions d)"
  let ?d = "d\<lparr>role_permissions := ?kept\<rparr>"
  have "find_role ?d ?i \<noteq> None" using assms(2) by (auto simp: find_role_def find_None_iff)
  moreover have "set keys \<subseteq> set (permission_keys ?d)" using assms(1,4) by (auto simp: mapping_ok_def)
  ultimately obtain new where run: "insert_permissions ?i keys ?d = Inr (?d\<lparr>role_permissions := role_permissions ?d @ new\<rparr>)"
    and new: "set new = {\<lparr>rp_role_id = ?i, rp_key = k, rp_fields = None\<rparr> | k. k \<in> set keys \<and> \<not> holds_permission ?d ?i k}"
    and dn: "distinct new"
    using insert_permissions_run by blast
  let ?d' = "d\<lparr>role_permissions := ?kept @ new\<rparr>"
  have holds: "holds_permission ?d ?i k \<longleftrightarrow> k \<in> fst ` allowed d (ro_key r)" if "k \<in> set keys" for k
    using that by (auto simp: holds_permission_def list_ex_iff allowed_row [OF assms(1,2)] entry_def image_iff)
  have perms: "set (?kept @ new) = {p \<in> set (role_permissions d). rp_role_id p = ?i \<longrightarrow> rp_key p \<in> set keys}
      \<union> {\<lparr>rp_role_id = ?i, rp_key = k, rp_fields = None\<rparr> | k. k \<in> set keys \<and> k \<notin> fst ` allowed d (ro_key r)}"
    using holds by (auto simp: new)
  have keys: "distinct (map (\<lambda>p. (rp_role_id p, rp_key p)) (?kept @ new))"
  proof -
    have "distinct (map (\<lambda>p. (rp_role_id p, rp_key p)) new)" using dn by (auto simp: distinct_map new intro!: inj_onI)
    moreover have "distinct (map (\<lambda>p. (rp_role_id p, rp_key p)) ?kept)"
      using assms(1) by (simp add: mapping_ok_def distinct_map_filter)
    moreover have "(rp_role_id p, rp_key p) \<noteq> (rp_role_id q, rp_key q)" if "p \<in> set ?kept" "q \<in> set new" for p q
      using that by (auto simp: new holds_permission_def list_ex_iff)
    ultimately show ?thesis by (auto simp: distinct_append)
  qed
  have ok: "mapping_ok ?d'"
    using assms(1,2) keys unfolding mapping_ok_def by (auto simp: new)
  show thesis
  proof (rule that)
    show "replace_role_permissions ?i keys now d = (Inr (), ?d')"
      using assms(3) run by (simp add: replace_role_permissions_def)
    show "allowed ?d' (ro_key r) = {(k, f) \<in> allowed d (ro_key r). k \<in> set keys}
      \<union> {(k, None) | k. k \<in> set keys \<and> k \<notin> fst ` allowed d (ro_key r)}"
    proof -
      have "allowed ?d' (ro_key r) = entry ` {p \<in> set (?kept @ new). rp_role_id p = ?i}"
        using allowed_row [OF ok, of r] assms(2) by simp
      also have "{p \<in> set (?kept @ new). rp_role_id p = ?i}
          = {p \<in> {p \<in> set (role_permissions d). rp_role_id p = ?i}. rp_key p \<in> set keys}
            \<union> {\<lparr>rp_role_id = ?i, rp_key = k, rp_fields = None\<rparr> | k. k \<in> set keys \<and> k \<notin> fst ` allowed d (ro_key r)}"
        unfolding perms by auto
      also have "entry ` \<dots> = {(k, f) \<in> entry ` {p \<in> set (role_permissions d). rp_role_id p = ?i}. k \<in> set keys}
          \<union> {(k, None) | k. k \<in> set keys \<and> k \<notin> fst ` allowed d (ro_key r)}"
      proof (unfold image_Un, rule arg_cong2 [where f = "(\<union>)"])
        show "entry ` {\<lparr>rp_role_id = ?i, rp_key = k, rp_fields = None\<rparr> | k. k \<in> set keys \<and> k \<notin> fst ` allowed d (ro_key r)}
            = {(k, None) | k. k \<in> set keys \<and> k \<notin> fst ` allowed d (ro_key r)}"
        proof -
          have "entry ` (\<lambda>k. \<lparr>rp_role_id = ?i, rp_key = k, rp_fields = None\<rparr>) ` K = (\<lambda>k. (k, None)) ` K" for K
            by (simp add: image_image entry_def)
          then show ?thesis by (simp only: setcompr_eq_image)
        qed
      qed (auto simp: entry_def image_iff)
      finally show ?thesis unfolding allowed_row [OF assms(1,2)] .
    qed
    fix k assume "k \<noteq> ro_key r"
    moreover have "r' = r" if "r' \<in> set (role_rows d)" "ro_id r' = ?i" for r'
      using that assms(1,2) by (auto simp: mapping_ok_def distinct_map dest: inj_onD)
    ultimately have "ro_id r' \<noteq> ?i" if "r' \<in> set (role_rows d)" "ro_key r' = k" for r'
      using that by metis
    then show "allowed ?d' k = allowed d k"
      unfolding allowed_def by (intro arg_cong [where f = "image entry"]) (auto simp: new)
  qed (rule ok, simp)
qed

definition good_role :: "Role \<Rightarrow> bool" where
  "good_role role \<longleftrightarrow> pg_text (ro_Key role) \<and> pg_text (ro_Name role) \<and> pg_text (ro_Description role)
     \<and> pg_varchar 100 (ro_Key role) \<and> pg_varchar 150 (ro_Name role) \<and> pg_varchar 500 (ro_Description role)
     \<and> list_all pg_text (ro_Permissions role) \<and> set (ro_Permissions role) \<subseteq> set Catalog"

text \<open>The one row of a role, as the source describes it.\<close>

definition described :: "db \<Rightarrow> Role \<Rightarrow> bool" where
  "described d role \<longleftrightarrow> (\<exists>r. filter (\<lambda>r. ro_key r = ro_Key role) (role_rows d) = [r] \<and> ro_name r = ro_Name role
     \<and> ro_description r = Some (ro_Description role))"

lemma ensured:
  assumes "mapping_ok d" and "good_role role"
  obtains r d' where "ensure_role role now d = (Inr (ro_id r), d')" and "mapping_ok d'"
    and "r \<in> set (role_rows d')" and "ro_key r = ro_Key role" and "described d' role"
    and "d' = d\<lparr>role_rows := role_rows d', roles_seq := roles_seq d'\<rparr>"
    and "\<And>k. allowed d' k = allowed d k"
    and "\<And>k. k \<noteq> ro_Key role \<Longrightarrow> filter (\<lambda>r. ro_key r = k) (role_rows d') = filter (\<lambda>r. ro_key r = k) (role_rows d)"
proof (cases "find (\<lambda>r. ro_key r = ro_Key role) (role_rows d)")
  case None
  let ?r = "\<lparr>ro_id = roles_seq d + 1, ro_key = ro_Key role, ro_name = ro_Name role,
      ro_description = Some (ro_Description role), ro_active = True\<rparr>"
  let ?d = "d\<lparr>roles_seq := roles_seq d + 1, role_rows := role_rows d @ [?r]\<rparr>"
  have fresh: "ro_key r \<noteq> ro_Key role" "ro_id r \<noteq> roles_seq d + 1" if "r \<in> set (role_rows d)" for r
    using that None assms(1) by (auto simp: find_None_iff mapping_ok_def)
  then have "filter (\<lambda>r. ro_key r = ro_Key role) (role_rows d) = []" by (auto simp: filter_empty_conv)
  show thesis
  proof (rule that [of ?r ?d])
    show "ensure_role role now d = (Inr (ro_id ?r), ?d)"
      using assms(2) None by (simp add: ensure_role_def good_role_def Let_def)
    show "mapping_ok ?d" using assms(1) fresh unfolding mapping_ok_def by (fastforce simp: image_iff)
    show "described ?d role" using fresh by (auto simp: described_def filter_empty_conv)
    show "allowed ?d k = allowed d k" for k
    proof -
      have "roles_seq d + 1 \<noteq> rp_role_id p" if "p \<in> set (role_permissions d)" for p
        using that assms(1) fresh(2) unfolding mapping_ok_def by metis
      then show ?thesis unfolding allowed_def by (intro arg_cong [where f = "image entry"]) (auto dest: sym)
    qed
  qed simp_all
next
  case (Some r0)
  let ?f = "\<lambda>x. x\<lparr>ro_name := ro_Name role, ro_description := Some (ro_Description role)\<rparr>"
  let ?P = "\<lambda>x. ro_key x = ro_Key role"
  let ?d = "d\<lparr>roles_seq := roles_seq d + 1, role_rows := update_where ?P ?f (role_rows d)\<rparr>"
  have r0: "r0 \<in> set (role_rows d)" "ro_key r0 = ro_Key role" using find_SomeD [OF Some] by simp_all
  have only: "filter ?P (role_rows d) = [r0]"
    using filter_one [of ro_key "role_rows d" r0] assms(1) r0 by (simp add: mapping_ok_def)
  have keys: "map ro_key (update_where ?P ?f (role_rows d)) = map ro_key (role_rows d)"
    "map ro_id (update_where ?P ?f (role_rows d)) = map ro_id (role_rows d)"
    by (auto simp: update_where_def)
  have pairs: "(\<exists>r\<in>set (update_where ?P ?f (role_rows d)). ro_key r = k \<and> ro_id r = i) \<longleftrightarrow> (\<exists>r\<in>set (role_rows d). ro_key r = k \<and> ro_id r = i)" for k i
    by (rule bex_update_where) simp
  have ids: "(\<exists>r\<in>set (update_where ?P ?f (role_rows d)). ro_id r = i) \<longleftrightarrow> (\<exists>r\<in>set (role_rows d). ro_id r = i)" for i
    by (rule bex_update_where) simp
  show thesis
  proof (rule that [of "?f r0" ?d])
    show "ensure_role role now d = (Inr (ro_id (?f r0)), ?d)"
      using assms(2) Some by (simp add: ensure_role_def good_role_def Let_def)
    show "mapping_ok ?d" using assms(1) unfolding mapping_ok_def
      by (simp add: keys ids) (force simp: set_update_where)
    show "?f r0 \<in> set (role_rows ?d)" using r0 by (force simp: set_update_where)
    show "described ?d role" by (simp add: described_def filter_update_where only r0)
    show "allowed ?d k = allowed d k" for k by (simp add: allowed_def pairs)
    show "filter (\<lambda>r. ro_key r = k) (role_rows ?d) = filter (\<lambda>r. ro_key r = k) (role_rows d)" if "k \<noteq> ro_Key role" for k
      using that by (simp add: filter_update_where) (auto intro: update_where_none)
  qed (simp_all add: r0)
qed

definition only_mapping :: "db \<Rightarrow> db \<Rightarrow> bool" where
  "only_mapping d d' \<longleftrightarrow> d' = d\<lparr>role_rows := role_rows d', roles_seq := roles_seq d', role_permissions := role_permissions d'\<rparr>"

lemma only_mapping_refl: "only_mapping d d"
  by (simp add: only_mapping_def)

lemma only_mapping_trans: "only_mapping d d' \<Longrightarrow> only_mapping d' d'' \<Longrightarrow> only_mapping d d''"
proof -
  assume 1: "only_mapping d d'" and 2: "only_mapping d' d''"
  have "d'\<lparr>role_rows := role_rows d'', roles_seq := roles_seq d'', role_permissions := role_permissions d''\<rparr>
      = d\<lparr>role_rows := role_rows d'', roles_seq := roles_seq d'', role_permissions := role_permissions d''\<rparr>"
    by (rule trans [OF arg_cong [OF 1 [unfolded only_mapping_def],
          where f = "\<lambda>x. x\<lparr>role_rows := role_rows d'', roles_seq := roles_seq d'', role_permissions := role_permissions d''\<rparr>"]]) simp
  with 2 show ?thesis unfolding only_mapping_def by (rule trans)
qed

text \<open>What reconciling a list of roles does.\<close>

definition reconciles :: "Role list \<Rightarrow> db \<Rightarrow> db \<Rightarrow> bool" where
  "reconciles roles d d' \<longleftrightarrow> mapping_ok d' \<and> only_mapping d d'
     \<and> (\<forall>role\<in>set roles. described d' role \<and> allowed d' (ro_Key role) = reconciled role (allowed d (ro_Key role)))
     \<and> (\<forall>k. k \<notin> ro_Key ` set roles \<longrightarrow> allowed d' k = allowed d k
          \<and> filter (\<lambda>r. ro_key r = k) (role_rows d') = filter (\<lambda>r. ro_key r = k) (role_rows d))"

lemma run_wrapped: "run_state (wrapped prefix m) w = (case run_state m w of (r, w') \<Rightarrow> (wrap_error prefix r, w'))"
  by (simp add: wrapped_def split: prod.split)

lemma reconcile_role_run:
  fixes w :: "'w world_scheme"
  assumes "w_events w = []" and "mapping_ok (w_db w)" and "good_role role"
  obtains w' where "run_state (reconcile_role authz_repo role) w = (Inr (), w')" and "w' = w\<lparr>w_db := w_db w'\<rparr>"
    and "reconciles [role] (w_db w) (w_db w')"
proof -
  from ensured [OF assms(2,3), of "w_now w"] obtain r d1 where e: "ensure_role role (w_now w) (w_db w) = (Inr (ro_id r), d1)"
    and d1: "mapping_ok d1" "r \<in> set (role_rows d1)" "ro_key r = ro_Key role" "described d1 role"
      "d1 = (w_db w)\<lparr>role_rows := role_rows d1, roles_seq := roles_seq d1\<rparr>" "\<And>k. allowed d1 k = allowed (w_db w) k"
      "\<And>k. k \<noteq> ro_Key role \<Longrightarrow> filter (\<lambda>r. ro_key r = k) (role_rows d1) = filter (\<lambda>r. ro_key r = k) (role_rows (w_db w))"
    by blast
  have good: "list_all pg_text (ro_Permissions role)" "set (ro_Permissions role) \<subseteq> set Catalog"
    using assms(3) by (simp_all add: good_role_def)
  from replaced [OF d1(1,2) good, of "w_now w"] obtain d2 where
      p: "replace_role_permissions (ro_id r) (ro_Permissions role) (w_now w) d1 = (Inr (), d2)"
    and d2: "mapping_ok d2" "d2 = d1\<lparr>role_permissions := role_permissions d2\<rparr>"
      "allowed d2 (ro_Key role) = reconciled role (allowed d1 (ro_Key role))"
      "\<And>k. k \<noteq> ro_Key role \<Longrightarrow> allowed d2 k = allowed d1 k"
    unfolding d1(3) reconciled_def by blast
  have rows: "role_rows d2 = role_rows d1" by (subst d2(2)) simp
  have "role_permissions d1 = role_permissions (w_db w)" by (subst d1(5)) simp
  then have "only_mapping (w_db w) d1" unfolding only_mapping_def by simp (rule d1(5))
  moreover have "role_rows d2 = role_rows d1" "roles_seq d2 = roles_seq d1" by (subst d2(2), simp)+
  then have "only_mapping d1 d2" unfolding only_mapping_def by simp (rule d2(2))
  ultimately have "only_mapping (w_db w) d2" by (rule only_mapping_trans)
  then have "reconciles [role] (w_db w) d2"
    using d1 d2 by (simp add: reconciles_def described_def rows)
  then show thesis
    using that [of "w\<lparr>w_db := d2\<rparr>"] assms(1) e p
    by (simp add: reconcile_role_def run_attempt run_wrapped run_stmt_alone wrap_error_def)
qed

lemma reconciles_Cons:
  assumes "reconciles [role] d d1" and "reconciles roles d1 d2" and "ro_Key role \<notin> ro_Key ` set roles"
  shows "reconciles (role # roles) d d2"
proof -
  have "described d2 role \<and> allowed d2 (ro_Key role) = reconciled role (allowed d (ro_Key role))"
    using assms by (simp add: reconciles_def described_def)
  moreover have "described d2 r \<and> allowed d2 (ro_Key r) = reconciled r (allowed d (ro_Key r))" if "r \<in> set roles" for r
  proof -
    have "ro_Key r \<noteq> ro_Key role" using that assms(3) by (metis image_eqI)
    with that assms(1,2) show ?thesis by (simp add: reconciles_def)
  qed
  moreover have "only_mapping d d2" using assms by (auto simp: reconciles_def intro: only_mapping_trans)
  ultimately show ?thesis using assms(1,2) by (simp add: reconciles_def)
qed

lemma reconcile_roles_run:
  fixes w :: "'w world_scheme"
  assumes "w_events w = []" and "mapping_ok (w_db w)" and "list_all good_role roles" and "distinct (map ro_Key roles)"
  obtains w' where "run_state (reconcile_roles authz_repo roles) w = (Inr (), w')" and "w' = w\<lparr>w_db := w_db w'\<rparr>"
    and "reconciles roles (w_db w) (w_db w')"
  using assms
proof (induction roles arbitrary: w thesis)
  case Nil
  from Nil(3) show ?case by (intro Nil(1) [of w]) (simp_all add: reconciles_def only_mapping_refl)
next
  case (Cons role roles)
  have "good_role role" using Cons.prems by simp
  with reconcile_role_run [OF Cons.prems(2,3)] obtain w1 where w1: "run_state (reconcile_role authz_repo role) w = (Inr (), w1)"
    "w1 = w\<lparr>w_db := w_db w1\<rparr>" "reconciles [role] (w_db w) (w_db w1)" by blast
  have "w_events w1 = []" using Cons.prems(2) by (subst w1(2)) simp
  moreover have "mapping_ok (w_db w1)" using w1(3) by (simp add: reconciles_def)
  ultimately obtain w2 where w2: "run_state (reconcile_roles authz_repo roles) w1 = (Inr (), w2)"
    "w2 = w1\<lparr>w_db := w_db w2\<rparr>" "reconciles roles (w_db w1) (w_db w2)"
    using Cons.IH [of w1] Cons.prems(4,5) by auto
  show ?case
  proof (rule Cons.prems(1))
    show "run_state (reconcile_roles authz_repo (role # roles)) w = (Inr (), w2)"
      by (simp add: run_attempt_after [OF w1(1)] w2(1))
    show "w2 = w\<lparr>w_db := w_db w2\<rparr>" using w1(2) w2(2) by (metis world.surjective world.update_convs(1))
    show "reconciles (role # roles) (w_db w) (w_db w2)"
      using reconciles_Cons [OF w1(3) w2(3)] Cons.prems(5) by simp
  qed
qed

lemma builtin_good: "list_all good_role BuiltinRoles" "distinct (map ro_Key BuiltinRoles)"
  by code_simp+

text \<open> C16. Reconciling at boot succeeds once the catalogue is synced, and leaves every built-in role with
  exactly the permissions of the source, under the name and description of the source: a permission an
  upgrade added arrives, one it removed is withdrawn, and one that stays keeps the restriction an
  administrator gave it. Roles that are not built in, and their permissions, stay as they were, and so does
  every other table, so the promise the tables make of themselves holds afterwards as before. \<close>
theorem reconcile_exact:
  fixes w :: "'w world_scheme"
  assumes "w_events w = []" and "mapping_ok (w_db w)" and "run_state (Reconcile authz_repo) w = (r, w')"
  shows "r = Inr () \<and> mapping_ok (w_db w') \<and> only_mapping (w_db w) (w_db w')
    \<and> (\<forall>role\<in>set BuiltinRoles. described (w_db w') role
         \<and> allowed (w_db w') (ro_Key role) = reconciled role (allowed (w_db w) (ro_Key role)))
    \<and> (\<forall>k. \<not> IsBuiltin k \<longrightarrow> allowed (w_db w') k = allowed (w_db w) k
         \<and> filter (\<lambda>r. ro_key r = k) (role_rows (w_db w')) = filter (\<lambda>r. ro_key r = k) (role_rows (w_db w)))"
proof -
  from reconcile_roles_run [OF assms(1,2) builtin_good] assms(3)
  have "r = Inr ()" and all: "reconciles BuiltinRoles (w_db w) (w_db w')"
    by (auto simp: Reconcile_def)
  moreover have "IsBuiltin k \<longleftrightarrow> k \<in> ro_Key ` set BuiltinRoles" for k
    by (auto simp: IsBuiltin_def BuiltinRoles_def)
  ultimately show ?thesis unfolding reconciles_def by blast
qed

definition custom_role :: role_t where
  "custom_role = \<lparr>ro_id = 9, ro_key = ''auditor'', ro_name = ''Auditor'', ro_description = None, ro_active = True\<rparr>"

text \<open>Before an upgrade: a reader role with one right of the source, restricted, and one that is gone.\<close>

definition upgraded_db :: db where
  "upgraded_db = demo_db\<lparr>roles_seq := 9, permission_keys := Catalog,
     role_rows := [team_role 1 RoleProjectReader, custom_role],
     role_permissions := [\<lparr>rp_role_id = 1, rp_key = RunsRead, rp_fields = fields_json (Some [RunFieldError])\<rparr>,
       \<lparr>rp_role_id = 1, rp_key = JobsDelete, rp_fields = None\<rparr>,
       \<lparr>rp_role_id = 9, rp_key = UsersRead, rp_fields = None\<rparr>]\<rparr>"

theorem reconcile_exact_witness:
  "\<exists>r w'. run_state (Reconcile authz_repo) (demo_world\<lparr>w_db := upgraded_db\<rparr>) = (r, w') \<and> r = Inr ()
    \<and> allowed (w_db w') RoleProjectReader =
        {(RunsRead, fields_json (Some [RunFieldError])), (ProjectsRead, None), (JobsRead, None)}
    \<and> allowed (w_db w') ''auditor'' = {(UsersRead, None)}"
proof -
  let ?w = "demo_world\<lparr>w_db := upgraded_db\<rparr>"
  obtain r w' where run: "run_state (Reconcile authz_repo) ?w = (r, w')" by fastforce
  have quiet: "w_events ?w = []" and db: "w_db ?w = upgraded_db" by (simp_all add: demo_world_def)
  have keys: "''auditor'' \<noteq> RoleProjectReader" "RoleProjectReader \<noteq> ''auditor''" "JobsDelete \<noteq> RunsRead" "RunsRead \<noteq> JobsDelete"
    "RunsRead \<noteq> ProjectsRead" "RunsRead \<noteq> JobsRead" "JobsDelete \<noteq> ProjectsRead" "JobsDelete \<noteq> JobsRead"
    by (simp_all add: RoleProjectReader_def permission_defs)
  have ok: "mapping_ok (w_db ?w)"
    using keys by (auto simp: mapping_ok_def db upgraded_db_def team_role_def custom_role_def)
  have reader: "allowed upgraded_db RoleProjectReader = {(RunsRead, fields_json (Some [RunFieldError])), (JobsDelete, None)}"
    and auditor: "allowed upgraded_db ''auditor'' = {(UsersRead, None)}"
    by code_simp+
  let ?reader = "hd BuiltinRoles"
  have mem: "?reader \<in> set BuiltinRoles" "ro_Key ?reader = RoleProjectReader" "\<not> IsBuiltin ''auditor''"
    using keys by (simp_all add: BuiltinRoles_def IsBuiltin_def RoleProjectWriter_def RoleProjectAdmin_def)
  have new: "reconciled ?reader {(RunsRead, fields_json (Some [RunFieldError])), (JobsDelete, None)} =
      {(RunsRead, fields_json (Some [RunFieldError])), (ProjectsRead, None), (JobsRead, None)}"
    by code_simp
  note res = reconcile_exact [OF quiet ok run, unfolded db]
  have "allowed (w_db w') (ro_Key ?reader) = reconciled ?reader (allowed upgraded_db (ro_Key ?reader))"
    using res mem(1) by blast
  moreover have "allowed (w_db w') ''auditor'' = allowed upgraded_db ''auditor''" using res mem(3) by blast
  moreover have "r = Inr ()" using res by (rule conjunct1)
  ultimately show ?thesis using run by (auto simp: mem(2) reader auditor new)
qed

end
