(* ===== verification/ProjectStore.thy ===== *)
theory ProjectStore
  imports RunStore
begin

text \<open>
  The statements of \<open>internal/repository/project_repo.go\<close>, with what the schema refuses: one live project per
  slug, and an owner that exists. The prefix of an API key is indexed, but not unique; where several live
  projects share one, the lookup is taken to find the one written first.
\<close>

section \<open>Reading\<close>

definition live_project :: "project_t \<Rightarrow> bool" where
  "live_project p \<longleftrightarrow> pt_deleted_at p = None"

definition get_project_by_slug :: "string \<Rightarrow> project statement" where
  "get_project_by_slug slug now d =
     ((if \<not> pg_text slug then Inl invalid_text
       else case find (\<lambda>p. p_slug p = slug \<and> live_project p) (projects d) of
         None \<Rightarrow> Inl ErrNotFound | Some p \<Rightarrow> Inr (project.truncate p)), d)"

definition has_key_prefix :: "string \<Rightarrow> project_t \<Rightarrow> bool" where
  "has_key_prefix prefix p \<longleftrightarrow> p_key_prefix p = prefix \<and> p_key_prefix p \<noteq> [] \<and> live_project p"

definition get_project_by_key_prefix :: "string \<Rightarrow> project statement" where
  "get_project_by_key_prefix prefix now d =
     ((if \<not> pg_text prefix then Inl invalid_text
       else case find (has_key_prefix prefix) (projects d) of
         None \<Rightarrow> Inl ErrNotFound | Some p \<Rightarrow> Inr (project.truncate p)), d)"

record project_row =
  py_project :: project
  py_job_total :: int
  py_job_active :: int
  py_day_success :: int
  py_day_failed :: int

definition jobs_of_project :: "db \<Rightarrow> int \<Rightarrow> job_t list" where
  "jobs_of_project d p = filter (\<lambda>j. j_project_id j = p) (jobs d)"

definition live_jobs :: "db \<Rightarrow> int \<Rightarrow> job_t list" where
  "live_jobs d p = filter (\<lambda>j. jt_deleted_at j = None) (jobs_of_project d p)"

definition day_runs :: "db \<Rightarrow> instant \<Rightarrow> int \<Rightarrow> string list \<Rightarrow> int" where
  "day_runs d now p statuses =
     sum_list (map (\<lambda>j. runs_since d (now - 86400 * second) (j_id j) statuses) (jobs_of_project d p))"

definition project_row_of :: "db \<Rightarrow> instant \<Rightarrow> project_t \<Rightarrow> project_row" where
  "project_row_of d now p =
     \<lparr>py_project = project.truncate p,
      py_job_total = int (length (live_jobs d (p_id p))),
      py_job_active = int (length (filter j_active (live_jobs d (p_id p)))),
      py_day_success = day_runs d now (p_id p) [StatusSuccess],
      py_day_failed = day_runs d now (p_id p) [StatusFailed, StatusTimeout]\<rparr>"

definition project_matches :: "ProjectScope \<Rightarrow> string \<Rightarrow> project_t \<Rightarrow> bool" where
  "project_matches scope search p \<longleftrightarrow> live_project p
     \<and> (search = [] \<or> (let pat = ''%'' @ search @ ''%'' in ilike (p_name p) pat \<or> ilike (p_slug p) pat))
     \<and> in_scope scope (p_id p)"

definition list_projects :: "ProjectScope \<Rightarrow> string \<Rightarrow> project_row list statement" where
  "list_projects scope search now d =
     ((if \<not> pg_text search then Inl invalid_text
       else Inr (map (project_row_of d now) (sort_key p_name (filter (project_matches scope search) (projects d))))), d)"

text \<open>Only the identity is read; the other fields are the zero values of the struct.\<close>

definition project_name :: "project_t \<Rightarrow> project" where
  "project_name p = \<lparr>p_id = p_id p, p_name = p_name p, p_slug = p_slug p, p_description = [], p_base_url = [],
     p_key_prefix = [], p_key_hash = [], p_active = p_active p, p_user_id = None, p_created_at = zero_time,
     p_updated_at = None\<rparr>"

definition list_project_names :: "ProjectScope \<Rightarrow> project list statement" where
  "list_project_names scope = query (\<lambda>d. map project_name
     (sort_key p_name (filter (\<lambda>p. live_project p \<and> in_scope scope (p_id p)) (projects d))))"

section \<open>Writing\<close>

definition project_texts :: "project \<Rightarrow> bool" where
  "project_texts p \<longleftrightarrow> pg_text (p_name p) \<and> pg_text (p_slug p) \<and> pg_text (p_description p) \<and> pg_text (p_base_url p)"

definition slug_taken :: "db \<Rightarrow> int \<Rightarrow> string \<Rightarrow> bool" where
  "slug_taken d i slug \<longleftrightarrow> list_ex (\<lambda>p. p_id p \<noteq> i \<and> p_slug p = slug \<and> live_project p) (projects d)"

definition create_project :: "project \<Rightarrow> int statement" where
  "create_project p now d =
     (if \<not> (project_texts p \<and> pg_text (p_key_prefix p) \<and> pg_text (p_key_hash p)) then (Inl invalid_text, d)
      else let i = projects_seq d + 1; d1 = d\<lparr>projects_seq := i\<rparr> in
        if slug_taken d i (p_slug p) then (Inl ErrDuplicate, d1)
        else if (case p_user_id p of None \<Rightarrow> False | Some u \<Rightarrow> \<not> list_ex (\<lambda>x. u_id x = u) (users d))
          then (Inl (fk_violation ''projects'' ''projects_user_id_fkey''), d1)
        else (Inr i, d1\<lparr>projects := projects d @
          [project.extend (p\<lparr>p_id := i, p_created_at := now, p_updated_at := None\<rparr>) (project_t.fields None)]\<rparr>))"

definition update_project :: "project \<Rightarrow> unit statement" where
  "update_project p now d =
     (if \<not> project_texts p then (Inl invalid_text, d)
      else if list_ex (\<lambda>x. p_id x = p_id p \<and> live_project x) (projects d) \<and> slug_taken d (p_id p) (p_slug p)
        then (Inl ErrDuplicate, d)
      else (Inr (), d\<lparr>projects := update_where (\<lambda>x. p_id x = p_id p \<and> live_project x)
        (\<lambda>x. x\<lparr>p_name := p_name p, p_slug := p_slug p, p_description := p_description p, p_base_url := p_base_url p,
               p_active := p_active p, p_updated_at := Some now\<rparr>) (projects d)\<rparr>))"

definition set_key :: "int \<Rightarrow> string \<Rightarrow> string \<Rightarrow> unit statement" where
  "set_key i prefix hash now d =
     (if \<not> (pg_text prefix \<and> pg_text hash) then (Inl invalid_text, d)
      else (Inr (), d\<lparr>projects := update_where (\<lambda>x. p_id x = i)
        (\<lambda>x. x\<lparr>p_key_prefix := prefix, p_key_hash := hash, p_updated_at := Some now\<rparr>) (projects d)\<rparr>))"

definition soft_delete_project :: "int \<Rightarrow> instant \<Rightarrow> unit statement" where
  "soft_delete_project i at = exec (\<lambda>d. d\<lparr>
     jobs := update_where (\<lambda>j. j_project_id j = i \<and> jt_deleted_at j = None)
       (\<lambda>j. j\<lparr>j_active := False, jt_deleted_at := Some at, j_updated_at := Some at\<rparr>) (jobs d),
     projects := update_where (\<lambda>p. p_id p = i)
       (\<lambda>p. p\<lparr>p_active := False, pt_deleted_at := Some at, p_updated_at := Some at\<rparr>) (projects d)\<rparr>)"

end
