(* ===== verification/ProjectService.thy ===== *)
theory ProjectService
  imports JobService ProjectStore Sha256
begin

text \<open>
  Projects and the API keys that let them declare their own jobs (\<open>internal/service/project_service.go\<close>).
  The bytes of a new key come from the operating system: a call of the service's argument.
\<close>

section \<open>What the service depends on\<close>

record 'w ProjectStore =
  pj_GetByID :: "int \<Rightarrow> ('w, project) call"
  pj_GetBySlug :: "string \<Rightarrow> ('w, project) call"
  pj_GetByKeyPrefix :: "string \<Rightarrow> ('w, project) call"
  pj_List :: "ProjectScope \<Rightarrow> string \<Rightarrow> ('w, project_row list) call"
  pj_ListNames :: "ProjectScope \<Rightarrow> ('w, project list) call"
  pj_Create :: "project \<Rightarrow> ('w, int) call"
  pj_Update :: "project \<Rightarrow> ('w, unit) call"
  pj_SetKey :: "int \<Rightarrow> string \<Rightarrow> string \<Rightarrow> ('w, unit) call"
  pj_SoftDelete :: "int \<Rightarrow> instant \<Rightarrow> ('w, unit) call"

definition project_repo :: "'w world_scheme ProjectStore" where
  "project_repo = \<lparr>pj_GetByID = (\<lambda>i. stmt (get_project i)), pj_GetBySlug = (\<lambda>s. stmt (get_project_by_slug s)),
     pj_GetByKeyPrefix = (\<lambda>s. stmt (get_project_by_key_prefix s)), pj_List = (\<lambda>sc q. stmt (list_projects sc q)),
     pj_ListNames = (\<lambda>sc. stmt (list_project_names sc)), pj_Create = (\<lambda>p. stmt (create_project p)),
     pj_Update = (\<lambda>p. stmt (update_project p)), pj_SetKey = (\<lambda>i p h. stmt (set_key i p h)),
     pj_SoftDelete = (\<lambda>i t. stmt (soft_delete_project i t))\<rparr>"

record 'w project_service =
  pv_projects :: "'w ProjectStore"
  pv_jobs :: "'w JobStore"
  pv_policy :: TargetPolicy
  pv_rand :: "nat \<Rightarrow> ('w, nat list) state"

definition NewProjectService ::
  "(nat \<Rightarrow> ('w world_scheme, nat list) state) \<Rightarrow> TargetPolicy \<Rightarrow> 'w world_scheme project_service" where
  "NewProjectService rand policy =
     \<lparr>pv_projects = project_repo, pv_jobs = job_repo, pv_policy = policy, pv_rand = rand\<rparr>"

section \<open>Keys\<close>

definition keyPrefixLen :: nat where "keyPrefixLen = 8"

text \<open>The hash of a key or of a mailed token.\<close>

definition hashed :: "string \<Rightarrow> string" where
  "hashed key = hex_encode (Sum256 key)"

definition newAPIKey :: "(nat \<Rightarrow> ('w, nat list) state) \<Rightarrow> ('w, string \<times> string \<times> string) state" where
  "newAPIKey rand = do {
     buf \<leftarrow> rand 24;
     let key = ''cj_'' @ hex_encode buf;
     State_Monad.return (key, take keyPrefixLen key, hashed key) }"

section \<open>Input\<close>

record project_input =
  pi_Name :: string
  pi_Slug :: string
  pi_Description :: string
  pi_BaseURL :: string
  pi_Active :: bool

definition input_slug :: "project_input \<Rightarrow> string" where
  "input_slug i = (let slug = to_lower (trim_space (pi_Slug i))
     in if slug = [] then Slugify (trim_space (pi_Name i)) else slug)"

definition input_base :: "project_input \<Rightarrow> string" where
  "input_base i = trim_right ''/'' (trim_space (pi_BaseURL i))"

definition project_errors :: "project_input \<Rightarrow> field_error list" where
  "project_errors i =
     (if trim_space (pi_Name i) = [] then [(''name'', ''required'')] else [])
     @ (if \<not> ValidSlug (input_slug i)
        then [(''slug'', ''use lower case letters, digits, dash and underscore, 2 to 64 characters'')] else [])
     @ (if input_base i = [] then []
        else case Resolve \<lparr>AllowPrivate = True\<rparr> [] (input_base i) of
          Inl m \<Rightarrow> [(''base_url'', m)] | Inr _ \<Rightarrow> [])"

definition validate_project :: "project_input \<Rightarrow> project option \<Rightarrow> svc_error + project" where
  "validate_project i existing =
     (if project_errors i \<noteq> [] then Inl (SvcValidation (project_errors i))
      else Inr \<lparr>p_id = 0, p_name = trim_space (pi_Name i), p_slug = input_slug i,
        p_description = trim_space (pi_Description i), p_base_url = input_base i,
        p_key_prefix = (case existing of None \<Rightarrow> [] | Some e \<Rightarrow> p_key_prefix e),
        p_key_hash = (case existing of None \<Rightarrow> [] | Some e \<Rightarrow> p_key_hash e),
        p_active = pi_Active i, p_user_id = (case existing of None \<Rightarrow> None | Some e \<Rightarrow> p_user_id e),
        p_created_at = zero_time, p_updated_at = None\<rparr>)"

definition slug_exists :: svc_error where
  "slug_exists = SvcValidation [(''slug'', ''a project with this slug already exists'')]"

text \<open>The repository's \<open>ErrDuplicate\<close> becomes the given error.\<close>

definition or_duplicate :: "svc_error \<Rightarrow> ('w, 'a) call \<Rightarrow> ('w, 'a) svc" where
  "or_duplicate err m = do {
     r \<leftarrow> m;
     State_Monad.return (case r of Inl ErrDuplicate \<Rightarrow> Inl err | _ \<Rightarrow> pass_on r) }"

section \<open>Operations\<close>

definition CreateProject :: "'w project_service \<Rightarrow> project_input \<Rightarrow> int option \<Rightarrow> ('w, project \<times> string) svc" where
  "CreateProject s i userID = (case validate_project i None of
      Inl e \<Rightarrow> fail e
    | Inr p \<Rightarrow> do {
        (key, prefix, hash) \<leftarrow> newAPIKey (pv_rand s);
        let p = p\<lparr>p_user_id := userID, p_key_prefix := prefix, p_key_hash := hash\<rparr>;
        attempt (or_duplicate slug_exists (pj_Create (pv_projects s) p)) (\<lambda>id'.
          ok (p\<lparr>p_id := id'\<rparr>, key)) })"

definition UpdateProject :: "'w project_service \<Rightarrow> ProjectScope \<Rightarrow> int \<Rightarrow> project_input \<Rightarrow> ('w, unit) svc" where
  "UpdateProject s scope i input =
     (if \<not> Allows scope i then fail SvcNotFound
      else attempt (or_not_found (pj_GetByID (pv_projects s) i)) (\<lambda>existing.
        case validate_project input (Some existing) of
          Inl e \<Rightarrow> fail e
        | Inr p \<Rightarrow> or_duplicate slug_exists (pj_Update (pv_projects s) (p\<lparr>p_id := i\<rparr>))))"

definition RotateKey :: "'w project_service \<Rightarrow> ProjectScope \<Rightarrow> int \<Rightarrow> ('w, string) svc" where
  "RotateKey s scope i =
     (if \<not> Allows scope i then fail SvcNotFound
      else attempt (or_not_found (pj_GetByID (pv_projects s) i)) (\<lambda>_. do {
        (key, prefix, hash) \<leftarrow> newAPIKey (pv_rand s);
        attempt (ServiceErrors.raw (pj_SetKey (pv_projects s) i prefix hash)) (\<lambda>_. ok key) }))"

definition or_forbidden :: "('w, 'a) call \<Rightarrow> ('w, 'a) svc" where
  "or_forbidden m = do {
     r \<leftarrow> m;
     State_Monad.return (case r of Inl ErrNotFound \<Rightarrow> Inl SvcForbidden | _ \<Rightarrow> pass_on r) }"

definition AuthenticateKey :: "'w project_service \<Rightarrow> string \<Rightarrow> ('w, project) svc" where
  "AuthenticateKey s rawKey0 =
     (let rawKey = trim_space rawKey0 in
      if length rawKey < keyPrefixLen + 8 then fail SvcForbidden
      else attempt (or_forbidden (pj_GetByKeyPrefix (pv_projects s) (take keyPrefixLen rawKey))) (\<lambda>p.
        if hashed rawKey \<noteq> p_key_hash p then fail SvcForbidden
        else if \<not> p_active p then fail SvcForbidden
        else ok p))"

definition GetProject :: "'w project_service \<Rightarrow> ProjectScope \<Rightarrow> int \<Rightarrow> ('w, project) svc" where
  "GetProject s scope i =
     (if \<not> Allows scope i then fail SvcNotFound else or_not_found (pj_GetByID (pv_projects s) i))"

definition GetBySlug :: "'w project_service \<Rightarrow> string \<Rightarrow> ('w, project) svc" where
  "GetBySlug s slug = or_not_found (pj_GetBySlug (pv_projects s) slug)"

definition ListProjects :: "'w project_service \<Rightarrow> ProjectScope \<Rightarrow> string \<Rightarrow> ('w, project_row list) svc" where
  "ListProjects s scope search = ServiceErrors.raw (pj_List (pv_projects s) scope search)"

definition ListNames :: "'w project_service \<Rightarrow> ProjectScope \<Rightarrow> ('w, project list) svc" where
  "ListNames s scope = ServiceErrors.raw (pj_ListNames (pv_projects s) scope)"

definition DeleteProject :: "'w world_scheme project_service \<Rightarrow> ProjectScope \<Rightarrow> int \<Rightarrow> bool \<Rightarrow> ('w world_scheme, unit) svc" where
  "DeleteProject s scope i force =
     (if \<not> Allows scope i then fail SvcNotFound
      else attempt (ServiceErrors.raw (js_List (pv_jobs s)
          \<lparr>jf_Scope = scope, jf_ProjectID = Some i, jf_Tag = None, jf_Active = Some True, jf_Search = None\<rparr> 0 1)) (\<lambda>(rows, _).
        if rows \<noteq> [] \<and> \<not> force then fail SvcProjectLocked
        else do {
          now \<leftarrow> app_now;
          or_not_found (pj_SoftDelete (pv_projects s) i now) }))"

end
