(* ===== verification/ProjectProps.thy ===== *)
theory ProjectProps
  imports ProjectService Demo "HOL-Library.Code_Target_Numeral"
begin

text \<open>
  What the keys of projects guarantee: a key that was issued opens exactly its project, as far as its eight
  characters of prefix are nobody else's, and rotating retires every key before it; and what deleting a
  project takes along.
\<close>

section \<open>Issued keys\<close>

definition plain_char :: "char \<Rightarrow> bool" where
  "plain_char c \<longleftrightarrow> ascii c \<and> \<not> is_space (byte c) \<and> c \<noteq> CHR 0x00"

lemma plain_trim: "list_all plain_char s \<Longrightarrow> trim_space s = s"
  by (rule trim_space_plain) (auto simp: list_all_iff plain_char_def)

lemma plain_text: "list_all plain_char s \<Longrightarrow> pg_text s"
  by (rule pg_text_ascii) (auto simp: list_all_iff plain_char_def)

lemma hex_plain: "list_all (\<lambda>b. b < 256) bs \<Longrightarrow> list_all plain_char (hex_encode bs)"
proof -
  have "list_all plain_char ''0123456789abcdef''" by code_simp
  then show "list_all (\<lambda>b. b < 256) bs \<Longrightarrow> list_all plain_char (hex_encode bs)"
    using hex_encode_chars [of bs] unfolding list_all_iff by blast
qed

lemma hashed_plain: "list_all plain_char (hashed s)"
  unfolding hashed_def by (intro hex_plain Sum256_bytes)

text \<open>A source of random bytes that gives as many as asked for, and touches no table.\<close>

definition gives_bytes :: "(nat \<Rightarrow> ('w world_scheme, nat list) state) \<Rightarrow> bool" where
  "gives_bytes rand \<longleftrightarrow> (\<forall>n w. let (bs, w') = run_state (rand n) w in
     length bs = n \<and> list_all (\<lambda>b. b < 256) bs \<and> w_db w' = w_db w \<and> w_events w' = w_events w \<and> w_now w' = w_now w)"

definition is_key :: "string \<Rightarrow> bool" where
  "is_key key \<longleftrightarrow> list_all plain_char key \<and> length key = 51"

lemma run_newAPIKey:
  assumes "gives_bytes rand" and "run_state (newAPIKey rand) w = (k, w')"
  obtains key where "k = (key, take 8 key, hashed key)" and "is_key key"
    and "w_db w' = w_db w" and "w_events w' = w_events w" and "w_now w' = w_now w"
proof -
  obtain bs w1 where r: "run_state (rand 24) w = (bs, w1)" by fastforce
  have b: "length bs = 24" "list_all (\<lambda>b. b < 256) bs" "w_db w1 = w_db w" "w_events w1 = w_events w" "w_now w1 = w_now w"
    using assms(1) [unfolded gives_bytes_def, rule_format, of 24 w] by (simp_all add: r)
  have "list_all plain_char ''cj_''" by code_simp
  with b hex_plain have "is_key (''cj_'' @ hex_encode bs)" by (simp add: is_key_def length_hex_encode)
  then show thesis using that assms(2) r b by (auto simp: newAPIKey_def Let_def keyPrefixLen_def)
qed

lemma key_facts:
  assumes "is_key key"
  shows "trim_space key = key" "\<not> length key < 16" "pg_text key" "pg_text (take 8 key)" "take 8 key \<noteq> []"
proof -
  have "list_all plain_char key" "length key = 51" using assms by (simp_all add: is_key_def)
  moreover from this have "list_all plain_char (take 8 key)" by (auto simp: list_all_iff dest: in_set_takeD)
  ultimately show "trim_space key = key" "\<not> length key < 16" "pg_text key" "pg_text (take 8 key)" "take 8 key \<noteq> []"
    by (auto simp: plain_trim plain_text)
qed

section \<open>Authentication\<close>

text \<open>Whose key it is, as a function of the database.\<close>

definition key_owner :: "db \<Rightarrow> string \<Rightarrow> svc_error + project" where
  "key_owner d given = (let k = trim_space given in
     if length k < 16 then Inl SvcForbidden
     else if \<not> pg_text (take 8 k) then Inl (SvcOther invalid_text)
     else case find (has_key_prefix (take 8 k)) (projects d) of
         None \<Rightarrow> Inl SvcForbidden
       | Some p \<Rightarrow> if hashed k = p_key_hash p \<and> p_active p then Inr (project.truncate p) else Inl SvcForbidden)"

lemma project_simps [simp]:
  "pv_projects (NewProjectService rand policy) = project_repo" "pv_jobs (NewProjectService rand policy) = job_repo"
  "pv_rand (NewProjectService rand policy) = rand"
  "pj_GetByID project_repo = (\<lambda>i. stmt (get_project i))"
  "pj_GetByKeyPrefix project_repo = (\<lambda>s. stmt (get_project_by_key_prefix s))"
  "pj_Create project_repo = (\<lambda>p. stmt (create_project p))" "pj_SetKey project_repo = (\<lambda>i p h. stmt (set_key i p h))"
  "pj_SoftDelete project_repo = (\<lambda>i t. stmt (soft_delete_project i t))"
  by (simp_all add: NewProjectService_def project_repo_def)

lemma project_reads [simp]: "reads_only (get_project i)" "reads_only (get_project_by_key_prefix k)"
  by (simp_all add: reads_only_def get_project_def get_project_by_key_prefix_def)

lemma truncate_project [simp]:
  "p_key_hash (project.truncate p) = p_key_hash p" "p_active (project.truncate p) = p_active p" "p_id (project.truncate p) = p_id p"
  by (simp_all add: project.truncate_def)

lemma run_AuthenticateKey:
  fixes w :: "'w world_scheme"
  assumes "w_events w = []"
  shows "run_state (AuthenticateKey (NewProjectService rand policy) given) w = (key_owner (w_db w) given, w)"
  using assms by (auto simp: AuthenticateKey_def key_owner_def Let_def keyPrefixLen_def run_attempt or_forbidden_def run_read
      get_project_by_key_prefix_def pass_on_def invalid_text_def split: option.splits)

lemma key_owner_Inr:
  assumes "key_owner d given = Inr q"
  obtains p where "p \<in> set (projects d)" and "live_project p" and "q = project.truncate p" and "hashed (trim_space given) = p_key_hash p"
    and "p_active p" and "p_key_prefix p = take 8 (trim_space given)"
proof -
  from assms obtain p where p: "find (has_key_prefix (take 8 (trim_space given))) (projects d) = Some p"
    "hashed (trim_space given) = p_key_hash p" "p_active p" "q = project.truncate p"
    by (auto simp: key_owner_def Let_def split: if_splits option.splits)
  with find_SomeD [OF p(1)] show thesis by (intro that [of p]) (auto simp: has_key_prefix_def)
qed

text \<open> A new project's key opens it: the service answers the project for the key it returned, unless
  the project is switched off. The prefix decides alone which row is compared, though: where a live project
  written earlier has the same eight characters, three of which are fixed, that row answers, and the new key
  is refused unless it is that project's key too. \<close>
theorem created_key_authenticates:
  fixes w w' :: "'w world_scheme"
  assumes "w_events w = []" and "gives_bytes rand"
    and "run_state (CreateProject (NewProjectService rand policy) input userID) w = (Inr (p, key), w')"
  shows "run_state (AuthenticateKey (NewProjectService rand policy) key) w' =
    (case find (has_key_prefix (take 8 key)) (projects (w_db w)) of
       None \<Rightarrow> if p_active p then Inr (p\<lparr>p_created_at := w_now w\<rparr>) else Inl SvcForbidden
     | Some q \<Rightarrow> if hashed key = p_key_hash q \<and> p_active q then Inr (project.truncate q) else Inl SvcForbidden, w')"
proof -
  from assms(3) obtain p0 where v: "validate_project input None = Inr p0"
    by (cases "validate_project input None") (auto simp: CreateProject_def)
  obtain k w1 where kw: "run_state (newAPIKey rand) w = (k, w1)" by fastforce
  from run_newAPIKey [OF assms(2) kw] obtain ky where k: "k = (ky, take 8 ky, hashed ky)" "is_key ky"
    and w1: "w_db w1 = w_db w" "w_events w1 = w_events w" "w_now w1 = w_now w" by blast
  let ?p = "p0\<lparr>p_user_id := userID, p_key_prefix := take 8 ky, p_key_hash := hashed ky\<rparr>"
  from assms(1,3) v kw k(1) w1 obtain i where made: "fst (create_project ?p (w_now w) (w_db w)) = Inr i"
      "key = ky" "p = ?p\<lparr>p_id := i\<rparr>" "w' = w1\<lparr>w_db := snd (create_project ?p (w_now w) (w_db w))\<rparr>"
    by (auto simp: CreateProject_def Let_def attempt_Inr or_duplicate_def run_stmt_alone pass_on_def split: sum.splits go_error.splits)
  from made(1) have rows: "projects (w_db w') = projects (w_db w)
      @ [project.extend (?p\<lparr>p_id := i, p_created_at := w_now w, p_updated_at := None\<rparr>) (project_t.fields None)]"
    unfolding made(4) by (auto simp: create_project_def Let_def split: if_splits option.splits)
  have upd: "p_updated_at p0 = None" using v by (auto simp: validate_project_def split: if_splits)
  have quiet: "w_events w' = []" using made(4) w1(2) assms(1) by simp
  show ?thesis
    unfolding run_AuthenticateKey [OF quiet] key_owner_def Let_def made(2,3) rows
    using key_facts [OF k(2)] upd
    by (auto simp: find_append has_key_prefix_def live_project_def project.defs project_t.defs split: option.splits)
qed

text \<open>A source whose bytes are all seven.\<close>

definition sevens :: "nat \<Rightarrow> (world, nat list) state" where
  "sevens n = State_Monad.return (replicate n 7)"

lemma sevens_bytes: "gives_bytes sevens"
  by (simp add: gives_bytes_def sevens_def list_all_iff)

definition blog :: project_input where
  "blog = \<lparr>pi_Name = ''Blog'', pi_Slug = [], pi_Description = [], pi_BaseURL = [], pi_Active = True\<rparr>"

definition blog_key :: string where
  "blog_key = ''cj_'' @ concat (replicate 24 ''07'')"

definition blog_project :: project where
  "blog_project = \<lparr>p_id = 2, p_name = ''Blog'', p_slug = ''blog'', p_description = [], p_base_url = [],
     p_key_prefix = ''cj_07070'', p_key_hash = hashed blog_key, p_active = True, p_user_id = None,
     p_created_at = zero_time, p_updated_at = None\<rparr>"

lemma blog_valid: "validate_project blog None = Inr (blog_project\<lparr>p_id := 0, p_key_prefix := [], p_key_hash := []\<rparr>)"
proof -
  have "project_errors blog = []" "input_slug blog = ''blog''" "input_base blog = []"
    "trim_space (pi_Name blog) = ''Blog''" "trim_space (pi_Description blog) = []" by code_simp+
  then show ?thesis by (simp add: validate_project_def blog_project_def) (simp add: blog_def)
qed

lemma sevens_key: "run_state (newAPIKey sevens) w = ((blog_key, ''cj_07070'', hashed blog_key), w)"
proof -
  let ?key = "''cj_'' @ hex_encode (replicate 24 7)"
  have "run_state (newAPIKey sevens) w = ((?key, take 8 ?key, hashed ?key), w)"
    by (simp add: newAPIKey_def sevens_def Let_def keyPrefixLen_def)
  moreover have "?key = blog_key" "take 8 blog_key = ''cj_07070''" by code_simp+
  ultimately show ?thesis by metis
qed

lemma blog_created: "run_state (CreateProject (NewProjectService sevens policy) blog None) demo_world
    = (Inr (blog_project, blog_key), demo_world\<lparr>w_db := snd (create_project (blog_project\<lparr>p_id := 0\<rparr>) demo_now demo_db)\<rparr>)"
proof -
  have "pg_text ''Blog''" "pg_text ''blog''" "pg_text ''cj_07070''" "pg_text []" "\<not> slug_taken demo_db 2 ''blog''" by code_simp+
  then have texts: "project_texts (blog_project\<lparr>p_id := 0\<rparr>)" "pg_text ''cj_07070''" "\<not> slug_taken demo_db 2 ''blog''"
    by (simp_all add: project_texts_def blog_project_def)
  then have "fst (create_project (blog_project\<lparr>p_id := 0\<rparr>) demo_now demo_db) = Inr 2"
    using plain_text [OF hashed_plain, of blog_key]
    by (simp add: create_project_def Let_def) (simp add: blog_project_def demo_db_def)
  then show ?thesis
    by (simp add: CreateProject_def blog_valid sevens_key Let_def run_attempt or_duplicate_def run_stmt_alone demo_world_def pass_on_def)
      (simp add: blog_project_def)
qed

theorem created_key_authenticates_witness:
  "\<exists>p key w'. run_state (CreateProject (NewProjectService sevens \<lparr>AllowPrivate = False\<rparr>) blog None) demo_world = (Inr (p, key), w')
    \<and> run_state (AuthenticateKey (NewProjectService sevens \<lparr>AllowPrivate = False\<rparr>) key) w'
      = (Inr (blog_project\<lparr>p_created_at := demo_now\<rparr>), w')"
proof -
  note made = blog_created [of "\<lparr>AllowPrivate = False\<rparr>"]
  have "w_events demo_world = []" "w_now demo_world = demo_now" "w_db demo_world = demo_db" by (simp_all add: demo_world_def)
  moreover have "find (has_key_prefix (take 8 blog_key)) (projects demo_db) = None" by code_simp
  moreover have "p_active blog_project" by (simp add: blog_project_def)
  ultimately show ?thesis using created_key_authenticates [OF _ sevens_bytes made] made by auto
qed

section \<open>Rotated keys\<close>

lemma same_project:
  assumes "distinct (map p_id (projects d))" and "p \<in> set (projects d)" and "q \<in> set (projects d)" and "p_id p = p_id q"
  shows "p = q"
  using assms by (auto simp: distinct_map dest: inj_onD)

lemma RotateKey_run:
  fixes w w' :: "'w world_scheme"
  assumes "w_events w = []" and "gives_bytes rand"
    and "run_state (RotateKey (NewProjectService rand policy) scope i) w = (Inr key, w')"
  obtains p where "p \<in> set (projects (w_db w))" and "p_id p = i" and "live_project p" and "is_key key" and "w_events w' = []"
    and "w_db w' = (w_db w)\<lparr>projects := update_where (\<lambda>x. p_id x = i)
        (\<lambda>x. x\<lparr>p_key_prefix := take 8 key, p_key_hash := hashed key, p_updated_at := Some (w_now w)\<rparr>) (projects (w_db w))\<rparr>"
proof -
  let ?s = "NewProjectService rand policy"
  have allow: "Allows scope i" using assms(3) by (cases "Allows scope i") (auto simp: RotateKey_def)
  with assms(1,3) obtain q where q: "fst (get_project i (w_now w) (w_db w)) = Inr q"
    and run: "run_state (do {
        (key, prefix, hash) \<leftarrow> newAPIKey rand;
        attempt (ServiceErrors.raw (stmt (set_key i prefix hash))) (\<lambda>_. ok key) }) w = (Inr key, w')"
    by (auto simp: RotateKey_def attempt_Inr run_or_not_found run_read pass_on_def split: sum.splits go_error.splits)
  from q obtain p where p: "p \<in> set (projects (w_db w))" "p_id p = i" "live_project p"
    by (auto simp: get_project_def live_project_def split: option.splits dest!: find_SomeD)
  obtain k w1 where kw: "run_state (newAPIKey rand) w = (k, w1)" by fastforce
  from run_newAPIKey [OF assms(2) kw] obtain ky where k: "k = (ky, take 8 ky, hashed ky)" "is_key ky"
    and w1: "w_db w1 = w_db w" "w_events w1 = w_events w" "w_now w1 = w_now w" by blast
  have "pg_text (take 8 ky)" "pg_text (hashed ky)" using key_facts [OF k(2)] plain_text [OF hashed_plain] by simp_all
  with run kw k(1) w1 assms(1) have "key = ky" "w' = w1\<lparr>w_db := snd (set_key i (take 8 ky) (hashed ky) (w_now w) (w_db w))\<rparr>"
      "set_key i (take 8 ky) (hashed ky) (w_now w) (w_db w) = (Inr (), (w_db w)\<lparr>projects := update_where (\<lambda>x. p_id x = i)
        (\<lambda>x. x\<lparr>p_key_prefix := take 8 ky, p_key_hash := hashed ky, p_updated_at := Some (w_now w)\<rparr>) (projects (w_db w))\<rparr>)"
    by (auto simp: attempt_Inr run_raw run_stmt_alone pass_on_def set_key_def)
  with p k(2) w1(2) assms(1) show thesis by (intro that [of p]) simp_all
qed

text \<open>What rotating writes to a row of the table.\<close>

definition rekeyed :: "int \<Rightarrow> string \<Rightarrow> instant \<Rightarrow> project_t \<Rightarrow> project_t" where
  "rekeyed i key at p = (if p_id p = i
     then p\<lparr>p_key_prefix := take 8 key, p_key_hash := hashed key, p_updated_at := Some at\<rparr> else p)"

lemma update_where_rekeyed:
  "update_where (\<lambda>x. p_id x = i) (\<lambda>x. x\<lparr>p_key_prefix := take 8 key, p_key_hash := hashed key, p_updated_at := Some at\<rparr>) ps
     = map (rekeyed i key at) ps"
  by (induction ps) (simp_all add: rekeyed_def update_where_def)

text \<open> C19. Rotating a project's key retires every key before it: afterwards whatever the service accepts for
  the project has the hash of the key it returned, and the project is switched on. Where no other live
  project has the key's prefix, the service answers to the new key: the project with its new key if it is
  switched on, a refusal if it is switched off. In the database the prefix, the hash and the time of
  change of that project are new, and nothing else is changed. \<close>
theorem rotated_key_alone:
  fixes w w' :: "'w world_scheme"
  assumes "w_events w = []" and "gives_bytes rand" and "distinct (map p_id (projects (w_db w)))"
    and "run_state (RotateKey (NewProjectService rand policy) scope i) w = (Inr key, w')"
  shows "(\<forall>given q w''. run_state (AuthenticateKey (NewProjectService rand policy) given) w' = (Inr q, w'') \<and> p_id q = i
        \<longrightarrow> hashed (trim_space given) = hashed key \<and> p_active q)
    \<and> ((\<forall>q\<in>set (projects (w_db w)). live_project q \<and> p_key_prefix q = take 8 key \<longrightarrow> p_id q = i)
        \<longrightarrow> (\<exists>p\<in>set (projects (w_db w)). p_id p = i \<and> run_state (AuthenticateKey (NewProjectService rand policy) key) w'
              = (if p_active p then Inr (project.truncate (rekeyed i key (w_now w) p)) else Inl SvcForbidden, w')))
    \<and> w_db w' = (w_db w)\<lparr>projects := map (rekeyed i key (w_now w)) (projects (w_db w))\<rparr>"
proof -
  from RotateKey_run [OF assms(1,2,4)] obtain p where p: "p \<in> set (projects (w_db w))" "p_id p = i" "live_project p"
    and key: "is_key key" and quiet: "w_events w' = []"
    and db: "w_db w' = (w_db w)\<lparr>projects := update_where (\<lambda>x. p_id x = i)
        (\<lambda>x. x\<lparr>p_key_prefix := take 8 key, p_key_hash := hashed key, p_updated_at := Some (w_now w)\<rparr>) (projects (w_db w))\<rparr>"
    by blast
  let ?f = "\<lambda>x. x\<lparr>p_key_prefix := take 8 key, p_key_hash := hashed key, p_updated_at := Some (w_now w)\<rparr>"
  have only: "x = p" if "x \<in> set (projects (w_db w))" "p_id x = i" for x using same_project [OF assms(3) that(1) p(1)] that(2) p(2) by simp
  have rows: "set (projects (w_db w')) = {x \<in> set (projects (w_db w)). p_id x \<noteq> i} \<union> {?f p}"
  proof -
    have "projects (w_db w') = update_where (\<lambda>x. p_id x = i) ?f (projects (w_db w))" by (simp add: db)
    also have "set \<dots> = {x \<in> set (projects (w_db w)). p_id x \<noteq> i} \<union> {?f p}"
      by (rule set_update_where_one [where P = "\<lambda>x. p_id x = i", OF p(1,2) only])
    finally show ?thesis .
  qed
  have auth: "run_state (AuthenticateKey (NewProjectService rand policy) given) w' = (key_owner (w_db w') given, w')" for given
    using quiet by (rule run_AuthenticateKey)
  have dead: "hashed (trim_space given) = hashed key \<and> p_active q"
    if "run_state (AuthenticateKey (NewProjectService rand policy) given) w' = (Inr q, w'')" "p_id q = i" for given q w''
  proof -
    from that(1) obtain r where r: "r \<in> set (projects (w_db w'))" "q = project.truncate r" "hashed (trim_space given) = p_key_hash r" "p_active r"
      unfolding auth by (auto elim: key_owner_Inr)
    with that(2) rows have "r = ?f p" by auto
    with r show ?thesis by simp
  qed
  have works: "run_state (AuthenticateKey (NewProjectService rand policy) key) w'
      = (if p_active p then Inr (project.truncate (?f p)) else Inl SvcForbidden, w')"
    if "\<forall>q\<in>set (projects (w_db w)). live_project q \<and> p_key_prefix q = take 8 key \<longrightarrow> p_id q = i"
  proof -
    have "has_key_prefix (take 8 key) (?f p)" using key_facts [OF key] p(3) by (simp add: has_key_prefix_def live_project_def)
    moreover have "r = ?f p" if "r \<in> set (projects (w_db w'))" "has_key_prefix (take 8 key) r" for r
    proof (rule ccontr)
      assume "r \<noteq> ?f p"
      with that(1) have "r \<in> set (projects (w_db w))" "p_id r \<noteq> i" unfolding rows by blast+
      moreover have "live_project r" "p_key_prefix r = take 8 key" using that(2) by (simp_all add: has_key_prefix_def)
      ultimately show False using \<open>\<forall>q\<in>_. _\<close> by blast
    qed
    moreover have "?f p \<in> set (projects (w_db w'))" unfolding rows by blast
    ultimately have "find (has_key_prefix (take 8 key)) (projects (w_db w')) = Some (?f p)" by (intro find_only)
    then have "key_owner (w_db w') key = (if p_active p then Inr (project.truncate (?f p)) else Inl SvcForbidden)"
      using key_facts [OF key] by (simp add: key_owner_def)
    then show ?thesis by (simp add: auth)
  qed
  have "rekeyed i key (w_now w) p = ?f p" using p(2) by (simp add: rekeyed_def)
  with works p(1,2) have answer: "(\<forall>q\<in>set (projects (w_db w)). live_project q \<and> p_key_prefix q = take 8 key \<longrightarrow> p_id q = i)
        \<longrightarrow> (\<exists>p\<in>set (projects (w_db w)). p_id p = i \<and> run_state (AuthenticateKey (NewProjectService rand policy) key) w'
              = (if p_active p then Inr (project.truncate (rekeyed i key (w_now w) p)) else Inl SvcForbidden, w'))"
    by (intro impI bexI [of _ p]) simp_all
  from dead answer db [unfolded update_where_rekeyed] show ?thesis by (intro conjI allI impI) (auto simp only:)
qed

theorem rotated_key_alone_witness:
  "\<exists>key w'. run_state (RotateKey (NewProjectService sevens \<lparr>AllowPrivate = False\<rparr>) AllProjects 1) demo_world = (Inr key, w')
    \<and> (\<exists>q w''. run_state (AuthenticateKey (NewProjectService sevens \<lparr>AllowPrivate = False\<rparr>) key) w' = (Inr q, w'') \<and> p_id q = 1)"
proof -
  have found: "fst (get_project 1 demo_now demo_db) = Inr (project.truncate demo_project)" "Allows AllProjects 1" "pg_text ''cj_07070''"
    and alone: "\<forall>q\<in>set (projects demo_db). live_project q \<and> p_key_prefix q = take 8 blog_key \<longrightarrow> p_id q = 1"
    and ids: "distinct (map p_id (projects demo_db))" and on: "\<forall>q\<in>set (projects demo_db). p_active q" by code_simp+
  have world: "w_events demo_world = []" "w_now demo_world = demo_now" "w_db demo_world = demo_db" by (simp_all add: demo_world_def)
  with found have "fst (run_state (RotateKey (NewProjectService sevens \<lparr>AllowPrivate = False\<rparr>) AllProjects 1) demo_world)
      = Inr blog_key"
    using plain_text [OF hashed_plain, of blog_key]
    by (simp add: RotateKey_def run_attempt run_or_not_found run_read run_raw run_stmt_alone sevens_key set_key_def pass_on_def)
  then obtain w' where run: "run_state (RotateKey (NewProjectService sevens \<lparr>AllowPrivate = False\<rparr>) AllProjects 1) demo_world = (Inr blog_key, w')"
    by (metis prod.collapse)
  from rotated_key_alone [OF world(1) sevens_bytes ids [folded world(3)] run, unfolded world(2,3), THEN conjunct2, THEN conjunct1, THEN mp, OF alone]
  obtain p where p: "p \<in> set (projects demo_db)" "p_id p = 1"
      and answer: "run_state (AuthenticateKey (NewProjectService sevens \<lparr>AllowPrivate = False\<rparr>) blog_key) w'
        = (if p_active p then Inr (project.truncate (rekeyed 1 blog_key demo_now p)) else Inl SvcForbidden, w')" by blast
  from on p(1) have "p_active p" by blast
  moreover have "p_id (project.truncate (rekeyed 1 blog_key demo_now p)) = 1" using p(2) by (simp add: rekeyed_def)
  ultimately show ?thesis using run answer by auto
qed

section \<open>Deleting a project\<close>

text \<open>The rows a deletion at an instant leaves for those it found: the project and its live jobs go, at that
  instant and switched off, and every other row of the two tables is as it was.\<close>

definition left_job :: "instant \<Rightarrow> int \<Rightarrow> job_t \<Rightarrow> job_t" where
  "left_job at i j = (if j_project_id j = i \<and> jt_deleted_at j = None
     then j\<lparr>j_active := False, jt_deleted_at := Some at, j_updated_at := Some at\<rparr> else j)"

definition left_project :: "instant \<Rightarrow> int \<Rightarrow> project_t \<Rightarrow> project_t" where
  "left_project at i p = (if p_id p = i then p\<lparr>p_active := False, pt_deleted_at := Some at, p_updated_at := Some at\<rparr> else p)"

lemma left_job_simps [simp]:
  "j_project_id (left_job at i j) = j_project_id j" "jt_deleted_at (left_job at i j) = None \<longleftrightarrow> j_project_id j \<noteq> i \<and> jt_deleted_at j = None"
  unfolding left_job_def by (simp, cases "jt_deleted_at j", simp_all)

lemma left_project_simps [simp]:
  "p_id (left_project at i p) = p_id p" "live_project (left_project at i p) \<longleftrightarrow> p_id p \<noteq> i \<and> live_project p"
  by (simp_all add: left_project_def live_project_def)

definition deleted_with :: "instant \<Rightarrow> int \<Rightarrow> db \<Rightarrow> db \<Rightarrow> bool" where
  "deleted_with at i d d' \<longleftrightarrow> d' = d\<lparr>jobs := map (left_job at i) (jobs d), projects := map (left_project at i) (projects d)\<rparr>
     \<and> live_jobs d' i = [] \<and> (\<forall>given q. key_owner d' given = Inr q \<longrightarrow> p_id q \<noteq> i)"

lemma soft_delete_project_deletes:
  "fst (soft_delete_project i at now d) = Inr () \<and> deleted_with at i d (snd (soft_delete_project i at now d))"
proof -
  let ?d = "d\<lparr>jobs := map (left_job at i) (jobs d), projects := map (left_project at i) (projects d)\<rparr>"
  have "soft_delete_project i at now d = (Inr (), ?d)"
    by (simp add: soft_delete_project_def exec_def update_where_def left_job_def [abs_def] left_project_def [abs_def])
  moreover have "live_jobs ?d i = []"
    by (simp add: live_jobs_def jobs_of_project_def filter_empty_conv del: not_None_eq)
  moreover have "p_id q \<noteq> i" if "key_owner ?d given = Inr q" for given q
  proof -
    from that obtain p where "p \<in> set (projects ?d)" "live_project p" "q = project.truncate p" by (elim key_owner_Inr)
    then obtain x where "p = left_project at i x" "live_project p" "p_id q = p_id p" by auto
    then show ?thesis by simp
  qed
  ultimately show ?thesis by (simp add: deleted_with_def)
qed

text \<open> C20. A project leaves with its jobs, and not while one of them runs on a schedule unless the caller insists: a
  deletion that succeeds leaves the project, and each of its jobs that was not deleted before, switched off and
  deleted at the same instant, and every other row and table as it was; no key opens the project any more. One
  that is refused changes nothing; without force an active job is refused with its own error, and a project
  outside the caller's scope is not found. \<close>
theorem delete_project_takes_jobs:
  fixes w w' :: "'w world_scheme"
  assumes "w_events w = []" and "find_project (w_db w) i \<noteq> None"
    and "run_state (DeleteProject (NewProjectService rand policy) scope i force) w = (r, w')"
  shows "if \<not> Allows scope i then r = Inl SvcNotFound \<and> w' = w
    else if \<not> force \<and> list_ex j_active (live_jobs (w_db w) i) then r = Inl SvcProjectLocked \<and> w' = w
    else r = Inr () \<and> (\<exists>at. deleted_with at i (w_db w) (w_db w'))"
proof (cases "Allows scope i")
  case False
  with assms(3) show ?thesis by (simp add: DeleteProject_def)
next
  case True
  let ?f = "\<lparr>jf_Scope = scope, jf_ProjectID = Some i, jf_Tag = None, jf_Active = Some True, jf_Search = None\<rparr>"
  have words: "job_filter_text ?f" by (simp add: job_filter_text_def)
  have "in_scope scope i" using True by (simp add: Allows_def in_scope_def split: if_splits)
  then have match: "listed_jobs ?f (w_db w) = filter j_active (live_jobs (w_db w) i)"
    unfolding listed_jobs_def live_jobs_def jobs_of_project_def filter_filter
    by (intro filter_cong refl) (auto simp: job_matches_def)
  let ?rows = "map (job_row_of (w_db w) (w_now w)) (take 1 (sort_key (\<lambda>j. ((case find_project (w_db w) (j_project_id j) of None \<Rightarrow> [] | Some p \<Rightarrow> p_name p), j_priority j, j_code j))
      (filter (\<lambda>j. find_project (w_db w) (j_project_id j) \<noteq> None) (listed_jobs ?f (w_db w)))))"
  have "run_state (js_List job_repo ?f 0 1) w = (Inr (?rows, int (length (listed_jobs ?f (w_db w)))), w)"
    using assms(1) words by (simp add: job_repo_def paged_def run_stmt_alone count_jobs_def list_job_rows_def clamp_def)
  then have listed: "run_state (ServiceErrors.raw (js_List job_repo ?f 0 1)) w = (Inr (?rows, int (length (listed_jobs ?f (w_db w)))), w)"
    by (simp add: run_raw pass_on_def)
  have "find_project (w_db w) (j_project_id j) \<noteq> None" if "j \<in> set (listed_jobs ?f (w_db w))" for j
    using that assms(2) unfolding match by (auto simp: live_jobs_def jobs_of_project_def)
  then have "filter (\<lambda>j. find_project (w_db w) (j_project_id j) \<noteq> None) (listed_jobs ?f (w_db w)) = listed_jobs ?f (w_db w)"
    by (intro filter_True ballI)
  then have some: "?rows = [] \<longleftrightarrow> \<not> list_ex j_active (live_jobs (w_db w) i)"
    unfolding match by (simp add: list_ex_iff filter_empty_conv)
  define rows where "rows = ?rows"
  have run: "run_state (attempt (ServiceErrors.raw (js_List job_repo ?f 0 1)) (\<lambda>(rows, _).
        if rows \<noteq> [] \<and> \<not> force then fail SvcProjectLocked
        else do { now \<leftarrow> app_now; or_not_found (stmt (soft_delete_project i now)) })) w = (r, w')"
    using assms(3) True unfolding DeleteProject_def project_simps by simp
  show ?thesis
  proof (cases "\<not> force \<and> list_ex j_active (live_jobs (w_db w) i)")
    case locked: True
    then have "rows \<noteq> []" using some by (simp add: rows_def)
    with run [unfolded run_attempt_after [OF listed [folded rows_def]] prod.case] locked True show ?thesis by simp
  next
    case False
    then have "\<not> (rows \<noteq> [] \<and> \<not> force)" using some by (auto simp: rows_def)
    with run [unfolded run_attempt_after [OF listed [folded rows_def]] prod.case]
    have run2: "run_state (do { now \<leftarrow> app_now; or_not_found (stmt (soft_delete_project i now)) }) w = (r, w')"
      by (simp only: if_False)
    obtain at w1 where at: "run_state app_now w = (at, w1)" by fastforce
    then have "w_db w1 = w_db w" "w_events w1 = []" using assms(1) by (auto simp: app_now_def split: list.splits)
    with at run2 soft_delete_project_deletes [of i at "w_now w1" "w_db w"] have "r = Inr ()" "deleted_with at i (w_db w) (w_db w')"
      by (auto simp: run_or_not_found run_stmt_alone pass_on_def)
    with False True show ?thesis by auto
  qed
qed

theorem delete_project_takes_jobs_witness:
  "(\<exists>at w'. run_state (DeleteProject (NewProjectService sevens \<lparr>AllowPrivate = False\<rparr>) AllProjects 1 True) demo_world = (Inr (), w')
      \<and> deleted_with at 1 (w_db demo_world) (w_db w'))
    \<and> run_state (DeleteProject (NewProjectService sevens \<lparr>AllowPrivate = False\<rparr>) AllProjects 1 False) demo_world
      = (Inl SvcProjectLocked, demo_world)"
proof -
  have "find_project demo_db 1 \<noteq> None" "Allows AllProjects 1" "list_ex j_active (live_jobs demo_db 1)" by code_simp+
  moreover have "w_events demo_world = []" "w_db demo_world = demo_db" by (simp_all add: demo_world_def)
  moreover obtain r w' where run: "run_state (DeleteProject (NewProjectService sevens \<lparr>AllowPrivate = False\<rparr>) AllProjects 1 True) demo_world = (r, w')"
    by fastforce
  moreover obtain r' v where run': "run_state (DeleteProject (NewProjectService sevens \<lparr>AllowPrivate = False\<rparr>) AllProjects 1 False) demo_world = (r', v)"
    by fastforce
  ultimately show ?thesis
    using delete_project_takes_jobs [OF _ _ run] delete_project_takes_jobs [OF _ _ run'] by simp
qed

end
