(* ===== verification/Token.thy ===== *)
theory Token
  imports ServiceErrors Store
begin

text \<open>
  Session tokens (\<open>pkg/token/token.go\<close>). Signing a set of claims and checking a signed text are the token
  library's, and arguments: \<open>jw_sign\<close> is the signing with HS256, \<open>jw_parse\<close> the check of form, algorithm,
  signature and expiry against the clock.
\<close>

definition TTL :: int where "TTL = 24 * 3600 * second"

record claims =
  cl_Subject :: string
  cl_IssuedAt :: "instant option"
  cl_ExpiresAt :: "instant option"

text \<open>What a token parses to; of a map, the answers of \<open>GetSubject\<close> and \<open>GetIssuedAt\<close>.\<close>

datatype parsed_claims =
    RegisteredClaims claims
  | MapClaims "string option" "instant option option"
  | OtherClaims

record jwt =
  jw_sign :: "string \<Rightarrow> claims \<Rightarrow> go_error + string"
  jw_parse :: "string \<Rightarrow> instant \<Rightarrow> string \<Rightarrow> parsed_claims option"

record Issuer =
  ti_jwt :: jwt
  ti_secret :: string

definition NewIssuer :: "jwt \<Rightarrow> string \<Rightarrow> Issuer" where
  "NewIssuer lib secret = \<lparr>ti_jwt = lib, ti_secret = secret\<rparr>"

text \<open>\<open>jwt.NewNumericDate\<close> keeps whole seconds.\<close>

definition numeric_date :: "instant \<Rightarrow> instant" where
  "numeric_date t = t div second * second"

definition token_claims :: "int \<Rightarrow> instant \<Rightarrow> claims" where
  "token_claims userID now = \<lparr>cl_Subject = show_int userID, cl_IssuedAt = Some (numeric_date now),
     cl_ExpiresAt = Some (numeric_date (now + TTL))\<rparr>"

definition Issue :: "Issuer \<Rightarrow> int \<Rightarrow> ('w world_scheme, string) call" where
  "Issue i userID = do {
     now \<leftarrow> app_now;
     State_Monad.return (jw_sign (ti_jwt i) (ti_secret i) (token_claims userID now)) }"

text \<open>\<open>ErrInvalid\<close> is \<open>None\<close>.\<close>

definition fromMap :: "string option \<Rightarrow> instant option option \<Rightarrow> (int \<times> instant) option" where
  "fromMap sub iat = (case sub of
      None \<Rightarrow> None
    | Some subject \<Rightarrow>
        if subject = [] then None
        else (case atoi subject of
            None \<Rightarrow> None
          | Some i \<Rightarrow> (case iat of Some (Some at) \<Rightarrow> Some (i, at) | _ \<Rightarrow> None)))"

definition verified :: "Issuer \<Rightarrow> instant \<Rightarrow> string \<Rightarrow> (int \<times> instant) option" where
  "verified i now given = (case jw_parse (ti_jwt i) (ti_secret i) now given of
      None \<Rightarrow> None
    | Some (RegisteredClaims c) \<Rightarrow>
        (case (atoi (cl_Subject c), cl_IssuedAt c) of (Some n, Some at) \<Rightarrow> Some (n, at) | _ \<Rightarrow> None)
    | Some (MapClaims sub iat) \<Rightarrow> fromMap sub iat
    | Some OtherClaims \<Rightarrow> None)"

definition Verify :: "Issuer \<Rightarrow> string \<Rightarrow> ('w world_scheme, (int \<times> instant) option) state" where
  "Verify i given = do { now \<leftarrow> app_now; State_Monad.return (verified i now given) }"

end
