(* ===== verification/AuthService.thy ===== *)
theory AuthService
  imports AccountStore AuthzRepo ProjectService Token
begin

text \<open>
  Accounts and sessions (\<open>internal/service/auth_service.go\<close>, \<open>pkg/auth/bcrypt.go\<close>, \<open>random.go\<close>): signing in and
  out, passwords, the mailed reset link, the accounts themselves, and the first administrator. Hashing a
  password, signing a token, random bytes and sending a mail are calls of the service's arguments; lines
  for the service log are left out.
\<close>

section \<open>What the service depends on\<close>

datatype auth_error =
    AuSvc svc_error
  | ErrResetUnavailable
  | ErrResetLinkInvalid
  | ErrSetupDone

type_synonym ('w, 'a) au = "('w, auth_error + 'a) state"

record 'w UserStore =
  us_GetByID :: "int \<Rightarrow> ('w, user) call"
  us_GetByEmail :: "string \<Rightarrow> ('w, user) call"
  us_List :: "string \<Rightarrow> int \<Rightarrow> int \<Rightarrow> ('w, user list \<times> int) call"
  us_Count :: "('w, int) call"
  us_Create :: "user \<Rightarrow> ('w, int) call"
  us_CreateFirstAdmin :: "user \<Rightarrow> ('w, int) call"
  us_UpdateProfile :: "user \<Rightarrow> ('w, unit) call"
  us_UpdatePassword :: "int \<Rightarrow> string \<Rightarrow> instant \<Rightarrow> ('w, unit) call"
  us_InvalidateTokens :: "int \<Rightarrow> instant \<Rightarrow> ('w, unit) call"
  us_TouchLogin :: "int \<Rightarrow> instant \<Rightarrow> ('w, unit) call"
  us_SoftDelete :: "int \<Rightarrow> instant \<Rightarrow> ('w, unit) call"

definition user_repo :: "'w world_scheme UserStore" where
  "user_repo = \<lparr>us_GetByID = (\<lambda>i. stmt (get_user i)), us_GetByEmail = (\<lambda>e. stmt (get_user_by_email e)),
     us_List = (\<lambda>q offset limit. paged (stmt (count_matching_users q)) (stmt (list_users q offset limit))),
     us_Count = stmt count_users, us_Create = (\<lambda>u. stmt (create_user u)),
     us_CreateFirstAdmin = (\<lambda>u. stmt (create_first_admin u)), us_UpdateProfile = (\<lambda>u. stmt (update_profile u)),
     us_UpdatePassword = (\<lambda>i h t. stmt (update_password i h t)),
     us_InvalidateTokens = (\<lambda>i t. stmt (invalidate_tokens i t)), us_TouchLogin = (\<lambda>i t. stmt (touch_login i t)),
     us_SoftDelete = (\<lambda>i t. stmt (soft_delete_user i t))\<rparr>"

record 'w ResetStore =
  rs_Create :: "password_reset \<Rightarrow> ('w, int) call"
  rs_FindByTokenHash :: "string \<Rightarrow> ('w, password_reset) call"
  rs_MarkUsed :: "int \<Rightarrow> instant \<Rightarrow> ('w, unit) call"

definition reset_repo :: "'w world_scheme ResetStore" where
  "reset_repo = \<lparr>rs_Create = (\<lambda>r. stmt (create_reset r)), rs_FindByTokenHash = (\<lambda>h. stmt (find_reset h)),
     rs_MarkUsed = (\<lambda>i t. stmt (mark_used i t))\<rparr>"

text \<open>The hash library: a hash draws a salt, and may be refused; comparing is a function.\<close>

record 'w bcrypt =
  bc_generate :: "string \<Rightarrow> ('w, string) call"
  bc_compare :: "string \<Rightarrow> string \<Rightarrow> bool"

record 'w auth_service =
  au_users :: "'w UserStore"
  au_resets :: "'w ResetStore option"
  au_mail :: "(string \<Rightarrow> string \<Rightarrow> instant \<Rightarrow> ('w, unit) state) option"
  au_tokens :: Issuer
  au_grants :: "(int \<Rightarrow> ('w, unit) call) option"
  au_bcrypt :: "'w bcrypt"
  au_rand :: "nat \<Rightarrow> ('w, nat list) state"

definition NewAuthService ::
  "(string \<Rightarrow> string \<Rightarrow> instant \<Rightarrow> ('w world_scheme, unit) state) option \<Rightarrow> Issuer \<Rightarrow> 'w world_scheme bcrypt
     \<Rightarrow> (nat \<Rightarrow> ('w world_scheme, nat list) state) \<Rightarrow> 'w world_scheme auth_service" where
  "NewAuthService mail tokens hasher rand =
     \<lparr>au_users = user_repo, au_resets = Some reset_repo, au_mail = mail, au_tokens = tokens,
      au_grants = Some (\<lambda>u. stmt (revoke_user u)), au_bcrypt = hasher, au_rand = rand\<rparr>"

definition au_pass :: "('w, 'a) call \<Rightarrow> ('w, 'a) au" where
  "au_pass m = do {
     r \<leftarrow> m;
     State_Monad.return (map_sum (\<lambda>e. AuSvc (SvcOther e)) (\<lambda>x. x) r) }"

text \<open>The repository's \<open>ErrNotFound\<close>, or \<open>ErrDuplicate\<close>, becomes the given error.\<close>

definition au_found :: "auth_error \<Rightarrow> ('w, 'a) call \<Rightarrow> ('w, 'a) au" where
  "au_found err m = do {
     r \<leftarrow> m;
     State_Monad.return (case r of Inl ErrNotFound \<Rightarrow> Inl err | _ \<Rightarrow> map_sum (\<lambda>e. AuSvc (SvcOther e)) (\<lambda>x. x) r) }"

definition au_unique :: "auth_error \<Rightarrow> ('w, 'a) call \<Rightarrow> ('w, 'a) au" where
  "au_unique err m = do {
     r \<leftarrow> m;
     State_Monad.return (case r of Inl ErrDuplicate \<Rightarrow> Inl err | _ \<Rightarrow> map_sum (\<lambda>e. AuSvc (SvcOther e)) (\<lambda>x. x) r) }"

section \<open>Passwords and tokens\<close>

text \<open>An error of the hash is ignored; what is stored then is the empty text.\<close>

definition HashAndSalt :: "'w bcrypt \<Rightarrow> string \<Rightarrow> ('w, string) state" where
  "HashAndSalt h password = do {
     r \<leftarrow> bc_generate h password;
     State_Monad.return (case r of Inl _ \<Rightarrow> [] | Inr x \<Rightarrow> x) }"

definition ComparePassword :: "'w bcrypt \<Rightarrow> string \<Rightarrow> string \<Rightarrow> bool" where
  "ComparePassword h stored password = bc_compare h stored password"

definition RandomHex :: "(nat \<Rightarrow> ('w, nat list) state) \<Rightarrow> nat \<Rightarrow> ('w, string) state" where
  "RandomHex rand n = do { buf \<leftarrow> rand n; State_Monad.return (hex_encode buf) }"

definition minPasswordLength :: nat where "minPasswordLength = 10"

definition validatePassword :: "string \<Rightarrow> field_error list" where
  "validatePassword password =
     (if rune_count password < minPasswordLength
        then [(''password'', ''must be at least '' @ svc_itoa (int minPasswordLength) @ '' characters'')]
      else if length password > 512 then [(''password'', ''is too long'')]
      else [])"

definition invalid_input :: "field_error list \<Rightarrow> auth_error" where
  "invalid_input es = AuSvc (SvcValidation es)"

definition ResetTokenTTL :: int where "ResetTokenTTL = 3600 * second"

definition store_password :: "'w world_scheme auth_service \<Rightarrow> int \<Rightarrow> string \<Rightarrow> instant \<Rightarrow> ('w world_scheme, unit) au" where
  "store_password s userID next at = do {
     hash \<leftarrow> HashAndSalt (au_bcrypt s) next;
     au_pass (us_UpdatePassword (au_users s) userID hash at) }"

section \<open>Sessions\<close>

definition Login :: "'w world_scheme auth_service \<Rightarrow> string \<Rightarrow> string \<Rightarrow> ('w world_scheme, user \<times> string) au" where
  "Login s email0 password =
     (let email = trim_space (to_lower email0) in
      attempt (au_found (AuSvc SvcInvalidLogin) (us_GetByEmail (au_users s) email)) (\<lambda>user.
        if \<not> ComparePassword (au_bcrypt s) (u_password user) password then fail (AuSvc SvcInvalidLogin)
        else if \<not> u_active user then fail (AuSvc SvcInactiveUser)
        else attempt (au_pass (Issue (au_tokens s) (u_id user))) (\<lambda>signed. do {
          now \<leftarrow> app_now;
          _ \<leftarrow> us_TouchLogin (au_users s) (u_id user) now;
          ok (user, signed) })))"

definition IssueToken :: "'w world_scheme auth_service \<Rightarrow> user option \<Rightarrow> ('w world_scheme, string) au" where
  "IssueToken s u = (case u of None \<Rightarrow> fail (AuSvc SvcForbidden) | Some u \<Rightarrow> au_pass (Issue (au_tokens s) (u_id u)))"

definition Authenticate :: "'w world_scheme auth_service \<Rightarrow> string \<Rightarrow> ('w world_scheme, user) au" where
  "Authenticate s given = do {
     v \<leftarrow> Verify (au_tokens s) given;
     (case v of
        None \<Rightarrow> fail (AuSvc SvcForbidden)
      | Some (userID, issuedAt) \<Rightarrow>
          attempt (au_found (AuSvc SvcForbidden) (us_GetByID (au_users s) userID)) (\<lambda>user.
            if \<not> u_active user \<or> token_retired user issuedAt then fail (AuSvc SvcForbidden) else ok user)) }"

definition Logout :: "'w world_scheme auth_service \<Rightarrow> int \<Rightarrow> ('w world_scheme, unit) au" where
  "Logout s userID = do { now \<leftarrow> app_now; au_pass (us_InvalidateTokens (au_users s) userID now) }"

section \<open>Changing a password\<close>

definition ChangePassword :: "'w world_scheme auth_service \<Rightarrow> int \<Rightarrow> string \<Rightarrow> string \<Rightarrow> ('w world_scheme, unit) au" where
  "ChangePassword s userID current next =
     attempt (au_found (AuSvc SvcNotFound) (us_GetByID (au_users s) userID)) (\<lambda>user.
       if \<not> ComparePassword (au_bcrypt s) (u_password user) current
         then fail (invalid_input [(''current_password'', ''does not match'')])
       else if validatePassword next \<noteq> [] then fail (invalid_input (validatePassword next))
       else do {
         hash \<leftarrow> HashAndSalt (au_bcrypt s) next;
         now \<leftarrow> app_now;
         au_pass (us_UpdatePassword (au_users s) userID hash now) })"

definition ResetPassword :: "'w world_scheme auth_service \<Rightarrow> int \<Rightarrow> string \<Rightarrow> ('w world_scheme, unit) au" where
  "ResetPassword s userID next =
     (if validatePassword next \<noteq> [] then fail (invalid_input (validatePassword next))
      else do {
        hash \<leftarrow> HashAndSalt (au_bcrypt s) next;
        now \<leftarrow> app_now;
        au_pass (us_UpdatePassword (au_users s) userID hash now) })"

text \<open>The hash of a mailed token is that of an API key.\<close>

definition hashResetToken :: "string \<Rightarrow> string" where
  "hashResetToken given = hashed given"

definition RequestPasswordReset :: "'w world_scheme auth_service \<Rightarrow> string \<Rightarrow> ('w world_scheme, unit) au" where
  "RequestPasswordReset s email0 = (case (au_resets s, au_mail s) of
      (Some resets, Some mail) \<Rightarrow>
        (let email = trim_space (to_lower email0) in
         if email = [] then ok ()
         else do {
           r \<leftarrow> us_GetByEmail (au_users s) email;
           (case r of
              Inl ErrNotFound \<Rightarrow> ok ()
            | Inl e \<Rightarrow> fail (AuSvc (SvcOther e))
            | Inr user \<Rightarrow>
                if \<not> u_active user then ok ()
                else do {
                  token \<leftarrow> RandomHex (au_rand s) 32;
                  now \<leftarrow> app_now;
                  let expires = now + ResetTokenTTL;
                  attempt (au_pass (rs_Create resets \<lparr>ps_id = 0, ps_user_id = u_id user,
                      ps_token_hash = hashResetToken token, ps_expires_at = expires, ps_used_at = None,
                      ps_created_at = zero_time\<rparr>)) (\<lambda>_. do {
                    mail (u_email user) token expires;
                    ok () }) }) })
    | _ \<Rightarrow> fail ErrResetUnavailable)"

definition CompletePasswordReset :: "'w world_scheme auth_service \<Rightarrow> string \<Rightarrow> string \<Rightarrow> ('w world_scheme, unit) au" where
  "CompletePasswordReset s token next = (case au_resets s of
      None \<Rightarrow> fail ErrResetUnavailable
    | Some resets \<Rightarrow>
        if trim_space token = [] then fail ErrResetLinkInvalid
        else if validatePassword next \<noteq> [] then fail (invalid_input (validatePassword next))
        else attempt (au_found ErrResetLinkInvalid (rs_FindByTokenHash resets (hashResetToken token))) (\<lambda>reset. do {
          now \<leftarrow> app_now;
          if \<not> reset_live reset now then fail ErrResetLinkInvalid
          else attempt (au_found ErrResetLinkInvalid (us_GetByID (au_users s) (ps_user_id reset))) (\<lambda>user.
            if \<not> u_active user then fail ErrResetLinkInvalid
            else do {
              now \<leftarrow> app_now;
              attempt (au_pass (rs_MarkUsed resets (ps_id reset) now)) (\<lambda>_.
                attempt (store_password s (u_id user) next now) (\<lambda>_. ok ())) }) }))"

section \<open>Accounts\<close>

record user_input =
  ui_Fullname :: string
  ui_Email :: string
  ui_Phone :: string
  ui_Password :: string
  ui_IsAdmin :: bool
  ui_Active :: bool

definition input_email :: "user_input \<Rightarrow> string" where
  "input_email i = trim_space (to_lower (ui_Email i))"

definition account_errors :: "user_input \<Rightarrow> field_error list" where
  "account_errors i =
     (if trim_space (ui_Fullname i) = [] then [(''fullname'', ''required'')] else [])
     @ (if CHR ''@'' \<notin> set (input_email i) \<or> length (input_email i) < 5
        then [(''email'', ''not a valid address'')] else [])
     @ validatePassword (ui_Password i)"

definition email_exists :: auth_error where
  "email_exists = invalid_input [(''email'', ''an account with this address already exists'')]"

definition blank_user :: user where
  "blank_user = \<lparr>u_id = 0, u_fullname = [], u_email = [], u_password = [], u_phone = [], u_is_admin = False,
     u_active = False, u_last_login = None, u_tokens_valid_after = None, u_created_at = zero_time, u_updated_at = None\<rparr>"

definition CreateUser :: "'w world_scheme auth_service \<Rightarrow> user_input \<Rightarrow> ('w world_scheme, int) au" where
  "CreateUser s i =
     (if account_errors i \<noteq> [] then fail (invalid_input (account_errors i))
      else do {
        hash \<leftarrow> HashAndSalt (au_bcrypt s) (ui_Password i);
        au_unique email_exists (us_Create (au_users s)
          (blank_user\<lparr>u_fullname := trim_space (ui_Fullname i), u_email := input_email i, u_password := hash,
             u_phone := trim_space (ui_Phone i), u_is_admin := ui_IsAdmin i, u_active := ui_Active i\<rparr>)) })"

definition UpdateUser :: "'w world_scheme auth_service \<Rightarrow> int \<Rightarrow> user_input \<Rightarrow> ('w world_scheme, unit) au" where
  "UpdateUser s userID i =
     attempt (au_found (AuSvc SvcNotFound) (us_GetByID (au_users s) userID)) (\<lambda>user.
       let user = user\<lparr>u_fullname := trim_space (ui_Fullname i), u_email := input_email i,
             u_phone := trim_space (ui_Phone i), u_is_admin := ui_IsAdmin i, u_active := ui_Active i\<rparr> in
       if u_fullname user = [] \<or> CHR ''@'' \<notin> set (u_email user)
         then fail (invalid_input [(''email'', ''name and a valid address are required'')])
       else au_unique email_exists (us_UpdateProfile (au_users s) user))"

definition DeleteUser :: "'w world_scheme auth_service \<Rightarrow> int \<Rightarrow> ('w world_scheme, unit) au" where
  "DeleteUser s userID =
     attempt (case au_grants s of None \<Rightarrow> ok () | Some revoke \<Rightarrow> au_pass (revoke userID)) (\<lambda>_. do {
       now \<leftarrow> app_now;
       au_found (AuSvc SvcNotFound) (us_SoftDelete (au_users s) userID now) })"

definition ListUsers :: "'w world_scheme auth_service \<Rightarrow> string \<Rightarrow> int \<Rightarrow> int \<Rightarrow> ('w world_scheme, user list \<times> int) au" where
  "ListUsers s search offset limit = au_pass (us_List (au_users s) search offset limit)"

definition GetUser :: "'w world_scheme auth_service \<Rightarrow> int \<Rightarrow> ('w world_scheme, user) au" where
  "GetUser s userID = au_found (AuSvc SvcNotFound) (us_GetByID (au_users s) userID)"

section \<open>The first administrator\<close>

definition NeedsSetup :: "'w world_scheme auth_service \<Rightarrow> ('w world_scheme, bool) au" where
  "NeedsSetup s = attempt (au_pass (us_Count (au_users s))) (\<lambda>n. ok (n = 0))"

definition CompleteSetup :: "'w world_scheme auth_service \<Rightarrow> user_input \<Rightarrow> ('w world_scheme, user) au" where
  "CompleteSetup s i =
     (if account_errors i \<noteq> [] then fail (invalid_input (account_errors i))
      else do {
        hash \<leftarrow> HashAndSalt (au_bcrypt s) (ui_Password i);
        r \<leftarrow> us_CreateFirstAdmin (au_users s)
          (blank_user\<lparr>u_fullname := trim_space (ui_Fullname i), u_email := input_email i, u_password := hash,
             u_phone := trim_space (ui_Phone i)\<rparr>);
        (case r of
           Inl ErrForbidden \<Rightarrow> fail ErrSetupDone
         | Inl ErrDuplicate \<Rightarrow> fail ErrSetupDone
         | Inl e \<Rightarrow> fail (AuSvc (SvcOther e))
         | Inr i \<Rightarrow> au_pass (us_GetByID (au_users s) i)) })"

end
