(* ===== verification/AuthProps.thy ===== *)
theory AuthProps
  imports AuthService ProjectProps
begin

text \<open>
  What accounts and sessions guarantee: a password change, a reset, signing out and a deletion end the sessions
  before them; a reset link works once and takes the account's other links along. And what a password longer than the hash accepts does.
\<close>

section \<open>The libraries\<close>

text \<open>
  What the hash library documents: it refuses a password of more than 72 bytes, otherwise the hash it gives is
  a text the password compares with; a text too short to be a hash compares with nothing. It touches no table
  and no clock.
\<close>

definition hash_lib :: "'w world_scheme bcrypt \<Rightarrow> bool" where
  "hash_lib h \<longleftrightarrow> (\<forall>pw w. case run_state (bc_generate h pw) w of (r, w') \<Rightarrow>
       w_db w' = w_db w \<and> w_events w' = w_events w \<and> w_now w' = w_now w \<and> w_app w' = w_app w
       \<and> (if 72 < length pw then (\<exists>e. r = Inl e) else (\<exists>x. r = Inr x \<and> bc_compare h x pw)))
     \<and> (\<forall>pw. \<not> bc_compare h [] pw)"

lemma run_HashAndSalt:
  assumes "hash_lib h" and "run_state (HashAndSalt h pw) w = (x, w')"
  shows "w_db w' = w_db w \<and> w_events w' = w_events w \<and> w_now w' = w_now w \<and> w_app w' = w_app w
    \<and> (if 72 < length pw then x = [] else bc_compare h x pw)"
proof -
  obtain r v where r: "run_state (bc_generate h pw) w = (r, v)" by fastforce
  from assms(1) [unfolded hash_lib_def, THEN conjunct1, THEN spec [of _ pw], THEN spec [of _ w]] r assms(2)
  show ?thesis by (auto simp: HashAndSalt_def split: if_splits)
qed

text \<open>The application's clock, as the next reading gives it.\<close>

definition clock_of :: "'w world_scheme \<Rightarrow> instant" where
  "clock_of w = (case w_app w of [] \<Rightarrow> w_now w | t # _ \<Rightarrow> t)"

lemma run_app_now: "run_state app_now w = (clock_of w, case w_app w of [] \<Rightarrow> w | t # ts \<Rightarrow> w\<lparr>w_app := ts\<rparr>)"
  by (simp add: app_now_def clock_of_def split: list.split)

lemma app_now_quiet:
  "w_db (case w_app w of [] \<Rightarrow> w | t # ts \<Rightarrow> w\<lparr>w_app := ts\<rparr>) = w_db w"
  "w_events (case w_app w of [] \<Rightarrow> w | t # ts \<Rightarrow> w\<lparr>w_app := ts\<rparr>) = w_events w"
  "w_now (case w_app w of [] \<Rightarrow> w | t # ts \<Rightarrow> w\<lparr>w_app := ts\<rparr>) = w_now w"
  by (simp_all split: list.split)

lemma auth_simps [simp]:
  "au_users (NewAuthService mail tokens h rand) = user_repo" "au_resets (NewAuthService mail tokens h rand) = Some reset_repo"
  "au_mail (NewAuthService mail tokens h rand) = mail" "au_tokens (NewAuthService mail tokens h rand) = tokens"
  "au_grants (NewAuthService mail tokens h rand) = Some (\<lambda>u. stmt (revoke_user u))"
  "au_bcrypt (NewAuthService mail tokens h rand) = h" "au_rand (NewAuthService mail tokens h rand) = rand"
  "us_GetByID user_repo = (\<lambda>i. stmt (get_user i))" "us_GetByEmail user_repo = (\<lambda>e. stmt (get_user_by_email e))"
  "us_CreateFirstAdmin user_repo = (\<lambda>u. stmt (create_first_admin u))"
  "us_UpdatePassword user_repo = (\<lambda>i x t. stmt (update_password i x t))"
  "us_InvalidateTokens user_repo = (\<lambda>i t. stmt (invalidate_tokens i t))" "us_TouchLogin user_repo = (\<lambda>i t. stmt (touch_login i t))"
  "us_SoftDelete user_repo = (\<lambda>i t. stmt (soft_delete_user i t))"
  "rs_FindByTokenHash reset_repo = (\<lambda>x. stmt (find_reset x))" "rs_MarkUsed reset_repo = (\<lambda>i t. stmt (mark_used i t))"
  by (simp_all add: NewAuthService_def user_repo_def reset_repo_def)

lemma auth_reads [simp]: "reads_only (get_user i)" "reads_only (get_user_by_email e)" "reads_only (find_reset x)"
  by (simp_all add: reads_only_def get_user_def get_user_by_email_def find_reset_def)

lemma run_au_pass: "run_state (au_pass m) w = (case run_state m w of (r, w') \<Rightarrow> (map_sum (\<lambda>e. AuSvc (SvcOther e)) (\<lambda>x. x) r, w'))"
  by (simp add: au_pass_def split: prod.split)

lemma run_au_found: "run_state (au_found err m) w =
    (case run_state m w of (r, w') \<Rightarrow> (case r of Inl ErrNotFound \<Rightarrow> Inl err | _ \<Rightarrow> map_sum (\<lambda>e. AuSvc (SvcOther e)) (\<lambda>x. x) r, w'))"
  by (simp add: au_found_def split: prod.split)

lemma au_found_Inr: "run_state (au_found err m) w = (Inr x, w') \<longleftrightarrow> run_state m w = (Inr x, w')"
  by (auto simp: run_au_found split: prod.splits sum.splits go_error.splits)

lemma au_pass_Inr: "run_state (au_pass m) w = (Inr x, w') \<longleftrightarrow> run_state m w = (Inr x, w')"
  by (auto simp: run_au_pass map_sum_def split: prod.splits sum.splits)

lemmas auth_run = attempt_Inr au_found_Inr au_pass_Inr run_app_now app_now_quiet

section \<open>Passwords\<close>

lemma run_on_user:
  fixes w :: "'w world_scheme"
  assumes "w_events w = []"
  shows "run_state (stmt (update_password i x t)) w = (Inr (), w\<lparr>w_db := (w_db w)\<lparr>users := update_where (\<lambda>u. u_id u = i)
      (\<lambda>u. u\<lparr>u_password := x, u_updated_at := Some t, u_tokens_valid_after := Some t\<rparr>) (users (w_db w))\<rparr>\<rparr>)"
    and "run_state (stmt (invalidate_tokens i t)) w = (Inr (), w\<lparr>w_db := (w_db w)\<lparr>users := update_where (\<lambda>u. u_id u = i)
      (\<lambda>u. u\<lparr>u_tokens_valid_after := Some t\<rparr>) (users (w_db w))\<rparr>\<rparr>)"
    and "run_state (stmt (soft_delete_user i t)) w = (Inr (), w\<lparr>w_db := (w_db w)\<lparr>users := update_where (\<lambda>u. u_id u = i)
      (\<lambda>u. u\<lparr>u_active := False, ut_deleted_at := Some t, u_updated_at := Some t, u_tokens_valid_after := Some t\<rparr>) (users (w_db w))\<rparr>\<rparr>)"
  using assms by (simp_all add: run_stmt_alone update_password_def invalidate_tokens_def soft_delete_user_def on_user_def exec_def)

text \<open>What setting a password leaves: the hash, and every session before that moment retired.\<close>

definition password_set :: "'w world_scheme bcrypt \<Rightarrow> int \<Rightarrow> string \<Rightarrow> instant \<Rightarrow> db \<Rightarrow> db \<Rightarrow> bool" where
  "password_set h i next at d d' \<longleftrightarrow> (\<exists>x. (if 72 < length next then x = [] else bc_compare h x next)
     \<and> d' = d\<lparr>users := update_where (\<lambda>u. u_id u = i)
         (\<lambda>u. u\<lparr>u_password := x, u_updated_at := Some at, u_tokens_valid_after := Some at\<rparr>) (users d)\<rparr>)"

lemma password_set_rows:
  assumes "password_set h i next at d d'" and "u \<in> set (users d')" and "u_id u = i"
  shows "u_tokens_valid_after u = Some at \<and> (if 72 < length next then u_password u = [] else bc_compare h (u_password u) next)"
proof -
  from assms(1) obtain x where x: "if 72 < length next then x = [] else bc_compare h x next"
    and d': "d' = d\<lparr>users := update_where (\<lambda>u. u_id u = i)
      (\<lambda>u. u\<lparr>u_password := x, u_updated_at := Some at, u_tokens_valid_after := Some at\<rparr>) (users d)\<rparr>"
    unfolding password_set_def by blast
  have "\<forall>u\<in>set (users d'). u_id u = i \<longrightarrow> u_tokens_valid_after u = Some at \<and> u_password u = x"
    unfolding d' by (simp add: ball_update_where)
  with assms(2,3) x show ?thesis by simp
qed

lemma run_set_password:
  fixes w :: "'w world_scheme"
  assumes "w_events w = []" and "hash_lib h"
    and "run_state (do { x \<leftarrow> HashAndSalt h next; now \<leftarrow> app_now;
        au_pass (us_UpdatePassword user_repo i x now) }) w = (r, w')"
  shows "r = Inr () \<and> w_events w' = [] \<and> password_set h i next (clock_of w) (w_db w) (w_db w')"
proof -
  obtain x v where x: "run_state (HashAndSalt h next) w = (x, v)" by fastforce
  from run_HashAndSalt [OF assms(2) x] have v: "w_db v = w_db w" "w_events v = []" "w_app v = w_app w" "w_now v = w_now w"
    and hash: "if 72 < length next then x = [] else bc_compare h x next" using assms(1) by simp_all
  let ?v = "case w_app v of [] \<Rightarrow> v | t # ts \<Rightarrow> v\<lparr>w_app := ts\<rparr>"
  have q: "w_events ?v = []" using v(2) by (simp add: app_now_quiet)
  have c: "clock_of v = clock_of w" using v by (simp add: clock_of_def split: list.split)
  from assms(3) x have "(r, w') = (Inr (), ?v\<lparr>w_db := (w_db w)\<lparr>users := update_where (\<lambda>u. u_id u = i)
      (\<lambda>u. u\<lparr>u_password := x, u_updated_at := Some (clock_of w), u_tokens_valid_after := Some (clock_of w)\<rparr>) (users (w_db w))\<rparr>\<rparr>)"
    by (simp add: run_app_now run_au_pass run_on_user(1) [OF q] app_now_quiet v(1) c)
  then have "r = Inr ()" "w_events w' = []" "w_db w' = (w_db w)\<lparr>users := update_where (\<lambda>u. u_id u = i)
      (\<lambda>u. u\<lparr>u_password := x, u_updated_at := Some (clock_of w), u_tokens_valid_after := Some (clock_of w)\<rparr>) (users (w_db w))\<rparr>"
    using q by simp_all
  with hash show ?thesis unfolding password_set_def by (intro conjI exI [of _ x])
qed

text \<open>Which session a token opens, as a function of the database and the clock.\<close>

definition session :: "Issuer \<Rightarrow> instant \<Rightarrow> db \<Rightarrow> string \<Rightarrow> auth_error + user" where
  "session tokens now d given = (case verified tokens now given of
      None \<Rightarrow> Inl (AuSvc SvcForbidden)
    | Some (i, issued) \<Rightarrow> (case find (\<lambda>u. u_id u = i \<and> live_user u) (users d) of
        None \<Rightarrow> Inl (AuSvc SvcForbidden)
      | Some u \<Rightarrow> if u_active u \<and> \<not> token_retired (user.truncate u) issued then Inr (user.truncate u)
                  else Inl (AuSvc SvcForbidden)))"

lemma truncate_user [simp]:
  "u_id (user.truncate u) = u_id u" "u_active (user.truncate u) = u_active u" "u_password (user.truncate u) = u_password u"
  "u_tokens_valid_after (user.truncate u) = u_tokens_valid_after u" "u_is_admin (user.truncate u) = u_is_admin u"
  by (simp_all add: user.truncate_def)

lemma run_Authenticate:
  fixes w :: "'w world_scheme"
  assumes "w_events w = []"
  shows "fst (run_state (Authenticate (NewAuthService mail tokens h rand) given) w) = session tokens (clock_of w) (w_db w) given"
proof -
  let ?v = "case w_app w of [] \<Rightarrow> w | t # ts \<Rightarrow> w\<lparr>w_app := ts\<rparr>"
  have q: "w_events ?v = []" using assms by (simp add: app_now_quiet)
  show ?thesis
  proof (cases "verified tokens (clock_of w) given")
    case None
    then show ?thesis by (simp add: Authenticate_def Verify_def run_app_now session_def)
  next
    case (Some x)
    obtain i issued where x: "x = (i, issued)" by fastforce
    show ?thesis
      by (simp add: Authenticate_def Verify_def run_app_now session_def Some x run_attempt run_au_found run_read [OF q] get_user_def
          app_now_quiet split: option.split)
  qed
qed

lemma run_Login_Inr:
  fixes w w' :: "'w world_scheme"
  assumes "w_events w = []" and "run_state (Login (NewAuthService mail tokens h rand) email pw) w = (Inr (x, t), w')"
  obtains u where "u \<in> set (users (w_db w))" and "u_id u = u_id x" and "live_user u" and "u_active u" and "bc_compare h (u_password u) pw"
proof -
  from assms obtain y where y: "fst (get_user_by_email (trim_space (to_lower email)) (w_now w) (w_db w)) = Inr y"
    and rest: "run_state (if \<not> ComparePassword h (u_password y) pw then fail (AuSvc SvcInvalidLogin)
        else if \<not> u_active y then fail (AuSvc SvcInactiveUser)
        else attempt (au_pass (Issue tokens (u_id y))) (\<lambda>signed. do {
          now \<leftarrow> app_now; _ \<leftarrow> stmt (touch_login (u_id y) now); ok (y, signed) })) w = (Inr (x, t), w')"
    unfolding Login_def Let_def auth_simps by (auto simp: attempt_Inr au_found_Inr run_read)
  from y obtain u where u: "u \<in> set (users (w_db w))" "live_user u" "y = user.truncate u"
    by (auto simp: get_user_by_email_def split: if_splits option.splits dest!: find_SomeD)
  from rest have compare: "ComparePassword h (u_password y) pw" by (cases "ComparePassword h (u_password y) pw") auto
  with rest have active: "u_active y" by (cases "u_active y") auto
  from rest compare active have "run_state (attempt (au_pass (Issue tokens (u_id y))) (\<lambda>signed. do {
          now \<leftarrow> app_now; _ \<leftarrow> stmt (touch_login (u_id y) now); ok (y, signed) })) w = (Inr (x, t), w')" by simp
  then obtain signed v where "run_state (do {
      now \<leftarrow> app_now; _ \<leftarrow> stmt (touch_login (u_id y) now); ok (y, signed) :: ('w world_scheme, user \<times> string) au }) v = (Inr (x, t), w')"
    unfolding attempt_Inr by (elim exE conjE)
  then have "x = y" by (simp add: split_beta)
  with u compare active show thesis by (intro that [of u]) (simp_all add: ComparePassword_def)
qed

lemma run_ChangePassword_Inr:
  fixes w w' :: "'w world_scheme"
  assumes "w_events w = []" and "hash_lib h"
    and "run_state (ChangePassword (NewAuthService mail tokens h rand) i cur next) w = (Inr (), w')
      \<or> run_state (ResetPassword (NewAuthService mail tokens h rand) i next) w = (Inr (), w')"
  shows "w_events w' = [] \<and> password_set h i next (clock_of w) (w_db w) (w_db w') \<and> validatePassword next = []"
proof -
  have "run_state (do { x \<leftarrow> HashAndSalt h next; now \<leftarrow> app_now;
      au_pass (us_UpdatePassword user_repo i x now) }) w = (Inr (), w') \<and> validatePassword next = []"
    using assms(3)
  proof
    assume c: "run_state (ChangePassword (NewAuthService mail tokens h rand) i cur next) w = (Inr (), w')"
    let ?rest = "\<lambda>y. if \<not> ComparePassword h (u_password y) cur then fail (invalid_input [(''current_password'', ''does not match'')])
       else if validatePassword next \<noteq> [] then fail (invalid_input (validatePassword next))
       else do { x \<leftarrow> HashAndSalt h next; now \<leftarrow> app_now; au_pass (us_UpdatePassword user_repo i x now) }"
    from c have "run_state (attempt (au_found (AuSvc SvcNotFound) (stmt (get_user i))) ?rest) w = (Inr (), w')"
      unfolding ChangePassword_def auth_simps .
    then obtain y v where y: "run_state (stmt (get_user i)) w = (Inr y, v)" "run_state (?rest y) v = (Inr (), w')"
      unfolding attempt_Inr au_found_Inr by (elim exE conjE)
    from y(1) assms(1) have "v = w" by (simp add: run_read)
    with y(2) show ?thesis by (auto split: if_splits)
  next
    assume "run_state (ResetPassword (NewAuthService mail tokens h rand) i next) w = (Inr (), w')"
    then show ?thesis unfolding ResetPassword_def auth_simps(1,6) by (auto split: if_splits)
  qed
  with run_set_password [OF assms(1,2)] show ?thesis by blast
qed

text \<open>
  Nobody signs in to an account, with whatever address and password, at any later time at which its stored
  password is still the one a world holds.
\<close>

definition locked_out :: "'w world_scheme auth_service \<Rightarrow> int \<Rightarrow> 'w world_scheme \<Rightarrow> bool" where
  "locked_out s i w \<longleftrightarrow> (\<forall>v email pw x t v'. w_events v = []
     \<and> u_password ` {u \<in> set (users (w_db v)). u_id u = i} \<subseteq> u_password ` {u \<in> set (users (w_db w)). u_id u = i}
     \<and> run_state (Login s email pw) v = (Inr (x, t), v') \<longrightarrow> u_id x \<noteq> i)"

lemma password_set_locks:
  assumes "password_set h i next at d (w_db w)" and "hash_lib h" and "72 < length next"
  shows "locked_out (NewAuthService mail tokens h rand) i w"
  unfolding locked_out_def
proof (intro allI impI notI, elim conjE)
  fix v email pw x t v'
  assume quiet: "w_events v = []" and login: "run_state (Login (NewAuthService mail tokens h rand) email pw) v = (Inr (x, t), v')"
    and same: "u_password ` {u \<in> set (users (w_db v)). u_id u = i} \<subseteq> u_password ` {u \<in> set (users (w_db w)). u_id u = i}"
    and x: "u_id x = i"
  from run_Login_Inr [OF quiet login] obtain u where u: "u \<in> set (users (w_db v))" "u_id u = i" "bc_compare h (u_password u) pw"
    using x by metis
  then have "u_password u \<in> u_password ` {u \<in> set (users (w_db w)). u_id u = i}" using same by blast
  moreover have "u_password y = []" if "y \<in> set (users (w_db w))" "u_id y = i" for y
    using password_set_rows [OF assms(1) that] assms(3) by simp
  ultimately have "u_password u = []" by auto
  with u(3) assms(2) show False by (simp add: hash_lib_def)
qed

lemma run_ResetPassword:
  fixes w :: "'w world_scheme"
  assumes "w_events w = []" and "hash_lib h" and "validatePassword next = []"
  shows "\<exists>w'. run_state (ResetPassword (NewAuthService mail tokens h rand) i next) w = (Inr (), w')"
proof -
  obtain r w' where run: "run_state (do { x \<leftarrow> HashAndSalt h next; now \<leftarrow> app_now;
      au_pass (us_UpdatePassword user_repo i x now) }) w = (r, w')" by fastforce
  from run_set_password [OF assms(1,2) run] have "r = Inr ()" by simp
  with run assms(3) show ?thesis unfolding ResetPassword_def auth_simps(1,6) by simp
qed

lemma run_ChangePassword:
  fixes w :: "'w world_scheme"
  assumes "w_events w = []" and "hash_lib h" and "validatePassword next = []"
    and "fst (get_user i (w_now w) (w_db w)) = Inr u" and "bc_compare h (u_password u) cur"
  shows "\<exists>w'. run_state (ChangePassword (NewAuthService mail tokens h rand) i cur next) w = (Inr (), w')"
proof -
  obtain r w' where run: "run_state (do { x \<leftarrow> HashAndSalt h next; now \<leftarrow> app_now;
      au_pass (us_UpdatePassword user_repo i x now) }) w = (r, w')" by fastforce
  from run_set_password [OF assms(1,2) run] have r: "r = Inr ()" by simp
  have found: "run_state (au_found (AuSvc SvcNotFound) (us_GetByID user_repo i)) w = (Inr u, w)"
    using assms(1,4) by (simp add: run_au_found run_read)
  show ?thesis
    unfolding ChangePassword_def auth_simps(1,6) run_attempt_after [OF found]
    using assms(3,5) run r by (simp add: ComparePassword_def)
qed

text \<open> C40. A password the rules accept can lock its account: the rules take at least 10 characters and up to 512
  bytes, the hash library takes 72 and its refusal is ignored. Where no statement fails, a reset or a change to
  a password of more than 72 bytes that the rules accept succeeds, the change given the current password, and
  afterwards nobody signs in to the account, with whatever address and password, as long as its
  password is not set again. \<close>
theorem long_password_locks_out:
  fixes w :: "'w world_scheme"
  assumes "w_events w = []" and "hash_lib h" and "72 < length next" and "length next \<le> 512" and "10 \<le> rune_count next"
  shows "validatePassword next = []
    \<and> (\<exists>w'. run_state (ResetPassword (NewAuthService mail tokens h rand) i next) w = (Inr (), w')
          \<and> locked_out (NewAuthService mail tokens h rand) i w')
    \<and> (\<forall>u cur. fst (get_user i (w_now w) (w_db w)) = Inr u \<and> bc_compare h (u_password u) cur \<longrightarrow>
        (\<exists>w'. run_state (ChangePassword (NewAuthService mail tokens h rand) i cur next) w = (Inr (), w')
          \<and> locked_out (NewAuthService mail tokens h rand) i w'))"
proof (intro conjI allI impI)
  show valid: "validatePassword next = []" using assms(4,5) by (simp add: validatePassword_def minPasswordLength_def)
  have locks: "locked_out (NewAuthService mail tokens h rand) i w'"
    if "run_state (ChangePassword (NewAuthService mail tokens h rand) i cur next) w = (Inr (), w')
      \<or> run_state (ResetPassword (NewAuthService mail tokens h rand) i next) w = (Inr (), w')" for w' cur
    using run_ChangePassword_Inr [OF assms(1,2) that] by (blast intro: password_set_locks [OF _ assms(2,3)])
  show "\<exists>w'. run_state (ResetPassword (NewAuthService mail tokens h rand) i next) w = (Inr (), w')
      \<and> locked_out (NewAuthService mail tokens h rand) i w'"
    using run_ResetPassword [OF assms(1,2) valid] locks by blast
  fix u cur assume "fst (get_user i (w_now w) (w_db w)) = Inr u \<and> bc_compare h (u_password u) cur"
  then show "\<exists>w'. run_state (ChangePassword (NewAuthService mail tokens h rand) i cur next) w = (Inr (), w')
      \<and> locked_out (NewAuthService mail tokens h rand) i w'"
    using run_ChangePassword [OF assms(1,2) valid] locks by blast
qed

definition toy_hash :: "world bcrypt" where
  "toy_hash = \<lparr>bc_generate = (\<lambda>pw. State_Monad.return (if 72 < length pw then Inl (ErrText ''bcrypt: password length exceeds 72 bytes'')
       else Inr (''hash of '' @ pw))), bc_compare = (\<lambda>x pw. x = ''hash of '' @ pw)\<rparr>"

lemma toy_hash_lib: "hash_lib toy_hash"
  by (simp add: hash_lib_def toy_hash_def)

definition toy_jwt :: jwt where
  "toy_jwt = \<lparr>jw_sign = (\<lambda>secret c. Inr (cl_Subject c)), jw_parse = (\<lambda>secret now given. Some (MapClaims (Some given) (Some (Some 0))))\<rparr>"

definition office_world :: world where
  "office_world = demo_world\<lparr>w_db := demo_db\<lparr>users := [user.extend (blank_user\<lparr>u_id := 7, u_email := ''ann@x.test'',
     u_password := ''hash of old secret'', u_active := True\<rparr>) (user_t.fields None)]\<rparr>\<rparr>"

abbreviation office :: "world auth_service" where
  "office \<equiv> NewAuthService None (NewIssuer toy_jwt ''s'') toy_hash sevens"

text \<open>Where signing in ends: \<open>toy_hash\<close> refuses 73 bytes, as the library does.\<close>

theorem long_password_locks_out_witness:
  "validatePassword (replicate 80 CHR ''a'') = []
    \<and> (\<exists>w'. run_state (ResetPassword office 7 (replicate 80 CHR ''a'')) office_world = (Inr (), w') \<and> locked_out office 7 w')
    \<and> (\<exists>w'. run_state (ChangePassword office 7 ''old secret'' (replicate 80 CHR ''a'')) office_world = (Inr (), w') \<and> locked_out office 7 w')"
proof -
  let ?u = "blank_user\<lparr>u_id := 7, u_email := ''ann@x.test'', u_password := ''hash of old secret'', u_active := True\<rparr>"
  have "w_events office_world = []" by (simp add: office_world_def demo_world_def)
  moreover have "10 \<le> rune_count (replicate 80 CHR ''a'')" "length (replicate 80 CHR ''a'') = 80" by code_simp+
  moreover have "fst (get_user 7 (w_now office_world) (w_db office_world)) = Inr ?u" "bc_compare toy_hash (u_password ?u) ''old secret''"
    by code_simp+
  ultimately show ?thesis
    using long_password_locks_out [of office_world toy_hash "replicate 80 CHR ''a''" None "NewIssuer toy_jwt ''s''" sevens 7, OF _ toy_hash_lib]
    by simp
qed

section \<open>Sessions that end\<close>

lemma session_retired:
  assumes "\<forall>u\<in>set (users d). u_id u = i \<longrightarrow> u_tokens_valid_after u = Some at" and "verified tokens now given = Some (i, issued)"
    and "issued < at"
  shows "session tokens now d given = Inl (AuSvc SvcForbidden)"
proof (cases "find (\<lambda>u. u_id u = i \<and> live_user u) (users d)")
  case None
  with assms(2) show ?thesis by (simp add: session_def)
next
  case (Some u)
  with find_SomeD [OF Some] assms show ?thesis by (simp add: session_def token_retired_def)
qed

lemma run_Logout:
  fixes w :: "'w world_scheme"
  assumes "w_events w = []"
  shows "\<exists>w'. run_state (Logout (NewAuthService mail tokens h rand) i) w = (Inr (), w') \<and> w_events w' = []
    \<and> (\<forall>u\<in>set (users (w_db w')). u_id u = i \<longrightarrow> u_tokens_valid_after u = Some (clock_of w))"
proof -
  let ?v = "case w_app w of [] \<Rightarrow> w | t # ts \<Rightarrow> w\<lparr>w_app := ts\<rparr>"
  have q: "w_events ?v = []" using assms by (simp add: app_now_quiet)
  show ?thesis
    by (simp add: Logout_def run_app_now run_au_pass run_on_user(2) [OF q] q ball_update_where)
qed

lemma run_DeleteUser:
  fixes w :: "'w world_scheme"
  assumes "w_events w = []"
  shows "\<exists>w'. run_state (DeleteUser (NewAuthService mail tokens h rand) i) w = (Inr (), w') \<and> w_events w' = []
    \<and> (\<forall>u\<in>set (users (w_db w')). u_id u = i \<longrightarrow> u_tokens_valid_after u = Some (clock_of w) \<and> \<not> live_user u \<and> \<not> u_active u)
    \<and> (\<forall>r\<in>set (user_roles (w_db w')). ur_user_id r \<noteq> i) \<and> (\<forall>p\<in>set (user_permissions (w_db w')). up_user_id p \<noteq> i)"
proof -
  let ?w1 = "w\<lparr>w_db := snd (revoke_user i (w_now w) (w_db w))\<rparr>"
  let ?v = "case w_app ?w1 of [] \<Rightarrow> ?w1 | t # ts \<Rightarrow> ?w1\<lparr>w_app := ts\<rparr>"
  have revoked: "run_state (au_pass (stmt (revoke_user i))) w = (Inr (), ?w1)"
    using assms by (simp add: run_au_pass run_stmt_alone revoke_user_def exec_def)
  have q: "w_events ?v = []" using assms by (simp split: list.split)
  have c: "clock_of ?w1 = clock_of w" by (simp add: clock_of_def split: list.split)
  have "run_state (DeleteUser (NewAuthService mail tokens h rand) i) w =
      run_state (do { now \<leftarrow> app_now; au_found (AuSvc SvcNotFound) (us_SoftDelete user_repo i now) }) ?w1"
    unfolding DeleteUser_def auth_simps option.case run_attempt_after [OF revoked] ..
  also have "\<dots> = (Inr (), ?v\<lparr>w_db := (w_db ?w1)\<lparr>users := update_where (\<lambda>u. u_id u = i)
      (\<lambda>u. u\<lparr>u_active := False, ut_deleted_at := Some (clock_of w), u_updated_at := Some (clock_of w),
             u_tokens_valid_after := Some (clock_of w)\<rparr>) (users (w_db ?w1))\<rparr>\<rparr>)"
    by (simp only: run_state_bind run_app_now prod.case auth_simps run_au_found run_on_user(3) [OF q] c app_now_quiet sum.case map_sum.simps)
  finally show ?thesis using q by (simp add: ball_update_where live_user_def revoke_user_def exec_def)
qed

text \<open> C23. Signing out, changing a password, having it reset and deleting the account end every session opened
  before: a token that names the account and was issued before that moment opens nothing afterwards, however
  valid its signature. \<close>
theorem sessions_end:
  fixes w w' :: "'w world_scheme"
  assumes "w_events w = []" and "hash_lib h"
    and "run_state (Logout (NewAuthService mail tokens h rand) i) w = (Inr (), w')
      \<or> run_state (ChangePassword (NewAuthService mail tokens h rand) i cur next) w = (Inr (), w')
      \<or> run_state (ResetPassword (NewAuthService mail tokens h rand) i next) w = (Inr (), w')
      \<or> run_state (DeleteUser (NewAuthService mail tokens h rand) i) w = (Inr (), w')"
    and "verified tokens (clock_of w') given = Some (i, issued)" and "issued < clock_of w"
  shows "fst (run_state (Authenticate (NewAuthService mail tokens h rand) given) w') = Inl (AuSvc SvcForbidden)"
proof -
  have "w_events w' = [] \<and> (\<forall>u\<in>set (users (w_db w')). u_id u = i \<longrightarrow> u_tokens_valid_after u = Some (clock_of w))"
    using assms(3)
  proof (elim disjE)
    assume "run_state (Logout (NewAuthService mail tokens h rand) i) w = (Inr (), w')"
    with run_Logout [OF assms(1), of mail tokens h rand i] show ?thesis by auto
  next
    assume "run_state (DeleteUser (NewAuthService mail tokens h rand) i) w = (Inr (), w')"
    with run_DeleteUser [OF assms(1), of mail tokens h rand i] show ?thesis by auto
  qed (use run_ChangePassword_Inr [OF assms(1,2)] password_set_rows in blast)+
  with session_retired [OF _ assms(4,5)] show ?thesis by (simp add: run_Authenticate)
qed

theorem sessions_end_witness:
  "\<exists>w'. run_state (Logout office 7) office_world = (Inr (), w')
    \<and> (\<exists>u. fst (run_state (Authenticate office ''7'') office_world) = Inr u \<and> u_id u = 7)
    \<and> fst (run_state (Authenticate office ''7'') w') = Inl (AuSvc SvcForbidden)"
proof -
  have quiet: "w_events office_world = []" by (simp add: office_world_def demo_world_def)
  from run_Logout [OF quiet] obtain w' where run: "run_state (Logout office 7) office_world = (Inr (), w')" by blast
  have token: "verified (NewIssuer toy_jwt ''s'') now ''7'' = Some (7, 0)" for now
    by (simp add: verified_def NewIssuer_def toy_jwt_def fromMap_def atoi_def is_digit_def digit_val_def int64_def max_int64_def min_int64_def)
  have clock: "clock_of office_world = demo_now" by (simp add: clock_of_def office_world_def demo_world_def)
  have before: "fst (run_state (Authenticate office ''7'') office_world) = Inr (blank_user\<lparr>u_id := 7, u_email := ''ann@x.test'',
     u_password := ''hash of old secret'', u_active := True\<rparr>)"
    by (simp add: run_Authenticate [OF quiet] session_def token)
      (simp add: office_world_def live_user_def user.defs user_t.defs token_retired_def blank_user_def)
  have "fst (run_state (Authenticate office ''7'') w') = Inl (AuSvc SvcForbidden)"
    using run by (intro sessions_end [OF quiet toy_hash_lib _ token]) (simp_all add: clock demo_now_def)
  with run before show ?thesis by auto
qed

section \<open>Reset links\<close>

lemma run_store_password:
  fixes w :: "'w world_scheme"
  assumes "w_events w = []" and "hash_lib h"
    and "run_state (store_password (NewAuthService mail tokens h rand) i next at) w = (r, w')"
  shows "r = Inr () \<and> w_events w' = [] \<and> password_set h i next at (w_db w) (w_db w')"
proof -
  obtain x v where x: "run_state (HashAndSalt h next) w = (x, v)" by fastforce
  from run_HashAndSalt [OF assms(2) x] have v: "w_db v = w_db w" "w_events v = []"
    and hash: "if 72 < length next then x = [] else bc_compare h x next" using assms(1) by simp_all
  from assms(3) x have "(r, w') = (Inr (), v\<lparr>w_db := (w_db w)\<lparr>users := update_where (\<lambda>u. u_id u = i)
      (\<lambda>u. u\<lparr>u_password := x, u_updated_at := Some at, u_tokens_valid_after := Some at\<rparr>) (users (w_db w))\<rparr>\<rparr>)"
    by (simp add: store_password_def run_au_pass run_on_user(1) [OF v(2)] v(1))
  then have "r = Inr ()" "w_events w' = []" "w_db w' = (w_db w)\<lparr>users := update_where (\<lambda>u. u_id u = i)
      (\<lambda>u. u\<lparr>u_password := x, u_updated_at := Some at, u_tokens_valid_after := Some at\<rparr>) (users (w_db w))\<rparr>"
    using v(2) by simp_all
  with hash show ?thesis unfolding password_set_def by (intro conjI exI [of _ x])
qed

text \<open>The links after one of them is spent.\<close>

definition spent :: "int \<Rightarrow> instant \<Rightarrow> db \<Rightarrow> db" where
  "spent i at d = snd (mark_used i at 0 d)"

lemma run_CompletePasswordReset:
  fixes w w' :: "'w world_scheme"
  assumes "w_events w = []" and "hash_lib h"
    and "run_state (CompletePasswordReset (NewAuthService mail tokens h rand) token next) w = (Inr (), w')"
  obtains r u at where "find (\<lambda>r. ps_token_hash r = hashed token) (password_resets (w_db w)) = Some r"
    and "reset_live r (clock_of w)" and "find (\<lambda>u. u_id u = ps_user_id r \<and> live_user u) (users (w_db w)) = Some u" and "u_active u"
    and "w_events w' = []" and "password_set h (ps_user_id r) next at (spent (ps_id r) at (w_db w)) (w_db w')"
proof -
  let ?s = "NewAuthService mail tokens h rand"
  let ?tail = "\<lambda>reset user. do {
      now \<leftarrow> app_now;
      attempt (au_pass (stmt (mark_used (ps_id reset) now))) (\<lambda>_. attempt (store_password ?s (u_id user) next now) (\<lambda>_. ok ())) }"
  let ?user = "\<lambda>reset user. if \<not> u_active user then fail ErrResetLinkInvalid else ?tail reset user"
  let ?link = "\<lambda>reset. do {
      now \<leftarrow> app_now;
      if \<not> reset_live reset now then fail ErrResetLinkInvalid
      else attempt (au_found ErrResetLinkInvalid (stmt (get_user (ps_user_id reset)))) (?user reset) }"
  have "run_state (if trim_space token = [] then fail ErrResetLinkInvalid
      else if validatePassword next \<noteq> [] then fail (invalid_input (validatePassword next))
      else attempt (au_found ErrResetLinkInvalid (stmt (find_reset (hashed token)))) ?link) w = (Inr (), w')"
    using assms(3) unfolding CompletePasswordReset_def auth_simps option.case hashResetToken_def .
  then have "run_state (attempt (au_found ErrResetLinkInvalid (stmt (find_reset (hashed token)))) ?link) w = (Inr (), w')"
    by (auto split: if_splits)
  then obtain r v where "run_state (stmt (find_reset (hashed token))) w = (Inr r, v)" and link: "run_state (?link r) v = (Inr (), w')"
    unfolding attempt_Inr au_found_Inr by (elim exE conjE)
  then have v: "v = w" and r: "fst (find_reset (hashed token) (w_now w) (w_db w)) = Inr r"
    using assms(1) by (auto simp: run_read)
  from r have r: "find (\<lambda>r. ps_token_hash r = hashed token) (password_resets (w_db w)) = Some r"
    by (auto simp: find_reset_def split: if_splits option.splits)
  let ?w1 = "case w_app w of [] \<Rightarrow> w | t # ts \<Rightarrow> w\<lparr>w_app := ts\<rparr>"
  have q1: "w_events ?w1 = []" using assms(1) by (simp add: app_now_quiet)
  from link v have "run_state (if \<not> reset_live r (clock_of w) then fail ErrResetLinkInvalid
      else attempt (au_found ErrResetLinkInvalid (stmt (get_user (ps_user_id r)))) (?user r)) ?w1 = (Inr (), w')"
    by (simp only: run_state_bind run_app_now prod.case)
  then have live: "reset_live r (clock_of w)"
    and found: "run_state (attempt (au_found ErrResetLinkInvalid (stmt (get_user (ps_user_id r)))) (?user r)) ?w1 = (Inr (), w')"
    by (auto split: if_splits)
  from found obtain y v where "run_state (stmt (get_user (ps_user_id r))) ?w1 = (Inr y, v)" and user: "run_state (?user r y) v = (Inr (), w')"
    unfolding attempt_Inr au_found_Inr by (elim exE conjE)
  then have v: "v = ?w1" and y: "fst (get_user (ps_user_id r) (w_now ?w1) (w_db w)) = Inr y"
    by (auto simp: run_read [OF q1] app_now_quiet)
  from y obtain u where u: "find (\<lambda>u. u_id u = ps_user_id r \<and> live_user u) (users (w_db w)) = Some u" "y = user.truncate u"
    by (auto simp: get_user_def split: option.splits)
  then have id_u: "u_id y = ps_user_id r" by (auto dest: find_SomeD)
  from user v have active: "u_active y" and fin: "run_state (?tail r y) ?w1 = (Inr (), w')" by (auto split: if_splits)
  let ?w2 = "case w_app ?w1 of [] \<Rightarrow> ?w1 | t # ts \<Rightarrow> ?w1\<lparr>w_app := ts\<rparr>" and ?at = "clock_of ?w1"
  have q2: "w_events ?w2 = []" using q1 by (simp add: app_now_quiet)
  have db2: "w_db ?w2 = w_db w" by (simp add: app_now_quiet)
  from fin have "run_state (attempt (au_pass (stmt (mark_used (ps_id r) ?at))) (\<lambda>_. attempt (store_password ?s (u_id y) next ?at) (\<lambda>_. ok ()))) ?w2 = (Inr (), w')"
    by (simp only: run_state_bind run_app_now prod.case)
  moreover have marked: "run_state (au_pass (stmt (mark_used (ps_id r) ?at))) ?w2 = (Inr (), ?w2\<lparr>w_db := spent (ps_id r) ?at (w_db w)\<rparr>)"
    by (simp add: run_au_pass run_stmt_alone [OF q2] spent_def mark_used_def exec_def db2)
  ultimately have "run_state (attempt (store_password ?s (u_id y) next ?at) (\<lambda>_. ok ())) (?w2\<lparr>w_db := spent (ps_id r) ?at (w_db w)\<rparr>) = (Inr (), w')"
    by (simp only: run_attempt_after)
  then obtain z where "run_state (store_password ?s (u_id y) next ?at) (?w2\<lparr>w_db := spent (ps_id r) ?at (w_db w)\<rparr>) = (Inr z, w')"
    by (auto simp: attempt_Inr)
  from run_store_password [OF _ assms(2) this] q2 id_u
  have "w_events w' = []" "password_set h (ps_user_id r) next ?at (spent (ps_id r) ?at (w_db w)) (w_db w')" by simp_all
  with r live u active show thesis by (intro that [of r u ?at]) simp_all
qed

text \<open> C24. A mailed link works once: a completed reset had a link of that token that was live, and afterwards no
  link of the account is, so the same link is refused whatever password comes with it; the account's
  password is the new one, as far as the hash takes it, and its sessions from before are retired. No other
  account changes, and no link of another account. \<close>
theorem reset_link_works_once:
  fixes w w' :: "'w world_scheme"
  assumes "w_events w = []" and "hash_lib h" and "distinct (map ps_id (password_resets (w_db w)))"
    and "run_state (CompletePasswordReset (NewAuthService mail tokens h rand) token next) w = (Inr (), w')"
  shows "\<exists>r at. r \<in> set (password_resets (w_db w)) \<and> ps_token_hash r = hashed token \<and> reset_live r (clock_of w)
    \<and> (\<forall>x\<in>set (password_resets (w_db w')). ps_user_id x = ps_user_id r \<longrightarrow> ps_used_at x \<noteq> None)
    \<and> (\<forall>next' w''. run_state (CompletePasswordReset (NewAuthService mail tokens h rand) token next') w' \<noteq> (Inr (), w''))
    \<and> (\<forall>u\<in>set (users (w_db w')). u_id u = ps_user_id r \<longrightarrow> u_tokens_valid_after u = Some at
        \<and> (length next \<le> 72 \<longrightarrow> bc_compare h (u_password u) next))
    \<and> filter (\<lambda>u. u_id u \<noteq> ps_user_id r) (users (w_db w')) = filter (\<lambda>u. u_id u \<noteq> ps_user_id r) (users (w_db w))
    \<and> filter (\<lambda>x. ps_user_id x \<noteq> ps_user_id r) (password_resets (w_db w'))
      = filter (\<lambda>x. ps_user_id x \<noteq> ps_user_id r) (password_resets (w_db w))"
proof -
  from run_CompletePasswordReset [OF assms(1,2,4)] obtain r at where
      r: "find (\<lambda>r. ps_token_hash r = hashed token) (password_resets (w_db w)) = Some r" "reset_live r (clock_of w)"
    and quiet: "w_events w' = []" and pass: "password_set h (ps_user_id r) next at (spent (ps_id r) at (w_db w)) (w_db w')" by blast
  from find_SomeD [OF r(1)] have mem: "r \<in> set (password_resets (w_db w))" "ps_token_hash r = hashed token" by simp_all
  have "find (\<lambda>x. ps_id x = ps_id r) (password_resets (w_db w)) = Some r"
    using assms(3) mem(1) by (intro find_only) (auto simp: distinct_map dest: inj_onD)
  then have owner: "reset_owner (w_db w) (ps_id r) = Some (ps_user_id r)" by (simp add: reset_owner_def)
  let ?P = "\<lambda>x. ps_used_at x = None \<and> ps_user_id x = ps_user_id r" and ?f = "\<lambda>x. x\<lparr>ps_used_at := Some at\<rparr>"
  have sp: "spent (ps_id r) at (w_db w) = (w_db w)\<lparr>password_resets := update_where ?P ?f (password_resets (w_db w))\<rparr>"
    by (simp add: spent_def mark_used_def exec_def owner eq_commute)
  from pass obtain x where db: "w_db w' = (spent (ps_id r) at (w_db w))\<lparr>users := update_where (\<lambda>u. u_id u = ps_user_id r)
         (\<lambda>u. u\<lparr>u_password := x, u_updated_at := Some at, u_tokens_valid_after := Some at\<rparr>) (users (spent (ps_id r) at (w_db w)))\<rparr>"
    unfolding password_set_def by blast
  have links: "password_resets (w_db w') = update_where ?P ?f (password_resets (w_db w))"
    and accounts: "users (w_db w') = update_where (\<lambda>u. u_id u = ps_user_id r)
         (\<lambda>u. u\<lparr>u_password := x, u_updated_at := Some at, u_tokens_valid_after := Some at\<rparr>) (users (w_db w))"
    unfolding db sp by simp_all
  have "\<forall>x\<in>set (password_resets (w_db w')). ps_user_id x = ps_user_id r \<longrightarrow> ps_used_at x \<noteq> None"
    unfolding links by (simp add: ball_update_where)
  moreover have "run_state (CompletePasswordReset (NewAuthService mail tokens h rand) token next') w' \<noteq> (Inr (), w'')" for next' w''
  proof
    assume "run_state (CompletePasswordReset (NewAuthService mail tokens h rand) token next') w' = (Inr (), w'')"
    from run_CompletePasswordReset [OF quiet assms(2) this] obtain r2 where
      "find (\<lambda>r. ps_token_hash r = hashed token) (password_resets (w_db w')) = Some r2" "reset_live r2 (clock_of w')" by blast
    then show False unfolding links using r(1) by (auto simp: find_update_where reset_live_def split: if_splits)
  qed
  moreover have "\<forall>u\<in>set (users (w_db w')). u_id u = ps_user_id r \<longrightarrow> u_tokens_valid_after u = Some at
        \<and> (length next \<le> 72 \<longrightarrow> bc_compare h (u_password u) next)"
    using password_set_rows [OF pass] by (auto split: if_splits)
  moreover have "filter (\<lambda>u. u_id u \<noteq> ps_user_id r) (users (w_db w')) = filter (\<lambda>u. u_id u \<noteq> ps_user_id r) (users (w_db w))"
    unfolding accounts by (simp add: filter_update_where) (auto intro: update_where_none)
  moreover have "filter (\<lambda>x. ps_user_id x \<noteq> ps_user_id r) (password_resets (w_db w'))
      = filter (\<lambda>x. ps_user_id x \<noteq> ps_user_id r) (password_resets (w_db w))"
    unfolding links by (simp add: filter_update_where) (auto intro: update_where_none)
  ultimately show ?thesis using mem r(2) by (intro exI [of _ r] exI [of _ at] conjI) blast+
qed

text \<open>The part of a reset behind its checks.\<close>

lemma run_reset_end:
  fixes w :: "'w world_scheme"
  assumes "w_events w = []" and "hash_lib h"
  shows "\<exists>w'. run_state (do {
      now \<leftarrow> app_now;
      attempt (au_pass (stmt (mark_used i now))) (\<lambda>_. attempt (store_password (NewAuthService mail tokens h rand) u next now) (\<lambda>_. ok ())) }) w
        = (Inr () :: auth_error + unit, w')
    \<and> password_set h u next (clock_of w) (spent i (clock_of w) (w_db w)) (w_db w')"
proof -
  let ?v = "case w_app w of [] \<Rightarrow> w | t # ts \<Rightarrow> w\<lparr>w_app := ts\<rparr>"
  have q: "w_events ?v = []" using assms(1) by (simp add: app_now_quiet)
  have marked: "run_state (au_pass (stmt (mark_used i (clock_of w)))) ?v = (Inr (), ?v\<lparr>w_db := spent i (clock_of w) (w_db w)\<rparr>)"
    by (simp add: run_au_pass run_stmt_alone [OF q] spent_def mark_used_def exec_def app_now_quiet)
  obtain r w' where fin: "run_state (store_password (NewAuthService mail tokens h rand) u next (clock_of w))
      (?v\<lparr>w_db := spent i (clock_of w) (w_db w)\<rparr>) = (r, w')" by fastforce
  from run_store_password [OF _ assms(2) fin] q have "r = Inr ()"
    "password_set h u next (clock_of w) (spent i (clock_of w) (w_db w)) (w_db w')" by simp_all
  with fin show ?thesis
    by (simp only: run_state_bind run_app_now prod.case run_attempt_after [OF marked]) (simp add: run_attempt)
qed

definition mailed_world :: world where
  "mailed_world = office_world\<lparr>w_db := (w_db office_world)\<lparr>password_resets := [\<lparr>ps_id = 1, ps_user_id = 7,
     ps_token_hash = hashed ''secret'', ps_expires_at = demo_now + 1, ps_used_at = None, ps_created_at = demo_now\<rparr>,
     \<lparr>ps_id = 2, ps_user_id = 7, ps_token_hash = ''older'', ps_expires_at = demo_now + 1, ps_used_at = None, ps_created_at = demo_now\<rparr>]\<rparr>\<rparr>"

lemma mailed_run: "fst (run_state (CompletePasswordReset office ''secret'' ''a new password'') mailed_world) = Inr ()"
proof -
  have words: "trim_space ''secret'' \<noteq> []" "validatePassword ''a new password'' = []" by code_simp+
  have quiet: "w_events mailed_world = []" by (simp add: mailed_world_def office_world_def demo_world_def)
  have clock: "run_state app_now mailed_world = (demo_now, mailed_world)"
    by (simp add: run_app_now clock_of_def mailed_world_def office_world_def demo_world_def)
  have link: "run_state (stmt (find_reset (hashed ''secret''))) mailed_world = (Inr (hd (password_resets (w_db mailed_world))), mailed_world)"
    using plain_text [OF hashed_plain, of "''secret''"] by (simp add: run_read [OF quiet] find_reset_def) (simp add: mailed_world_def)
  have live: "reset_live (hd (password_resets (w_db mailed_world))) demo_now" by (simp add: mailed_world_def reset_live_def)
  have user: "run_state (stmt (get_user 7)) mailed_world = (Inr (user.truncate (hd (users (w_db mailed_world)))), mailed_world)"
    by (simp add: run_read [OF quiet] get_user_def) (simp add: mailed_world_def office_world_def live_user_def user.defs user_t.defs)
  let ?r = "hd (password_resets (w_db mailed_world))" and ?u = "user.truncate (hd (users (w_db mailed_world)))"
  have more: "ps_user_id ?r = 7" "u_active ?u" "u_id ?u = 7" "ps_id ?r = 1"
    by (simp_all add: mailed_world_def office_world_def user.defs blank_user_def)
  have found: "run_state (au_found ErrResetLinkInvalid (stmt (find_reset (hashed ''secret'')))) mailed_world = (Inr ?r, mailed_world)"
    "run_state (au_found ErrResetLinkInvalid (stmt (get_user 7))) mailed_world = (Inr ?u, mailed_world)"
    by (simp_all only: au_found_Inr link user)
  obtain w' where fin: "run_state (do {
      now \<leftarrow> app_now;
      attempt (au_pass (stmt (mark_used 1 now))) (\<lambda>_. attempt (store_password office 7 ''a new password'' now) (\<lambda>_. ok ())) }) mailed_world
        = (Inr () :: auth_error + unit, w')" using run_reset_end [OF quiet toy_hash_lib] by blast
  have "run_state (CompletePasswordReset office ''secret'' ''a new password'') mailed_world = (Inr (), w')"
    unfolding CompletePasswordReset_def hashResetToken_def
    by (simp only: words if_False if_True simp_thms run_attempt_after [OF found(1)] run_state_bind clock
        prod.case live more run_attempt_after [OF found(2)] auth_simps option.case fin [unfolded run_state_bind clock prod.case])
  then show ?thesis by simp
qed

theorem reset_link_works_once_witness:
  "\<exists>w'. run_state (CompletePasswordReset office ''secret'' ''a new password'') mailed_world = (Inr (), w')
    \<and> (\<forall>x\<in>set (password_resets (w_db w')). ps_user_id x \<noteq> 7 \<or> ps_used_at x \<noteq> None)"
proof -
  obtain w' where run: "run_state (CompletePasswordReset office ''secret'' ''a new password'') mailed_world = (Inr (), w')"
    using mailed_run by (metis prod.collapse)
  have "w_events mailed_world = []" "distinct (map ps_id (password_resets (w_db mailed_world)))"
    "\<forall>r\<in>set (password_resets (w_db mailed_world)). ps_user_id r = 7"
    by (simp_all add: mailed_world_def office_world_def demo_world_def)
  with reset_link_works_once [OF _ toy_hash_lib _ run] run show ?thesis by metis
qed

section \<open>Two requests with one link\<close>

lemma run_stmt_event:
  fixes w :: "'w world_scheme"
  assumes "w_events w = \<lparr>ev_env = f, ev_now = t, ev_fault = Fine\<rparr> # evs"
  shows "run_state (stmt g) w = (fst (g t (f (w_db w))), w\<lparr>w_events := evs, w_now := t, w_db := snd (g t (f (w_db w)))\<rparr>)"
  using assms by (simp add: stmt_def Let_def split: prod.split)

lemma reset_has_token:
  "run_state (CompletePasswordReset (NewAuthService mail tokens h rand) token next) w = (Inr (), w') \<Longrightarrow> trim_space token \<noteq> []"
  by (auto simp: CompletePasswordReset_def)

text \<open> The link is checked and spent by two statements: a request that read the link before another one spent
  it passes the check, finds nothing left to mark, goes on all the same, and its password replaces the
  one the first request set. \<close>
theorem reset_link_raced:
  fixes w w' :: "'w world_scheme"
  assumes "w_events w = []" and "hash_lib h" and "validatePassword next' = []"
    and "run_state (CompletePasswordReset (NewAuthService mail tokens h rand) token next) w = (Inr (), w')"
    and "v = w\<lparr>w_events := [\<lparr>ev_env = \<lambda>_. w_db w, ev_now = w_now w, ev_fault = Fine\<rparr>, \<lparr>ev_env = \<lambda>_. w_db w', ev_now = t', ev_fault = Fine\<rparr>]\<rparr>"
  shows "\<exists>r v' at. run_state (CompletePasswordReset (NewAuthService mail tokens h rand) token next') v = (Inr (), v')
    \<and> r \<in> set (password_resets (w_db w)) \<and> ps_token_hash r = hashed token
    \<and> (\<forall>u\<in>set (users (w_db v')). u_id u = ps_user_id r \<longrightarrow> u_tokens_valid_after u = Some at
        \<and> (length next' \<le> 72 \<longrightarrow> bc_compare h (u_password u) next'))"
proof -
  from run_CompletePasswordReset [OF assms(1,2,4)] obtain r u at where
      r: "find (\<lambda>r. ps_token_hash r = hashed token) (password_resets (w_db w)) = Some r" "reset_live r (clock_of w)"
    and u: "find (\<lambda>u. u_id u = ps_user_id r \<and> live_user u) (users (w_db w)) = Some u" "u_active u"
    and pass: "password_set h (ps_user_id r) next at (spent (ps_id r) at (w_db w)) (w_db w')" by blast
  from find_SomeD [OF r(1)] find_SomeD [OF u(1)] have mem: "r \<in> set (password_resets (w_db w))" "ps_token_hash r = hashed token"
    "u_id u = ps_user_id r" by simp_all
  from pass obtain x where accounts: "users (w_db w') = update_where (\<lambda>u. u_id u = ps_user_id r)
      (\<lambda>u. u\<lparr>u_password := x, u_updated_at := Some at, u_tokens_valid_after := Some at\<rparr>) (users (w_db w))"
    unfolding password_set_def by (auto simp: spent_def mark_used_def exec_def)
  have "find (\<lambda>u. u_id u = ps_user_id r \<and> live_user u) (users (w_db w'))
      = Some (u\<lparr>u_password := x, u_updated_at := Some at, u_tokens_valid_after := Some at\<rparr>)"
    unfolding accounts using u(1) mem(3) by (subst find_update_where) (simp_all add: live_user_def)
  then obtain u' where u': "find (\<lambda>u. u_id u = ps_user_id r \<and> live_user u) (users (w_db w')) = Some u'" "u_active u'" "u_id u' = ps_user_id r"
    using u(2) mem(3) by simp
  let ?e = "\<lparr>ev_env = \<lambda>_. w_db w', ev_now = t', ev_fault = Fine\<rparr>"
  let ?v1 = "w\<lparr>w_events := [?e]\<rparr>"
  let ?v2 = "case w_app ?v1 of [] \<Rightarrow> ?v1 | t # ts \<Rightarrow> ?v1\<lparr>w_app := ts\<rparr>"
  let ?v3 = "?v2\<lparr>w_events := [], w_now := t', w_db := w_db w'\<rparr>"
  have found: "run_state (au_found ErrResetLinkInvalid (stmt (find_reset (hashed token)))) v = (Inr r, ?v1)"
    using r(1) plain_text [OF hashed_plain, of token] unfolding assms(5)
    by (simp add: au_found_Inr find_reset_def run_stmt_event)
  have clock: "run_state app_now ?v1 = (clock_of w, ?v2)"
    by (simp add: run_app_now clock_of_def split: list.split)
  have e2: "w_events ?v2 = [?e]" by (simp split: list.split)
  have known: "run_state (au_found ErrResetLinkInvalid (stmt (get_user (ps_user_id r)))) ?v2 = (Inr (user.truncate u'), ?v3)"
    unfolding au_found_Inr run_stmt_event [OF e2] using u'(1) by (simp add: get_user_def)
  have fine: "u_active (user.truncate u')" "u_id (user.truncate u') = ps_user_id r" using u'(2,3) by (simp_all add: user.defs)
  have "w_events ?v3 = []" by simp
  from run_reset_end [OF this assms(2), of "ps_id r" mail tokens rand "ps_user_id r" next'] obtain v'
    where fin: "run_state (do {
      now \<leftarrow> app_now;
      attempt (au_pass (stmt (mark_used (ps_id r) now)))
        (\<lambda>_. attempt (store_password (NewAuthService mail tokens h rand) (ps_user_id r) next' now) (\<lambda>_. ok ())) }) ?v3
        = (Inr () :: auth_error + unit, v')"
      and pass': "password_set h (ps_user_id r) next' (clock_of ?v3) (spent (ps_id r) (clock_of ?v3) (w_db ?v3)) (w_db v')" by blast
  have "run_state (CompletePasswordReset (NewAuthService mail tokens h rand) token next') v = (Inr (), v')"
    unfolding CompletePasswordReset_def hashResetToken_def auth_simps option.case
    by (simp only: reset_has_token [OF assms(4)] assms(3) if_False if_True simp_thms run_attempt_after [OF found]
        run_state_bind [of app_now _ ?v1] clock prod.case r(2) run_attempt_after [OF known] fine fin)
  then show ?thesis using mem password_set_rows [OF pass']
    by (intro exI [of _ r] exI [of _ v'] exI [of _ "clock_of ?v3"]) (auto split: if_splits)
qed

theorem reset_link_raced_witness:
  "\<exists>w' v'. run_state (CompletePasswordReset office ''secret'' ''a new password'') mailed_world = (Inr (), w')
    \<and> run_state (CompletePasswordReset office ''secret'' ''another password'') (mailed_world\<lparr>w_events :=
        [\<lparr>ev_env = \<lambda>_. w_db mailed_world, ev_now = w_now mailed_world, ev_fault = Fine\<rparr>,
         \<lparr>ev_env = \<lambda>_. w_db w', ev_now = demo_now, ev_fault = Fine\<rparr>]\<rparr>) = (Inr (), v')"
proof -
  obtain w' where run: "run_state (CompletePasswordReset office ''secret'' ''a new password'') mailed_world = (Inr (), w')"
    using mailed_run by (metis prod.collapse)
  have "w_events mailed_world = []" by (simp add: mailed_world_def office_world_def demo_world_def)
  moreover have "validatePassword ''another password'' = []" by code_simp
  ultimately show ?thesis using reset_link_raced [OF _ toy_hash_lib _ run refl] run by blast
qed

end
