(* ===== verification/HostRoutes.thy ===== *)
theory HostRoutes
  imports RateLimit Target AccountStore ServiceErrors "HOL-Library.AList"
begin

text \<open>
  Where a host name is dialled: the table (\<open>internal/repository/host_override_repo.go\<close>), the rules of what may
  be stored and the lookup of the dialer (\<open>internal/service/host_override_service.go\<close>). The resolver is part of
  the process's state; its lock makes a lookup see one table. Lines for the service log are left out.
\<close>

section \<open>The table\<close>

text \<open>
  The column is of type \<open>inet\<close> and only ever read as \<open>host(address)\<close>: a row holds that text. What text the
  database gives for an address it accepts is an argument, \<open>None\<close> where it refuses it.
\<close>

definition port_key :: "host_override \<Rightarrow> int" where
  "port_key o1 = (case ho_port o1 of None \<Rightarrow> 0 | Some p \<Rightarrow> p)"

definition route_order :: "host_override \<Rightarrow> string \<times> int" where
  "route_order o1 = (pg_lower (ho_hostname o1), - port_key o1)"

definition list_routes :: "host_override list statement" where
  "list_routes = query (\<lambda>d. sort_key route_order (host_overrides d))"

definition list_active_routes :: "host_override list statement" where
  "list_active_routes = query (\<lambda>d. sort_key route_order (filter ho_active (host_overrides d)))"

definition get_route :: "int \<Rightarrow> host_override statement" where
  "get_route i now d =
     ((case find (\<lambda>o1. ho_id o1 = i) (host_overrides d) of None \<Rightarrow> Inl ErrNotFound | Some o1 \<Rightarrow> Inr o1), d)"

definition bad_inet :: "string \<Rightarrow> go_error" where
  "bad_inet s = ErrText (''pq: invalid input syntax for type inet: '' @ quoted s)"

text \<open>The parameters of a write as the database reads them: the address, or the error.\<close>

definition route_params :: "(string \<Rightarrow> string option) \<Rightarrow> host_override \<Rightarrow> go_error + string" where
  "route_params inet o1 =
     (if \<not> (pg_text (ho_hostname o1) \<and> pg_text (ho_address o1) \<and> pg_text (ho_note o1)) then Inl invalid_text
      else case inet (ho_address o1) of
        None \<Rightarrow> Inl (bad_inet (ho_address o1))
      | Some a \<Rightarrow> if \<not> int4 (port_key o1) then Inl out_of_range else Inr a)"

text \<open>The checks of the row, then the unique index on the name in lower case and the port.\<close>

definition route_refused :: "db \<Rightarrow> int \<Rightarrow> host_override \<Rightarrow> go_error option" where
  "route_refused d i o1 =
     (if ho_hostname o1 = [] \<or> rune_count (ho_hostname o1) > 253
        then Some (check_violation ''host_overrides'' ''host_overrides_hostname_check'')
      else if ho_port o1 \<noteq> None \<and> \<not> (1 \<le> port_key o1 \<and> port_key o1 \<le> 65535)
        then Some (check_violation ''host_overrides'' ''host_overrides_port_check'')
      else if list_ex (\<lambda>x. ho_id x \<noteq> i \<and> pg_lower (ho_hostname x) = pg_lower (ho_hostname o1) \<and> port_key x = port_key o1)
          (host_overrides d) then Some ErrDuplicate
      else None)"

definition create_route :: "(string \<Rightarrow> string option) \<Rightarrow> host_override \<Rightarrow> int statement" where
  "create_route inet o1 now d = (case route_params inet o1 of Inl e \<Rightarrow> (Inl e, d)
    | Inr a \<Rightarrow>
        (let i = overrides_seq d + 1; d1 = d\<lparr>overrides_seq := i\<rparr> in
         case route_refused d i o1 of Some e \<Rightarrow> (Inl e, d1)
         | None \<Rightarrow>
             if (case ho_created_by o1 of None \<Rightarrow> False | Some u \<Rightarrow> \<not> list_ex (\<lambda>x. u_id x = u) (users d))
             then (Inl (fk_violation ''host_overrides'' ''host_overrides_created_by_fkey''), d1)
             else (Inr i, d1\<lparr>host_overrides := host_overrides d
               @ [o1\<lparr>ho_id := i, ho_address := a, ho_created_at := now, ho_updated_at := now\<rparr>]\<rparr>)))"

definition update_route :: "(string \<Rightarrow> string option) \<Rightarrow> host_override \<Rightarrow> unit statement" where
  "update_route inet o1 now d = (case route_params inet o1 of Inl e \<Rightarrow> (Inl e, d)
    | Inr a \<Rightarrow>
        if \<not> list_ex (\<lambda>x. ho_id x = ho_id o1) (host_overrides d) then (Inl ErrNotFound, d)
        else (case route_refused d (ho_id o1) o1 of Some e \<Rightarrow> (Inl e, d)
         | None \<Rightarrow> (Inr (), d\<lparr>host_overrides := update_where (\<lambda>x. ho_id x = ho_id o1)
             (\<lambda>x. x\<lparr>ho_hostname := ho_hostname o1, ho_address := a, ho_port := ho_port o1, ho_note := ho_note o1,
                    ho_active := ho_active o1, ho_updated_at := now\<rparr>) (host_overrides d)\<rparr>)))"

definition delete_route :: "int \<Rightarrow> unit statement" where
  "delete_route i now d =
     (if \<not> list_ex (\<lambda>x. ho_id x = i) (host_overrides d) then (Inl ErrNotFound, d)
      else (Inr (), d\<lparr>host_overrides := filter (\<lambda>x. ho_id x \<noteq> i) (host_overrides d)\<rparr>))"

section \<open>The lookup\<close>

record HostResolver =
  hr_exact :: "(string \<times> string) list"
  hr_any :: "(string \<times> string) list"

definition NewHostResolver :: HostResolver where
  "NewHostResolver = \<lparr>hr_exact = [], hr_any = []\<rparr>"

definition replace_row :: "host_override \<Rightarrow> HostResolver \<Rightarrow> HostResolver" where
  "replace_row row r =
     (if \<not> ho_active row then r
      else let host = to_lower (trim_space (ho_hostname row)) in
        if host = [] \<or> ParseIP (ho_address row) = None then r
        else case ho_port row of
          Some p \<Rightarrow> r\<lparr>hr_exact := AList.update (host @ '':'' @ svc_itoa p) (ho_address row) (hr_exact r)\<rparr>
        | None \<Rightarrow> r\<lparr>hr_any := AList.update host (ho_address row) (hr_any r)\<rparr>)"

definition Replace :: "host_override list \<Rightarrow> HostResolver" where
  "Replace rows = fold replace_row rows NewHostResolver"

definition JoinHostPort :: "string \<Rightarrow> string \<Rightarrow> string" where
  "JoinHostPort host port = (if CHR '':'' \<in> set host then ''['' @ host @ '']:'' @ port else host @ '':'' @ port)"

definition Lookup :: "HostResolver \<Rightarrow> string \<Rightarrow> string \<times> bool" where
  "Lookup r addr = (case SplitHostPort addr of
      None \<Rightarrow> (addr, False)
    | Some (host0, port) \<Rightarrow>
        let host = to_lower host0 in
        case (case map_of (hr_exact r) (host @ '':'' @ port) of Some a \<Rightarrow> Some a | None \<Rightarrow> map_of (hr_any r) host) of
          None \<Rightarrow> (addr, False)
        | Some replacement \<Rightarrow> (JoinHostPort replacement port, True))"

definition Len :: "HostResolver \<Rightarrow> int" where
  "Len r = int (length (hr_exact r) + length (hr_any r))"

section \<open>The service\<close>

record host_world = world +
  hw_resolver :: HostResolver

record 'w host_override_repo =
  hv_List :: "('w, host_override list) call"
  hv_ListActive :: "('w, host_override list) call"
  hv_Get :: "int \<Rightarrow> ('w, host_override) call"
  hv_Create :: "host_override \<Rightarrow> ('w, int) call"
  hv_Update :: "host_override \<Rightarrow> ('w, unit) call"
  hv_Delete :: "int \<Rightarrow> ('w, unit) call"

definition host_repo :: "(string \<Rightarrow> string option) \<Rightarrow> host_world host_override_repo" where
  "host_repo inet = \<lparr>hv_List = stmt list_routes, hv_ListActive = stmt list_active_routes, hv_Get = (\<lambda>i. stmt (get_route i)),
     hv_Create = (\<lambda>o1. stmt (create_route inet o1)), hv_Update = (\<lambda>o1. stmt (update_route inet o1)),
     hv_Delete = (\<lambda>i. stmt (delete_route i))\<rparr>"

record 'w host_override_service =
  hs_repo :: "'w host_override_repo"
  hs_policy :: TargetPolicy

definition IsMulticast :: "nat list \<Rightarrow> bool" where
  "IsMulticast ip \<longleftrightarrow> (if length ip = 4 then ip ! 0 div 16 = 14 else ip ! 0 = 255)"

definition isPublicIP :: "nat list \<Rightarrow> bool" where
  "isPublicIP ip \<longleftrightarrow> \<not> (IsLoopback ip \<or> IsLinkLocalUnicast ip \<or> IsLinkLocalMulticast ip \<or> IsPrivate ip \<or> IsUnspecified ip)"

text \<open>
  The pattern on the runes of the name. \<open>(?i)\<close> folds case as Unicode does: the long s and the Kelvin sign
  match \<open>[a-z]\<close>.
\<close>

definition host_alnum :: "nat \<Rightarrow> bool" where
  "host_alnum r \<longleftrightarrow> (97 \<le> r \<and> r \<le> 122) \<or> (65 \<le> r \<and> r \<le> 90) \<or> (48 \<le> r \<and> r \<le> 57) \<or> r = 383 \<or> r = 8490"

definition host_label :: "nat list \<Rightarrow> bool" where
  "host_label l \<longleftrightarrow> l \<noteq> [] \<and> length l \<le> 63 \<and> host_alnum (hd l) \<and> host_alnum (last l)
     \<and> list_all (\<lambda>r. host_alnum r \<or> r = 45) l"

fun dot_labels :: "nat list \<Rightarrow> nat list list" where
  "dot_labels [] = [[]]"
| "dot_labels (r # rs) =
     (if r = 46 then [] # dot_labels rs
      else (case dot_labels rs of [] \<Rightarrow> [[r]] | l # ls \<Rightarrow> (r # l) # ls))"

definition hostnamePattern :: "string \<Rightarrow> bool" where
  "hostnamePattern h \<longleftrightarrow> list_all host_label (dot_labels (map fst (runes h)))"

record HostOverrideInput =
  hi_ID :: int
  hi_Hostname :: string
  hi_Address :: string
  hi_Port :: string
  hi_Note :: string
  hi_Active :: bool
  hi_Actor :: "int option"

definition hostname_errors :: "string \<Rightarrow> field_error list" where
  "hostname_errors h =
     (if h = [] then [(''hostname'', ''is required'')]
      else if length h > 253 then [(''hostname'', ''is too long'')]
      else if ParseIP h \<noteq> None then [(''hostname'', ''must be a host name, not an address'')]
      else if \<not> hostnamePattern h then [(''hostname'', ''must be a plain host name, without a scheme, port or path'')]
      else [])"

definition address_errors :: "TargetPolicy \<Rightarrow> string \<Rightarrow> field_error list" where
  "address_errors policy address =
     (if address = [] then [(''address'', ''is required'')]
      else case ParseIP address of
        None \<Rightarrow> [(''address'', ''must be an IP address, not a host name'')]
      | Some ip \<Rightarrow>
          if IsUnspecified ip then [(''address'', ''cannot be the unspecified address'')]
          else if IsMulticast ip then [(''address'', ''cannot be a multicast address'')]
          else if \<not> AllowPrivate policy \<and> \<not> isPublicIP ip
            then [(''address'', ''is private, and this deployment does not permit private targets'')]
          else [])"

definition parse_port :: "string \<Rightarrow> field_error list + int option" where
  "parse_port port =
     (let raw = trim_space port in
      if raw = [] then Inr None
      else case atoi raw of
        None \<Rightarrow> Inl [(''port'', ''must be between 1 and 65535, or empty for every port'')]
      | Some n \<Rightarrow>
          if n < 1 \<or> n > 65535 then Inl [(''port'', ''must be between 1 and 65535, or empty for every port'')] else Inr (Some n))"

definition input_errors :: "TargetPolicy \<Rightarrow> HostOverrideInput \<Rightarrow> field_error list" where
  "input_errors policy i =
     hostname_errors (to_lower (trim_space (hi_Hostname i))) @ address_errors policy (trim_space (hi_Address i))
     @ (case parse_port (hi_Port i) of Inl es \<Rightarrow> es | Inr _ \<Rightarrow> [])
     @ (if length (hi_Note i) > 500 then [(''note'', ''is too long'')] else [])"

text \<open>The times of the new row are the zero values.\<close>

definition route_of :: "HostOverrideInput \<Rightarrow> host_override" where
  "route_of i =
     \<lparr>ho_id = hi_ID i, ho_hostname = to_lower (trim_space (hi_Hostname i)),
      ho_address = (case ParseIP (trim_space (hi_Address i)) of Some ip \<Rightarrow> ip_string ip | None \<Rightarrow> []),
      ho_port = (case parse_port (hi_Port i) of Inr p \<Rightarrow> p | Inl _ \<Rightarrow> None), ho_note = trim_space (hi_Note i),
      ho_active = hi_Active i, ho_created_by = hi_Actor i, ho_created_at = zero_time, ho_updated_at = zero_time\<rparr>"

definition Reload :: "host_world host_override_service \<Rightarrow> (host_world, unit) state" where
  "Reload s = do {
     r \<leftarrow> hv_ListActive (hs_repo s);
     case r of Inl e \<Rightarrow> State_Monad.return ()
     | Inr rows \<Rightarrow> modify (\<lambda>w. w\<lparr>hw_resolver := Replace rows\<rparr>) }"

definition write_route :: "host_world host_override_service \<Rightarrow> host_override \<Rightarrow> (host_world, host_override) call" where
  "write_route s row = do {
     r \<leftarrow> (if ho_id row = 0 then hv_Create (hs_repo s) row
         else do { u \<leftarrow> hv_Update (hs_repo s) row; State_Monad.return (map_sum (\<lambda>e. e) (\<lambda>_. ho_id row) u) });
     State_Monad.return (map_sum (\<lambda>e. e) (\<lambda>i. row\<lparr>ho_id := i\<rparr>) r) }"

definition Save :: "host_world host_override_service \<Rightarrow> HostOverrideInput \<Rightarrow> (host_world, host_override) svc" where
  "Save s i =
     (if input_errors (hs_policy s) i \<noteq> [] then State_Monad.return (Inl (SvcValidation (input_errors (hs_policy s) i)))
      else do {
        r \<leftarrow> write_route s (route_of i);
        case r of
          Inl ErrDuplicate \<Rightarrow> State_Monad.return (Inl (SvcValidation [(''hostname'', ''already has a route for that port'')]))
        | Inl ErrNotFound \<Rightarrow> State_Monad.return (Inl SvcNotFound)
        | Inl e \<Rightarrow> State_Monad.return (Inl (SvcOther e))
        | Inr row \<Rightarrow> do { Reload s; State_Monad.return (Inr row) } })"

definition Delete :: "host_world host_override_service \<Rightarrow> int \<Rightarrow> (host_world, unit) svc" where
  "Delete s i = do {
     r \<leftarrow> hv_Delete (hs_repo s) i;
     case r of
       Inl ErrNotFound \<Rightarrow> State_Monad.return (Inl SvcNotFound)
     | Inl e \<Rightarrow> State_Monad.return (Inl (SvcOther e))
     | Inr _ \<Rightarrow> do { Reload s; State_Monad.return (Inr ()) } }"

text \<open>The watcher: its interval, and its loop for the given number of ticks before the context ends.\<close>

definition watch_interval :: "int \<Rightarrow> int" where
  "watch_interval every = (if every \<le> 0 then 30 * second else every)"

fun watch_ticks :: "nat \<Rightarrow> host_world host_override_service \<Rightarrow> (host_world, unit) state" where
  "watch_ticks 0 s = State_Monad.return ()"
| "watch_ticks (Suc n) s = do { Reload s; watch_ticks n s }"

end
