(* ===== verification/HostProps.thy ===== *)
theory HostProps
  imports HostRoutes Demo "HOL-Library.Code_Target_Numeral"
begin

text \<open>
  What the routes of the dialer guarantee: a stored route is in force when the call that stored it returns, the
  dialer follows exactly the rows of the table, and where private targets are forbidden no route leads to one.
\<close>

section \<open>Names\<close>

lemma dot_labels_set: "set rs \<subseteq> {46} \<union> \<Union> (set ` set (dot_labels rs))"
  by (induction rs) (auto split: list.splits, fastforce)

lemma pattern_runes:
  assumes "hostnamePattern h" and "rb \<in> set (runes h)"
  shows "host_alnum (fst rb) \<or> fst rb = 45 \<or> fst rb = 46"
proof -
  have "fst rb \<in> set (map fst (runes h))" using assms(2) by simp
  with dot_labels_set [of "map fst (runes h)"]
  have "fst rb = 46 \<or> (\<exists>l \<in> set (dot_labels (map fst (runes h))). fst rb \<in> set l)" by blast
  with assms(1) show ?thesis by (auto simp: hostnamePattern_def host_label_def list_all_iff)
qed

definition canonical :: "string \<Rightarrow> bool" where
  "canonical h \<longleftrightarrow> hostnamePattern h \<and> to_lower h = h"

lemma canonical_lower: "hostnamePattern (to_lower s) \<Longrightarrow> canonical (to_lower s)"
  by (simp add: canonical_def to_lower_idem)

lemma canonical_trim: "canonical h \<Longrightarrow> trim_space h = h"
  by (rule trim_space_no_space) (auto simp: canonical_def host_alnum_def is_space_def dest!: pattern_runes)

lemma canonical_not_Nil: "canonical h \<Longrightarrow> h \<noteq> []"
  by (auto simp: canonical_def hostnamePattern_def host_label_def)

lemma canonical_no_colon:
  assumes "canonical h"
  shows "CHR '':'' \<notin> set h"
proof
  assume "CHR '':'' \<in> set h"
  from mem_runes_ascii [OF this] have "(58, [CHR '':'']) \<in> set (runes h)" by (simp add: ascii_def)
  with assms show False by (auto simp: canonical_def host_alnum_def dest!: pattern_runes)
qed

section \<open>The resolver\<close>

lemma map_of_fold_update:
  "map_of (fold (\<lambda>x al. if P x then AList.update (k x) (v x) al else al) xs al)
     = map_of al ++ map_of (rev (map (\<lambda>x. (k x, v x)) (filter P xs)))"
  by (induction xs arbitrary: al) (auto simp: AList.update_conv' map_add_def fun_eq_iff split: option.split)

lemma map_of_rev_key:
  assumes "distinct (map k (filter P xs))"
  shows "map_of (rev (map (\<lambda>x. (k x, v x)) (filter P xs))) q = map_option v (find (\<lambda>x. P x \<and> k x = q) xs)"
proof -
  have "map_of (rev (map (\<lambda>x. (k x, v x)) (filter P xs))) = map_of (map (\<lambda>x. (k x, v x)) (filter P xs))"
    using assms by (subst map_of_inject_set) (simp_all add: comp_def rev_map [symmetric])
  moreover have "map_of (map (\<lambda>x. (k x, v x)) (filter P ys)) q = map_option v (find (\<lambda>x. P x \<and> k x = q) ys)" for ys
    by (induction ys) auto
  ultimately show ?thesis by simp
qed

definition port_name :: "host_override \<Rightarrow> string" where
  "port_name o1 = (case ho_port o1 of Some p \<Rightarrow> svc_itoa p | None \<Rightarrow> [])"

definition exact_key :: "host_override \<Rightarrow> string" where
  "exact_key o1 = ho_hostname o1 @ '':'' @ port_name o1"

definition route_ok :: "TargetPolicy \<Rightarrow> host_override \<Rightarrow> bool" where
  "route_ok policy o1 \<longleftrightarrow> canonical (ho_hostname o1) \<and> address_errors policy (ho_address o1) = []
     \<and> (case ho_port o1 of None \<Rightarrow> True | Some p \<Rightarrow> 1 \<le> p \<and> p \<le> 65535)"

definition routes_ok :: "TargetPolicy \<Rightarrow> db \<Rightarrow> bool" where
  "routes_ok policy d \<longleftrightarrow> (\<forall>o1 \<in> set (host_overrides d). route_ok policy o1 \<and> ho_id o1 \<le> overrides_seq d)
     \<and> distinct (map ho_id (host_overrides d)) \<and> distinct (map (\<lambda>o1. (ho_hostname o1, ho_port o1)) (host_overrides d))"

lemma route_ok_parses: "route_ok policy o1 \<Longrightarrow> \<exists>ip. ParseIP (ho_address o1) = Some ip"
  by (auto simp: route_ok_def address_errors_def split: if_splits option.splits)

lemma replace_row_ok:
  assumes "route_ok policy o1"
  shows "replace_row o1 r = (if ho_active o1 \<and> ho_port o1 \<noteq> None then r\<lparr>hr_exact := AList.update (exact_key o1) (ho_address o1) (hr_exact r)\<rparr>
    else if ho_active o1 \<and> ho_port o1 = None then r\<lparr>hr_any := AList.update (ho_hostname o1) (ho_address o1) (hr_any r)\<rparr> else r)"
proof -
  have c: "canonical (ho_hostname o1)" using assms by (simp add: route_ok_def)
  then have "to_lower (trim_space (ho_hostname o1)) = ho_hostname o1" by (simp add: canonical_trim) (simp add: canonical_def)
  with route_ok_parses [OF assms] canonical_not_Nil [OF c] show ?thesis
    by (auto simp: replace_row_def Let_def exact_key_def port_name_def split: option.split)
qed

lemma Replace_parts:
  assumes "\<forall>o1 \<in> set rows. route_ok policy o1"
  shows "hr_exact (fold replace_row rows r) = fold (\<lambda>o1 al. if ho_active o1 \<and> ho_port o1 \<noteq> None
      then AList.update (exact_key o1) (ho_address o1) al else al) rows (hr_exact r)"
    and "hr_any (fold replace_row rows r) = fold (\<lambda>o1 al. if ho_active o1 \<and> ho_port o1 = None
      then AList.update (ho_hostname o1) (ho_address o1) al else al) rows (hr_any r)"
  using assms by (induction rows arbitrary: r) (auto simp: replace_row_ok)

lemma find_same:
  assumes "\<And>x y. x \<in> set xs \<Longrightarrow> y \<in> set xs \<Longrightarrow> P x \<Longrightarrow> P y \<Longrightarrow> x = y"
    and "\<And>x. P x \<Longrightarrow> x \<in> set xs \<longleftrightarrow> x \<in> set ys"
  shows "find P xs = find P ys"
proof (cases "find P xs")
  case None
  with assms(2) have "\<forall>y \<in> set ys. \<not> P y" by (auto simp: find_None_iff)
  then show ?thesis using None by (metis find_None_iff)
next
  case (Some x)
  from find_SomeD [OF Some] have x: "x \<in> set xs" "P x" by simp_all
  then have "find P ys = Some x" using assms by (intro find_only) auto
  with Some show ?thesis by simp
qed

lemma routes_unique:
  assumes "routes_ok policy d" and "x \<in> set (host_overrides d)" and "y \<in> set (host_overrides d)"
    and "ho_hostname x = ho_hostname y" and "ho_port x = ho_port y"
  shows "x = y"
  using assms by (auto simp: routes_ok_def distinct_map dest: inj_onD)

lemma port_name_inj:
  assumes "route_ok p x" and "route_ok p y" and "ho_port x \<noteq> None" and "ho_port y \<noteq> None" and "port_name x = port_name y"
  shows "ho_port x = ho_port y"
proof -
  from assms(3,4) obtain m n where mn: "ho_port x = Some m" "ho_port y = Some n" by blast
  with assms(1,2) have r: "1 \<le> m" "m \<le> 65535" "1 \<le> n" "n \<le> 65535" by (simp_all add: route_ok_def)
  with assms(5) mn have "show_nat (nat m) = show_nat (nat n)" by (simp add: port_name_def svc_itoa_show)
  then have "int (nat m) = int (nat n)" by (metis digits_val_show_nat)
  with r mn show ?thesis by simp
qed

lemma port_name_no_colon: "route_ok p x \<Longrightarrow> CHR '':'' \<notin> set (port_name x)"
  by (auto simp: port_name_def route_ok_def svc_itoa_show is_digit_def show_nat_no split: option.splits)

lemma last_colon:
  assumes "a @ c # b = a' @ c # b'" and "c \<notin> set b" and "c \<notin> set b'"
  shows "a = a' \<and> b = b'"
proof -
  have "takeWhile (\<lambda>x. x \<noteq> c) (rev (a @ c # b)) = rev b" "takeWhile (\<lambda>x. x \<noteq> c) (rev (a' @ c # b')) = rev b'"
    using assms(2,3) by (simp_all add: takeWhile_append)
  with assms(1) have "b = b'" by (metis rev_is_rev_conv)
  with assms(1) show ?thesis by simp
qed

lemma SplitHostPort_port: "SplitHostPort addr = Some (host, port) \<Longrightarrow> CHR '':'' \<notin> set port"
  by (auto simp: SplitHostPort_def split_last_def Let_def dest: set_takeWhileD split: if_splits prod.splits)

text \<open>The row a connection is to follow: the one that names its port, else the one for every port.\<close>

definition route_for :: "host_override list \<Rightarrow> string \<Rightarrow> string \<Rightarrow> host_override option" where
  "route_for rows host port =
     (case find (\<lambda>o1. ho_active o1 \<and> ho_port o1 \<noteq> None \<and> ho_hostname o1 = host \<and> port_name o1 = port) rows of
        Some o1 \<Rightarrow> Some o1
      | None \<Rightarrow> find (\<lambda>o1. ho_active o1 \<and> ho_port o1 = None \<and> ho_hostname o1 = host) rows)"

definition active_rows :: "db \<Rightarrow> host_override list" where
  "active_rows d = sort_key route_order (filter ho_active (host_overrides d))"

lemma Lookup_table:
  assumes "routes_ok policy d" and "SplitHostPort addr = Some (host, port)"
  shows "Lookup (Replace (active_rows d)) addr = (case route_for (host_overrides d) (to_lower host) port of
      None \<Rightarrow> (addr, False) | Some o1 \<Rightarrow> (JoinHostPort (ho_address o1) port, True))"
proof -
  let ?rows = "active_rows d" and ?E = "\<lambda>o1. ho_active o1 \<and> ho_port o1 \<noteq> None" and ?A = "\<lambda>o1. ho_active o1 \<and> ho_port o1 = None"
  have sub: "set ?rows = {o1 \<in> set (host_overrides d). ho_active o1}" by (simp add: active_rows_def)
  have ok: "\<forall>o1 \<in> set ?rows. route_ok policy o1" using assms(1) sub by (simp add: routes_ok_def)
  have "distinct (host_overrides d)" using assms(1) by (simp add: routes_ok_def distinct_map)
  then have dist: "distinct ?rows" by (simp add: active_rows_def)
  have key: "exact_key x = exact_key y \<longleftrightarrow> x = y" if "x \<in> set ?rows" "y \<in> set ?rows" "ho_port x \<noteq> None" "ho_port y \<noteq> None" for x y
  proof
    assume "exact_key x = exact_key y"
    then have "ho_hostname x = ho_hostname y \<and> port_name x = port_name y"
      using ok that by (auto simp: exact_key_def dest!: last_colon intro: port_name_no_colon [THEN notE])
    with port_name_inj [of policy x y] routes_unique [OF assms(1), of x y] ok that sub show "x = y" by auto
  qed simp
  have "distinct (map exact_key (filter ?E ?rows))" using dist key by (auto simp: distinct_map inj_on_def)
  from map_of_rev_key [OF this] have e: "map_of (hr_exact (Replace ?rows)) q
      = map_option ho_address (find (\<lambda>x. ?E x \<and> exact_key x = q) ?rows)" for q
    using ok by (simp add: Replace_def Replace_parts NewHostResolver_def map_of_fold_update)
  have "distinct (map ho_hostname (filter ?A ?rows))"
    using dist routes_unique [OF assms(1)] sub by (auto simp: distinct_map inj_on_def)
  from map_of_rev_key [OF this] have a: "map_of (hr_any (Replace ?rows)) q
      = map_option ho_address (find (\<lambda>x. ?A x \<and> ho_hostname x = q) ?rows)" for q
    using ok by (simp add: Replace_def Replace_parts NewHostResolver_def map_of_fold_update)
  have "find (\<lambda>x. ?E x \<and> exact_key x = to_lower host @ '':'' @ port) ?rows
      = find (\<lambda>o1. ?E o1 \<and> ho_hostname o1 = to_lower host \<and> port_name o1 = port) ?rows"
    using ok SplitHostPort_port [OF assms(2)]
    by (intro find_cong refl) (auto simp: exact_key_def dest!: last_colon dest: port_name_no_colon)
  also have "\<dots> = find (\<lambda>o1. ?E o1 \<and> ho_hostname o1 = to_lower host \<and> port_name o1 = port) (host_overrides d)"
  proof (rule find_same)
    show "x = y" if "x \<in> set ?rows" "y \<in> set ?rows" "?E x \<and> ho_hostname x = to_lower host \<and> port_name x = port"
      "?E y \<and> ho_hostname y = to_lower host \<and> port_name y = port" for x y
      using that key [of x y] by (simp add: exact_key_def)
  qed (auto simp: sub)
  finally have 1: "find (\<lambda>x. ?E x \<and> exact_key x = to_lower host @ '':'' @ port) ?rows
      = find (\<lambda>o1. ?E o1 \<and> ho_hostname o1 = to_lower host \<and> port_name o1 = port) (host_overrides d)" .
  have 2: "find (\<lambda>x. ?A x \<and> ho_hostname x = to_lower host) ?rows = find (\<lambda>x. ?A x \<and> ho_hostname x = to_lower host) (host_overrides d)"
    using routes_unique [OF assms(1)] by (intro find_same) (auto simp: sub)
  show ?thesis
    unfolding Lookup_def assms(2) option.case prod.case Let_def e a 1 2 route_for_def
    by (cases "find (\<lambda>o1. ?E o1 \<and> ho_hostname o1 = to_lower host \<and> port_name o1 = port) (host_overrides d)";
        cases "find (\<lambda>x. ?A x \<and> ho_hostname x = to_lower host) (host_overrides d)"; simp only: option.map option.case conj_assoc)
qed

section \<open>What a write leaves\<close>

abbreviation route_service :: "(string \<Rightarrow> string option) \<Rightarrow> TargetPolicy \<Rightarrow> host_world host_override_service" where
  "route_service inet policy \<equiv> \<lparr>hs_repo = host_repo inet, hs_policy = policy\<rparr>"

lemma run_Reload:
  assumes "w_events w = []"
  shows "run_state (Reload (route_service inet policy)) w = ((), w\<lparr>hw_resolver := Replace (active_rows (w_db w))\<rparr>)"
proof -
  have "run_state (stmt list_active_routes) w = (Inr (active_rows (w_db w)), w)"
    using assms by (simp add: run_read list_active_routes_def active_rows_def query_def)
  then show ?thesis by (simp add: Reload_def host_repo_def)
qed

text \<open>The database gives the address back that it was given: what its type for addresses promises.\<close>

definition inet_keeps :: "(string \<Rightarrow> string option) \<Rightarrow> string \<Rightarrow> bool" where
  "inet_keeps inet address \<longleftrightarrow> (case ParseIP address of None \<Rightarrow> True
     | Some ip \<Rightarrow> (case inet (ip_string ip) of None \<Rightarrow> True | Some t \<Rightarrow> ParseIP t = Some ip))"

lemma ParseIP_Nil: "ParseIP [] = None"
  by (simp add: ParseIP_def)

lemma route_of_ok:
  assumes "input_errors policy i = []" and "inet_keeps inet (trim_space (hi_Address i))"
    and "route_params inet (route_of i) = Inr t"
  shows "ParseIP t = ParseIP (trim_space (hi_Address i))" and "route_ok policy ((route_of i)\<lparr>ho_address := t\<rparr>)"
proof -
  from assms(1) have h: "hostname_errors (to_lower (trim_space (hi_Hostname i))) = []"
    and a: "address_errors policy (trim_space (hi_Address i)) = []"
    and p: "(case parse_port (hi_Port i) of Inl es \<Rightarrow> es | Inr _ \<Rightarrow> []) = []" by (simp_all add: input_errors_def)
  from a obtain ip where ip: "ParseIP (trim_space (hi_Address i)) = Some ip"
    by (auto simp: address_errors_def split: if_splits option.splits)
  from assms(3) ip have "inet (ip_string ip) = Some t" by (auto simp: route_params_def route_of_def split: if_splits option.splits)
  with assms(2) ip have t: "ParseIP t = Some ip" by (simp add: inet_keeps_def)
  then show "ParseIP t = ParseIP (trim_space (hi_Address i))" by (simp add: ip)
  from t have "t \<noteq> []" by (auto simp: ParseIP_Nil)
  with a ip t have "address_errors policy t = []" by (auto simp: address_errors_def split: if_splits)
  moreover have "canonical (to_lower (trim_space (hi_Hostname i)))"
    using h by (intro canonical_lower) (auto simp: hostname_errors_def split: if_splits)
  moreover have "case (case parse_port (hi_Port i) of Inr p \<Rightarrow> p | Inl _ \<Rightarrow> None) of None \<Rightarrow> True | Some n \<Rightarrow> 1 \<le> n \<and> n \<le> 65535"
    using p by (auto simp: parse_port_def Let_def split: if_splits option.splits)
  ultimately show "route_ok policy ((route_of i)\<lparr>ho_address := t\<rparr>)" by (simp add: route_ok_def route_of_def)
qed

lemma not_refused_new:
  assumes "route_refused d i o1 = None" and "routes_ok policy d" and "route_ok policy (o1\<lparr>ho_address := t\<rparr>)"
    and "x \<in> set (host_overrides d)" and "ho_id x \<noteq> i"
  shows "(ho_hostname x, ho_port x) \<noteq> (ho_hostname o1, ho_port o1)"
proof
  assume "(ho_hostname x, ho_port x) = (ho_hostname o1, ho_port o1)"
  with assms(1,4,5) show False by (auto simp: route_refused_def port_key_def list_ex_iff split: if_splits)
qed

lemma create_route_ok:
  assumes "routes_ok policy d" and "route_ok policy (o1\<lparr>ho_address := t\<rparr>)" and "route_params inet o1 = Inr t"
    and "create_route inet o1 now d = (Inr i, d')"
  shows "routes_ok policy d'" and "\<exists>x \<in> set (host_overrides d'). ho_id x = i \<and> ho_hostname x = ho_hostname o1
    \<and> ho_address x = t \<and> ho_port x = ho_port o1 \<and> ho_active x = ho_active o1"
proof -
  let ?x = "o1\<lparr>ho_id := i, ho_address := t, ho_created_at := now, ho_updated_at := now\<rparr>"
  from assms(3,4) have i: "i = overrides_seq d + 1" and none: "route_refused d i o1 = None"
    and d': "d' = d\<lparr>overrides_seq := i, host_overrides := host_overrides d @ [?x]\<rparr>"
    by (auto simp: create_route_def Let_def split: if_splits option.splits)
  have new: "ho_id x < i" if "x \<in> set (host_overrides d)" for x using assms(1) that by (auto simp: routes_ok_def i)
  have "(ho_hostname x, ho_port x) \<noteq> (ho_hostname o1, ho_port o1)" if "x \<in> set (host_overrides d)" for x
    using not_refused_new [OF none assms(1,2) that] new [OF that] by simp
  moreover have "route_ok policy ?x" using assms(2) by (simp add: route_ok_def)
  ultimately show "routes_ok policy d'" using assms(1) new unfolding d' i by (fastforce simp: routes_ok_def)
  show "\<exists>x \<in> set (host_overrides d'). ho_id x = i \<and> ho_hostname x = ho_hostname o1
    \<and> ho_address x = t \<and> ho_port x = ho_port o1 \<and> ho_active x = ho_active o1" unfolding d' by (intro bexI [of _ ?x]) simp_all
qed

lemma update_route_ok:
  assumes "routes_ok policy d" and "route_ok policy (o1\<lparr>ho_address := t\<rparr>)" and "route_params inet o1 = Inr t"
    and "update_route inet o1 now d = (Inr (), d')"
  shows "routes_ok policy d'" and "\<exists>x \<in> set (host_overrides d'). ho_id x = ho_id o1 \<and> ho_hostname x = ho_hostname o1
    \<and> ho_address x = t \<and> ho_port x = ho_port o1 \<and> ho_active x = ho_active o1"
proof -
  let ?f = "\<lambda>x. x\<lparr>ho_hostname := ho_hostname o1, ho_address := t, ho_port := ho_port o1, ho_note := ho_note o1,
                    ho_active := ho_active o1, ho_updated_at := now\<rparr>"
  from assms(3,4) have some: "list_ex (\<lambda>x. ho_id x = ho_id o1) (host_overrides d)" and none: "route_refused d (ho_id o1) o1 = None"
    and d': "d' = d\<lparr>host_overrides := update_where (\<lambda>x. ho_id x = ho_id o1) ?f (host_overrides d)\<rparr>"
    by (auto simp: update_route_def split: if_splits option.splits)
  let ?rows = "update_where (\<lambda>x. ho_id x = ho_id o1) ?f (host_overrides d)"
  have ids: "map ho_id ?rows = map ho_id (host_overrides d)" by (intro update_where_map_key) simp
  let ?k = "\<lambda>x. (ho_hostname x, ho_port x)"
  have "distinct (map (\<lambda>x. ?k (if ho_id x = ho_id o1 then ?f x else x)) (host_overrides d))"
  proof (subst distinct_map, intro conjI inj_onI)
    show "distinct (host_overrides d)" using assms(1) by (simp add: routes_ok_def distinct_map)
    fix x y
    assume xy: "x \<in> set (host_overrides d)" "y \<in> set (host_overrides d)"
      and eq: "?k (if ho_id x = ho_id o1 then ?f x else x) = ?k (if ho_id y = ho_id o1 then ?f y else y)"
    have same: "ho_id x = ho_id y \<Longrightarrow> x = y" using assms(1) xy by (auto simp: routes_ok_def distinct_map dest: inj_onD)
    show "x = y"
    proof (cases "ho_id x = ho_id o1 \<longleftrightarrow> ho_id y = ho_id o1")
      case True
      then show ?thesis using eq same routes_unique [OF assms(1) xy] by (cases "ho_id x = ho_id o1") auto
    next
      case False
      with eq not_refused_new [OF none assms(1,2) xy(1)] not_refused_new [OF none assms(1,2) xy(2)] show ?thesis
        by (cases "ho_id x = ho_id o1") auto
    qed
  qed
  then have "distinct (map ?k ?rows)" by (simp add: update_where_def comp_def)
  moreover have "\<forall>x \<in> set ?rows. route_ok policy x \<and> ho_id x \<le> overrides_seq d"
    using assms(1,2) by (auto simp: ball_update_where routes_ok_def route_ok_def)
  ultimately show "routes_ok policy d'" using assms(1) ids unfolding d' routes_ok_def by simp
  show "\<exists>x \<in> set (host_overrides d'). ho_id x = ho_id o1 \<and> ho_hostname x = ho_hostname o1
    \<and> ho_address x = t \<and> ho_port x = ho_port o1 \<and> ho_active x = ho_active o1"
  proof -
    from some obtain y where y: "y \<in> set (host_overrides d)" "ho_id y = ho_id o1" by (auto simp: list_ex_iff)
    then have "?f y \<in> set ?rows" by (auto simp: set_update_where)
    then show ?thesis unfolding d' by (intro bexI [of _ "?f y"]) (simp_all add: y)
  qed
qed

lemma run_Save_Inr:
  assumes "w_events w = []" and "routes_ok policy (w_db w)" and "inet_keeps inet (trim_space (hi_Address i))"
    and "run_state (Save (route_service inet policy) i) w = (Inr row, w')"
  shows "w_events w' = [] \<and> routes_ok policy (w_db w') \<and> hw_resolver w' = Replace (active_rows (w_db w'))
    \<and> (\<exists>x \<in> set (host_overrides (w_db w')). ho_id x = ho_id row \<and> ho_hostname x = to_lower (trim_space (hi_Hostname i))
        \<and> ParseIP (ho_address x) = ParseIP (trim_space (hi_Address i)) \<and> ho_port x = ho_port row \<and> ho_active x = hi_Active i)"
proof -
  let ?s = "route_service inet policy" and ?o = "route_of i" and ?P = "\<lambda>x. ho_hostname x = to_lower (trim_space (hi_Hostname i))
        \<and> ParseIP (ho_address x) = ParseIP (trim_space (hi_Address i)) \<and> ho_port x = ho_port row \<and> ho_active x = hi_Active i"
  from assms(4) have none: "input_errors policy i = []" by (auto simp: Save_def split: if_splits)
  obtain r v where wr: "run_state (write_route ?s ?o) w = (r, v)" by fastforce
  from assms(4) none wr have r: "r = Inr row" "w' = snd (run_state (Reload ?s) v)"
    by (auto simp: Save_def split: sum.splits go_error.splits prod.splits)
  have "w_events v = [] \<and> routes_ok policy (w_db v) \<and> (\<exists>x \<in> set (host_overrides (w_db v)). ho_id x = ho_id row \<and> ?P x)"
  proof (cases "ho_id ?o = 0")
    case True
    obtain c d where c: "create_route inet ?o (w_now w) (w_db w) = (c, d)" by fastforce
    have "run_state (write_route ?s ?o) w = (map_sum (\<lambda>e. e) (\<lambda>i. ?o\<lparr>ho_id := i\<rparr>) c, w\<lparr>w_db := d\<rparr>)"
      using True by (simp add: write_route_def host_repo_def run_stmt_alone [OF assms(1)] c)
    with wr r obtain n where n: "c = Inr n" "row = ?o\<lparr>ho_id := n\<rparr>" and v: "v = w\<lparr>w_db := d\<rparr>" by (cases c) auto
    with c obtain t where t: "route_params inet ?o = Inr t" by (cases "route_params inet ?o") (auto simp: create_route_def)
    note ok = route_of_ok [OF none assms(3) t]
    note kept = create_route_ok [OF assms(2) ok(2) t c [unfolded n]]
    from kept(2) n v ok(1) have "\<exists>x \<in> set (host_overrides (w_db v)). ho_id x = ho_id row \<and> ?P x" by (auto simp: route_of_def)
    with kept(1) v assms(1) show ?thesis by simp
  next
    case False
    obtain c d where c: "update_route inet ?o (w_now w) (w_db w) = (c, d)" by fastforce
    have "run_state (write_route ?s ?o) w
        = (map_sum (\<lambda>e. e) (\<lambda>i. ?o\<lparr>ho_id := i\<rparr>) (map_sum (\<lambda>e. e) (\<lambda>_. ho_id ?o) c), w\<lparr>w_db := d\<rparr>)"
      using False by (simp add: write_route_def host_repo_def run_stmt_alone [OF assms(1)] c)
    with wr r have n: "c = Inr ()" "row = ?o\<lparr>ho_id := ho_id ?o\<rparr>" and v: "v = w\<lparr>w_db := d\<rparr>" by (cases c; auto)+
    with c obtain t where t: "route_params inet ?o = Inr t" by (cases "route_params inet ?o") (auto simp: update_route_def)
    note ok = route_of_ok [OF none assms(3) t]
    note kept = update_route_ok [OF assms(2) ok(2) t c [unfolded n(1)]]
    from kept(2) n(2) v ok(1) have "\<exists>x \<in> set (host_overrides (w_db v)). ho_id x = ho_id row \<and> ?P x" by (auto simp: route_of_def)
    with kept(1) v assms(1) show ?thesis by simp
  qed
  with r show ?thesis by (simp add: run_Reload)
qed

text \<open> C18. A route that was stored is in force when the call returns: the table keeps its rules (plain names in lower
  case, addresses the policy permits, one row per name and port), the row is there with the address that
  was given, and the dialer's answer for every address is that of the table: the active row that names the
  port, else the one for every port, else the address itself. \<close>
theorem saved_route_in_force:
  assumes "w_events w = []" and "routes_ok policy (w_db w)" and "inet_keeps inet (trim_space (hi_Address i))"
    and "run_state (Save (route_service inet policy) i) w = (Inr row, w')"
  shows "routes_ok policy (w_db w')
    \<and> (\<exists>x \<in> set (host_overrides (w_db w')). ho_id x = ho_id row \<and> ho_hostname x = to_lower (trim_space (hi_Hostname i))
        \<and> ParseIP (ho_address x) = ParseIP (trim_space (hi_Address i)) \<and> ho_port x = ho_port row \<and> ho_active x = hi_Active i)
    \<and> (\<forall>addr host port. SplitHostPort addr = Some (host, port) \<longrightarrow>
        Lookup (hw_resolver w') addr = (case route_for (host_overrides (w_db w')) (to_lower host) port of
          None \<Rightarrow> (addr, False) | Some o1 \<Rightarrow> (JoinHostPort (ho_address o1) port, True)))"
  using run_Save_Inr [OF assms] Lookup_table by (metis (no_types, lifting))

section \<open>No new private route\<close>

text \<open>
  The addresses the process knows: those of the rows, and those in the dialer's table. Nobody who writes
  through the service adds one that the policy forbids, and neither do other replicas under the same policy.
\<close>

definition resolver_addresses :: "HostResolver \<Rightarrow> string set" where
  "resolver_addresses r = ran (map_of (hr_exact r)) \<union> ran (map_of (hr_any r))"

definition row_addresses :: "db \<Rightarrow> string set" where
  "row_addresses d = ho_address ` set (host_overrides d)"

definition vetted :: "TargetPolicy \<Rightarrow> string set" where
  "vetted policy = {a. address_errors policy a = []}"

definition vets :: "TargetPolicy \<Rightarrow> (db \<Rightarrow> db) \<Rightarrow> bool" where
  "vets policy f \<longleftrightarrow> (\<forall>d. row_addresses (f d) \<subseteq> row_addresses d \<union> vetted policy)"

definition known_addresses :: "host_world \<Rightarrow> string set" where
  "known_addresses w = row_addresses (w_db w) \<union> resolver_addresses (hw_resolver w)"

definition adds_vetted :: "TargetPolicy \<Rightarrow> host_world \<Rightarrow> host_world \<Rightarrow> bool" where
  "adds_vetted policy w w' \<longleftrightarrow> ((\<forall>ev \<in> set (w_events w). vets policy (ev_env ev)) \<longrightarrow>
     (\<forall>ev \<in> set (w_events w'). vets policy (ev_env ev)) \<and> known_addresses w' \<subseteq> known_addresses w \<union> vetted policy)"

interpretation av: frame "adds_vetted policy" for policy
  by unfold_locales (auto simp: adds_vetted_def)

lemma resolver_addresses_fold:
  "resolver_addresses (fold replace_row rows r) \<subseteq> resolver_addresses r \<union> ho_address ` set rows"
proof (induction rows arbitrary: r)
  case (Cons o1 rows)
  have "resolver_addresses (replace_row o1 r) \<subseteq> insert (ho_address o1) (resolver_addresses r)"
    by (auto simp: replace_row_def Let_def resolver_addresses_def AList.update_conv' ran_def split: option.split if_splits)
  with Cons [of "replace_row o1 r"] show ?case by auto
qed simp

lemma Replace_addresses: "resolver_addresses (Replace rows) \<subseteq> ho_address ` set rows"
  using resolver_addresses_fold [of rows NewHostResolver] by (simp add: Replace_def resolver_addresses_def NewHostResolver_def)

lemma adds_vetted_stmt:
  assumes "\<And>now. vets policy (\<lambda>d. snd (f now d))"
  shows "keeps (adds_vetted policy) (stmt f)"
proof (rule keepsI)
  fix w a and w' :: host_world assume run: "run_state (stmt f) w = (a, w')"
  have f: "row_addresses (snd (f now d)) \<subseteq> row_addresses d \<union> vetted policy" for now d using assms by (simp add: vets_def)
  show "adds_vetted policy w w'"
  proof (cases "w_events w")
    case Nil
    with run have "w_db w' = snd (f (w_now w) (w_db w))" "hw_resolver w' = hw_resolver w" "w_events w' = []"
      by (auto simp: stmt_def split: prod.splits)
    then show ?thesis using f by (fastforce simp: adds_vetted_def known_addresses_def)
  next
    case (Cons ev evs)
    let ?d = "ev_env ev (w_db w)"
    from run Cons have v: "w_db w' \<in> {?d, snd (f (ev_now ev) ?d)}" "hw_resolver w' = hw_resolver w" "w_events w' = evs"
      by (auto simp: stmt_def Let_def split: fault.splits prod.splits)
    have "row_addresses (w_db w') \<subseteq> row_addresses (w_db w) \<union> vetted policy" if "vets policy (ev_env ev)"
    proof -
      have "row_addresses ?d \<subseteq> row_addresses (w_db w) \<union> vetted policy" using that by (simp add: vets_def)
      moreover from v(1) have "w_db w' = ?d \<or> w_db w' = snd (f (ev_now ev) ?d)" by simp
      ultimately show ?thesis using f [of "ev_now ev" ?d] by (elim disjE) auto
    qed
    with v(2,3) Cons show ?thesis by (auto simp: adds_vetted_def known_addresses_def)
  qed
qed

lemma Lookup_address:
  assumes "Lookup r addr = (target, True)"
  shows "\<exists>host port t. SplitHostPort addr = Some (host, port) \<and> target = JoinHostPort t port \<and> t \<in> resolver_addresses r"
proof -
  from assms obtain host port where s: "SplitHostPort addr = Some (host, port)" by (auto simp: Lookup_def split: option.splits)
  let ?e = "map_of (hr_exact r) (to_lower host @ '':'' @ port)" and ?a = "map_of (hr_any r) (to_lower host)"
  from assms obtain t where "?e = Some t \<or> ?a = Some t" and t: "target = JoinHostPort t port"
    unfolding Lookup_def s option.case prod.case Let_def by (cases ?e; cases ?a) (simp_all, blast+)
  then have "t \<in> resolver_addresses r" by (auto simp: resolver_addresses_def intro: ranI)
  with s t show ?thesis by blast
qed

lemma reads_vet: "reads_only f \<Longrightarrow> vets policy (\<lambda>d. snd (f now d))"
  by (simp add: vets_def reads_only_def)

lemma params_vetted:
  assumes "input_errors policy i = []" and "inet_keeps inet (trim_space (hi_Address i))" and "route_params inet (route_of i) = Inr t"
  shows "t \<in> vetted policy"
  using route_of_ok(2) [OF assms] by (simp add: vetted_def route_ok_def)

lemma writes_vet:
  assumes "input_errors policy i = []" and "inet_keeps inet (trim_space (hi_Address i))"
  shows "vets policy (\<lambda>d. snd (create_route inet (route_of i) now d))" "vets policy (\<lambda>d. snd (update_route inet (route_of i) now d))"
  using params_vetted [OF assms]
  by (auto simp: vets_def row_addresses_def create_route_def update_route_def Let_def set_update_where
      split: sum.split option.split if_splits)

lemma delete_vets: "vets policy (\<lambda>d. snd (delete_route j now d))"
  by (auto simp: vets_def row_addresses_def delete_route_def)

lemma adds_vetted_Reload: "keeps (adds_vetted policy) (Reload (route_service inet policy))"
proof (rule keepsI)
  fix w a w' assume run: "run_state (Reload (route_service inet policy)) w = (a, w')"
  obtain r v where list: "run_state (stmt list_active_routes) w = (r, v)" by fastforce
  have v: "adds_vetted policy w v"
    by (rule keepsD [OF adds_vetted_stmt list]) (simp add: reads_vet list_active_routes_def)
  show "adds_vetted policy w w'"
  proof (cases r)
    case (Inl e)
    with run list v show ?thesis by (simp add: Reload_def host_repo_def)
  next
    case (Inr rows)
    with list have "rows = active_rows (w_db v)"
      by (auto simp: stmt_def list_active_routes_def query_def active_rows_def Let_def split: list.splits fault.splits)
    then have "resolver_addresses (Replace rows) \<subseteq> row_addresses (w_db v)"
      using Replace_addresses [of rows] by (auto simp: active_rows_def row_addresses_def)
    moreover from run list Inr have "w' = v\<lparr>hw_resolver := Replace rows\<rparr>" by (simp add: Reload_def host_repo_def)
    ultimately show ?thesis using v by (auto simp: adds_vetted_def known_addresses_def)
  qed
qed

datatype route_op = SaveRoute HostOverrideInput | DeleteRoute int | ReloadRoutes

text \<open>Any sequence of calls of the service, whatever each of them answers.\<close>

fun route_ops :: "host_world host_override_service \<Rightarrow> route_op list \<Rightarrow> (host_world, unit) state" where
  "route_ops s [] = State_Monad.return ()"
| "route_ops s (SaveRoute i # ops) = State_Monad.bind (Save s i) (\<lambda>_. route_ops s ops)"
| "route_ops s (DeleteRoute i # ops) = State_Monad.bind (Delete s i) (\<lambda>_. route_ops s ops)"
| "route_ops s (ReloadRoutes # ops) = State_Monad.bind (Reload s) (\<lambda>_. route_ops s ops)"

lemma adds_vetted_Save:
  assumes "inet_keeps inet (trim_space (hi_Address i))"
  shows "keeps (adds_vetted policy) (Save (route_service inet policy) i)"
proof (cases "input_errors policy i = []")
  case True
  have "keeps (adds_vetted policy) (write_route (route_service inet policy) (route_of i))"
    unfolding write_route_def host_repo_def
    by (auto intro!: av.keeps_rules adds_vetted_stmt writes_vet [OF True assms])
  with True show ?thesis
    unfolding Save_def
    by (auto intro!: av.keeps_rules adds_vetted_Reload split: sum.split go_error.split)
qed (simp add: Save_def av.keeps_return)

lemma adds_vetted_ops:
  assumes "\<forall>i. SaveRoute i \<in> set ops \<longrightarrow> inet_keeps inet (trim_space (hi_Address i))"
  shows "keeps (adds_vetted policy) (route_ops (route_service inet policy) ops)"
  using assms
proof (induction ops)
  case (Cons op ops)
  have "keeps (adds_vetted policy) (Delete (route_service inet policy) j)" for j
    unfolding Delete_def host_repo_def
    by (auto intro!: av.keeps_rules adds_vetted_stmt delete_vets adds_vetted_Reload [unfolded host_repo_def] split: sum.split go_error.split)
  with Cons show ?case by (cases op) (auto intro!: av.keeps_bind adds_vetted_Save adds_vetted_Reload)
qed (simp add: av.keeps_return)

text \<open> C22. Where private targets are forbidden, no call of the service opens a route to one: whatever sequence of
  saves, deletions and reloads ran, and whatever other replicas under the same policy wrote between their
  statements or the store failed at, an address the dialer substitutes is a public one, neither unspecified nor
  multicast, unless a row or the dialer's table held that very address before the sequence began; the port is
  the one that was asked for. The exception is real: reloading does not look at the policy, so a row
  stored while private targets were permitted is followed. \<close>
theorem no_private_route:
  assumes "\<not> AllowPrivate policy" and "\<forall>ev \<in> set (w_events w). vets policy (ev_env ev)"
    and "\<forall>i. SaveRoute i \<in> set ops \<longrightarrow> inet_keeps inet (trim_space (hi_Address i))"
    and "run_state (route_ops (route_service inet policy) ops) w = ((), w')"
    and "Lookup (hw_resolver w') addr = (target, True)"
  shows "\<exists>host port t. SplitHostPort addr = Some (host, port) \<and> target = JoinHostPort t port
    \<and> (t \<in> known_addresses w \<or> (\<exists>ip. ParseIP t = Some ip \<and> isPublicIP ip \<and> \<not> IsMulticast ip))"
proof -
  from adds_vetted_ops [OF assms(3), of policy] assms(4) have "adds_vetted policy w w'" by (metis keepsD)
  with assms(2) have known: "known_addresses w' \<subseteq> known_addresses w \<union> vetted policy" by (simp add: adds_vetted_def)
  from Lookup_address [OF assms(5)] obtain host port t where s: "SplitHostPort addr = Some (host, port)" and t: "target = JoinHostPort t port"
    and "t \<in> resolver_addresses (hw_resolver w')" by blast
  with known have "t \<in> known_addresses w \<union> vetted policy" by (auto simp: known_addresses_def)
  with assms(1) have "t \<in> known_addresses w \<or> (\<exists>ip. ParseIP t = Some ip \<and> isPublicIP ip \<and> \<not> IsMulticast ip)"
    by (auto simp: vetted_def address_errors_def split: if_splits option.splits)
  with s t show ?thesis by blast
qed

text \<open>A sample: one name behind a network of its own.\<close>

definition lan_input :: HostOverrideInput where
  "lan_input = \<lparr>hi_ID = 0, hi_Hostname = ''Shop.Example.com'', hi_Address = ''8.8.4.4'', hi_Port = '' 443 '', hi_Note = [],
     hi_Active = True, hi_Actor = None\<rparr>"

definition lan_world :: host_world where
  "lan_world = world.extend demo_world (host_world.fields NewHostResolver)"

abbreviation closed_net :: TargetPolicy where
  "closed_net \<equiv> \<lparr>AllowPrivate = False\<rparr>"

lemma lan_facts:
  "w_events lan_world = []" "routes_ok closed_net (w_db lan_world)" "inet_keeps Some (trim_space (hi_Address lan_input))"
  "to_lower (trim_space (hi_Hostname lan_input)) = ''shop.example.com''" "ParseIP (trim_space (hi_Address lan_input)) = Some [8, 8, 4, 4]"
proof -
  show "w_events lan_world = []" "routes_ok closed_net (w_db lan_world)"
    by (simp_all add: lan_world_def demo_world_def demo_db_def routes_ok_def world.defs)
  show "inet_keeps Some (trim_space (hi_Address lan_input))" "to_lower (trim_space (hi_Hostname lan_input)) = ''shop.example.com''"
    "ParseIP (trim_space (hi_Address lan_input)) = Some [8, 8, 4, 4]" by code_simp+
qed

lemma lan_run: "\<exists>row w'. run_state (Save (route_service Some closed_net) lan_input) lan_world = (Inr row, w')"
proof -
  have "case fst (run_state (Save (route_service Some closed_net) lan_input) lan_world) of Inr row \<Rightarrow> ho_id row = 1 | Inl _ \<Rightarrow> False"
    by code_simp
  then show ?thesis by (cases "run_state (Save (route_service Some closed_net) lan_input) lan_world") (auto split: sum.splits)
qed

theorem saved_route_in_force_witness:
  "\<exists>row w'. run_state (Save (route_service Some closed_net) lan_input) lan_world = (Inr row, w')
    \<and> (\<exists>x \<in> set (host_overrides (w_db w')). ho_hostname x = ''shop.example.com'' \<and> ParseIP (ho_address x) = Some [8, 8, 4, 4])"
proof -
  from lan_run obtain row w' where run: "run_state (Save (route_service Some closed_net) lan_input) lan_world = (Inr row, w')" by blast
  from saved_route_in_force [OF lan_facts(1-3) run] run show ?thesis unfolding lan_facts(4,5) by blast
qed

theorem no_private_route_witness:
  "\<exists>w' ip. run_state (route_ops (route_service Some closed_net) [SaveRoute lan_input, ReloadRoutes]) lan_world = ((), w')
    \<and> Lookup (hw_resolver w') ''SHOP.example.com:443'' = (''8.8.4.4:443'', True) \<and> isPublicIP ip
    \<and> (\<exists>t port. ''8.8.4.4:443'' = JoinHostPort t port \<and> ParseIP t = Some ip)"
proof -
  let ?m = "route_ops (route_service Some closed_net) [SaveRoute lan_input, ReloadRoutes]"
  obtain w' where run: "run_state ?m lan_world = ((), w')" by (metis surj_pair unit.exhaust)
  have "Lookup (hw_resolver (snd (run_state ?m lan_world))) ''SHOP.example.com:443'' = (''8.8.4.4:443'', True)" by code_simp
  with run have hit: "Lookup (hw_resolver w') ''SHOP.example.com:443'' = (''8.8.4.4:443'', True)" by simp
  have "known_addresses lan_world = {}" "w_events lan_world = []"
    by (simp_all add: known_addresses_def row_addresses_def resolver_addresses_def lan_world_def demo_world_def demo_db_def
        NewHostResolver_def world.defs host_world.defs)
  moreover have "\<forall>i. SaveRoute i \<in> set [SaveRoute lan_input, ReloadRoutes] \<longrightarrow> inet_keeps Some (trim_space (hi_Address i))"
    using lan_facts(3) by simp
  ultimately show ?thesis using no_private_route [of closed_net lan_world, OF _ _ _ run hit] run hit by fastforce
qed

end
