(* ===== verification/Notifications.thy ===== *)
theory Notifications
  imports AccountStore ServiceErrors
begin

text \<open>
  Sets of recipients a job can be attached to: the statements of \<open>internal/repository/notification_repo.go\<close> and
  the rules of \<open>internal/service/notification_service.go\<close>; and the reading of the application log, which is in
  the same file. A write of a set and its addresses is one transaction, so one statement here; the sequence of
  the table moves on even where it is rolled back. The identities of the rows of addresses are never read.
\<close>

section \<open>Sets of recipients\<close>

definition live_notification :: "notification_t \<Rightarrow> bool" where
  "live_notification n \<longleftrightarrow> n_deleted_at n = None"

definition emails_of :: "db \<Rightarrow> int \<Rightarrow> string list" where
  "emails_of d i = sort (map e_email (filter (\<lambda>e. e_notification_id e = i \<and> e_active e) (notify_emails d)))"

definition notification_of :: "db \<Rightarrow> notification_t \<Rightarrow> notification" where
  "notification_of d n =
     \<lparr>nf_id = n_id n, nf_user_id = n_user_id n, nf_name = n_name n, nf_on_success = n_on_success n,
      nf_on_failure = n_on_failure n, nf_active = n_active n, nf_emails = emails_of d (n_id n),
      nf_created_at = n_created_at n, nf_updated_at = n_updated_at n\<rparr>"

definition get_notification :: "int \<Rightarrow> notification statement" where
  "get_notification i now d =
     ((case find (\<lambda>n. n_id n = i \<and> live_notification n) (notifications d) of
         None \<Rightarrow> Inl ErrNotFound | Some n \<Rightarrow> Inr (notification_of d n)), d)"

definition list_notifications :: "notification list statement" where
  "list_notifications = query (\<lambda>d. map (notification_of d) (sort_key n_name (filter live_notification (notifications d))))"

text \<open>
  The loop over the addresses, with those seen so far. The unique index is on the address in lower case; the
  foreign key is looked at only for a row that is inserted.
\<close>

fun insertEmails :: "int \<Rightarrow> string list \<Rightarrow> string list \<Rightarrow> db \<Rightarrow> go_error + db" where
  "insertEmails i [] seen d = Inr d"
| "insertEmails i (e0 # es) seen d =
     (let e = to_lower (trim_space e0) in
      if e = [] \<or> e \<in> set seen then insertEmails i es seen d
      else if \<not> pg_text e then Inl invalid_text
      else if list_ex (\<lambda>x. e_notification_id x = i \<and> pg_lower (e_email x) = pg_lower e) (notify_emails d)
        then insertEmails i es (e # seen) d
      else if \<not> list_ex (\<lambda>n. n_id n = i) (notifications d)
        then Inl (fk_violation ''notify_emails'' ''notify_emails_notification_id_fkey'')
      else insertEmails i es (e # seen) (d\<lparr>notify_emails := notify_emails d
             @ [\<lparr>e_notification_id = i, e_email = e, e_active = True\<rparr>]\<rparr>))"

text \<open>A failing transaction leaves the tables as they were, but for the sequences.\<close>

definition create_notification :: "notification \<Rightarrow> int statement" where
  "create_notification n now d =
     (if \<not> pg_text (nf_name n) then (Inl invalid_text, d)
      else let i = notifications_seq d + 1; d1 = d\<lparr>notifications_seq := i\<rparr> in
        if (case nf_user_id n of None \<Rightarrow> False | Some u \<Rightarrow> \<not> list_ex (\<lambda>x. u_id x = u) (users d))
        then (Inl (fk_violation ''notifications'' ''notifications_user_id_fkey''), d1)
        else case insertEmails i (nf_emails n) [] (d1\<lparr>notifications := notifications d
            @ [\<lparr>n_id = i, n_user_id = nf_user_id n, n_name = nf_name n, n_on_success = nf_on_success n,
                n_on_failure = nf_on_failure n, n_active = nf_active n, n_created_at = now, n_updated_at = None,
                n_deleted_at = None\<rparr>]\<rparr>) of
          Inl e \<Rightarrow> (Inl e, d1)
        | Inr d2 \<Rightarrow> (Inr i, d2))"

definition clear_emails :: "int \<Rightarrow> db \<Rightarrow> db" where
  "clear_emails i d = d\<lparr>notify_emails := filter (\<lambda>e. e_notification_id e \<noteq> i) (notify_emails d)\<rparr>"

definition update_notification :: "notification \<Rightarrow> unit statement" where
  "update_notification n now d =
     (if \<not> pg_text (nf_name n) then (Inl invalid_text, d)
      else case insertEmails (nf_id n) (nf_emails n) [] (clear_emails (nf_id n) (d\<lparr>notifications :=
          update_where (\<lambda>x. n_id x = nf_id n \<and> live_notification x)
            (\<lambda>x. x\<lparr>n_name := nf_name n, n_on_success := nf_on_success n, n_on_failure := nf_on_failure n,
                   n_active := nf_active n, n_updated_at := Some now\<rparr>) (notifications d)\<rparr>)) of
        Inl e \<Rightarrow> (Inl e, d)
      | Inr d2 \<Rightarrow> (Inr (), d2))"

definition soft_delete_notification :: "int \<Rightarrow> instant \<Rightarrow> unit statement" where
  "soft_delete_notification i at = exec (\<lambda>d. d\<lparr>notifications := update_where (\<lambda>n. n_id n = i)
     (\<lambda>n. n\<lparr>n_active := False, n_deleted_at := Some at, n_updated_at := Some at\<rparr>) (notifications d)\<rparr>)"

definition replace_emails :: "int \<Rightarrow> string list \<Rightarrow> unit statement" where
  "replace_emails i es now d = (case insertEmails i es [] (clear_emails i d) of
      Inl e \<Rightarrow> (Inl e, d) | Inr d2 \<Rightarrow> (Inr (), d2))"

section \<open>The application log\<close>

definition log_matches :: "string \<Rightarrow> app_log \<Rightarrow> bool" where
  "log_matches level l \<longleftrightarrow> level = [] \<or> al_level l = level"

definition count_app_logs :: "string \<Rightarrow> int statement" where
  "count_app_logs level now d =
     ((if \<not> pg_text level then Inl invalid_text
       else Inr (int (length (filter (log_matches level) (app_logs d))))), d)"

definition page_app_logs :: "string \<Rightarrow> int \<Rightarrow> int \<Rightarrow> app_log list statement" where
  "page_app_logs level offset limit now d =
     ((if \<not> pg_text level then Inl invalid_text
       else if offset < 0 then Inl negative_offset
       else Inr (take (nat (clamp limit 1 200)) (drop (nat offset)
         (sort_key (\<lambda>l. - al_id l) (filter (log_matches level) (app_logs d)))))), d)"

definition list_app_logs :: "string \<Rightarrow> int \<Rightarrow> int \<Rightarrow> ('w world_scheme, app_log list \<times> int) call" where
  "list_app_logs level offset limit = do {
     c \<leftarrow> stmt (count_app_logs level);
     case c of Inl e \<Rightarrow> State_Monad.return (Inl e)
     | Inr n \<Rightarrow> do {
         r \<leftarrow> stmt (page_app_logs level offset limit);
         State_Monad.return (map_sum (\<lambda>e. e) (\<lambda>rows. (rows, n)) r) } }"

definition delete_logs_before :: "instant \<Rightarrow> int statement" where
  "delete_logs_before before now d =
     (Inr (int (length (filter (\<lambda>l. al_created_at l < before) (app_logs d)))),
      d\<lparr>app_logs := filter (\<lambda>l. \<not> al_created_at l < before) (app_logs d)\<rparr>)"

section \<open>The service\<close>

record 'w notification_repo =
  nr_Get :: "int \<Rightarrow> ('w, notification) call"
  nr_List :: "('w, notification list) call"
  nr_Create :: "notification \<Rightarrow> ('w, int) call"
  nr_Update :: "notification \<Rightarrow> ('w, unit) call"
  nr_SoftDelete :: "int \<Rightarrow> instant \<Rightarrow> ('w, unit) call"
  nr_ReplaceEmails :: "int \<Rightarrow> string list \<Rightarrow> ('w, unit) call"

definition NotificationRepo :: "'w world_scheme notification_repo" where
  "NotificationRepo = \<lparr>nr_Get = (\<lambda>i. stmt (get_notification i)), nr_List = stmt list_notifications,
     nr_Create = (\<lambda>n. stmt (create_notification n)), nr_Update = (\<lambda>n. stmt (update_notification n)),
     nr_SoftDelete = (\<lambda>i t. stmt (soft_delete_notification i t)), nr_ReplaceEmails = (\<lambda>i es. stmt (replace_emails i es))\<rparr>"

record NotificationInput =
  ni_Name :: string
  ni_OnSuccess :: bool
  ni_OnFailure :: bool
  ni_Active :: bool
  ni_Emails :: "string list"

definition bad_address :: "string \<Rightarrow> bool" where
  "bad_address email \<longleftrightarrow> CHR ''@'' \<notin> set email \<or> has_prefix email ''@'' \<or> has_suffix email ''@''"

text \<open>The loop over the addresses: the errors and the addresses kept.\<close>

fun clean_emails :: "string list \<Rightarrow> field_error list \<times> string list" where
  "clean_emails [] = ([], [])"
| "clean_emails (e0 # es) =
     (let email = to_lower (trim_space e0); (errs, clean) = clean_emails es in
      if email = [] then (errs, clean)
      else if bad_address email then ((''emails'', email @ '' is not a valid address'') # errs, clean)
      else (errs, email # clean))"

definition notification_errors :: "NotificationInput \<Rightarrow> field_error list" where
  "notification_errors i =
     (case clean_emails (ni_Emails i) of (errs, clean) \<Rightarrow>
       (if trim_space (ni_Name i) = [] then [(''name'', ''required'')] else []) @ errs
       @ (if clean = [] then [(''emails'', ''add at least one address'')] else [])
       @ (if \<not> ni_OnSuccess i \<and> \<not> ni_OnFailure i then [(''on_failure'', ''choose at least one outcome to report'')] else []))"

definition validate_notification :: "NotificationInput \<Rightarrow> svc_error + notification" where
  "validate_notification i = ErrOrNil (notification_errors i)
     \<lparr>nf_id = 0, nf_user_id = None, nf_name = trim_space (ni_Name i), nf_on_success = ni_OnSuccess i,
      nf_on_failure = ni_OnFailure i, nf_active = ni_Active i, nf_emails = snd (clean_emails (ni_Emails i)),
      nf_created_at = zero_time, nf_updated_at = None\<rparr>"

definition ListNotifications :: "'w notification_repo \<Rightarrow> ('w, notification list) svc" where
  "ListNotifications repo = do { r \<leftarrow> nr_List repo; State_Monad.return (map_sum SvcOther (\<lambda>x. x) r) }"

definition not_found_or :: "go_error + 'a \<Rightarrow> svc_error + 'a" where
  "not_found_or r = (case r of Inl ErrNotFound \<Rightarrow> Inl SvcNotFound | Inl e \<Rightarrow> Inl (SvcOther e) | Inr x \<Rightarrow> Inr x)"

definition GetNotification :: "'w notification_repo \<Rightarrow> int \<Rightarrow> ('w, notification) svc" where
  "GetNotification repo i = do { r \<leftarrow> nr_Get repo i; State_Monad.return (not_found_or r) }"

definition CreateNotification :: "'w notification_repo \<Rightarrow> NotificationInput \<Rightarrow> int option \<Rightarrow> ('w, int) svc" where
  "CreateNotification repo i userID = (case validate_notification i of
      Inl e \<Rightarrow> State_Monad.return (Inl e)
    | Inr n \<Rightarrow> do { r \<leftarrow> nr_Create repo (n\<lparr>nf_user_id := userID\<rparr>); State_Monad.return (map_sum SvcOther (\<lambda>x. x) r) })"

definition UpdateNotification :: "'w notification_repo \<Rightarrow> int \<Rightarrow> NotificationInput \<Rightarrow> ('w, unit) svc" where
  "UpdateNotification repo i inp = (case validate_notification inp of
      Inl e \<Rightarrow> State_Monad.return (Inl e)
    | Inr n \<Rightarrow> do { r \<leftarrow> nr_Update repo (n\<lparr>nf_id := i\<rparr>); State_Monad.return (map_sum SvcOther (\<lambda>x. x) r) })"

definition DeleteNotification :: "'w world_scheme notification_repo \<Rightarrow> int \<Rightarrow> ('w world_scheme, unit) svc" where
  "DeleteNotification repo i = do {
     now \<leftarrow> app_now;
     r \<leftarrow> nr_SoftDelete repo i now;
     State_Monad.return (not_found_or r) }"

end
