(* ===== verification/NotificationProps.thy ===== *)
theory NotificationProps
  imports Notifications Demo "HOL-Library.Code_Target_Numeral"
begin

text \<open>What a set of recipients guarantees: it comes back, and is used, with the addresses it was given.\<close>

definition sets_ok :: "db \<Rightarrow> bool" where
  "sets_ok d \<longleftrightarrow> (\<forall>n \<in> set (notifications d). n_id n \<le> notifications_seq d)
     \<and> (\<forall>e \<in> set (notify_emails d). e_notification_id e \<le> notifications_seq d)"

definition normal :: "string \<Rightarrow> bool" where
  "normal e \<longleftrightarrow> to_lower (trim_space e) = e \<and> e \<noteq> []"

lemma normal_lower: "normal e \<Longrightarrow> to_lower e = e"
  unfolding normal_def by (metis to_lower_idem)

lemma clean_normal: "\<forall>e \<in> set (snd (clean_emails es)). normal e"
  by (induction es) (auto simp: normal_def trim_lower_trim to_lower_idem Let_def split: prod.splits)

lemma clean_all: "fst (clean_emails es) = [] \<Longrightarrow>
    set (snd (clean_emails es)) = {to_lower (trim_space e) | e. e \<in> set es \<and> to_lower (trim_space e) \<noteq> []}"
  by (induction es) (auto simp: Let_def split: prod.splits if_splits)

text \<open>The addresses of a list that are new.\<close>

fun fresh :: "'a list \<Rightarrow> 'a list \<Rightarrow> 'a list" where
  "fresh seen [] = []"
| "fresh seen (e # es) = (if e \<in> set seen then fresh seen es else e # fresh (e # seen) es)"

lemma fresh_set: "set (fresh seen es) = set es - set seen"
  by (induction es arbitrary: seen) auto

lemma fresh_distinct: "distinct (fresh seen es)"
  by (induction es arbitrary: seen) (auto simp: fresh_set)

definition rows_of :: "int \<Rightarrow> db \<Rightarrow> string list" where
  "rows_of i d = map e_email (filter (\<lambda>e. e_notification_id e = i) (notify_emails d))"

abbreviation row :: "int \<Rightarrow> string \<Rightarrow> notify_email_t" where
  "row i e \<equiv> \<lparr>e_notification_id = i, e_email = e, e_active = True\<rparr>"

lemma insertEmails_normal:
  assumes "\<forall>e \<in> set es. normal e" and "set (rows_of i d) = set seen" and "\<forall>e \<in> set seen. to_lower e = e"
    and "insertEmails i es seen d = Inr d'"
  shows "d' = d\<lparr>notify_emails := notify_emails d @ map (row i) (fresh seen es)\<rparr>"
  using assms
proof (induction es arbitrary: seen d)
  case (Cons e es)
  then have e: "to_lower (trim_space e) = e" "e \<noteq> []" "to_lower e = e" by (simp_all add: normal_def normal_lower)
  show ?case
  proof (cases "e \<in> set seen")
    case True
    with Cons e show ?thesis by simp
  next
    case False
    have "\<not> list_ex (\<lambda>x. e_notification_id x = i \<and> pg_lower (e_email x) = pg_lower e) (notify_emails d)"
    proof
      assume "list_ex (\<lambda>x. e_notification_id x = i \<and> pg_lower (e_email x) = pg_lower e) (notify_emails d)"
      then obtain x where m: "x \<in> set (notify_emails d)" "e_notification_id x = i" and x: "pg_lower (e_email x) = pg_lower e"
        unfolding list_ex_iff by blast
      from m have "e_email x \<in> set (rows_of i d)" by (simp add: rows_of_def)
      with x Cons.prems(2,3) e(3) False show False by (metis pg_lower_lower)
    qed
    with Cons.prems(4) e False have "insertEmails i es (e # seen) (d\<lparr>notify_emails := notify_emails d @ [row i e]\<rparr>) = Inr d'"
      by (simp split: if_splits)
    from Cons.IH [OF _ _ _ this] Cons.prems(1-3) e(3) False show ?thesis by (simp add: rows_of_def)
  qed
qed simp

lemma run_Create:
  fixes w :: "'w world_scheme"
  assumes "w_events w = []" and "sets_ok (w_db w)"
    and "run_state (CreateNotification NotificationRepo i u) w = (Inr k, w')"
  obtains new where "notification_errors i = []" and "w_events w' = []" and "k = notifications_seq (w_db w) + 1"
    and "new = \<lparr>n_id = k, n_user_id = u, n_name = trim_space (ni_Name i), n_on_success = ni_OnSuccess i,
      n_on_failure = ni_OnFailure i, n_active = ni_Active i, n_created_at = w_now w, n_updated_at = None, n_deleted_at = None\<rparr>"
    and "w_db w' = (w_db w)\<lparr>notifications_seq := k, notifications := notifications (w_db w) @ [new],
      notify_emails := notify_emails (w_db w) @ map (row k) (fresh [] (snd (clean_emails (ni_Emails i))))\<rparr>"
proof -
  let ?d = "w_db w" and ?es = "snd (clean_emails (ni_Emails i))"
  from assms(3) have none: "notification_errors i = []"
    by (auto simp: CreateNotification_def validate_notification_def ErrOrNil_def split: if_splits)
  let ?n = "\<lparr>nf_id = 0, nf_user_id = u, nf_name = trim_space (ni_Name i), nf_on_success = ni_OnSuccess i,
      nf_on_failure = ni_OnFailure i, nf_active = ni_Active i, nf_emails = ?es, nf_created_at = zero_time, nf_updated_at = None\<rparr>"
  obtain c d' where c: "create_notification ?n (w_now w) ?d = (c, d')" by fastforce
  from assms(3) none c have "map_sum SvcOther (\<lambda>x. x) c = Inr k" and w': "w' = w\<lparr>w_db := d'\<rparr>"
    by (auto simp: CreateNotification_def validate_notification_def ErrOrNil_def NotificationRepo_def run_stmt_alone [OF assms(1)] split: sum.splits)
  from this(1) have "c = Inr k" by (cases c) simp_all
  let ?k = "notifications_seq ?d + 1"
  let ?new = "\<lparr>n_id = ?k, n_user_id = u, n_name = trim_space (ni_Name i), n_on_success = ni_OnSuccess i,
      n_on_failure = ni_OnFailure i, n_active = ni_Active i, n_created_at = w_now w, n_updated_at = None, n_deleted_at = None\<rparr>"
  let ?d1 = "?d\<lparr>notifications_seq := ?k, notifications := notifications ?d @ [?new]\<rparr>"
  from c \<open>c = Inr k\<close> have k: "k = ?k" and ins: "insertEmails ?k ?es [] ?d1 = Inr d'"
    by (auto simp: create_notification_def Let_def split: if_splits sum.splits option.splits)
  have "rows_of ?k ?d1 = []" using assms(2) by (auto simp: rows_of_def sets_ok_def filter_empty_conv)
  then have "d' = ?d1\<lparr>notify_emails := notify_emails ?d1 @ map (row ?k) (fresh [] ?es)\<rparr>"
    by (intro insertEmails_normal [OF clean_normal _ _ ins]) simp_all
  with that [OF none _ k refl] w' assms(1) k show thesis by simp
qed

text \<open> C36. A set of recipients comes back with what was stored: its name without the white space around it, its
  switches, and each address that was given once, in lower case and in order. The notifier mails the same
  addresses for the outcomes it was asked to report, and nobody while the set is switched off. \<close>
theorem created_recipients:
  fixes w w' :: "'w world_scheme"
  assumes "w_events w = []" and "sets_ok (w_db w)"
    and "run_state (CreateNotification NotificationRepo i u) w = (Inr k, w')"
  shows "sets_ok (w_db w') \<and> (\<exists>n. run_state (GetNotification NotificationRepo k) w' = (Inr n, w')
    \<and> nf_name n = trim_space (ni_Name i) \<and> nf_on_success n = ni_OnSuccess i \<and> nf_on_failure n = ni_OnFailure i
    \<and> nf_active n = ni_Active i \<and> sorted (nf_emails n) \<and> distinct (nf_emails n)
    \<and> set (nf_emails n) = {to_lower (trim_space e) | e. e \<in> set (ni_Emails i) \<and> to_lower (trim_space e) \<noteq> []}
    \<and> fst (target_for_job k (w_now w') (w_db w')) = Inr (if ni_Active i then Some \<lparr>nt_on_success = ni_OnSuccess i,
        nt_on_failure = ni_OnFailure i, nt_emails = fresh [] (snd (clean_emails (ni_Emails i)))\<rparr> else None)
    \<and> set (fresh [] (snd (clean_emails (ni_Emails i)))) = set (nf_emails n))"
proof -
  let ?es = "fresh [] (snd (clean_emails (ni_Emails i)))"
  from run_Create [OF assms] obtain new where none: "notification_errors i = []" and quiet: "w_events w' = []"
    and k: "k = notifications_seq (w_db w) + 1"
    and new: "new = \<lparr>n_id = k, n_user_id = u, n_name = trim_space (ni_Name i), n_on_success = ni_OnSuccess i,
      n_on_failure = ni_OnFailure i, n_active = ni_Active i, n_created_at = w_now w, n_updated_at = None, n_deleted_at = None\<rparr>"
    and db: "w_db w' = (w_db w)\<lparr>notifications_seq := k, notifications := notifications (w_db w) @ [new],
      notify_emails := notify_emails (w_db w) @ map (row k) ?es\<rparr>" by blast
  have old: "find P (notifications (w_db w)) = None" if "\<And>n. P n \<Longrightarrow> n_id n = k" for P
    using assms(2) that by (fastforce simp: find_None_iff sets_ok_def k)
  have "filter (\<lambda>e. e_notification_id e = k \<and> e_active e) (notify_emails (w_db w)) = []"
    using assms(2) by (auto simp: filter_empty_conv sets_ok_def k)
  then have mine: "map e_email (filter (\<lambda>e. e_notification_id e = k \<and> e_active e) (notify_emails (w_db w'))) = ?es"
    unfolding db by (simp add: comp_def)
  have find: "find (\<lambda>n. n_id n = k \<and> live_notification n) (notifications (w_db w')) = Some new"
    unfolding db using old [of "\<lambda>n. n_id n = k \<and> live_notification n"] by (simp add: find_append new live_notification_def)
  have got: "run_state (GetNotification NotificationRepo k) w' = (Inr (notification_of (w_db w') new), w')"
    unfolding GetNotification_def NotificationRepo_def notification_repo.simps run_state_bind run_stmt_alone [OF quiet] get_notification_def find
    by (simp add: not_found_or_def)
  have "find (\<lambda>n. n_id n = k \<and> n_active n \<and> n_deleted_at n = None) (notifications (w_db w')) = (if ni_Active i then Some new else None)"
    unfolding db using old [of "\<lambda>n. n_id n = k \<and> n_active n \<and> n_deleted_at n = None"] by (simp add: find_append new)
  then have target: "fst (target_for_job k (w_now w') (w_db w')) = Inr (if ni_Active i then Some \<lparr>nt_on_success = ni_OnSuccess i,
        nt_on_failure = ni_OnFailure i, nt_emails = ?es\<rparr> else None)"
    unfolding target_for_job_def query_def using mine by (simp add: new)
  have "fst (clean_emails (ni_Emails i)) = []" using none by (auto simp: notification_errors_def split: prod.splits)
  then have all: "set ?es = {to_lower (trim_space e) | e. e \<in> set (ni_Emails i) \<and> to_lower (trim_space e) \<noteq> []}"
    by (simp add: fresh_set clean_all)
  have ok: "sets_ok (w_db w')" using assms(2) by (auto simp: sets_ok_def db new k)
  have emails: "nf_emails (notification_of (w_db w') new) = sort ?es"
    using mine by (simp add: notification_of_def emails_of_def new)
  show ?thesis
    by (intro conjI exI [of _ "notification_of (w_db w') new"] ok got target) (simp_all add: emails all fresh_distinct, simp_all add: notification_of_def new)
qed

definition on_call :: NotificationInput where
  "on_call = \<lparr>ni_Name = '' on call '', ni_OnSuccess = False, ni_OnFailure = True, ni_Active = True,
     ni_Emails = ['' Bo@x.test'', ''ann@x.test'', [], ''bo@x.test '']\<rparr>"

theorem created_recipients_witness:
  "\<exists>k w' n. run_state (CreateNotification NotificationRepo on_call None) demo_world = (Inr k, w')
    \<and> run_state (GetNotification NotificationRepo k) w' = (Inr n, w') \<and> sorted (nf_emails n) \<and> distinct (nf_emails n)
    \<and> ''bo@x.test'' \<in> set (nf_emails n)"
proof -
  have "case fst (run_state (CreateNotification NotificationRepo on_call None) demo_world) of Inr k \<Rightarrow> k = 1 | Inl _ \<Rightarrow> False" by code_simp
  then obtain k w' where run: "run_state (CreateNotification NotificationRepo on_call None) demo_world = (Inr k, w')"
    by (cases "run_state (CreateNotification NotificationRepo on_call None) demo_world") (auto split: sum.splits)
  have start: "w_events demo_world = []" "sets_ok (w_db demo_world)" by (simp_all add: demo_world_def demo_db_def sets_ok_def)
  have "to_lower (trim_space ''bo@x.test '') = ''bo@x.test''" by code_simp
  then have "''bo@x.test'' \<in> {to_lower (trim_space e) | e. e \<in> set (ni_Emails on_call) \<and> to_lower (trim_space e) \<noteq> []}"
    unfolding on_call_def NotificationInput.simps by (intro CollectI exI [of _ "''bo@x.test ''"]) simp
  moreover from created_recipients [OF start run, THEN conjunct2] obtain n where
    n: "run_state (GetNotification NotificationRepo k) w' = (Inr n, w')" "sorted (nf_emails n)" "distinct (nf_emails n)"
      "set (nf_emails n) = {to_lower (trim_space e) | e. e \<in> set (ni_Emails on_call) \<and> to_lower (trim_space e) \<noteq> []}" by (elim exE conjE)
  ultimately have "''bo@x.test'' \<in> set (nf_emails n)" by (simp only: n)
  with n(1-3) run show ?thesis by blast
qed

text \<open>
  Deleting a set leaves every job as it is, the reference to the set included: the jobs run on and mail nobody.
  Deleting a set that was never there succeeds as well.
\<close>

lemma deleted_recipients:
  fixes w :: "'w world_scheme"
  assumes "w_events w = []"
  shows "\<exists>w'. run_state (DeleteNotification NotificationRepo i) w = (Inr (), w') \<and> jobs (w_db w') = jobs (w_db w)
    \<and> fst (target_for_job i (w_now w') (w_db w')) = Inr None
    \<and> fst (run_state (GetNotification NotificationRepo i) w') = Inl SvcNotFound"
proof -
  obtain t v where now: "run_state app_now w = (t, v)" by fastforce
  then have v: "w_events v = []" "w_db v = w_db w" using assms by (auto simp: app_now_def split: list.splits)
  let ?w = "v\<lparr>w_db := (w_db w)\<lparr>notifications := update_where (\<lambda>n. n_id n = i)
     (\<lambda>n. n\<lparr>n_active := False, n_deleted_at := Some t, n_updated_at := Some t\<rparr>) (notifications (w_db w))\<rparr>\<rparr>"
  have run: "run_state (DeleteNotification NotificationRepo i) w = (Inr (), ?w)"
    by (simp add: DeleteNotification_def NotificationRepo_def now run_stmt_alone [OF v(1)] v soft_delete_notification_def exec_def
        not_found_or_def)
  have gone: "find (\<lambda>n. n_id n = i \<and> P n) (notifications (w_db ?w)) = None" if "\<And>n. n_deleted_at n \<noteq> None \<Longrightarrow> \<not> P n" for P
  proof -
    have "\<forall>n \<in> set (notifications (w_db ?w)). \<not> (n_id n = i \<and> P n)" using that by (simp add: ball_update_where)
    then show ?thesis by (simp only: find_None_iff) blast
  qed
  have q: "w_events ?w = []" using v by simp
  have "fst (run_state (GetNotification NotificationRepo i) ?w) = Inl SvcNotFound"
    unfolding GetNotification_def NotificationRepo_def notification_repo.simps run_state_bind run_stmt_alone [OF q] get_notification_def
    using gone [of live_notification] by (simp add: not_found_or_def live_notification_def)
  moreover have "fst (target_for_job i (w_now ?w) (w_db ?w)) = Inr None"
    unfolding target_for_job_def query_def using gone [of "\<lambda>n. n_active n \<and> n_deleted_at n = None"] by simp
  ultimately show ?thesis using run by (intro exI [of _ ?w]) simp
qed

end
