(* ===== verification/AppLog.thy ===== *)
theory AppLog
  imports Store "HOL-Library.Multiset"
begin

text \<open>
  The application's logger (\<open>internal/applog/applog.go\<close>): a bounded channel drained by one goroutine, closed
  under the write lock of a reader-writer mutex whose read side every send holds. The goroutines are interleaved:
  a step is what one of them does between two points where another may run. Lines for stdout are left out.
\<close>

section \<open>State\<close>

definition LevelInfo :: string where "LevelInfo = ''info''"
definition LevelWarn :: string where "LevelWarn = ''warn''"
definition LevelError :: string where "LevelError = ''error''"

definition queueSize :: nat where "queueSize = 1024"

record entry =
  en_level :: string
  en_message :: string
  en_detail :: string
  en_at :: instant

text \<open>A call of \<open>enqueue\<close> that holds the read lock: before and after it looked at \<open>closed\<close>.\<close>

datatype sender = Entered entry | Passed entry

text \<open>The drainer: not started, at the channel, with an entry before and after it read the database, returned.\<close>

datatype drainer = Absent | Waiting | Holding entry | Writing entry | Returned

text \<open>Who holds the write lock: \<open>Attach\<close>, or \<open>Close\<close> before and after it set the flag.\<close>

datatype holder = Attaching | Closing | Flagged

text \<open>
  Besides its fields the state has where its goroutines are and what happened: the entries handed to
  \<open>enqueue\<close>, those dropped, stored and not stored, and the sends that panicked. \<open>lg_stopped\<close> and
  \<open>lg_started\<close> are the two \<open>sync.Once\<close>.
\<close>

record logger =
  lg_queue :: "entry list"
  lg_senders :: "sender list"
  lg_holder :: "holder option"
  lg_db :: bool
  lg_attached :: bool
  lg_closed :: bool
  lg_chan_closed :: bool
  lg_draining :: bool
  lg_drainer :: drainer
  lg_done :: bool
  lg_started :: bool
  lg_stopped :: bool
  lg_handed :: "entry list"
  lg_dropped :: "entry list"
  lg_stored :: "entry list"
  lg_lost :: "entry list"
  lg_panics :: "entry list"

definition new_logger :: logger where
  "new_logger = \<lparr>lg_queue = [], lg_senders = [], lg_holder = None, lg_db = False, lg_attached = False, lg_closed = False, lg_chan_closed = False,
     lg_draining = False, lg_drainer = Absent, lg_done = False, lg_started = False, lg_stopped = False, lg_handed = [],
     lg_dropped = [], lg_stored = [], lg_lost = [], lg_panics = []\<rparr>"

text \<open>The counter is an \<open>atomic.Int64\<close>.\<close>

definition Dropped :: "logger \<Rightarrow> int" where
  "Dropped l = wrap64 (int (length (lg_dropped l)))"

section \<open>The row\<close>

definition insert_log :: "entry \<Rightarrow> unit statement" where
  "insert_log e now d =
     (if \<not> (pg_text (en_level e) \<and> pg_text (en_message e) \<and> pg_text (en_detail e)) then (Inl invalid_text, d)
      else let i = app_logs_seq d + 1 in
        (Inr (), d\<lparr>app_logs_seq := i, app_logs := app_logs d
           @ [\<lparr>al_id = i, al_level = en_level e, al_message = en_message e, al_detail = en_detail e, al_created_at = en_at e\<rparr>]\<rparr>))"

section \<open>Operations\<close>

text \<open>\<open>Warn\<close> and \<open>Error\<close>; \<open>Info\<close> only writes to stdout.\<close>

definition Warn :: "string \<Rightarrow> string \<Rightarrow> instant \<Rightarrow> entry" where
  "Warn message detail at = \<lparr>en_level = LevelWarn, en_message = message, en_detail = detail, en_at = at\<rparr>"

definition Error :: "string \<Rightarrow> string \<Rightarrow> instant \<Rightarrow> entry" where
  "Error message detail at = \<lparr>en_level = LevelError, en_message = message, en_detail = detail, en_at = at\<rparr>"

text \<open>\<open>enqueue\<close>: the read lock, the flag, the \<open>select\<close>. A send on a closed channel panics, with a default too.\<close>

definition enqueue_lock :: "entry \<Rightarrow> logger \<Rightarrow> logger option" where
  "enqueue_lock e l = (if lg_holder l = None
     then Some (l\<lparr>lg_senders := Entered e # lg_senders l, lg_handed := lg_handed l @ [e]\<rparr>) else None)"

definition enqueue_check :: "nat \<Rightarrow> logger \<Rightarrow> logger option" where
  "enqueue_check i l = (if i < length (lg_senders l) then
      (case lg_senders l ! i of
         Entered e \<Rightarrow>
           if lg_closed l then Some (l\<lparr>lg_senders := take i (lg_senders l) @ drop (Suc i) (lg_senders l), lg_dropped := lg_dropped l @ [e]\<rparr>)
           else Some (l\<lparr>lg_senders := (lg_senders l)[i := Passed e]\<rparr>)
       | Passed _ \<Rightarrow> None)
     else None)"

definition enqueue_send :: "nat \<Rightarrow> logger \<Rightarrow> logger option" where
  "enqueue_send i l = (if i < length (lg_senders l) then
      (case lg_senders l ! i of
         Passed e \<Rightarrow>
           (let l' = l\<lparr>lg_senders := take i (lg_senders l) @ drop (Suc i) (lg_senders l)\<rparr> in
            if lg_chan_closed l then Some (l'\<lparr>lg_panics := lg_panics l @ [e]\<rparr>)
            else if length (lg_queue l) < queueSize then Some (l'\<lparr>lg_queue := lg_queue l @ [e]\<rparr>)
            else Some (l'\<lparr>lg_dropped := lg_dropped l @ [e]\<rparr>))
       | Entered _ \<Rightarrow> None)
     else None)"

text \<open>\<open>Attach\<close>: the write lock, the database (which may be nil), the unlocking, and the drainer of the first call.\<close>

definition attach_lock :: "logger \<Rightarrow> logger option" where
  "attach_lock l = (if lg_holder l = None \<and> lg_senders l = [] then Some (l\<lparr>lg_holder := Some Attaching\<rparr>) else None)"

definition attach_set :: "bool \<Rightarrow> logger \<Rightarrow> logger option" where
  "attach_set given l = (if lg_holder l = Some Attaching
     then Some (l\<lparr>lg_holder := None, lg_db := given, lg_attached := True\<rparr>) else None)"

definition attach_start :: "logger \<Rightarrow> logger option" where
  "attach_start l = (if lg_attached l \<and> \<not> lg_started l
     then Some (l\<lparr>lg_started := True, lg_draining := True, lg_drainer := Waiting\<rparr>) else None)"

text \<open>\<open>Close\<close>, its first call: the write lock, the flag, the channel with the unlocking.\<close>

definition close_lock :: "logger \<Rightarrow> logger option" where
  "close_lock l = (if lg_holder l = None \<and> lg_senders l = [] \<and> \<not> lg_stopped l
     then Some (l\<lparr>lg_holder := Some Closing, lg_stopped := True\<rparr>) else None)"

definition close_flag :: "logger \<Rightarrow> logger option" where
  "close_flag l = (if lg_holder l = Some Closing then Some (l\<lparr>lg_holder := Some Flagged, lg_closed := True\<rparr>) else None)"

definition close_queue :: "logger \<Rightarrow> logger option" where
  "close_queue l = (if lg_holder l = Some Flagged then Some (l\<lparr>lg_holder := None, lg_chan_closed := True\<rparr>) else None)"

text \<open>Whether a call of \<open>Close\<close> may return, given whether its context has ended.\<close>

definition close_returns :: "bool \<Rightarrow> logger \<Rightarrow> bool" where
  "close_returns ctx_done l \<longleftrightarrow> lg_stopped l \<and> lg_holder l \<noteq> Some Closing \<and> lg_holder l \<noteq> Some Flagged
     \<and> (\<not> lg_draining l \<or> lg_done l \<or> ctx_done)"

text \<open>\<open>drain\<close>: it receives, reads the database under the read lock, writes the row, and ends with the channel.\<close>

definition drain_take :: "logger \<Rightarrow> logger option" where
  "drain_take l = (case (lg_drainer l, lg_queue l) of
      (Waiting, e # es) \<Rightarrow> Some (l\<lparr>lg_queue := es, lg_drainer := Holding e\<rparr>)
    | _ \<Rightarrow> None)"

definition drain_read :: "logger \<Rightarrow> logger option" where
  "drain_read l = (case lg_drainer l of
      Holding e \<Rightarrow>
        if lg_holder l \<noteq> None then None
        else if \<not> lg_db l then Some (l\<lparr>lg_drainer := Waiting, lg_lost := lg_lost l @ [e]\<rparr>)
        else Some (l\<lparr>lg_drainer := Writing e\<rparr>)
    | _ \<Rightarrow> None)"

definition drain_write :: "bool \<Rightarrow> logger \<Rightarrow> logger option" where
  "drain_write stored l = (case lg_drainer l of
      Writing e \<Rightarrow> Some (if stored then l\<lparr>lg_drainer := Waiting, lg_stored := lg_stored l @ [e]\<rparr>
                         else l\<lparr>lg_drainer := Waiting, lg_lost := lg_lost l @ [e]\<rparr>)
    | _ \<Rightarrow> None)"

definition drain_end :: "logger \<Rightarrow> logger option" where
  "drain_end l = (if lg_drainer l = Waiting \<and> lg_queue l = [] \<and> lg_chan_closed l
     then Some (l\<lparr>lg_drainer := Returned, lg_done := True\<rparr>) else None)"

section \<open>Steps\<close>

text \<open>Whether the row is stored is the database's answer: a storable entry may still fail.\<close>

inductive log_step :: "logger \<Rightarrow> logger \<Rightarrow> bool" where
  Lock: "enqueue_lock e l = Some l' \<Longrightarrow> log_step l l'"
| Check: "enqueue_check i l = Some l' \<Longrightarrow> log_step l l'"
| Send: "enqueue_send i l = Some l' \<Longrightarrow> log_step l l'"
| AttachLock: "attach_lock l = Some l' \<Longrightarrow> log_step l l'"
| AttachSet: "attach_set b l = Some l' \<Longrightarrow> log_step l l'"
| AttachStart: "attach_start l = Some l' \<Longrightarrow> log_step l l'"
| CloseLock: "close_lock l = Some l' \<Longrightarrow> log_step l l'"
| CloseFlag: "close_flag l = Some l' \<Longrightarrow> log_step l l'"
| CloseQueue: "close_queue l = Some l' \<Longrightarrow> log_step l l'"
| Take: "drain_take l = Some l' \<Longrightarrow> log_step l l'"
| Read: "drain_read l = Some l' \<Longrightarrow> log_step l l'"
| Store: "drain_write b l = Some l' \<Longrightarrow> log_step l l'"
| End: "drain_end l = Some l' \<Longrightarrow> log_step l l'"

inductive reached :: "logger \<Rightarrow> bool" where
  Start: "reached new_logger"
| Step: "reached l \<Longrightarrow> log_step l l' \<Longrightarrow> reached l'"

inductive_cases log_stepE: "log_step l l'"

end
