(* ===== verification/AppLogProps.thy ===== *)
theory AppLogProps
  imports AppLog
begin

text \<open>
  What the logger guarantees however its goroutines interleave: no send panics, every entry is accounted for, and
  once closed the backlog is written, in order, and waiting for it ends.
\<close>

section \<open>The invariant\<close>

fun sender_entry :: "sender \<Rightarrow> entry" where
  "sender_entry (Entered e) = e"
| "sender_entry (Passed e) = e"

fun held :: "drainer \<Rightarrow> entry list" where
  "held (Holding e) = [e]"
| "held (Writing e) = [e]"
| "held _ = []"

definition accounted :: "logger \<Rightarrow> bool" where
  "accounted l \<longleftrightarrow> mset (lg_handed l) = image_mset sender_entry (mset (lg_senders l)) + mset (lg_queue l)
     + mset (held (lg_drainer l)) + mset (lg_dropped l) + mset (lg_stored l) + mset (lg_lost l) + mset (lg_panics l)"

definition log_ok :: "logger \<Rightarrow> bool" where
  "log_ok l \<longleftrightarrow> lg_panics l = [] \<and> (lg_chan_closed l \<longrightarrow> lg_closed l) \<and> (lg_holder l \<noteq> None \<longrightarrow> lg_senders l = [])
     \<and> (lg_holder l = Some Flagged \<longrightarrow> lg_closed l) \<and> (lg_closed l \<longrightarrow> (\<forall>s \<in> set (lg_senders l). \<exists>e. s = Entered e))
     \<and> length (lg_queue l) \<le> queueSize \<and> accounted l
     \<and> (lg_draining l \<longleftrightarrow> lg_drainer l \<noteq> Absent) \<and> (lg_started l \<longleftrightarrow> lg_draining l)
     \<and> (lg_done l \<longleftrightarrow> lg_drainer l = Returned) \<and> (lg_done l \<longrightarrow> lg_queue l = [] \<and> lg_chan_closed l)"

lemma log_ok_new: "log_ok new_logger"
  by (simp add: log_ok_def new_logger_def accounted_def)

lemma mset_remove: "i < length xs \<Longrightarrow> mset (take i xs @ drop (Suc i) xs) + {#xs ! i#} = mset xs"
  by (metis add_mset_add_single append_take_drop_id Cons_nth_drop_Suc mset.simps(2) mset_append union_mset_add_mset_right)

lemma entries_remove:
  assumes "i < length ss" and "sender_entry (ss ! i) = e"
  shows "image_mset sender_entry (mset ss) = image_mset sender_entry (mset (take i ss @ drop (Suc i) ss)) + {#e#}"
  by (subst mset_remove [OF assms(1), symmetric]) (simp add: assms(2))

lemma set_remove: "set (take i xs @ drop (Suc i) xs) \<subseteq> set xs"
  by (auto dest: in_set_takeD in_set_dropD)

lemma entries_update:
  assumes "i < length ss" and "ss ! i = Entered e"
  shows "image_mset sender_entry (mset (ss[i := Passed e])) = image_mset sender_entry (mset ss)"
  using assms by (simp add: mset_update) (metis add_mset_remove_trivial image_mset_add_mset insert_DiffM nth_mem set_mset_mset sender_entry.simps)

lemma log_ok_lock: "log_ok l \<Longrightarrow> enqueue_lock e l = Some l' \<Longrightarrow> log_ok l'"
  by (auto simp: enqueue_lock_def log_ok_def accounted_def split: if_splits)

lemma log_ok_check:
  assumes "log_ok l" and "enqueue_check i l = Some l'"
  shows "log_ok l'"
proof -
  from assms(2) obtain e where i: "i < length (lg_senders l)" "lg_senders l ! i = Entered e"
    and raw: "l' = (if lg_closed l then l\<lparr>lg_senders := take i (lg_senders l) @ drop (Suc i) (lg_senders l), lg_dropped := lg_dropped l @ [e]\<rparr>
        else l\<lparr>lg_senders := (lg_senders l)[i := Passed e]\<rparr>)"
    by (auto simp: enqueue_check_def split: if_splits sender.splits)
  define rest where "rest = take i (lg_senders l) @ drop (Suc i) (lg_senders l)"
  note l' = raw [folded rest_def]
  have held: "lg_holder l = None" using assms(1) i(1) by (auto simp: log_ok_def)
  have "accounted l'"
    using assms(1) entries_remove [OF i(1), of e, folded rest_def] entries_update [OF i] i(2) unfolding l'
    by (simp add: log_ok_def accounted_def)
  moreover have "\<forall>s \<in> set rest. \<exists>e. s = Entered e" if "lg_closed l"
    using assms(1) that set_remove [of i "lg_senders l", folded rest_def] unfolding log_ok_def by blast
  ultimately show ?thesis using assms(1) held unfolding l' log_ok_def by (simp split: if_splits)
qed

lemma log_ok_send:
  assumes "log_ok l" and "enqueue_send i l = Some l'"
  shows "log_ok l'"
proof -
  from assms(2) obtain e where i: "i < length (lg_senders l)" "lg_senders l ! i = Passed e"
    by (auto simp: enqueue_send_def split: if_splits sender.splits)
  then have "Passed e \<in> set (lg_senders l)" by (metis nth_mem)
  with assms(1) have "\<not> lg_closed l" by (force simp: log_ok_def)
  with assms(1) have "\<not> lg_chan_closed l" by (auto simp: log_ok_def)
  define rest where "rest = take i (lg_senders l) @ drop (Suc i) (lg_senders l)"
  let ?l = "l\<lparr>lg_senders := rest\<rparr>"
  from assms(2) i \<open>\<not> lg_chan_closed l\<close> have l': "l' = (if length (lg_queue l) < queueSize then ?l\<lparr>lg_queue := lg_queue l @ [e]\<rparr>
      else ?l\<lparr>lg_dropped := lg_dropped l @ [e]\<rparr>)"
    by (auto simp: enqueue_send_def Let_def rest_def)
  have held: "lg_holder l = None" "\<not> lg_done l" using assms(1) i(1) \<open>\<not> lg_chan_closed l\<close> by (auto simp: log_ok_def)
  have "accounted l'"
    using assms(1) entries_remove [OF i(1), of e, folded rest_def] i(2) unfolding l'
    by (simp add: log_ok_def accounted_def)
  then show ?thesis using assms(1) held \<open>\<not> lg_closed l\<close> unfolding l' log_ok_def by (simp split: if_splits)
qed

lemma log_ok_attach:
  "log_ok l \<Longrightarrow> attach_lock l = Some l' \<Longrightarrow> log_ok l'"
  "log_ok l \<Longrightarrow> attach_set b l = Some l' \<Longrightarrow> log_ok l'"
  "log_ok l \<Longrightarrow> attach_start l = Some l' \<Longrightarrow> log_ok l'"
  by (auto simp: attach_lock_def attach_set_def attach_start_def log_ok_def accounted_def split: if_splits)

lemma log_ok_close:
  "log_ok l \<Longrightarrow> close_lock l = Some l' \<Longrightarrow> log_ok l'"
  "log_ok l \<Longrightarrow> close_flag l = Some l' \<Longrightarrow> log_ok l'"
  "log_ok l \<Longrightarrow> close_queue l = Some l' \<Longrightarrow> log_ok l'"
  by (auto simp: close_lock_def close_flag_def close_queue_def log_ok_def accounted_def split: if_splits)

lemma log_ok_take: "log_ok l \<Longrightarrow> drain_take l = Some l' \<Longrightarrow> log_ok l'"
  by (auto simp: drain_take_def log_ok_def accounted_def split: drainer.splits list.splits)

lemma log_ok_read: "log_ok l \<Longrightarrow> drain_read l = Some l' \<Longrightarrow> log_ok l'"
  by (auto simp: drain_read_def log_ok_def accounted_def split: if_splits drainer.splits)

lemma log_ok_write: "log_ok l \<Longrightarrow> drain_write b l = Some l' \<Longrightarrow> log_ok l'"
  by (cases b; cases "lg_drainer l") (auto simp: drain_write_def log_ok_def accounted_def)

lemma log_ok_end: "log_ok l \<Longrightarrow> drain_end l = Some l' \<Longrightarrow> log_ok l'"
  by (auto simp: drain_end_def log_ok_def accounted_def split: if_splits)

lemma log_ok_reached: "reached l \<Longrightarrow> log_ok l"
  by (induction rule: reached.induct)
    (auto elim!: log_stepE intro: log_ok_new log_ok_lock log_ok_check log_ok_send log_ok_attach log_ok_close log_ok_take log_ok_read log_ok_write log_ok_end)

text \<open> C11. However its callers, the drainer and the closing interleave, logging never panics: no entry is sent on the
  closed channel. The backlog stays within its bound, and every entry handed over is in exactly one place: on
  its way, queued, with the drainer, stored, failed, or counted as dropped. \<close>
theorem logger_accounts:
  assumes "reached l"
  shows "lg_panics l = [] \<and> length (lg_queue l) \<le> 1024
    \<and> mset (lg_handed l) = image_mset sender_entry (mset (lg_senders l)) + mset (lg_queue l) + mset (held (lg_drainer l))
      + mset (lg_stored l) + mset (lg_lost l) + mset (lg_dropped l)
    \<and> (length (lg_dropped l) \<le> nat max_int64 \<longrightarrow> Dropped l = int (length (lg_dropped l)))"
  using log_ok_reached [OF assms] by (simp add: log_ok_def accounted_def queueSize_def Dropped_def int64_def max_int64_def min_int64_def)

section \<open>The end\<close>

text \<open>A step of the drainer, with a database that stores.\<close>

definition drains :: "logger \<Rightarrow> logger \<Rightarrow> bool" where
  "drains l l' \<longleftrightarrow> Some l' \<in> {drain_take l, drain_read l, drain_write True l, drain_end l}"

definition backlog :: "logger \<Rightarrow> entry list" where
  "backlog l = held (lg_drainer l) @ lg_queue l"

lemma drain_one:
  assumes "lg_holder l = None" and "lg_db l" and "lg_drainer l = Waiting" and "lg_queue l = e # es"
  shows "drains\<^sup>*\<^sup>* l (l\<lparr>lg_queue := es, lg_stored := lg_stored l @ [e]\<rparr>)"
proof -
  let ?a = "l\<lparr>lg_queue := es, lg_drainer := Holding e\<rparr>"
  have "drains l ?a" using assms by (simp add: drains_def drain_take_def)
  moreover have "drains ?a (?a\<lparr>lg_drainer := Writing e\<rparr>)" using assms by (simp add: drains_def drain_read_def)
  moreover have "drains (?a\<lparr>lg_drainer := Writing e\<rparr>) (l\<lparr>lg_queue := es, lg_stored := lg_stored l @ [e]\<rparr>)"
    using assms(3) by (simp add: drains_def drain_write_def)
  ultimately show ?thesis by (meson converse_rtranclp_into_rtranclp rtranclp.rtrancl_refl)
qed

lemma drain_all:
  assumes "lg_holder l = None" and "lg_db l" and "lg_drainer l = Waiting"
  shows "drains\<^sup>*\<^sup>* l (l\<lparr>lg_queue := [], lg_stored := lg_stored l @ lg_queue l\<rparr>)"
  using assms
proof (induction "lg_queue l" arbitrary: l)
  case Nil
  then have "l\<lparr>lg_queue := [], lg_stored := lg_stored l @ lg_queue l\<rparr> = l" by (cases l) simp
  then show ?case by simp
next
  case (Cons e es)
  let ?l = "l\<lparr>lg_queue := es, lg_stored := lg_stored l @ [e]\<rparr>"
  have "drains\<^sup>*\<^sup>* l ?l" using Cons by (intro drain_one) auto
  moreover have "drains\<^sup>*\<^sup>* ?l (?l\<lparr>lg_queue := [], lg_stored := lg_stored ?l @ lg_queue ?l\<rparr>)" using Cons by (intro Cons(1)) simp_all
  moreover have "?l\<lparr>lg_queue := [], lg_stored := lg_stored ?l @ lg_queue ?l\<rparr> = l\<lparr>lg_queue := [], lg_stored := lg_stored l @ lg_queue l\<rparr>"
    using Cons(2) [symmetric] by simp
  ultimately show ?case by (metis rtranclp_trans)
qed

text \<open>Every step of the drainer, whatever the database answers, brings its end nearer.\<close>

fun drain_rank :: "drainer \<Rightarrow> nat" where
  "drain_rank Waiting = 1"
| "drain_rank (Holding _) = 3"
| "drain_rank (Writing _) = 2"
| "drain_rank _ = 0"

definition drain_measure :: "logger \<Rightarrow> nat" where
  "drain_measure l = 3 * length (lg_queue l) + drain_rank (lg_drainer l)"

lemma drain_decreases:
  "Some l' \<in> {drain_take l, drain_read l, drain_write b l, drain_end l} \<Longrightarrow> drain_measure l' < drain_measure l"
  by (auto simp: drain_take_def drain_read_def drain_write_def drain_end_def drain_measure_def
      split: if_splits drainer.splits list.splits)

text \<open> C99. Waiting for a closed logger ends: with nobody at the lock, the drainer of an attached logger can always take
  its next step until it has returned, each step brings that end nearer, and where the database accepts the
  rows the whole backlog is stored, in the order it was logged, before \<open>Close\<close> returns. \<close>
theorem closed_logger_drains:
  assumes "reached l" and "lg_chan_closed l" and "lg_draining l" and "lg_holder l = None" and "lg_db l"
  shows "(\<exists>l'. drains\<^sup>*\<^sup>* l l' \<and> lg_done l' \<and> lg_queue l' = [] \<and> lg_stored l' = lg_stored l @ backlog l
      \<and> lg_lost l' = lg_lost l \<and> (lg_stopped l \<longrightarrow> close_returns False l'))
    \<and> (\<not> lg_done l \<longrightarrow> (\<exists>l'. drains l l')) \<and> (\<forall>l'. drains l l' \<longrightarrow> drain_measure l' < drain_measure l)"
proof -
  have ok: "log_ok l" by (rule log_ok_reached [OF assms(1)])
  have to_waiting: "\<exists>m. drains\<^sup>*\<^sup>* l m \<and> lg_drainer m = Waiting \<and> lg_queue m = lg_queue l \<and> lg_stored m = lg_stored l @ held (lg_drainer l)
      \<and> lg_holder m = None \<and> lg_db m \<and> lg_chan_closed m \<and> lg_draining m \<and> lg_lost m = lg_lost l \<and> lg_stopped m = lg_stopped l"
    if "\<not> lg_done l"
  proof (cases "lg_drainer l")
    case (Holding e)
    have "drains l (l\<lparr>lg_drainer := Writing e\<rparr>)" using assms Holding by (simp add: drains_def drain_read_def)
    moreover have "drains (l\<lparr>lg_drainer := Writing e\<rparr>) (l\<lparr>lg_drainer := Waiting, lg_stored := lg_stored l @ [e]\<rparr>)"
      by (simp add: drains_def drain_write_def)
    ultimately have "drains\<^sup>*\<^sup>* l (l\<lparr>lg_drainer := Waiting, lg_stored := lg_stored l @ [e]\<rparr>)"
      by (meson converse_rtranclp_into_rtranclp rtranclp.rtrancl_refl)
    with assms Holding show ?thesis by (intro exI [of _ "l\<lparr>lg_drainer := Waiting, lg_stored := lg_stored l @ [e]\<rparr>"]) simp
  next
    case (Writing e)
    have "drains l (l\<lparr>lg_drainer := Waiting, lg_stored := lg_stored l @ [e]\<rparr>)" using Writing by (simp add: drains_def drain_write_def)
    from r_into_rtranclp [of drains, OF this] assms Writing show ?thesis by (intro exI [of _ "l\<lparr>lg_drainer := Waiting, lg_stored := lg_stored l @ [e]\<rparr>"]) simp
  qed (use assms ok that in \<open>auto simp: log_ok_def\<close>)
  have first: "\<exists>l'. drains\<^sup>*\<^sup>* l l' \<and> lg_done l' \<and> lg_queue l' = [] \<and> lg_stored l' = lg_stored l @ backlog l
      \<and> lg_lost l' = lg_lost l \<and> (lg_stopped l \<longrightarrow> close_returns False l')"
  proof (cases "lg_done l")
    case True
    with ok assms(3,4) show ?thesis
      by (intro exI [of _ l]) (auto simp: log_ok_def backlog_def close_returns_def)
  next
    case False
    from to_waiting [OF False] obtain m where m: "drains\<^sup>*\<^sup>* l m" "lg_drainer m = Waiting" "lg_queue m = lg_queue l"
      "lg_stored m = lg_stored l @ held (lg_drainer l)" "lg_holder m = None" "lg_db m" "lg_chan_closed m" "lg_draining m"
      "lg_lost m = lg_lost l" "lg_stopped m = lg_stopped l" by blast
    let ?n = "m\<lparr>lg_queue := [], lg_stored := lg_stored m @ lg_queue m\<rparr>"
    have "drains ?n (?n\<lparr>lg_drainer := Returned, lg_done := True\<rparr>)" using m by (simp add: drains_def drain_end_def)
    with drain_all [OF m(5,6,2)] m(1) have "drains\<^sup>*\<^sup>* l (?n\<lparr>lg_drainer := Returned, lg_done := True\<rparr>)" by simp
    with m show ?thesis by (intro exI [of _ "?n\<lparr>lg_drainer := Returned, lg_done := True\<rparr>"]) (simp add: backlog_def close_returns_def)
  qed
  have "\<exists>l'. drains l l'" if "\<not> lg_done l"
  proof -
    from first obtain l' where "drains\<^sup>*\<^sup>* l l'" "lg_done l'" by blast
    with that show ?thesis by (metis converse_rtranclpE)
  qed
  with first drain_decreases [of _ l True] show ?thesis unfolding drains_def by blast
qed

text \<open>A logger closed with one entry waiting.\<close>

definition late_entry :: entry where
  "late_entry = Warn ''target answered slowly'' ''9 s'' 0"

definition waiting_logger :: logger where
  "waiting_logger = new_logger\<lparr>lg_db := True, lg_attached := True, lg_draining := True, lg_drainer := Waiting, lg_started := True,
     lg_handed := [late_entry], lg_queue := [late_entry]\<rparr>"

definition closed_logger :: logger where
  "closed_logger = waiting_logger\<lparr>lg_closed := True, lg_chan_closed := True, lg_stopped := True\<rparr>"

lemma reached_waiting: "reached waiting_logger"
proof -
  let ?a = "new_logger\<lparr>lg_holder := Some Attaching\<rparr>"
  let ?b = "new_logger\<lparr>lg_db := True, lg_attached := True\<rparr>"
  let ?c = "?b\<lparr>lg_started := True, lg_draining := True, lg_drainer := Waiting\<rparr>"
  let ?e = "?c\<lparr>lg_senders := [Entered late_entry], lg_handed := [late_entry]\<rparr>"
  let ?f = "?c\<lparr>lg_senders := [Passed late_entry], lg_handed := [late_entry]\<rparr>"
  have "log_step new_logger ?a" by (rule AttachLock) (simp add: attach_lock_def new_logger_def)
  moreover have "log_step ?a ?b" by (rule AttachSet [of True]) (simp add: attach_set_def new_logger_def)
  moreover have "log_step ?b ?c" by (rule AttachStart) (simp add: attach_start_def new_logger_def)
  moreover have "log_step ?c ?e" by (rule Lock [of late_entry]) (simp add: enqueue_lock_def new_logger_def)
  moreover have "log_step ?e ?f" by (rule Check [of 0]) (simp add: enqueue_check_def new_logger_def)
  moreover have "log_step ?f waiting_logger" by (rule Send [of 0]) (simp add: enqueue_send_def new_logger_def waiting_logger_def queueSize_def)
  ultimately show ?thesis using reached.intros by metis
qed

lemma reached_closed: "reached closed_logger"
proof -
  let ?a = "waiting_logger\<lparr>lg_holder := Some Closing, lg_stopped := True\<rparr>"
  let ?b = "waiting_logger\<lparr>lg_holder := Some Flagged, lg_stopped := True, lg_closed := True\<rparr>"
  have "log_step waiting_logger ?a" by (rule CloseLock) (simp add: close_lock_def waiting_logger_def new_logger_def)
  moreover have "log_step ?a ?b" by (rule CloseFlag) (simp add: close_flag_def)
  moreover have "log_step ?b closed_logger" by (rule CloseQueue) (simp add: close_queue_def closed_logger_def waiting_logger_def new_logger_def)
  ultimately show ?thesis using reached_waiting reached.intros by metis
qed

theorem logger_accounts_witness: "reached waiting_logger \<and> lg_queue waiting_logger = [late_entry] \<and> length (lg_queue waiting_logger) \<le> 1024"
  using logger_accounts [OF reached_waiting] reached_waiting by (simp add: waiting_logger_def)

theorem closed_logger_drains_witness:
  "\<exists>l'. drains\<^sup>*\<^sup>* closed_logger l' \<and> lg_done l' \<and> lg_stored l' = [late_entry] \<and> close_returns False l'"
  using closed_logger_drains [OF reached_closed]
  by (simp add: closed_logger_def waiting_logger_def new_logger_def backlog_def) blast

end
