(* ===== verification/Stats.thy ===== *)
theory Stats
  imports JobService Complex_Main
begin

text \<open>
  The dashboard: the statements of \<open>internal/repository/stats_repo.go\<close>, the records of
  \<open>internal/domain/stats.go\<close>, and what \<open>internal/service/stats_service.go\<close> makes of them. The hours of the
  activity chart are those of the database session's time zone, whose offset in seconds is an argument.
\<close>

section \<open>Records\<close>

record Summary =
  sm_LastRun :: "instant option"
  sm_ElapsedSec :: "int option"
  sm_DriftSec :: int
  sm_InstanceID :: string
  sm_ProjectTotal :: int
  sm_JobTotal :: int
  sm_JobActive :: int
  sm_DayTotal :: int
  sm_DaySuccess :: int
  sm_DayFailed :: int
  sm_DayTimeout :: int
  sm_DaySkipped :: int
  sm_Running :: int
  sm_Pending :: int
  sm_AvgDurationMs :: int

definition Health :: "Summary \<Rightarrow> string" where
  "Health s = (case sm_ElapsedSec s of
      None \<Rightarrow> ''unknown''
    | Some e \<Rightarrow> if e \<le> 120 then ''healthy'' else if e \<le> 600 then ''late'' else ''down'')"

record HourBucket =
  hb_Hour :: instant
  hb_Success :: int
  hb_Failed :: int
  hb_Timeout :: int
  hb_Skipped :: int

record RunPoint =
  rp_RunID :: int
  rp_At :: instant
  rp_Status :: string
  rp_DurationMs :: int
  rp_HTTPStatus :: int

record JobDuration =
  jd_JobID :: int
  jd_Code :: string
  jd_Name :: string
  jd_ProjectSlug :: string
  jd_Runs :: int
  jd_AvgMs :: int
  jd_MaxMs :: int

section \<open>Statements\<close>

definition hour :: int where
  "hour = 3600 * second"

text \<open>The clause \<open>job_id IN (SELECT id FROM jobs WHERE project_id = ANY(...))\<close>, absent for an unrestricted scope.\<close>

definition runScope :: "db \<Rightarrow> ProjectScope \<Rightarrow> run \<Rightarrow> bool" where
  "runScope d scope r \<longleftrightarrow> All scope \<or> list_ex (\<lambda>j. j_id j = r_job_id r \<and> j_project_id j \<in> set (IDs scope)) (jobs d)"

definition jobScope :: "ProjectScope \<Rightarrow> job_t \<Rightarrow> bool" where
  "jobScope scope j \<longleftrightarrow> in_scope scope (j_project_id j)"

definition count_if :: "('a \<Rightarrow> bool) \<Rightarrow> 'a list \<Rightarrow> int" where
  "count_if P xs = int (length (filter P xs))"

text \<open>A numeric average cast to int rounds half away from zero.\<close>

definition pg_avg_int :: "int list \<Rightarrow> int" where
  "pg_avg_int xs = (if xs = [] then 0
     else let s = sum_list xs; n = int (length xs) in sgn s * ((2 * \<bar>s\<bar> + n) div (2 * n)))"

text \<open>The pulse: the row of the dispatcher, if there is one, and the whole seconds since.\<close>

definition read_pulse :: "(heartbeat \<times> int) option statement" where
  "read_pulse = query_at (\<lambda>now d. map_option (\<lambda>h. (h, quot (now - hb_last_run h) second)) (heartbeat_row d))"

definition job_counts :: "ProjectScope \<Rightarrow> (int \<times> int \<times> int) statement" where
  "job_counts scope = query (\<lambda>d.
     (count_if (\<lambda>p. pt_deleted_at p = None \<and> in_scope scope (p_id p)) (projects d),
      count_if (\<lambda>j. jt_deleted_at j = None \<and> jobScope scope j) (jobs d),
      count_if (\<lambda>j. jt_deleted_at j = None \<and> j_active j \<and> jobScope scope j) (jobs d)))"

definition run_counts :: "ProjectScope \<Rightarrow> (int list \<times> int) statement" where
  "run_counts scope = query_at (\<lambda>now d.
     let day = (\<lambda>r. r_created_at r > now - 24 * hour);
         rows = filter (\<lambda>r. (day r \<or> r_status r \<in> {StatusRunning, StatusPending}) \<and> runScope d scope r) (job_runs d)
     in ([count_if day rows,
          count_if (\<lambda>r. day r \<and> r_status r = StatusSuccess) rows,
          count_if (\<lambda>r. day r \<and> r_status r \<in> {StatusFailed, StatusTimeout}) rows,
          count_if (\<lambda>r. day r \<and> r_status r = StatusTimeout) rows,
          count_if (\<lambda>r. day r \<and> r_status r = StatusSkipped) rows,
          count_if (\<lambda>r. r_status r = StatusRunning) rows,
          count_if (\<lambda>r. r_status r = StatusPending) rows],
         pg_avg_int (concat (map (\<lambda>r. case r_duration_ms r of None \<Rightarrow> [] | Some n \<Rightarrow> [n])
           (filter (\<lambda>r. day r \<and> r_status r = StatusSuccess) rows)))))"

definition summary_of :: "(heartbeat \<times> int) option \<Rightarrow> int \<times> int \<times> int \<Rightarrow> int list \<times> int \<Rightarrow> Summary" where
  "summary_of pulse js rs = (case js of (ps, js, active) \<Rightarrow>
     \<lparr>sm_LastRun = map_option (\<lambda>(h, _). hb_last_run h) pulse, sm_ElapsedSec = map_option snd pulse,
      sm_DriftSec = (case pulse of None \<Rightarrow> 0 | Some (h, _) \<Rightarrow> hb_drift_sec h),
      sm_InstanceID = (case pulse of None \<Rightarrow> [] | Some (h, _) \<Rightarrow> hb_instance_id h),
      sm_ProjectTotal = ps, sm_JobTotal = js, sm_JobActive = active,
      sm_DayTotal = fst rs ! 0, sm_DaySuccess = fst rs ! 1, sm_DayFailed = fst rs ! 2, sm_DayTimeout = fst rs ! 3,
      sm_DaySkipped = fst rs ! 4, sm_Running = fst rs ! 5, sm_Pending = fst rs ! 6, sm_AvgDurationMs = snd rs\<rparr>)"

definition read_summary :: "ProjectScope \<Rightarrow> ('w world_scheme, Summary) call" where
  "read_summary scope = do {
     p \<leftarrow> stmt read_pulse;
     case p of Inl e \<Rightarrow> State_Monad.return (Inl e) | Inr pulse \<Rightarrow> do {
       j \<leftarrow> stmt (job_counts scope);
       case j of Inl e \<Rightarrow> State_Monad.return (Inl e) | Inr js \<Rightarrow> do {
         r \<leftarrow> stmt (run_counts scope);
         State_Monad.return (map_sum (\<lambda>e. e) (summary_of pulse js) r) } } }"

definition trunc_hour :: "int \<Rightarrow> instant \<Rightarrow> instant" where
  "trunc_hour off t = t - (t + off * second) mod hour"

definition bucket_of :: "int \<Rightarrow> db \<Rightarrow> ProjectScope \<Rightarrow> instant \<Rightarrow> HourBucket" where
  "bucket_of off d scope h =
     (let rows = filter (\<lambda>r. trunc_hour off (r_created_at r) = h \<and> runScope d scope r) (job_runs d);
          count = (\<lambda>s. count_if (\<lambda>r. r_status r = s) rows)
      in \<lparr>hb_Hour = h, hb_Success = count StatusSuccess, hb_Failed = count StatusFailed,
          hb_Timeout = count StatusTimeout, hb_Skipped = count StatusSkipped\<rparr>)"

definition activity :: "int \<Rightarrow> ProjectScope \<Rightarrow> int \<Rightarrow> HourBucket list statement" where
  "activity off scope hours = query_at (\<lambda>now d.
     map (\<lambda>k. bucket_of off d scope (trunc_hour off now - k * hour)) (rev [0..clamp hours 1 168 - 1]))"

definition run_durations :: "instant \<Rightarrow> int \<Rightarrow> db \<Rightarrow> job_t \<Rightarrow> int list" where
  "run_durations now hours d j = concat (map (\<lambda>r. case r_duration_ms r of None \<Rightarrow> [] | Some n \<Rightarrow> [n])
     (filter (\<lambda>r. r_job_id r = j_id j \<and> r_created_at r > now - hours * hour
        \<and> r_status r \<in> {StatusSuccess, StatusFailed, StatusTimeout}) (job_runs d)))"

definition job_duration :: "instant \<Rightarrow> int \<Rightarrow> db \<Rightarrow> job_t \<Rightarrow> (rat \<times> JobDuration) list" where
  "job_duration now hours d j =
     (let ms = run_durations now hours d j in
      case find_project d (j_project_id j) of
        None \<Rightarrow> []
      | Some p \<Rightarrow> if ms = [] then []
          else [(of_int (sum_list ms) / of_int (int (length ms)),
                 \<lparr>jd_JobID = j_id j, jd_Code = j_code j, jd_Name = j_name j, jd_ProjectSlug = p_slug p,
                  jd_Runs = int (length ms), jd_AvgMs = pg_avg_int ms, jd_MaxMs = Max (set ms)\<rparr>)])"

definition slowest_jobs :: "ProjectScope \<Rightarrow> int \<Rightarrow> int \<Rightarrow> JobDuration list statement" where
  "slowest_jobs scope hours limit = query_at (\<lambda>now d.
     map snd (take (nat (clamp limit 1 50)) (sort_key (\<lambda>x. - fst x)
       (concat (map (job_duration now (clamp hours 1 168) d) (filter (jobScope scope) (jobs d)))))))"

definition run_point :: "run \<Rightarrow> RunPoint" where
  "run_point r = \<lparr>rp_RunID = r_id r, rp_At = r_created_at r, rp_Status = r_status r,
     rp_DurationMs = (case r_duration_ms r of None \<Rightarrow> 0 | Some n \<Rightarrow> n),
     rp_HTTPStatus = (case r_http_status r of None \<Rightarrow> 0 | Some n \<Rightarrow> n)\<rparr>"

definition job_history :: "ProjectScope \<Rightarrow> int \<Rightarrow> int \<Rightarrow> RunPoint list statement" where
  "job_history scope jobID limit = query (\<lambda>d.
     rev (map run_point (take (nat (clamp limit 1 200)) (sort_key (\<lambda>r. - r_created_at r)
       (filter (\<lambda>r. r_job_id r = jobID \<and> r_status r \<noteq> StatusPending
          \<and> (case find_job d jobID of None \<Rightarrow> False | Some j \<Rightarrow> jobScope scope j)) (job_runs d))))))"

text \<open>The two panels read some columns of a run; the others keep their zero value.\<close>

definition zero_row :: run where
  "zero_row = (new_run 0 0 [] zero_time)\<lparr>r_status := []\<rparr>"

definition panel_row :: "(run_row \<Rightarrow> run) \<Rightarrow> run_row \<Rightarrow> run_row" where
  "panel_row cols row = run.extend (cols row) (run_row.fields (rw_job_code row) (rw_job_name row) (rw_project_slug row) (rw_project_name row))"

definition running_now :: "ProjectScope \<Rightarrow> int \<Rightarrow> run_row list statement" where
  "running_now scope limit = query (\<lambda>d.
     map (panel_row (\<lambda>r. zero_row\<lparr>r_id := r_id r, r_job_id := r_job_id r, r_trigger := r_trigger r, r_status := r_status r,
            r_instance_id := r_instance_id r, r_started_at := r_started_at r\<rparr>))
       (take (nat (clamp limit 1 100)) (sort_key (\<lambda>r. (r_started_at r = None, case r_started_at r of None \<Rightarrow> 0 | Some t \<Rightarrow> t))
         (map snd (filter (\<lambda>(j, r). r_status r = StatusRunning \<and> jobScope scope j) (concat (map (run_row_of d) (job_runs d))))))))"

definition recent_failures :: "ProjectScope \<Rightarrow> int \<Rightarrow> run_row list statement" where
  "recent_failures scope limit = query (\<lambda>d.
     map (panel_row (\<lambda>r. zero_row\<lparr>r_id := r_id r, r_job_id := r_job_id r, r_status := r_status r, r_http_status := r_http_status r,
            r_duration_ms := r_duration_ms r, r_error := r_error r, r_created_at := r_created_at r\<rparr>))
       (take (nat (clamp limit 1 100)) (sort_key (\<lambda>r. - r_id r)
         (map snd (filter (\<lambda>(j, r). r_status r \<in> {StatusFailed, StatusTimeout} \<and> jobScope scope j)
           (concat (map (run_row_of d) (job_runs d))))))))"

section \<open>The service\<close>

record 'w StatsStore =
  st_Summary :: "ProjectScope \<Rightarrow> ('w, Summary) call"
  st_Activity :: "ProjectScope \<Rightarrow> int \<Rightarrow> ('w, HourBucket list) call"
  st_SlowestJobs :: "ProjectScope \<Rightarrow> int \<Rightarrow> int \<Rightarrow> ('w, JobDuration list) call"
  st_JobHistory :: "ProjectScope \<Rightarrow> int \<Rightarrow> int \<Rightarrow> ('w, RunPoint list) call"
  st_RunningNow :: "ProjectScope \<Rightarrow> int \<Rightarrow> ('w, run_row list) call"
  st_RecentFailures :: "ProjectScope \<Rightarrow> int \<Rightarrow> ('w, run_row list) call"

definition stats_repo :: "int \<Rightarrow> 'w world_scheme StatsStore" where
  "stats_repo off = \<lparr>st_Summary = read_summary, st_Activity = (\<lambda>s h. stmt (activity off s h)),
     st_SlowestJobs = (\<lambda>s h n. stmt (slowest_jobs s h n)), st_JobHistory = (\<lambda>s i n. stmt (job_history s i n)),
     st_RunningNow = (\<lambda>s n. stmt (running_now s n)), st_RecentFailures = (\<lambda>s n. stmt (recent_failures s n))\<rparr>"

record 'w StatsService =
  ss_stats :: "'w StatsStore"
  ss_jobs :: "'w JobStore"
  ss_job :: "'w job_service"

definition NewStatsService :: "int \<Rightarrow> TargetPolicy \<Rightarrow> location \<Rightarrow> 'w world_scheme StatsService" where
  "NewStatsService off policy loc = \<lparr>ss_stats = stats_repo off, ss_jobs = job_repo, ss_job = NewJobService policy loc\<rparr>"

record JobTrend =
  tr_Points :: "RunPoint list"
  tr_Total :: int
  tr_Success :: int
  tr_Failed :: int
  tr_Timeout :: int
  tr_Skipped :: int
  tr_AvgMs :: int
  tr_P95Ms :: int
  tr_MaxMs :: int
  tr_SuccessRate :: int

text \<open>The body of the loop over the points: the counters and the durations so far.\<close>

definition trend_step :: "RunPoint \<Rightarrow> JobTrend \<times> int list \<Rightarrow> JobTrend \<times> int list" where
  "trend_step p acc = (case acc of (t, ds) \<Rightarrow>
     (if rp_Status p = StatusSuccess then t\<lparr>tr_Success := tr_Success t + 1\<rparr>
      else if rp_Status p = StatusFailed then t\<lparr>tr_Failed := tr_Failed t + 1\<rparr>
      else if rp_Status p = StatusTimeout then t\<lparr>tr_Timeout := tr_Timeout t + 1\<rparr>
      else if rp_Status p = StatusSkipped then t\<lparr>tr_Skipped := tr_Skipped t + 1\<rparr> else t,
      if rp_DurationMs p > 0 then ds @ [rp_DurationMs p] else ds))"

definition trend_of :: "RunPoint list \<Rightarrow> JobTrend" where
  "trend_of points =
     (let total0 = int (length points);
          (t, ds) = fold trend_step points (\<lparr>tr_Points = points, tr_Total = total0, tr_Success = 0, tr_Failed = 0,
            tr_Timeout = 0, tr_Skipped = 0, tr_AvgMs = 0, tr_P95Ms = 0, tr_MaxMs = 0, tr_SuccessRate = -1\<rparr>, []);
          t = (if total0 > 0 then t\<lparr>tr_SuccessRate := quot (tr_Success t * 100) total0\<rparr> else t)
      in if ds = [] then t
         else let ds = sort ds; n = int (length ds) in
           t\<lparr>tr_AvgMs := quot (sum_list ds) n, tr_MaxMs := ds ! (length ds - 1),
             tr_P95Ms := ds ! nat ((n * 95 + 99) div 100 - 1)\<rparr>)"

definition JobTrendFor :: "'w StatsService \<Rightarrow> ProjectScope \<Rightarrow> int \<Rightarrow> int \<Rightarrow> ('w, JobTrend) svc" where
  "JobTrendFor s scope jobID limit =
     attempt (raw (st_JobHistory (ss_stats s) scope jobID limit)) (\<lambda>points. ok (trend_of points))"

record UpcomingRun =
  up_JobID :: int
  up_Code :: string
  up_Name :: string
  up_ProjectSlug :: string
  up_At :: instant

definition upcoming_row :: "'w StatsService \<Rightarrow> job_row \<Rightarrow> UpcomingRun list \<Rightarrow> ('w, UpcomingRun list) state" where
  "upcoming_row s row acc = do {
     next \<leftarrow> NextRunFor (ss_job s) (jr_schedules row);
     State_Monad.return (case next of
        None \<Rightarrow> acc
      | Some t \<Rightarrow> acc @ [\<lparr>up_JobID = j_id (jr_job row), up_Code = j_code (jr_job row), up_Name = j_name (jr_job row),
          up_ProjectSlug = jr_project_slug row, up_At = t\<rparr>]) }"

text \<open>The insertion sort: the inner loop moves the element at a position down, the outer takes the next one.\<close>

fun sift_run :: "nat \<Rightarrow> UpcomingRun list \<Rightarrow> UpcomingRun list" where
  "sift_run 0 us = us"
| "sift_run (Suc j) us =
     (if up_At (us ! Suc j) < up_At (us ! j) then sift_run j (us[Suc j := us ! j, j := us ! Suc j]) else us)"

fun sort_runs_from :: "nat \<Rightarrow> nat \<Rightarrow> UpcomingRun list \<Rightarrow> UpcomingRun list" where
  "sort_runs_from 0 i us = us"
| "sort_runs_from (Suc k) i us = sort_runs_from k (Suc i) (sift_run i us)"

definition sort_runs :: "UpcomingRun list \<Rightarrow> UpcomingRun list" where
  "sort_runs us = sort_runs_from (length us - 1) 1 us"

definition upcoming_runs :: "'w StatsService \<Rightarrow> ProjectScope \<Rightarrow> int \<Rightarrow> ('w, UpcomingRun list) svc" where
  "upcoming_runs s scope limit =
     attempt (raw (js_List (ss_jobs s)
       \<lparr>jf_Scope = scope, jf_ProjectID = None, jf_Tag = None, jf_Active = Some True, jf_Search = None\<rparr> 0 500)) (\<lambda>(rows, _). do {
         out \<leftarrow> for_each rows (upcoming_row s) [];
         ok (let us = sort_runs out in if int (length us) > limit then take (nat limit) us else us) })"

record Dashboard =
  da_Summary :: Summary
  da_Activity :: "HourBucket list"
  da_Running :: "run_row list"
  da_Failures :: "run_row list"
  da_Slowest :: "JobDuration list"
  da_Upcoming :: "UpcomingRun list"

definition Build :: "'w StatsService \<Rightarrow> ProjectScope \<Rightarrow> int \<Rightarrow> ('w, Dashboard) svc" where
  "Build s scope activityHours =
     attempt (raw (st_Summary (ss_stats s) scope)) (\<lambda>summary.
     attempt (raw (st_Activity (ss_stats s) scope activityHours)) (\<lambda>hours.
     attempt (raw (st_RunningNow (ss_stats s) scope 20)) (\<lambda>running.
     attempt (raw (st_RecentFailures (ss_stats s) scope 12)) (\<lambda>failures.
     attempt (raw (st_SlowestJobs (ss_stats s) scope 24 8)) (\<lambda>slowest.
     attempt (upcoming_runs s scope 12) (\<lambda>upcoming.
       ok \<lparr>da_Summary = summary, da_Activity = hours, da_Running = running, da_Failures = failures,
           da_Slowest = slowest, da_Upcoming = upcoming\<rparr>))))))"

end
