(* ===== verification/StatsProps.thy ===== *)
theory StatsProps
  imports Stats JobTimes Demo "HOL-Library.Code_Target_Numeral"
begin

text \<open>
  What the dashboard guarantees: its numbers are those of the caller's projects and of nothing else, its chart has
  no gaps, and a job's trend describes the runs it draws.
\<close>

section \<open>Only the caller's projects\<close>

text \<open>The tables without the projects outside a scope, their jobs and the runs of those.\<close>

definition only_scope :: "ProjectScope \<Rightarrow> db \<Rightarrow> db" where
  "only_scope scope d = d\<lparr>projects := filter (\<lambda>p. in_scope scope (p_id p)) (projects d),
     jobs := filter (jobScope scope) (jobs d), job_runs := filter (runScope d scope) (job_runs d)\<rparr>"

lemma all_scope [simp]: "in_scope AllProjects p" "jobScope AllProjects j" "runScope d AllProjects r"
  by (simp_all add: in_scope_def AllProjects_def jobScope_def runScope_def)

lemma find_in_filter:
  "find P (filter Q xs) = find (\<lambda>x. Q x \<and> P x) xs"
  by (induction xs) auto

lemma find_job_only:
  assumes "distinct (map j_id (jobs d))"
  shows "find_job (only_scope scope d) i = (case find_job d i of None \<Rightarrow> None | Some j \<Rightarrow> if jobScope scope j then Some j else None)"
proof (cases "find_job d i")
  case None
  then have "find (\<lambda>j. j_id j = i) (filter (jobScope scope) (jobs d)) = None" by (auto simp: find_job_def find_None_iff)
  with None show ?thesis by (simp add: find_job_def only_scope_def)
next
  case (Some j)
  then have j: "j \<in> set (jobs d)" "j_id j = i" by (auto simp: find_job_def dest: find_SomeD)
  have one: "x = j" if "x \<in> set (jobs d)" "j_id x = i" for x using assms j that by (metis distinct_map inj_onD)
  show ?thesis
  proof (cases "jobScope scope j")
    case True
    have "find (\<lambda>x. j_id x = i) (filter (jobScope scope) (jobs d)) = Some j"
    proof (rule find_only)
      show "y = j" if "y \<in> set (filter (jobScope scope) (jobs d))" "j_id y = i" for y using that by (intro one) simp_all
    qed (use j True in simp_all)
    with Some True show ?thesis by (simp add: find_job_def only_scope_def)
  next
    case False
    then have "find (\<lambda>x. j_id x = i) (filter (jobScope scope) (jobs d)) = None" unfolding find_None_iff using one False by fastforce
    with Some False show ?thesis by (simp add: find_job_def only_scope_def)
  qed
qed

lemma find_project_only: "in_scope scope i \<Longrightarrow> find_project (only_scope scope d) i = find_project d i"
  by (auto simp: find_project_def only_scope_def find_in_filter intro!: find_cong)

lemma runScope_job:
  assumes "distinct (map j_id (jobs d))" and "find_job d (r_job_id r) = Some j"
  shows "runScope d scope r \<longleftrightarrow> jobScope scope j"
proof -
  from assms(2) have j: "j \<in> set (jobs d)" "j_id j = r_job_id r" by (auto simp: find_job_def dest: find_SomeD)
  have "inj_on j_id (set (jobs d))" using assms(1) by (simp add: distinct_map)
  then have one: "x = j" if "x \<in> set (jobs d)" "j_id x = r_job_id r" for x using j that by (metis inj_onD)
  show ?thesis unfolding runScope_def jobScope_def in_scope_def list_ex_iff using j one by blast
qed

text \<open>The join of the runs with their jobs and projects.\<close>

definition joined :: "db \<Rightarrow> (job_t \<times> run_row) list" where
  "joined d = concat (map (run_row_of d) (job_runs d))"

lemma concat_map_filter: "concat (map f (filter P rs)) = concat (map (\<lambda>r. if P r then f r else []) rs)"
  by (induction rs) auto

lemma joined_only:
  assumes "distinct (map j_id (jobs d))"
  shows "joined (only_scope scope d) = filter (\<lambda>(j, r). jobScope scope j) (joined d)"
proof -
  have one: "(if runScope d scope r then run_row_of (only_scope scope d) r else []) = filter (\<lambda>(j, r). jobScope scope j) (run_row_of d r)" for r
  proof (cases "find_job d (r_job_id r)")
    case None
    then show ?thesis by (simp add: run_row_of_def find_job_only [OF assms])
  next
    case (Some j)
    with runScope_job [OF assms Some] find_project_only [of scope "j_project_id j" d] show ?thesis
      by (auto simp: run_row_of_def find_job_only [OF assms] jobScope_def split: option.split)
  qed
  have "job_runs (only_scope scope d) = filter (runScope d scope) (job_runs d)" by (simp add: only_scope_def)
  then have "joined (only_scope scope d) = concat (map (\<lambda>r. filter (\<lambda>(j, r). jobScope scope j) (run_row_of d r)) (job_runs d))"
    by (simp add: joined_def concat_map_filter one)
  also have "\<dots> = filter (\<lambda>(j, r). jobScope scope j) (joined d)" by (simp add: joined_def filter_concat comp_def)
  finally show ?thesis .
qed

lemma filter_only_runs: "filter (\<lambda>r. P r \<and> runScope d scope r) (job_runs d) = filter P (job_runs (only_scope scope d))"
  by (simp add: only_scope_def conj_commute)

lemma only_all [simp]: "job_runs (only_scope AllProjects d) = job_runs d"
  by (simp add: only_scope_def)

lemma run_durations_only:
  assumes "distinct (map j_id (jobs d))" and "j \<in> set (jobs d)" and "jobScope scope j"
  shows "run_durations now hours (only_scope scope d) j = run_durations now hours d j"
proof -
  have "find_job d (j_id j) = Some j"
    using assms(1,2) unfolding find_job_def by (intro find_only) (simp_all add: distinct_map inj_on_def)
  with runScope_job [OF assms(1)] assms(3) have "r_job_id r = j_id j \<Longrightarrow> runScope d scope r" for r by metis
  then show ?thesis unfolding run_durations_def only_scope_def by (simp add: conj_commute) (meson)
qed

lemma job_duration_only:
  assumes "distinct (map j_id (jobs d))" and "j \<in> set (jobs d)" and "jobScope scope j"
  shows "job_duration now hours (only_scope scope d) j = job_duration now hours d j"
  using run_durations_only [OF assms] find_project_only [of scope "j_project_id j" d] assms(3)
  by (simp add: job_duration_def jobScope_def)

lemma panel_only:
  assumes "distinct (map j_id (jobs d))"
  shows "filter (\<lambda>(j, r). P r \<and> jobScope scope j) (joined d) = filter (\<lambda>(j, r). P r \<and> jobScope AllProjects j) (joined (only_scope scope d))"
proof -
  have "filter (\<lambda>(j, r). P r \<and> jobScope scope j) xs = filter (\<lambda>(j, r). P r \<and> jobScope AllProjects j) (filter (\<lambda>(j, r). jobScope scope j) xs)"
    for xs :: "(job_t \<times> run_row) list" by (induction xs) auto
  then show ?thesis by (simp only: joined_only [OF assms])
qed

lemma panels_in_scope:
  assumes "distinct (map j_id (jobs d))"
  shows "fst (job_counts scope now d) = fst (job_counts AllProjects now (only_scope scope d))
    \<and> fst (run_counts scope now d) = fst (run_counts AllProjects now (only_scope scope d))
    \<and> fst (activity off scope hours now d) = fst (activity off AllProjects hours now (only_scope scope d))
    \<and> fst (running_now scope limit now d) = fst (running_now AllProjects limit now (only_scope scope d))
    \<and> fst (recent_failures scope limit now d) = fst (recent_failures AllProjects limit now (only_scope scope d))
    \<and> fst (slowest_jobs scope hours limit now d) = fst (slowest_jobs AllProjects hours limit now (only_scope scope d))
    \<and> fst (job_history scope i limit now d) = fst (job_history AllProjects i limit now (only_scope scope d))"
proof (intro conjI)
  show "fst (job_counts scope now d) = fst (job_counts AllProjects now (only_scope scope d))"
    by (simp add: job_counts_def query_def count_if_def only_scope_def conj_ac)
  show "fst (run_counts scope now d) = fst (run_counts AllProjects now (only_scope scope d))"
    unfolding run_counts_def query_at_def Let_def filter_only_runs by simp
  show "fst (activity off scope hours now d) = fst (activity off AllProjects hours now (only_scope scope d))"
    unfolding activity_def query_at_def bucket_of_def filter_only_runs by simp
  show "fst (running_now scope limit now d) = fst (running_now AllProjects limit now (only_scope scope d))"
    unfolding running_now_def query_def joined_def [symmetric] panel_only [OF assms] by simp
  show "fst (recent_failures scope limit now d) = fst (recent_failures AllProjects limit now (only_scope scope d))"
    unfolding recent_failures_def query_def joined_def [symmetric] panel_only [OF assms] by simp
  have "map (job_duration now h d) (filter (jobScope scope) (jobs d))
      = map (job_duration now h (only_scope scope d)) (filter (jobScope AllProjects) (jobs (only_scope scope d)))" for h
    using job_duration_only [OF assms] by (auto simp: only_scope_def)
  then show "fst (slowest_jobs scope hours limit now d) = fst (slowest_jobs AllProjects hours limit now (only_scope scope d))"
    unfolding slowest_jobs_def query_at_def by simp
  have "filter (\<lambda>r. r_job_id r = i \<and> r_status r \<noteq> StatusPending
          \<and> (case find_job d i of None \<Rightarrow> False | Some j \<Rightarrow> jobScope scope j)) (job_runs d)
    = filter (\<lambda>r. r_job_id r = i \<and> r_status r \<noteq> StatusPending
          \<and> (case find_job (only_scope scope d) i of None \<Rightarrow> False | Some j \<Rightarrow> jobScope AllProjects j)) (job_runs (only_scope scope d))"
  proof (cases "find_job d i")
    case None
    then show ?thesis by (simp add: find_job_only [OF assms])
  next
    case (Some j)
    then have "r_job_id r = i \<Longrightarrow> runScope d scope r \<longleftrightarrow> jobScope scope j" for r using runScope_job [OF assms] by metis
    then show ?thesis unfolding filter_only_runs [symmetric] find_job_only [OF assms] Some option.case
      by (intro filter_cong refl) auto
  qed
  then show "fst (job_history scope i limit now d) = fst (job_history AllProjects i limit now (only_scope scope d))"
    unfolding job_history_def query_def by simp
qed

text \<open>The list of active jobs the upcoming panel walks.\<close>

definition active_filter :: "ProjectScope \<Rightarrow> job_filter" where
  "active_filter scope = \<lparr>jf_Scope = scope, jf_ProjectID = None, jf_Tag = None, jf_Active = Some True, jf_Search = None\<rparr>"

lemma job_row_only:
  assumes "distinct (map j_id (jobs d))" and "j \<in> set (jobs d)" and "jobScope scope j"
  shows "job_row_of (only_scope scope d) now j = job_row_of d now j"
proof -
  have "find_job d (j_id j) = Some j"
    using assms(1,2) unfolding find_job_def by (intro find_only) (simp_all add: distinct_map inj_on_def)
  with runScope_job [OF assms(1)] assms(3) have "r_job_id r = j_id j \<Longrightarrow> runScope d scope r" for r by metis
  then have "runs_since (only_scope scope d) since (j_id j) ss = runs_since d since (j_id j) ss" for since ss
    unfolding runs_since_def only_scope_def by (simp add: conj_commute) (metis (no_types, lifting))
  moreover have "find_project (only_scope scope d) (j_project_id j) = find_project d (j_project_id j)"
    using assms(3) by (intro find_project_only) (simp add: jobScope_def)
  ultimately show ?thesis unfolding job_row_of_def Let_def by (simp add: only_scope_def)
qed

lemma insort_key_same: "(\<And>y. y \<in> insert x (set ys) \<Longrightarrow> f y = g y) \<Longrightarrow> insort_key f x ys = insort_key g x ys"
  by (induction ys) auto

lemma sort_key_same: "(\<And>x. x \<in> set xs \<Longrightarrow> f x = g x) \<Longrightarrow> sort_key f xs = sort_key g xs"
proof (induction xs)
  case (Cons x xs)
  then have "insort_key f x (sort_key g xs) = insort_key g x (sort_key g xs)" by (intro insort_key_same) auto
  with Cons show ?case by simp
qed simp

lemma active_rows_only:
  assumes "distinct (map j_id (jobs d))"
  shows "fst (list_job_rows (active_filter scope) 0 limit now d)
    = fst (list_job_rows (active_filter AllProjects) 0 limit now (only_scope scope d))"
proof -
  let ?js = "filter (\<lambda>j. jobScope scope j \<and> jt_deleted_at j = None \<and> j_active j) (jobs d)"
  have listed: "listed_jobs (active_filter scope) d = ?js" "listed_jobs (active_filter AllProjects) (only_scope scope d) = ?js"
    by (auto simp: listed_jobs_def active_filter_def job_matches_def jobScope_def only_scope_def intro!: filter_cong)
  have same: "find_project (only_scope scope d) (j_project_id j) = find_project d (j_project_id j)" if "j \<in> set ?js" for j
    using that by (intro find_project_only) (simp add: jobScope_def)
  have rows: "map (job_row_of d now) xs = map (job_row_of (only_scope scope d) now) xs" if "set xs \<subseteq> set ?js" for xs
    using that job_row_only [OF assms] by (intro map_cong refl) fastforce
  let ?key = "\<lambda>d j. ((case find_project d (j_project_id j) of None \<Rightarrow> [] | Some p \<Rightarrow> p_name p), j_priority j, j_code j)"
  have known: "filter (\<lambda>j. find_project (only_scope scope d) (j_project_id j) \<noteq> None) ?js
      = filter (\<lambda>j. find_project d (j_project_id j) \<noteq> None) ?js"
    by (intro filter_cong refl) (simp only: same)
  have order: "sort_key (?key (only_scope scope d)) (filter (\<lambda>j. find_project d (j_project_id j) \<noteq> None) ?js)
      = sort_key (?key d) (filter (\<lambda>j. find_project d (j_project_id j) \<noteq> None) ?js)"
    by (intro sort_key_same) (use same in auto)
  have page: "map (job_row_of d now) (take n (drop m (sort_key (?key d) (filter P ?js))))
      = map (job_row_of (only_scope scope d) now) (take n (drop m (sort_key (?key d) (filter P ?js))))" for n m P
    by (rule rows) (auto dest!: in_set_takeD in_set_dropD)
  have "job_filter_text (active_filter scope)" "job_filter_text (active_filter AllProjects)"
    by (simp_all add: active_filter_def job_filter_text_def)
  then show ?thesis unfolding list_job_rows_def listed known order page by simp
qed

lemma NewStatsService_simps [simp]:
  "ss_stats (NewStatsService off policy loc) = stats_repo off" "ss_jobs (NewStatsService off policy loc) = job_repo"
  "ss_job (NewStatsService off policy loc) = NewJobService policy loc"
  by (simp_all add: NewStatsService_def)

lemma stats_reads [simp]:
  "reads_only (read_pulse)" "reads_only (job_counts scope)" "reads_only (run_counts scope)" "reads_only (activity off scope hours)"
  "reads_only (running_now scope limit)" "reads_only (recent_failures scope limit)" "reads_only (slowest_jobs scope hours limit)"
  "reads_only (job_history scope i limit)" "reads_only (count_jobs f)" "reads_only (list_job_rows f offset limit)"
  by (simp_all add: reads_only_def query_def query_at_def read_pulse_def job_counts_def run_counts_def activity_def running_now_def
      recent_failures_def slowest_jobs_def job_history_def count_jobs_def list_job_rows_def)

lemma panel_answers:
  "\<exists>x. fst (read_pulse now d) = Inr x" "\<exists>x. fst (job_counts scope now d) = Inr x" "\<exists>x. fst (run_counts scope now d) = Inr x"
  "\<exists>x. fst (activity off scope hours now d) = Inr x" "\<exists>x. fst (running_now scope limit now d) = Inr x"
  "\<exists>x. fst (recent_failures scope limit now d) = Inr x" "\<exists>x. fst (slowest_jobs scope hours limit now d) = Inr x"
  "\<exists>x. fst (job_history scope i limit now d) = Inr x" "\<exists>x. fst (list_job_rows (active_filter scope) 0 limit now d) = Inr x"
  by (simp_all add: read_pulse_def job_counts_def run_counts_def activity_def running_now_def recent_failures_def
      slowest_jobs_def job_history_def query_def query_at_def list_job_rows_def active_filter_def job_filter_text_def)

text \<open>The upcoming panel reads the clock and no table.\<close>

lemma upcoming_row_db:
  "run_state (upcoming_row (NewStatsService off policy loc) row acc) (w\<lparr>w_db := d\<rparr>)
     = (case run_state (upcoming_row (NewStatsService off policy loc) row acc) w of (out, w') \<Rightarrow> (out, w'\<lparr>w_db := d\<rparr>))"
  by (simp add: upcoming_row_def NextRunFor_def NewJobService_def app_now_def split: list.split)

lemma upcoming_rows_db:
  "run_state (for_each rows (upcoming_row (NewStatsService off policy loc)) acc) (w\<lparr>w_db := d\<rparr>)
     = (case run_state (for_each rows (upcoming_row (NewStatsService off policy loc)) acc) w of (out, w') \<Rightarrow> (out, w'\<lparr>w_db := d\<rparr>))"
proof (induction rows arbitrary: acc w)
  case (Cons row rows)
  obtain out w1 where one: "run_state (upcoming_row (NewStatsService off policy loc) row acc) w = (out, w1)" by fastforce
  then show ?case by (simp add: upcoming_row_db Cons.IH)
qed simp

text \<open>The panels as the service puts them together, in a world where nothing interferes.\<close>

definition active_rows :: "ProjectScope \<Rightarrow> instant \<Rightarrow> db \<Rightarrow> job_row list" where
  "active_rows scope now d = projr (fst (list_job_rows (active_filter scope) 0 500 now d))"

lemma run_Build:
  assumes "w_events w = []"
  shows "\<exists>w'. run_state (Build (NewStatsService off policy loc) scope hours) w = (Inr
    \<lparr>da_Summary = summary_of (projr (fst (read_pulse (w_now w) (w_db w)))) (projr (fst (job_counts scope (w_now w) (w_db w))))
        (projr (fst (run_counts scope (w_now w) (w_db w)))),
     da_Activity = projr (fst (activity off scope hours (w_now w) (w_db w))),
     da_Running = projr (fst (running_now scope 20 (w_now w) (w_db w))),
     da_Failures = projr (fst (recent_failures scope 12 (w_now w) (w_db w))),
     da_Slowest = projr (fst (slowest_jobs scope 24 8 (w_now w) (w_db w))),
     da_Upcoming = (let us = sort_runs (fst (run_state (for_each (active_rows scope (w_now w) (w_db w)) (upcoming_row (NewStatsService off policy loc)) []) w))
       in if int (length us) > 12 then take (nat 12) us else us)\<rparr>, w')"
proof -
  note answers = panel_answers [where now = "w_now w" and d = "w_db w"]
  obtain pulse js rs act run bad slow rows where got: "fst (read_pulse (w_now w) (w_db w)) = Inr pulse"
    "fst (job_counts scope (w_now w) (w_db w)) = Inr js" "fst (run_counts scope (w_now w) (w_db w)) = Inr rs"
    "fst (activity off scope hours (w_now w) (w_db w)) = Inr act" "fst (running_now scope 20 (w_now w) (w_db w)) = Inr run"
    "fst (recent_failures scope 12 (w_now w) (w_db w)) = Inr bad" "fst (slowest_jobs scope 24 8 (w_now w) (w_db w)) = Inr slow"
    "fst (list_job_rows (active_filter scope) 0 500 (w_now w) (w_db w)) = Inr rows"
    using answers by metis
  have words: "job_filter_text (active_filter scope)" by (simp add: active_filter_def job_filter_text_def)
  have summary: "run_state (read_summary scope) w = (Inr (summary_of pulse js rs), w)"
    using assms(1) by (simp add: read_summary_def run_read got)
  have listed: "run_state (js_List job_repo (active_filter scope) 0 500) w = (Inr (rows, int (length (listed_jobs (active_filter scope) (w_db w)))), w)"
    using assms(1) words by (simp add: job_repo_def paged_def run_read got count_jobs_def)
  have some: "active_rows scope (w_now w) (w_db w) = rows" by (simp add: active_rows_def got)
  obtain out w' where walk: "run_state (for_each rows (upcoming_row (NewStatsService off policy loc)) []) w = (out, w')"
    by fastforce
  show ?thesis
    unfolding Build_def upcoming_runs_def active_filter_def [symmetric]
    using assms(1) by (simp add: stats_repo_def run_attempt run_raw run_read summary got listed walk some)
qed

text \<open> C21. The dashboard shows a caller the numbers of its own projects and nothing else: every panel of it
  (the summary, the hours of activity, what is running, the latest failures, the slowest jobs and the upcoming
  firings) and the trend of a job are what somebody who may see everything would get from a database that
  holds only those projects with their jobs and runs, at the same clock; and where no statement fails there
  is a dashboard. \<close>
theorem dashboard_in_scope:
  fixes w :: "'w world_scheme"
  assumes "distinct (map j_id (jobs (w_db w)))" and "w_events w = []"
  shows "(\<exists>board. fst (run_state (Build (NewStatsService off policy loc) scope hours) w) = Inr board
      \<and> fst (run_state (Build (NewStatsService off policy loc) AllProjects hours) (w\<lparr>w_db := only_scope scope (w_db w)\<rparr>)) = Inr board)
    \<and> (\<exists>trend. run_state (JobTrendFor (NewStatsService off policy loc) scope i limit) w = (Inr trend, w)
      \<and> fst (run_state (JobTrendFor (NewStatsService off policy loc) AllProjects i limit) (w\<lparr>w_db := only_scope scope (w_db w)\<rparr>)) = Inr trend)"
proof -
  let ?s = "NewStatsService off policy loc :: 'w world_scheme StatsService" and ?d = "only_scope scope (w_db w)"
  note same = panels_in_scope [OF assms(1), of scope]
  have pulse: "fst (read_pulse (w_now w) ?d) = fst (read_pulse (w_now w) (w_db w))"
    by (simp add: read_pulse_def query_at_def only_scope_def)
  have rows: "active_rows AllProjects (w_now w) ?d = active_rows scope (w_now w) (w_db w)"
    using active_rows_only [OF assms(1)] by (simp add: active_rows_def)
  obtain w1 where mine: "fst (run_state (Build ?s scope hours) w) = Inr w1"
      and all: "fst (run_state (Build ?s AllProjects hours) (w\<lparr>w_db := ?d\<rparr>)) = Inr w1"
    using run_Build [OF assms(2), of off policy loc scope hours] run_Build [of "w\<lparr>w_db := ?d\<rparr>" off policy loc AllProjects hours] assms(2) same pulse
    by (auto simp: rows upcoming_rows_db split: prod.split)
  have "run_state (JobTrendFor ?s scope i limit) w = (Inr (trend_of (projr (fst (job_history scope i limit (w_now w) (w_db w))))), w)"
    if "w_events w = []" for scope and w :: "'w world_scheme"
    using that panel_answers(8) [where scope = scope and i = i and limit = limit and now = "w_now w" and d = "w_db w"] by (auto simp: JobTrendFor_def run_attempt run_raw stats_repo_def run_read)
  with mine all same assms(2) show ?thesis by auto
qed

theorem dashboard_in_scope_witness:
  "\<exists>board. fst (run_state (Build (NewStatsService 0 \<lparr>AllowPrivate = False\<rparr> utc) (ScopeOf [2]) 24) demo_world) = Inr board
    \<and> fst (run_state (Build (NewStatsService 0 \<lparr>AllowPrivate = False\<rparr> utc) AllProjects 24)
        (demo_world\<lparr>w_db := only_scope (ScopeOf [2]) demo_db\<rparr>)) = Inr board"
proof -
  have "distinct (map j_id (jobs (w_db demo_world)))" "w_events demo_world = []" "w_db demo_world = demo_db"
    by (simp_all add: demo_world_def demo_db_def demo_job_def)
  then show ?thesis using dashboard_in_scope [of demo_world 0 "\<lparr>AllowPrivate = False\<rparr>" utc "ScopeOf [2]" 24] by simp
qed

section \<open>The trend of a job\<close>

lemma trend_fold:
  "fold trend_step points (t, ds) =
     (t\<lparr>tr_Success := tr_Success t + count_if (\<lambda>p. rp_Status p = StatusSuccess) points,
        tr_Failed := tr_Failed t + count_if (\<lambda>p. rp_Status p = StatusFailed) points,
        tr_Timeout := tr_Timeout t + count_if (\<lambda>p. rp_Status p = StatusTimeout) points,
        tr_Skipped := tr_Skipped t + count_if (\<lambda>p. rp_Status p = StatusSkipped) points\<rparr>,
      ds @ filter (\<lambda>n. n > 0) (map rp_DurationMs points))"
proof (induction points arbitrary: t ds)
  case Nil
  then show ?case by (simp add: count_if_def)
next
  case (Cons p points)
  have d: "distinct [StatusSuccess, StatusFailed, StatusTimeout, StatusSkipped]" by code_simp
  obtain t' ds' where st: "trend_step p (t, ds) = (t', ds')" by fastforce
  have e: "fold trend_step (p # points) (t, ds)
      = (t'\<lparr>tr_Success := tr_Success t' + count_if (\<lambda>p. rp_Status p = StatusSuccess) points,
        tr_Failed := tr_Failed t' + count_if (\<lambda>p. rp_Status p = StatusFailed) points,
        tr_Timeout := tr_Timeout t' + count_if (\<lambda>p. rp_Status p = StatusTimeout) points,
        tr_Skipped := tr_Skipped t' + count_if (\<lambda>p. rp_Status p = StatusSkipped) points\<rparr>,
      ds' @ filter (\<lambda>n. n > 0) (map rp_DurationMs points))" by (simp add: st Cons)
  show ?case unfolding e using st d unfolding trend_step_def count_if_def by (auto split: if_splits)
qed

lemma rank_le: "sorted ds \<Longrightarrow> k < length ds \<Longrightarrow> k + 1 \<le> length (filter (\<lambda>x. x \<le> ds ! k) ds)"
proof -
  assume s: "sorted ds" and k: "k < length ds"
  have "set (take (k + 1) ds) \<subseteq> {x. x \<le> ds ! k}"
    using s k by (auto simp: in_set_conv_nth sorted_iff_nth_mono)
  then have "filter (\<lambda>x. x \<le> ds ! k) (take (k + 1) ds) = take (k + 1) ds" by (auto simp: filter_id_conv)
  moreover have "length (filter (\<lambda>x. x \<le> ds ! k) (take (k + 1) ds)) \<le> length (filter (\<lambda>x. x \<le> ds ! k) ds)"
    by (metis append_take_drop_id filter_append le_add1 length_append)
  ultimately show ?thesis using k by simp
qed

lemma rank_less: "sorted ds \<Longrightarrow> k < length ds \<Longrightarrow> length (filter (\<lambda>x. x < ds ! k) ds) \<le> k"
proof -
  assume s: "sorted ds" and k: "k < length ds"
  have "\<forall>x \<in> set (drop k ds). \<not> x < ds ! k" using s k by (auto simp: in_set_conv_nth not_less sorted_iff_nth_mono)
  then have "filter (\<lambda>x. x < ds ! k) (drop k ds) = []" by (auto simp: filter_empty_conv)
  then have "filter (\<lambda>x. x < ds ! k) ds = filter (\<lambda>x. x < ds ! k) (take k ds)"
    by (metis append_Nil2 append_take_drop_id filter_append)
  then show ?thesis using k by (metis length_filter_le length_take min.absorb4 min.commute)
qed

lemma count_filter_sort: "length (filter P (sort ds)) = length (filter P ds)"
  by (metis filter_sort length_sort)

lemma trend_facts:
  fixes points :: "RunPoint list"
  defines "ds \<equiv> filter (\<lambda>n. n > 0) (map rp_DurationMs points)" and "t \<equiv> trend_of points"
  shows "tr_Points t = points \<and> tr_Total t = int (length points)
    \<and> tr_Success t = count_if (\<lambda>p. rp_Status p = StatusSuccess) points \<and> tr_Failed t = count_if (\<lambda>p. rp_Status p = StatusFailed) points
    \<and> tr_Timeout t = count_if (\<lambda>p. rp_Status p = StatusTimeout) points \<and> tr_Skipped t = count_if (\<lambda>p. rp_Status p = StatusSkipped) points
    \<and> (if points = [] then tr_SuccessRate t = -1 else 0 \<le> tr_SuccessRate t \<and> tr_SuccessRate t \<le> 100)
    \<and> (if ds = [] then tr_MaxMs t = 0 \<and> tr_P95Ms t = 0 \<and> tr_AvgMs t = 0
       else tr_MaxMs t = Max (set ds) \<and> 0 \<le> tr_AvgMs t \<and> tr_AvgMs t \<le> tr_MaxMs t \<and> tr_P95Ms t \<in> set ds
         \<and> 95 * length ds \<le> 100 * length (filter (\<lambda>n. n \<le> tr_P95Ms t) ds)
         \<and> 100 * length (filter (\<lambda>n. n < tr_P95Ms t) ds) < 95 * length ds)"
proof -
  define c where "c s = count_if (\<lambda>p. rp_Status p = s) points" for s
  define u where "u = \<lparr>tr_Points = points, tr_Total = int (length points), tr_Success = c StatusSuccess, tr_Failed = c StatusFailed,
      tr_Timeout = c StatusTimeout, tr_Skipped = c StatusSkipped, tr_AvgMs = 0, tr_P95Ms = 0, tr_MaxMs = 0,
      tr_SuccessRate = (if points = [] then -1 else quot (c StatusSuccess * 100) (int (length points)))\<rparr>"
  let ?s = "sort ds" and ?n = "int (length ds)"
  have t: "t = (if ds = [] then u else u\<lparr>tr_AvgMs := quot (sum_list ?s) ?n, tr_MaxMs := ?s ! (length ?s - 1),
             tr_P95Ms := ?s ! nat ((?n * 95 + 99) div 100 - 1)\<rparr>)"
    unfolding t_def trend_of_def Let_def trend_fold by (simp add: u_def c_def ds_def [symmetric] del: sort_key_simps)
  have c: "0 \<le> c s" "c s \<le> int (length points)" for s by (simp_all add: c_def count_if_def)
  have rate: "if points = [] then tr_SuccessRate u = -1 else 0 \<le> tr_SuccessRate u \<and> tr_SuccessRate u \<le> 100"
  proof (cases "points = []")
    case False
    then have n: "0 < int (length points)" by simp
    have "c StatusSuccess * 100 div int (length points) \<le> int (length points) * 100 div int (length points)"
      using c(2) n by (intro zdiv_mono1) simp_all
    also have "\<dots> = 100" using n by simp
    finally show ?thesis using False c(1) [of StatusSuccess] n by (simp add: u_def quot_def pos_imp_zdiv_nonneg_iff)
  qed (simp add: u_def)
  show ?thesis
  proof (cases "ds = []")
    case True
    then have "t = u" by (simp add: t)
    then show ?thesis using True rate by (cases "points = []") (simp_all add: u_def c_def)
  next
    case False
    then have n: "0 < length ds" by simp
    define k where "k = nat ((?n * 95 + 99) div 100 - 1)"
    define q where "q = (?n * 95 + 99) div 100"
    have q: "100 * q \<le> ?n * 95 + 99" "?n * 95 + 99 < 100 * q + 100" unfolding q_def by linarith+
    then have "1 \<le> q" using n by linarith
    then have kq: "int k = q - 1" by (simp add: k_def q_def)
    have "int (95 * length ds) \<le> int (100 * (k + 1))" "int (100 * k) < int (95 * length ds)"
      unfolding of_nat_mult of_nat_add kq using q by simp_all
    then have k: "95 * length ds \<le> 100 * (k + 1)" "100 * k < 95 * length ds" "k < length ds" by linarith+
    have pos: "\<forall>x \<in> set ds. 0 < x" by (simp add: ds_def)
    have srt: "sorted ?s" "length ?s = length ds" "set ?s = set ds" by simp_all
    have mx: "?s ! (length ?s - 1) = Max (set ds)"
    proof (rule Max_eqI [symmetric])
      show "?s ! (length ?s - 1) \<in> set ds" using n srt by (metis diff_less nth_mem zero_less_one)
      fix y assume "y \<in> set ds"
      then obtain i where "i < length ?s" "y = ?s ! i" using srt by (metis in_set_conv_nth)
      then show "y \<le> ?s ! (length ?s - 1)" using srt(1) by (simp add: sorted_iff_nth_mono)
    qed simp
    have sum: "sum_list ds \<le> Max (set ds) * ?n" "0 \<le> sum_list ds"
      using pos sum_list_mono [of ds id "\<lambda>_. Max (set ds)"] by (simp_all add: sum_list_triv mult.commute sum_list_nonneg less_imp_le)
    have ss: "sum_list ?s = sum_list ds" by (metis mset_sort sum_mset_sum_list)
    have "sum_list ds div ?n \<le> Max (set ds) * ?n div ?n" using sum(1) n by (intro zdiv_mono1) simp_all
    then have avg: "0 \<le> quot (sum_list ?s) ?n \<and> quot (sum_list ?s) ?n \<le> Max (set ds)"
      using sum(2) ss n by (simp add: quot_def pos_imp_zdiv_nonneg_iff)
    have p: "?s ! k \<in> set ds" using k(3) srt by (metis nth_mem)
    have "95 * length ds \<le> 100 * length (filter (\<lambda>n. n \<le> ?s ! k) ds)" "100 * length (filter (\<lambda>n. n < ?s ! k) ds) < 95 * length ds"
      using rank_le [OF srt(1), of k] rank_less [OF srt(1), of k] k srt(2) by (simp_all add: count_filter_sort)
    with False rate mx avg p show ?thesis by (cases "points = []") (simp_all add: t u_def c_def k_def [symmetric])
  qed
qed

text \<open> C27. The trend describes the runs it draws: its counters count their outcomes, its rate is a percentage, or -1 without
  a run, and over the runs that took time the maximum is theirs, the average lies between zero and it, and
  the 95th percentile is the nearest rank: at least 95 percent of the runs are at or below it, and
  fewer than 95 percent below. \<close>
theorem trend_describes_points:
  "let ds = filter (\<lambda>n. n > 0) (map rp_DurationMs points); t = trend_of points in
    tr_Points t = points \<and> tr_Total t = int (length points)
    \<and> tr_Success t = count_if (\<lambda>p. rp_Status p = StatusSuccess) points \<and> tr_Failed t = count_if (\<lambda>p. rp_Status p = StatusFailed) points
    \<and> tr_Timeout t = count_if (\<lambda>p. rp_Status p = StatusTimeout) points \<and> tr_Skipped t = count_if (\<lambda>p. rp_Status p = StatusSkipped) points
    \<and> (if points = [] then tr_SuccessRate t = -1 else 0 \<le> tr_SuccessRate t \<and> tr_SuccessRate t \<le> 100)
    \<and> (if ds = [] then tr_MaxMs t = 0 \<and> tr_P95Ms t = 0 \<and> tr_AvgMs t = 0
       else tr_MaxMs t = Max (set ds) \<and> 0 \<le> tr_AvgMs t \<and> tr_AvgMs t \<le> tr_MaxMs t \<and> tr_P95Ms t \<in> set ds
         \<and> 95 * length ds \<le> 100 * length (filter (\<lambda>n. n \<le> tr_P95Ms t) ds)
         \<and> 100 * length (filter (\<lambda>n. n < tr_P95Ms t) ds) < 95 * length ds)"
  unfolding Let_def by (rule trend_facts)

end
