(* ===== verification/Spec2Isabelle.thy ===== *)
theory Spec2Isabelle
  imports CronMeaning CronNext Scope DispatcherMinutes DispatcherProps RunnerProps WatchdogProps Scheduler
    TargetFacts JobTimes LinkProps SyncProps RunService RateProps PoolProps RoleProps ProjectProps AuthProps HostProps
    NotificationProps AppLogProps StatsProps
begin

text \<open>
  Cronsole is a scheduler that keeps its queue in a database table. Once a minute the dispatcher
  opens a pending row for every job due and hands pending rows over; a runner claims a row, sends
  the HTTP request, closes the row and follows the chain links of the job; a watchdog closes what got
  stuck and mails what nothing else reports. Jobs are defined by people and by projects that declare
  them; every operation on a definition goes through one service, which validates it and checks the
  caller's scope.

  The theories, by part of the program (paths are below \<open>src/\<close>):

  \<^item> \<open>Prelude\<close>: the sum type as a result, lists, SQL's update. \<open>GoStrings\<close>, \<open>GoRunes\<close>, \<open>GoTime\<close>, \<open>GoUrl\<close>,
    \<open>Sha256\<close>: what the source uses of Go's standard library: 64 bit integers with their wrap-around,
    \<open>strconv\<close>, UTF-8 and \<open>strings\<close>, calendar arithmetic, \<open>net/url\<close>, the hash of the alert marker.
    Bytes are characters; an instant is nanoseconds since 1970; a location is a function from an
    instant's second to the zone's offset.
  \<^item> \<open>Domain\<close> (\<open>internal/domain\<close>): the records and their methods. \<open>Scope\<close> (\<open>domain/scope.go\<close>, \<open>internal/authz\<close>):
    which projects a caller reaches.
  \<^item> \<open>CronExpr\<close>, \<open>CronNext\<close> (\<open>pkg/cronexpr\<close>): parsing, matching, the search for the next firings.
    \<open>CronFacts\<close> and \<open>CronMeaning\<close> give expressions a meaning and show that parsing finds it.
  \<^item> \<open>Effects\<close>: stateful code in the library's state monad, loops, the two ways to state what a program
    does. \<open>Store\<close> (\<open>repository/exec_repo.go\<close>, \<open>cronsole.sql\<close>), \<open>JobStore\<close> (\<open>job_repo.go\<close>), \<open>RunStore\<close>
    (\<open>run_repo.go\<close>): tables as lists of rows, one function per statement, with what the schema refuses.
    A world is the tables together with what happens around the process: before each statement other
    processes may change the tables, and the statement may fail before or after taking effect.
    \<open>StoreFacts\<close>: every statement keeps the table of runs well formed. \<open>Demo\<close>: a sample database.
  \<^item> \<open>Dispatcher\<close> (\<open>service/dispatcher.go\<close>) with \<open>DispatcherFacts\<close>, \<open>DispatcherMinutes\<close>, \<open>DispatcherProps\<close>;
    \<open>Headers\<close>, \<open>Runner\<close> (\<open>service/runner.go\<close>, \<open>notifier.go\<close>) with \<open>RunnerFacts\<close>, \<open>RunnerProps\<close>; \<open>Watchdog\<close>
    (\<open>service/watchdog.go\<close>) with \<open>WatchdogMarker\<close>, \<open>WatchdogFacts\<close>, \<open>WatchdogProps\<close>.
  \<^item> \<open>Scheduler\<close>: the queue as a transition system: any number of processes, one statement at a time in
    any order; its invariant, and the refinement of the abstract life of a run.
  \<^item> \<open>Target\<close> (\<open>service/target.go\<close>) with \<open>TargetFacts\<close>; \<open>ServiceErrors\<close> (\<open>service/errors.go\<close>); \<open>JobService\<close>
    (\<open>service/job_service.go\<close>) with \<open>JobProps\<close>, \<open>LinkProps\<close>, \<open>JobTimes\<close>; \<open>TenantStore\<close> and \<open>TenantProps\<close>:
    the contract that keeps a caller inside its scope; \<open>SyncService\<close> (\<open>service/sync_service.go\<close>) with
    \<open>SyncProps\<close>; \<open>RunService\<close> (\<open>service/run_service.go\<close>).
  \<^item> \<open>Roles\<close> (\<open>authz/roles.go\<close>, \<open>catalog.go\<close>), \<open>AuthzRepo\<close> (\<open>repository/authz_repo.go\<close>) and \<open>AccountStore\<close>
    (\<open>user_repo.go\<close>, \<open>password_reset_repo.go\<close>): the statements over the tables of roles and accounts;
    \<open>MemberService\<close> (\<open>service/member_service.go\<close>) with \<open>MemberFacts\<close>, \<open>MemberProps\<close> and \<open>RoleProps\<close>.
  \<^item> \<open>ProjectStore\<close> (\<open>repository/project_repo.go\<close>), \<open>ProjectService\<close> (\<open>service/project_service.go\<close>) with
    \<open>ProjectProps\<close>: projects and their API keys; \<open>Token\<close> (\<open>pkg/token/token.go\<close>) and \<open>AuthService\<close>
    (\<open>service/auth_service.go\<close>, \<open>pkg/auth\<close>) with \<open>AuthProps\<close>: accounts, sessions, passwords, reset links.
  \<^item> \<open>Notifications\<close> (\<open>service/notification_service.go\<close>, \<open>repository/notification_repo.go\<close>) with
    \<open>NotificationProps\<close>: recipients of alerts; \<open>HostRoutes\<close> (\<open>service/host_override_service.go\<close>,
    \<open>repository/host_override_repo.go\<close>) with \<open>HostProps\<close>: where the dialer connects to; \<open>Stats\<close>
    (\<open>service/stats_service.go\<close>, \<open>repository/stats_repo.go\<close>) with \<open>StatsProps\<close>: the dashboard.
  \<^item> \<open>AppLog\<close> (\<open>internal/applog\<close>) with \<open>AppLogProps\<close>: the logger as a transition system of its goroutines.
  \<^item> \<open>RateLimit\<close> (\<open>pkg/auth/ratelimit.go\<close>) with \<open>RateProps\<close>; \<open>Pool\<close> (\<open>pkg/worker/pool.go\<close>) with \<open>PoolProps\<close>.

  Interfaces. A Go interface is a record of calls the definitions take as an argument, with an instance
  made of the statements of the store. The laws a client rests on are locales: \<open>frame\<close> (\<open>Effects\<close>,
  relations that compose along a program), \<open>watchdog_repo\<close> (\<open>WatchdogFacts\<close>, one statement per call),
  \<open>tenant_store\<close> (\<open>TenantStore\<close>, a call on a job touches that job only); each is interpreted on the model's
  own definitions. What is not under \<open>src/\<close> is an argument: the answers of HTTP targets, the permission
  engine, mail delivery, clocks.

  What is shown. A tick queues exactly the jobs due, once per minute, and hands over exactly what is
  due within the cap; over any interleaving of any processes no run is won twice and its life only goes
  forward; a claimed run is closed whatever happens; the chain opens one row per matching link; a sweep
  closes exactly the stuck runs and reports every failure; parsing accepts the documented grammar with
  its meaning, and the search finds the first firing; no call leaves its caller's scope; no target leaves
  its project's host; nobody rises by granting or revoking roles;
  a mailed link sets one password, and signing out ends every session opened before; no stored route sends
  the dialer to a private address where those are forbidden; the dashboard counts the caller's projects only;
  the logger never panics and loses no entry unseen; a definition that passes validation fits the schema; a declaration accounts for
  every job it names. Where the code falls short of its documentation a theorem shows by how much: the
  overflow of a step, 29 February, the clock gap, results the database refuses, late results, full error
  texts, schedules an update does not mention, cycles longer than the depth of the guard, and runs that
  have been stuck for so long that their duration no longer fits its column.

  Bounds. Loops whose length the data gives are recursion on it; the search over days has its own bound,
  a year of days, as in the source; \<open>decode_rune\<close> and \<open>runes\<close> consume at least a byte a step; digits of a
  64 bit integer are at most nineteen; an IPv6 address has at most eight fields. None of them cuts a
  computation short.

  Not modelled: the HTTP layer (handlers, router, middleware, templates), configuration, translations,
  mail, metrics, logs, host and container information and the commands, which connect the parts above to
  the outside; the in-memory repositories the tests use. Letters beyond ASCII keep their case. The sort of a declaration's outcomes is taken to be stable, timestamps keep their
  nanoseconds, and the database compares text byte by byte.
\<close>

end
